(* ===== verification/Prelude.thy ===== *)
theory Prelude
  imports Complex_Main "HOL-Library.Word"
begin

text \<open>
  Shared vocabulary of the development: machine integers, Rust strings as UTF-8 byte lists
  with the operations of \<open>str\<close> that the program uses, JSON values as
  \<open>serde_json::Value\<close> has them, and the lemma collections the component proofs share.

  A Rust \<open>String\<close> is a list of bytes, and Isabelle's \<open>char\<close> is a byte.  Every
  operation below works on bytes and agrees with the Rust operation on valid UTF-8: a match
  of a valid pattern in a valid text starts and ends on character boundaries.
\<close>

section \<open>Collections\<close>

named_theorems str_simps \<open>equations of the string operations\<close>
named_theorems json_simps \<open>equations of the JSON accessors\<close>

section \<open>Machine integers and time\<close>

type_synonym u32 = "32 word"
type_synonym u64 = "64 word"
type_synonym i32 = "32 word"

text \<open>
  \<open>Instant\<close> and \<open>Duration\<close>: a number of milliseconds on the monotonic clock.
\<close>

type_synonym instant = nat
type_synonym duration = nat

text \<open>An \<open>f64\<close> is its IEEE bit pattern; the arithmetic is the argument \<open>float_ops\<close>.\<close>

type_synonym f64 = "64 word"

record float_ops =
  f_of_rat :: "rat \<Rightarrow> f64"
  f_of_u64 :: "u64 \<Rightarrow> f64"
  f_of_i64 :: "u64 \<Rightarrow> f64"
  f_add :: "f64 \<Rightarrow> f64 \<Rightarrow> f64"
  f_mul :: "f64 \<Rightarrow> f64 \<Rightarrow> f64"
  f_div :: "f64 \<Rightarrow> f64 \<Rightarrow> f64"

section \<open>Strings\<close>

definition starts_with :: "string \<Rightarrow> string \<Rightarrow> bool" where
  "starts_with s p \<longleftrightarrow> take (length p) s = p"

definition ends_with :: "string \<Rightarrow> string \<Rightarrow> bool" where
  "ends_with s p \<longleftrightarrow> starts_with (rev s) (rev p)"

definition strip_prefix :: "string \<Rightarrow> string \<Rightarrow> string option" where
  "strip_prefix s p = (if starts_with s p then Some (drop (length p) s) else None)"

definition strip_suffix :: "string \<Rightarrow> string \<Rightarrow> string option" where
  "strip_suffix s p = (if ends_with s p then Some (take (length s - length p) s) else None)"

text \<open>\<open>str::find\<close>: the byte index of the first match.\<close>

fun str_find :: "string \<Rightarrow> string \<Rightarrow> nat option" where
  "str_find [] p = (if p = [] then Some 0 else None)"
| "str_find (c # s) p =
     (if starts_with (c # s) p then Some 0 else map_option Suc (str_find s p))"

definition str_contains :: "string \<Rightarrow> string \<Rightarrow> bool" where
  "str_contains s p \<longleftrightarrow> str_find s p \<noteq> None"

text \<open>The UTF-8 encodings of the characters with the \<open>White_Space\<close> property.\<close>

definition ws_seqs :: "string list" where
  "ws_seqs =
     [[CHR 0x20], [CHR 0x09], [CHR 0x0A], [CHR 0x0B], [CHR 0x0C], [CHR 0x0D],
      [CHR 0xC2, CHR 0x85], [CHR 0xC2, CHR 0xA0],
      [CHR 0xE1, CHR 0x9A, CHR 0x80],
      [CHR 0xE2, CHR 0x80, CHR 0x80], [CHR 0xE2, CHR 0x80, CHR 0x81],
      [CHR 0xE2, CHR 0x80, CHR 0x82], [CHR 0xE2, CHR 0x80, CHR 0x83],
      [CHR 0xE2, CHR 0x80, CHR 0x84], [CHR 0xE2, CHR 0x80, CHR 0x85],
      [CHR 0xE2, CHR 0x80, CHR 0x86], [CHR 0xE2, CHR 0x80, CHR 0x87],
      [CHR 0xE2, CHR 0x80, CHR 0x88], [CHR 0xE2, CHR 0x80, CHR 0x89],
      [CHR 0xE2, CHR 0x80, CHR 0x8A], [CHR 0xE2, CHR 0x80, CHR 0xA8],
      [CHR 0xE2, CHR 0x80, CHR 0xA9], [CHR 0xE2, CHR 0x80, CHR 0xAF],
      [CHR 0xE2, CHR 0x81, CHR 0x9F], [CHR 0xE3, CHR 0x80, CHR 0x80]]"

function strip_seqs :: "string list \<Rightarrow> string \<Rightarrow> string" where
  "strip_seqs ws s =
     (case find (\<lambda>w. w \<noteq> [] \<and> starts_with s w) ws of
        None \<Rightarrow> s
      | Some w \<Rightarrow> strip_seqs ws (drop (length w) s))"
  by pat_completeness auto
termination
proof (relation "measure (\<lambda>(ws, s). length s)")
  show "wf (measure (\<lambda>(ws :: string list, s :: string). length s))" by simp
next
  fix ws :: "string list" and s w
  assume "find (\<lambda>w. w \<noteq> [] \<and> starts_with s w) ws = Some w"
  then have "w \<noteq> []" and "starts_with s w" by (auto simp: find_Some_iff)
  moreover from this have "s \<noteq> []" by (auto simp: starts_with_def)
  ultimately show "((ws, drop (length w) s), (ws, s)) \<in> measure (\<lambda>(ws, s). length s)"
    by simp
qed

declare strip_seqs.simps [simp del]

definition trim_start :: "string \<Rightarrow> string" where
  "trim_start s = strip_seqs ws_seqs s"

definition trim_end :: "string \<Rightarrow> string" where
  "trim_end s = rev (strip_seqs (map rev ws_seqs) (rev s))"

definition str_trim :: "string \<Rightarrow> string" where
  "str_trim s = trim_end (trim_start s)"

text \<open>Character boundaries: a continuation byte is \<open>0x80\<close> to \<open>0xBF\<close>.\<close>

definition is_cont :: "char \<Rightarrow> bool" where
  "is_cont b \<longleftrightarrow> (let n = (of_char b :: nat) in 128 \<le> n \<and> n < 192)"

definition is_char_boundary :: "string \<Rightarrow> nat \<Rightarrow> bool" where
  "is_char_boundary s i \<longleftrightarrow>
     (if i = 0 then True else if i < length s then \<not> is_cont (s ! i) else i = length s)"

text \<open>\<open>&s[a..b]\<close>: slicing panics (\<open>None\<close>) off a boundary or out of range.\<close>

definition str_slice :: "string \<Rightarrow> nat \<Rightarrow> nat \<Rightarrow> string option" where
  "str_slice s a b =
     (if a \<le> b \<and> b \<le> length s \<and> is_char_boundary s a \<and> is_char_boundary s b
      then Some (take (b - a) (drop a s)) else None)"

text \<open>\<open>str::chars\<close>, each character as its UTF-8 bytes.\<close>

function utf8_chars :: "string \<Rightarrow> string list" where
  "utf8_chars [] = []"
| "utf8_chars (b # bs) = (b # takeWhile is_cont bs) # utf8_chars (dropWhile is_cont bs)"
  by pat_completeness auto
termination
  by (relation "measure length") (auto simp: le_imp_less_Suc length_dropWhile_le)

text \<open>\<open>Display\<close> for unsigned integers.\<close>

definition digit_char :: "nat \<Rightarrow> char" where
  "digit_char d = char_of (48 + d)"

fun show_nat :: "nat \<Rightarrow> string" where
  "show_nat n =
     (if n < 10 then [digit_char n] else show_nat (n div 10) @ [digit_char (n mod 10)])"

declare show_nat.simps [simp del]

definition show_i32 :: "i32 \<Rightarrow> string" where
  "show_i32 n = (if sint n < 0 then ''-'' @ show_nat (nat (- sint n)) else show_nat (nat (sint n)))"

text \<open>Decimal numbers have no dash and determine their number.\<close>

lemma show_nat_digits: "set (show_nat n) \<subseteq> digit_char ` {..<10}"
proof (induction n rule: less_induct)
  case (less n)
  show ?case
  proof (cases "n < 10")
    case True
    then show ?thesis by (simp add: show_nat.simps)
  next
    case False
    then have "set (show_nat n) = set (show_nat (n div 10)) \<union> {digit_char (n mod 10)}"
      by (subst show_nat.simps) auto
    with less [of "n div 10"] False show ?thesis by auto
  qed
qed

lemma digit_char_inj: "m < 10 \<Longrightarrow> n < 10 \<Longrightarrow> digit_char m = digit_char n \<Longrightarrow> m = n"
  using arg_cong [of "digit_char m" "digit_char n" "of_char :: char \<Rightarrow> nat"]
  by (simp add: digit_char_def)

lemma show_nat_inj: "show_nat m = show_nat n \<Longrightarrow> m = n"
proof (induction m arbitrary: n rule: less_induct)
  case (less m)
  have len: "length (show_nat k) = 1 \<longleftrightarrow> k < 10" for k
  proof (cases "k < 10")
    case False
    have "show_nat (k div 10) \<noteq> []" by (subst show_nat.simps) simp
    with False show ?thesis by (subst show_nat.simps) simp
  qed (simp add: show_nat.simps)
  show ?case
  proof (cases "m < 10")
    case True
    then have "n < 10" using len [of m] len [of n] less.prems by simp
    with True less.prems digit_char_inj show ?thesis by (simp add: show_nat.simps)
  next
    case False
    then have n: "\<not> n < 10" using len [of m] len [of n] less.prems by simp
    from False n less.prems have "show_nat (m div 10) = show_nat (n div 10)"
      "digit_char (m mod 10) = digit_char (n mod 10)"
      by (subst (asm) (1 2) show_nat.simps, simp)+
    then have "m div 10 = n div 10" "m mod 10 = n mod 10"
      using less.IH [of "m div 10" "n div 10"] False digit_char_inj [of "m mod 10" "n mod 10"] by auto
    then show ?thesis by (metis div_mult_mod_eq)
  qed
qed

lemma split_unique:
  "xs @ c # ys = xs' @ c # ys' \<Longrightarrow> c \<notin> set xs \<Longrightarrow> c \<notin> set xs' \<Longrightarrow> xs = xs' \<and> ys = ys'"
proof (induction xs arbitrary: xs')
  case Nil
  then show ?case by (cases xs') auto
next
  case (Cons x xs)
  then show ?case by (cases xs') auto
qed

lemma dash_not_digit: "CHR ''-'' \<notin> set (show_nat n)"
proof -
  have "digit_char d \<noteq> CHR ''-''" if "d < 10" for d
    using that by (auto simp: digit_char_def dest: arg_cong [where f = "of_char :: char \<Rightarrow> nat"])
  then show ?thesis using show_nat_digits [of n] by fastforce
qed

text \<open>\<open>slice::join\<close>.\<close>

fun str_join :: "string \<Rightarrow> string list \<Rightarrow> string" where
  "str_join sep [] = []"
| "str_join sep [x] = x"
| "str_join sep (x # y # ys) = x @ sep @ str_join sep (y # ys)"

text \<open>\<open>str::lines\<close>: split at line feeds, a carriage return before one is dropped.\<close>

fun lines_aux :: "string \<Rightarrow> string \<Rightarrow> string list" where
  "lines_aux acc [] = (if acc = [] then [] else [rev acc])"
| "lines_aux acc (c # cs) =
     (if c = CHR 0x0A
      then (case acc of
              [] \<Rightarrow> []
            | d # ds \<Rightarrow> if d = CHR 0x0D then rev ds else rev acc) # lines_aux [] cs
      else lines_aux (c # acc) cs)"

definition str_lines :: "string \<Rightarrow> string list" where
  "str_lines s = lines_aux [] s"

subsection \<open>Laws of the string operations\<close>

lemma starts_with_refl [simp]: "starts_with s s"
  by (simp add: starts_with_def)

lemma starts_with_Nil [simp]: "starts_with s []"
  by (simp add: starts_with_def)

lemma starts_with_append [simp]: "starts_with (p @ s) p"
  by (simp add: starts_with_def)

lemma starts_with_Cons [simp]:
  "starts_with (c # s) (d # p) \<longleftrightarrow> c = d \<and> starts_with s p"
  "\<not> starts_with [] (d # p)"
  by (auto simp: starts_with_def)

lemma starts_with_iff: "starts_with s p \<longleftrightarrow> (\<exists>t. s = p @ t)"
  by (metis append_take_drop_id starts_with_append starts_with_def)

lemma ends_with_iff: "ends_with s p \<longleftrightarrow> (\<exists>t. s = t @ p)"
  by (auto simp: ends_with_def starts_with_iff) (metis rev_append rev_rev_ident)

lemma strip_prefix_append [simp]: "strip_prefix (p @ s) p = Some s"
  by (simp add: strip_prefix_def)

lemma strip_suffix_append [simp]: "strip_suffix (s @ p) p = Some s"
  by (auto simp: strip_suffix_def ends_with_iff)

lemma str_find_Some:
  "str_find s p = Some i \<Longrightarrow> \<exists>a b. s = a @ p @ b \<and> length a = i"
proof (induction s arbitrary: i)
  case Nil
  then show ?case by (auto split: if_splits)
next
  case (Cons c s)
  show ?case
  proof (cases "starts_with (c # s) p")
    case True
    with Cons.prems show ?thesis by (auto simp: starts_with_iff)
  next
    case False
    with Cons.prems obtain j where "str_find s p = Some j" "i = Suc j" by auto
    with Cons.IH obtain a b where "s = a @ p @ b" "length a = j" by blast
    then have "c # s = (c # a) @ p @ b \<and> length (c # a) = i" using \<open>i = Suc j\<close> by simp
    then show ?thesis by blast
  qed
qed

lemma str_find_prefix [simp]: "str_find (p @ s) p = Some 0"
proof (cases "p @ s")
  case Nil
  then show ?thesis by simp
next
  case (Cons c t)
  then have "starts_with (c # t) p" by (metis starts_with_append)
  with Cons show ?thesis by simp
qed

lemma str_find_None:
  "str_find s p = None \<longleftrightarrow> \<not> (\<exists>a b. s = a @ p @ b)"
proof
  assume "str_find s p = None"
  then show "\<not> (\<exists>a b. s = a @ p @ b)"
  proof (induction s)
    case Nil
    then show ?case by (auto split: if_splits)
  next
    case (Cons c s)
    then have ns: "\<not> starts_with (c # s) p" and ih: "\<not> (\<exists>a b. s = a @ p @ b)"
      by (auto split: if_splits)
    show ?case
    proof
      assume "\<exists>a b. c # s = a @ p @ b"
      then obtain a b where e: "c # s = a @ p @ b" by blast
      show False
      proof (cases a)
        case Nil
        with e ns show False by (auto simp: starts_with_iff)
      next
        case (Cons x xs)
        with e ih show False by auto
      qed
    qed
  qed
next
  assume "\<not> (\<exists>a b. s = a @ p @ b)"
  then show "str_find s p = None"
    using str_find_Some by (cases "str_find s p") blast+
qed

lemma str_contains_iff: "str_contains s p \<longleftrightarrow> (\<exists>a b. s = a @ p @ b)"
  by (simp add: str_contains_def str_find_None)

lemma length_strip_seqs: "length (strip_seqs ws s) \<le> length s"
proof (induction ws s rule: strip_seqs.induct)
  case (1 ws s)
  then show ?case by (subst strip_seqs.simps) (auto split: option.splits intro: le_trans)
qed

lemma length_trim: "length (str_trim s) \<le> length s"
  by (metis length_rev length_strip_seqs le_trans str_trim_def trim_end_def trim_start_def)

lemma str_trim_Nil [simp]: "str_trim [] = []"
  by code_simp

lemma strip_seqs_id: "(\<And>w. w \<in> set ws \<Longrightarrow> w = [] \<or> \<not> starts_with s w) \<Longrightarrow> strip_seqs ws s = s"
proof -
  assume "\<And>w. w \<in> set ws \<Longrightarrow> w = [] \<or> \<not> starts_with s w"
  then have "find (\<lambda>w. w \<noteq> [] \<and> starts_with s w) ws = None" by (auto simp: find_None_iff)
  then show ?thesis by (subst strip_seqs.simps) simp
qed

lemma is_char_boundary_0 [simp]: "is_char_boundary s 0"
  by (simp add: is_char_boundary_def)

lemma is_char_boundary_length [simp]: "is_char_boundary s (length s)"
  by (simp add: is_char_boundary_def)

section \<open>JSON values\<close>

text \<open>
  \<open>serde_json::Value\<close>.  A number is a \<open>u64\<close>, a negative \<open>i64\<close> (both as 64-bit words)
  or a double.  An object is an association list with the keys in the order in which the
  source writes them; it stands for the map of its first bindings.
\<close>

datatype jnum = JPos u64 | JNeg u64 | JFlt f64

datatype json =
    JNull
  | JBool bool
  | JNum jnum
  | JStr string
  | JArr "json list"
  | JObj "(string \<times> json) list"

fun j_get :: "json \<Rightarrow> string \<Rightarrow> json option" where
  "j_get (JObj kvs) k = map_of kvs k"
| "j_get _ k = None"

fun as_str :: "json \<Rightarrow> string option" where
  "as_str (JStr s) = Some s"
| "as_str _ = None"

fun as_bool :: "json \<Rightarrow> bool option" where
  "as_bool (JBool b) = Some b"
| "as_bool _ = None"

fun as_u64 :: "json \<Rightarrow> u64 option" where
  "as_u64 (JNum (JPos n)) = Some n"
| "as_u64 _ = None"

text \<open>\<open>as_i64\<close>: a \<open>u64\<close> above \<open>i64::MAX\<close> has none; the result is the two's complement word.\<close>

fun as_i64 :: "json \<Rightarrow> u64 option" where
  "as_i64 (JNum (JPos n)) = (if unat n < 2 ^ 63 then Some n else None)"
| "as_i64 (JNum (JNeg n)) = Some n"
| "as_i64 _ = None"

fun as_f64 :: "float_ops \<Rightarrow> json \<Rightarrow> f64 option" where
  "as_f64 F (JNum (JPos n)) = Some (f_of_u64 F n)"
| "as_f64 F (JNum (JNeg n)) = Some (f_of_i64 F n)"
| "as_f64 F (JNum (JFlt x)) = Some x"
| "as_f64 F _ = None"

fun as_array :: "json \<Rightarrow> json list option" where
  "as_array (JArr xs) = Some xs"
| "as_array _ = None"

fun as_object :: "json \<Rightarrow> (string \<times> json) list option" where
  "as_object (JObj kvs) = Some kvs"
| "as_object _ = None"

text \<open>The accessor chains \<open>v.get(k).and_then(as_x)\<close> of the source.\<close>

definition get_str :: "json \<Rightarrow> string \<Rightarrow> string option" where
  "get_str v k = Option.bind (j_get v k) as_str"

definition get_u64 :: "json \<Rightarrow> string \<Rightarrow> u64 option" where
  "get_u64 v k = Option.bind (j_get v k) as_u64"

definition get_bool :: "json \<Rightarrow> string \<Rightarrow> bool option" where
  "get_bool v k = Option.bind (j_get v k) as_bool"

definition get_array :: "json \<Rightarrow> string \<Rightarrow> json list option" where
  "get_array v k = Option.bind (j_get v k) as_array"

definition unwrap_or :: "'a option \<Rightarrow> 'a \<Rightarrow> 'a" where
  "unwrap_or x d = (case x of None \<Rightarrow> d | Some y \<Rightarrow> y)"

definition or_else :: "'a option \<Rightarrow> 'a option \<Rightarrow> 'a option" where
  "or_else x y = (case x of None \<Rightarrow> y | Some _ \<Rightarrow> x)"

definition opt_filter :: "('a \<Rightarrow> bool) \<Rightarrow> 'a option \<Rightarrow> 'a option" where
  "opt_filter P x = (case x of None \<Rightarrow> None | Some y \<Rightarrow> if P y then x else None)"

definition opt_json :: "string option \<Rightarrow> json" where
  "opt_json x = (case x of None \<Rightarrow> JNull | Some s \<Rightarrow> JStr s)"

lemma unwrap_or_simps [simp]: "unwrap_or None d = d" "unwrap_or (Some x) d = x"
  by (simp_all add: unwrap_or_def)

lemma or_else_simps [simp]: "or_else None y = y" "or_else (Some x) y = Some x"
  by (simp_all add: or_else_def)

lemma opt_filter_simps [simp]:
  "opt_filter P None = None"
  "opt_filter P (Some x) = (if P x then Some x else None)"
  by (simp_all add: opt_filter_def)

lemma get_JObj [simp, json_simps]:
  "get_str (JObj kvs) k = Option.bind (map_of kvs k) as_str"
  "get_u64 (JObj kvs) k = Option.bind (map_of kvs k) as_u64"
  "get_bool (JObj kvs) k = Option.bind (map_of kvs k) as_bool"
  "get_array (JObj kvs) k = Option.bind (map_of kvs k) as_array"
  by (simp_all add: get_str_def get_u64_def get_bool_def get_array_def)

text \<open>Membership of a boolean-valued test, the \<open>matches!\<close> on an optional field.\<close>

definition is_some_and :: "'a option \<Rightarrow> ('a \<Rightarrow> bool) \<Rightarrow> bool" where
  "is_some_and x P = (case x of None \<Rightarrow> False | Some y \<Rightarrow> P y)"

lemma is_some_and_simps [simp]:
  "\<not> is_some_and None P" "is_some_and (Some x) P = P x"
  by (simp_all add: is_some_and_def)

section \<open>List updates and maps\<close>

text \<open>A \<open>HashMap\<close> as an association list without duplicate keys.\<close>

fun hm_insert :: "'k \<Rightarrow> 'v \<Rightarrow> ('k \<times> 'v) list \<Rightarrow> ('k \<times> 'v) list" where
  "hm_insert k v [] = [(k, v)]"
| "hm_insert k v ((k', v') # m) = (if k = k' then (k, v) # m else (k', v') # hm_insert k v m)"

definition hm_remove :: "'k \<Rightarrow> ('k \<times> 'v) list \<Rightarrow> ('k \<times> 'v) list" where
  "hm_remove k m = filter (\<lambda>(k', _). k' \<noteq> k) m"

lemma hm_insert_lookup [simp]: "map_of (hm_insert k v m) = (map_of m)(k \<mapsto> v)"
  by (induction k v m rule: hm_insert.induct) (auto simp: fun_eq_iff)

lemma hm_insert_keys: "fst ` set (hm_insert k v m) = insert k (fst ` set m)"
  by (induction k v m rule: hm_insert.induct) auto

lemma hm_insert_distinct: "distinct (map fst m) \<Longrightarrow> distinct (map fst (hm_insert k v m))"
proof (induction k v m rule: hm_insert.induct)
  case (2 k v k' v' m)
  have "k' \<in> fst ` set (hm_insert k v m) \<longleftrightarrow> k' = k \<or> k' \<in> fst ` set m"
    by (simp add: hm_insert_keys)
  with 2 show ?case by auto
qed simp

lemma hm_remove_lookup [simp]: "map_of (hm_remove k m) = (map_of m)(k := None)"
  by (induction m) (auto simp: hm_remove_def fun_eq_iff)

lemma hm_remove_distinct: "distinct (map fst m) \<Longrightarrow> distinct (map fst (hm_remove k m))"
  by (induction m) (auto simp: hm_remove_def image_iff)

lemma hm_remove_keys: "fst ` set (hm_remove k m) = fst ` set m - {k}"
  by (force simp: hm_remove_def image_iff)

end
