(* ===== verification/Models.thy ===== *)
theory Models
  imports Prelude
begin

text \<open>
  The data model of \<open>src-tauri/src/models.rs\<close> that the session engine works on: run
  status, run metadata, the event bus, and the attachment limits.
\<close>

section \<open>Run status and identity\<close>

datatype RunStatus = Pending | Running | Idle | Completed | Failed | Stopped

fun status_to_string :: "RunStatus \<Rightarrow> string" where
  "status_to_string Pending = ''pending''"
| "status_to_string Running = ''running''"
| "status_to_string Idle = ''idle''"
| "status_to_string Completed = ''completed''"
| "status_to_string Failed = ''failed''"
| "status_to_string Stopped = ''stopped''"

datatype RunSource = Native | CliImport

record ImportWatermark =
  wm_offset :: u64
  wm_mtime_ns :: nat
  wm_file_size :: u64
  wm_last_uuid :: "string option"

datatype RunEventType = EvSystem | EvStdout | EvStderr | EvCommand | EvUser | EvAssistant

fun event_type_to_string :: "RunEventType \<Rightarrow> string" where
  "event_type_to_string EvSystem = ''system''"
| "event_type_to_string EvStdout = ''stdout''"
| "event_type_to_string EvStderr = ''stderr''"
| "event_type_to_string EvCommand = ''command''"
| "event_type_to_string EvUser = ''user''"
| "event_type_to_string EvAssistant = ''assistant''"

record AttachmentMeta =
  am_name :: string
  am_mime_type :: string
  am_size :: u64

datatype ExecutionPath = SessionActorPath | PipeExec

datatype ConversationRef = ClaudeSession string | CodexThread string

record RemoteHost =
  rh_name :: string
  rh_host :: string
  rh_user :: string
  rh_port :: "16 word"
  rh_key_path :: "string option"
  rh_remote_cwd :: "string option"
  rh_remote_claude_path :: "string option"
  rh_forward_api_key :: bool

record CodexImportedRollout =
  ro_path :: string
  ro_size :: u64
  ro_mtime_ns :: string
  ro_last_event_ts :: "string option"

section \<open>Run metadata\<close>

record RunMeta =
  rm_id :: string
  rm_prompt :: string
  rm_cwd :: string
  rm_agent :: string
  rm_auth_mode :: string
  rm_status :: RunStatus
  rm_started_at :: string
  rm_ended_at :: "string option"
  rm_exit_code :: "i32 option"
  rm_error_message :: "string option"
  rm_session_id :: "string option"
  rm_result_subtype :: "string option"
  rm_model :: "string option"
  rm_parent_run_id :: "string option"
  rm_name :: "string option"
  rm_remote_host_name :: "string option"
  rm_remote_cwd :: "string option"
  rm_remote_host_snapshot :: "RemoteHost option"
  rm_platform_id :: "string option"
  rm_platform_base_url :: "string option"
  rm_source :: "RunSource option"
  rm_cli_import_watermark :: "ImportWatermark option"
  rm_cli_session_path :: "string option"
  rm_cli_usage_incomplete :: "bool option"
  rm_deleted_at :: "string option"
  rm_no_session_persistence :: bool
  rm_execution_path :: "ExecutionPath option"
  rm_conversation_ref :: "ConversationRef option"
  rm_codex_process_seq :: "u32 option"
  rm_codex_imported_rollouts :: "CodexImportedRollout list option"

definition resolved_execution_path :: "RunMeta \<Rightarrow> ExecutionPath" where
  "resolved_execution_path m =
     unwrap_or (rm_execution_path m)
       (if rm_agent m = ''claude'' then SessionActorPath else PipeExec)"

definition resolved_conversation_ref :: "RunMeta \<Rightarrow> ConversationRef option" where
  "resolved_conversation_ref m =
     or_else (rm_conversation_ref m) (map_option ClaudeSession (rm_session_id m))"

record TaskRun =
  tr_id :: string
  tr_prompt :: string
  tr_cwd :: string
  tr_agent :: string
  tr_auth_mode :: string
  tr_status :: RunStatus
  tr_started_at :: string
  tr_ended_at :: "string option"
  tr_exit_code :: "i32 option"
  tr_error_message :: "string option"
  tr_last_activity_at :: "string option"
  tr_message_count :: "u32 option"
  tr_last_message_preview :: "string option"
  tr_session_id :: "string option"
  tr_result_subtype :: "string option"
  tr_model :: "string option"
  tr_parent_run_id :: "string option"
  tr_name :: "string option"
  tr_remote_host_name :: "string option"
  tr_remote_cwd :: "string option"
  tr_platform_id :: "string option"
  tr_platform_base_url :: "string option"
  tr_source :: "RunSource option"
  tr_cli_import_watermark :: "ImportWatermark option"
  tr_cli_session_path :: "string option"
  tr_cli_usage_incomplete :: "bool option"
  tr_no_session_persistence :: bool
  tr_execution_path :: ExecutionPath
  tr_conversation_ref :: "ConversationRef option"

definition to_task_run ::
  "RunMeta \<Rightarrow> string option \<Rightarrow> u32 option \<Rightarrow> string option \<Rightarrow> TaskRun" where
  "to_task_run m last_activity_at message_count last_message_preview =
     \<lparr> tr_id = rm_id m, tr_prompt = rm_prompt m, tr_cwd = rm_cwd m, tr_agent = rm_agent m,
       tr_auth_mode = rm_auth_mode m, tr_status = rm_status m,
       tr_started_at = rm_started_at m, tr_ended_at = rm_ended_at m,
       tr_exit_code = rm_exit_code m, tr_error_message = rm_error_message m,
       tr_last_activity_at = last_activity_at, tr_message_count = message_count,
       tr_last_message_preview = last_message_preview,
       tr_session_id = rm_session_id m, tr_result_subtype = rm_result_subtype m,
       tr_model = rm_model m, tr_parent_run_id = rm_parent_run_id m, tr_name = rm_name m,
       tr_remote_host_name = rm_remote_host_name m, tr_remote_cwd = rm_remote_cwd m,
       tr_platform_id = rm_platform_id m, tr_platform_base_url = rm_platform_base_url m,
       tr_source = rm_source m, tr_cli_import_watermark = rm_cli_import_watermark m,
       tr_cli_session_path = rm_cli_session_path m,
       tr_cli_usage_incomplete = rm_cli_usage_incomplete m,
       tr_no_session_persistence = rm_no_session_persistence m,
       tr_execution_path = resolved_execution_path m,
       tr_conversation_ref = resolved_conversation_ref m \<rparr>"

section \<open>Attachment limits\<close>

definition MAX_TEXT_SIZE :: u64 where
  "MAX_TEXT_SIZE = 10 * 1024 * 1024"

definition MAX_PDF_BINARY_SIZE :: u64 where
  "MAX_PDF_BINARY_SIZE = 20 * 1024 * 1024"

definition ALLOWED_IMAGE_TYPES :: "string list" where
  "ALLOWED_IMAGE_TYPES = [''image/png'', ''image/jpeg'', ''image/webp'', ''image/gif'']"

definition ALLOWED_DOC_TYPES :: "string list" where
  "ALLOWED_DOC_TYPES = [''application/pdf'']"

definition max_attachment_size :: "string \<Rightarrow> u64" where
  "max_attachment_size mime =
     (if list_ex (\<lambda>t. starts_with mime t) ALLOWED_IMAGE_TYPES then - 1
      else if List.member ALLOWED_DOC_TYPES mime then MAX_PDF_BINARY_SIZE
      else MAX_TEXT_SIZE)"

section \<open>The event bus\<close>

record ModelUsageEntry =
  mu_input_tokens :: u64
  mu_output_tokens :: u64
  mu_cache_read_tokens :: u64
  mu_cache_write_tokens :: u64
  mu_web_search_requests :: u64
  mu_cost_usd :: f64
  mu_context_window :: "u64 option"
  mu_max_output_tokens :: "u64 option"

record McpServerInfo =
  mcp_name :: string
  mcp_status :: string
  mcp_server_type :: "string option"
  mcp_error :: "string option"

datatype RalphCompleteReason = MaxIterations | CompletionPromise | Cancelled | FailStopped

text \<open>The two largest variants of \<open>BusEvent\<close> carry their fields as records.\<close>

record SessionInitData =
  si_session_id :: "string option"
  si_model :: "string option"
  si_tools :: "string list"
  si_cwd :: string
  si_slash_commands :: "json list"
  si_mcp_servers :: "McpServerInfo list"
  si_permission_mode :: "string option"
  si_api_key_source :: "string option"
  si_claude_code_version :: "string option"
  si_output_style :: "string option"
  si_agents :: "string list"
  si_skills :: "string list"
  si_plugins :: "json list"
  si_plugin_errors :: "json list"
  si_fast_mode_state :: "string option"

record UsageData =
  uu_input_tokens :: u64
  uu_output_tokens :: u64
  uu_cache_read_tokens :: "u64 option"
  uu_cache_write_tokens :: "u64 option"
  uu_total_cost_usd :: f64
  uu_turn_index :: "u32 option"
  uu_model_usage :: "(string \<times> ModelUsageEntry) list option"
  uu_duration_api_ms :: "u64 option"
  uu_duration_ms :: "u64 option"
  uu_num_turns :: "u64 option"
  uu_stop_reason :: "string option"
  uu_service_tier :: "string option"
  uu_speed :: "string option"
  uu_web_fetch_requests :: "u64 option"
  uu_cache_creation_5m :: "u64 option"
  uu_cache_creation_1h :: "u64 option"

text \<open>
  Each constructor takes the run id first and then the variant's fields in the order of the
  source.
\<close>

datatype (plugins only: code) BusEvent =
    SessionInit string SessionInitData
  | MessageDelta string string "string option"
  | MessageComplete string string string "string option" "string option" "string option"
      "json option"
  | ToolStart string string string json "string option"
  | ToolEnd string string string json string "u64 option" "string option" "json option"
  | UserMessage string string "string option" "string option" "AttachmentMeta list"
  | RunState string string "i32 option" "string option"
  | UsageUpdate string UsageData
  | Raw string string json
  | PermissionDenied string string string json
  | ThinkingDelta string string "string option"
  | ToolInputDelta string string string "string option"
  | PermissionPrompt string string string string json string "string option" "json list"
  | CompactBoundary string string "u64 option"
  | SystemStatus string "string option" json
  | HookStarted string string string json "string option"
  | HookProgress string string json
  | HookResponse string string string string json "string option" "string option"
      "string option" "i32 option"
  | TaskNotification string string string json
  | FilesPersisted string json json
  | ToolProgress string string "f64 option" json "string option"
  | ToolOutputDelta string string string "string option"
  | GoalUpdate string json
  | CodexHookRun string string string string "string option" "u64 option"
  | CodexMcpStatus string string string "string option"
  | CodexTurnDiff string string string
  | ToolUseSummary string string string "string list" json "string option"
  | AuthStatus string bool "string list" json
  | HookCallback string string string string "string option" json
  | ControlCancelled string string
  | CommandOutput string string
  | ElicitationPrompt string string string string "string option" "string option"
      "string option" "json option"
  | RateLimitEvent string string "f64 option" "string option" "f64 option" json
  | RalphStarted string string u32 "string option" string
  | RalphIteration string u32 u32
  | RalphComplete string RalphCompleteReason u32

fun event_run_id :: "BusEvent \<Rightarrow> string" where
  "event_run_id (SessionInit r _) = r"
| "event_run_id (MessageDelta r _ _) = r"
| "event_run_id (MessageComplete r _ _ _ _ _ _) = r"
| "event_run_id (ToolStart r _ _ _ _) = r"
| "event_run_id (ToolEnd r _ _ _ _ _ _ _) = r"
| "event_run_id (UserMessage r _ _ _ _) = r"
| "event_run_id (RunState r _ _ _) = r"
| "event_run_id (UsageUpdate r _) = r"
| "event_run_id (Raw r _ _) = r"
| "event_run_id (PermissionDenied r _ _ _) = r"
| "event_run_id (ThinkingDelta r _ _) = r"
| "event_run_id (ToolInputDelta r _ _ _) = r"
| "event_run_id (PermissionPrompt r _ _ _ _ _ _ _) = r"
| "event_run_id (CompactBoundary r _ _) = r"
| "event_run_id (SystemStatus r _ _) = r"
| "event_run_id (HookStarted r _ _ _ _) = r"
| "event_run_id (HookProgress r _ _) = r"
| "event_run_id (HookResponse r _ _ _ _ _ _ _ _) = r"
| "event_run_id (TaskNotification r _ _ _) = r"
| "event_run_id (FilesPersisted r _ _) = r"
| "event_run_id (ToolProgress r _ _ _ _) = r"
| "event_run_id (ToolOutputDelta r _ _ _) = r"
| "event_run_id (GoalUpdate r _) = r"
| "event_run_id (CodexHookRun r _ _ _ _ _) = r"
| "event_run_id (CodexMcpStatus r _ _ _) = r"
| "event_run_id (CodexTurnDiff r _ _) = r"
| "event_run_id (ToolUseSummary r _ _ _ _ _) = r"
| "event_run_id (AuthStatus r _ _ _) = r"
| "event_run_id (HookCallback r _ _ _ _ _) = r"
| "event_run_id (ControlCancelled r _) = r"
| "event_run_id (CommandOutput r _) = r"
| "event_run_id (ElicitationPrompt r _ _ _ _ _ _ _) = r"
| "event_run_id (RateLimitEvent r _ _ _ _ _) = r"
| "event_run_id (RalphStarted r _ _ _ _) = r"
| "event_run_id (RalphIteration r _ _) = r"
| "event_run_id (RalphComplete r _ _) = r"

text \<open>The events that the session actor emits itself, and no parser does.\<close>

fun actor_event :: "BusEvent \<Rightarrow> bool" where
  "actor_event (UserMessage _ _ _ _ _) = True"
| "actor_event (RalphStarted _ _ _ _ _) = True"
| "actor_event (RalphIteration _ _ _) = True"
| "actor_event (RalphComplete _ _ _) = True"
| "actor_event _ = False"

text \<open>The run states carried by a list of events, in order.\<close>

definition run_state_of :: "BusEvent \<Rightarrow> string option" where
  "run_state_of e = (case e of RunState _ s _ _ \<Rightarrow> Some s | _ \<Rightarrow> None)"

definition run_states :: "BusEvent list \<Rightarrow> string list" where
  "run_states es = List.map_filter run_state_of es"

lemma run_states_simps [simp]:
  "run_states [] = []"
  "run_states (e # es) =
     (case run_state_of e of None \<Rightarrow> run_states es | Some s \<Rightarrow> s # run_states es)"
  by (simp_all add: run_states_def List.map_filter_def split: option.splits)

lemma run_states_append [simp]: "run_states (es @ fs) = run_states es @ run_states fs"
  by (induction es) (auto split: option.splits)

lemma max_attachment_size_image:
  "t \<in> set ALLOWED_IMAGE_TYPES \<Longrightarrow> starts_with mime t \<Longrightarrow> max_attachment_size mime = - 1"
  by (auto simp: max_attachment_size_def list_ex_iff)

end
