(* ===== verification/TurnEngine.thy ===== *)
theory TurnEngine
  imports Models
begin

text \<open>
  The turn data model, the internal-turn extractor and the gate functions of
  \<open>src-tauri/src/agent/turn_engine.rs\<close>, with the protocol types of
  \<open>agent/session_protocol.rs\<close> that tickets and lines carry.
\<close>

section \<open>Protocol types\<close>

record CodexSkillRef =
  sk_name :: string
  sk_path :: string

record StartupCtx =
  sc_cwd :: string
  sc_resume_thread_id :: "string option"
  sc_model :: "string option"
  sc_model_provider :: "string option"
  sc_approval_policy :: "string option"
  sc_sandbox :: "string option"
  sc_effort :: "string option"
  sc_add_dirs :: "string list"

record CodexTurnOverrides =
  ov_approval_policy :: "string option"
  ov_sandbox :: "string option"
  ov_model :: "string option"
  ov_effort :: "string option"

definition default_overrides :: CodexTurnOverrides where
  "default_overrides =
     \<lparr> ov_approval_policy = None, ov_sandbox = None, ov_model = None, ov_effort = None \<rparr>"

datatype PendingKind = KPermission | KElicitation | KUserInput

record PendingInteractive =
  pi_request_id :: string
  pi_kind :: PendingKind

datatype LifecycleSignal = TurnStarted | TurnCompleted | TurnFailed "string option"

record ParsedLine =
  pl_events :: "BusEvent list"
  pl_interactive :: "PendingInteractive option"
  pl_lifecycle :: "LifecycleSignal option"
  pl_thread_id :: "string option"
  pl_control_response :: "(string \<times> json) option"

section \<open>Turns, tickets and jobs\<close>

datatype UserTurnKind = NormalTurn u32 | SlashTurn string

datatype InternalJobKind = AutoContext

datatype TurnOrigin = OUser UserTurnKind | OInternal InternalJobKind | ORalph

datatype TurnPhase = PhaseActive | PhaseDraining

record ActiveTurn =
  at_turn_seq :: u64
  at_origin :: TurnOrigin
  at_phase :: TurnPhase
  at_started_at :: instant
  at_soft_deadline :: instant
  at_hard_deadline :: instant
  at_turn_index :: u32

record AttachmentData =
  ad_content_base64 :: string
  ad_media_type :: string
  ad_filename :: string

text \<open>The reply channel of a ticket is the number of the command that it answers.\<close>

record UserTurnTicket =
  tk_seq :: u64
  tk_text :: string
  tk_attachments :: "AttachmentData list"
  tk_skills :: "CodexSkillRef list"
  tk_kind :: UserTurnKind
  tk_turn_index :: u32
  tk_reply :: nat

record InternalJob =
  ij_seq :: u64
  ij_kind :: InternalJobKind
  ij_for_auto_ctx_id :: u32
  ij_for_turn_index :: u32

definition is_internal_origin :: "TurnOrigin \<Rightarrow> bool" where
  "is_internal_origin og \<longleftrightarrow> (case og of OInternal _ \<Rightarrow> True | _ \<Rightarrow> False)"

lemma is_internal_origin_simps [simp]:
  "is_internal_origin (OInternal k)" "\<not> is_internal_origin (OUser u)"
  "\<not> is_internal_origin ORalph"
  by (simp_all add: is_internal_origin_def)

section \<open>Extracting the context of an internal turn\<close>

record ContextExtractor =
  ce_run_id :: string
  ce_for_turn_index :: u32
  ce_captured :: bool

definition context_snapshot :: "string \<Rightarrow> ContextExtractor \<Rightarrow> string \<Rightarrow> json" where
  "context_snapshot ts x content =
     JObj [(''runId'', JStr (ce_run_id x)), (''content'', JStr content),
           (''turnIndex'', JNum (JPos (ucast (ce_for_turn_index x)))), (''ts'', JStr ts)]"

text \<open>\<open>on_event\<close>: the new extractor and the realtime payload it emits, if any.\<close>

definition extractor_on_event ::
  "string \<Rightarrow> ContextExtractor \<Rightarrow> BusEvent \<Rightarrow> ContextExtractor \<times> json option" where
  "extractor_on_event ts x ev =
     (case ev of
        CommandOutput _ content \<Rightarrow>
          (x\<lparr>ce_captured := True\<rparr>, Some (context_snapshot ts x content))
      | MessageComplete _ _ txt _ _ _ _ \<Rightarrow>
          (if txt \<noteq> [] \<and> \<not> ce_captured x
           then (x\<lparr>ce_captured := True\<rparr>, Some (context_snapshot ts x txt)) else (x, None))
      | _ \<Rightarrow> (x, None))"

text \<open>\<open>finalize\<close> only logs; it leaves the extractor as it is.\<close>

definition extractor_finalize :: "ContextExtractor \<Rightarrow> bool \<Rightarrow> ContextExtractor" where
  "extractor_finalize x timed_out = x"

section \<open>Gates and deadlines\<close>

definition should_trigger_auto_context :: "u32 \<Rightarrow> u32 option \<Rightarrow> bool" where
  "should_trigger_auto_context auto_ctx_id prev \<longleftrightarrow> prev \<noteq> Some auto_ctx_id"

definition USER_SOFT_TIMEOUT :: duration where "USER_SOFT_TIMEOUT = 300 * 1000"

definition USER_HARD_TIMEOUT :: duration where "USER_HARD_TIMEOUT = 1800 * 1000"

definition INTERNAL_SOFT_TIMEOUT :: duration where "INTERNAL_SOFT_TIMEOUT = 15 * 1000"

definition INTERNAL_HARD_TIMEOUT :: duration where "INTERNAL_HARD_TIMEOUT = 60 * 1000"

definition QUARANTINE_DEADLINE :: duration where "QUARANTINE_DEADLINE = 10 * 1000"

definition TICK_INTERVAL :: duration where "TICK_INTERVAL = 250"

definition apply_activity_reset ::
  "instant \<Rightarrow> bool \<Rightarrow> ActiveTurn option \<Rightarrow> ActiveTurn option \<times> bool" where
  "apply_activity_reset now quarantine active_turn =
     (if quarantine then (active_turn, False)
      else (case active_turn of
              None \<Rightarrow> (None, False)
            | Some t \<Rightarrow>
                if is_internal_origin (at_origin t) then (Some t, False)
                else (Some (t\<lparr>at_hard_deadline := now + USER_HARD_TIMEOUT\<rparr>), True)))"

text \<open>
  The reset keeps everything of a turn but its hard deadline, never starts or ends one, and
  leaves internal turns alone.
\<close>

lemma apply_activity_reset_frame:
  assumes "apply_activity_reset now q a = (a', b)"
  shows "(a' = None \<longleftrightarrow> a = None)"
    and "map_option at_origin a' = map_option at_origin a"
    and "map_option at_phase a' = map_option at_phase a"
    and "map_option at_turn_index a' = map_option at_turn_index a"
    and "map_option at_turn_seq a' = map_option at_turn_seq a"
    and "\<not> b \<Longrightarrow> a' = a"
    and "b \<longleftrightarrow> \<not> q \<and> (\<exists>t. a = Some t \<and> \<not> is_internal_origin (at_origin t))"
  using assms by (auto simp: apply_activity_reset_def split: option.splits if_splits)

lemma apply_activity_reset_extends:
  assumes "apply_activity_reset now False (Some t) = (a', b)" "\<not> is_internal_origin (at_origin t)"
  shows "\<exists>t'. a' = Some t' \<and> at_hard_deadline t' = now + USER_HARD_TIMEOUT \<and> b"
  using assms by (auto simp: apply_activity_reset_def)

end
