(* ===== verification/Pricing.thy ===== *)
theory Pricing
  imports Models
begin

text \<open>
  Model pricing, \<open>src-tauri/src/pricing.rs\<close>.  A price is the decimal the source writes, as a
  rational; \<open>f_of_rat\<close> is the double the compiler makes of it, and all arithmetic goes
  through \<open>float_ops\<close>.
\<close>

record ModelPricing =
  mp_input :: f64
  mp_output :: f64
  mp_cache_read :: f64
  mp_cache_write :: f64

definition pricing_lits :: "float_ops \<Rightarrow> rat \<Rightarrow> rat \<Rightarrow> rat \<Rightarrow> rat \<Rightarrow> ModelPricing" where
  "pricing_lits F i out cr cw =
     \<lparr> mp_input = f_of_rat F i, mp_output = f_of_rat F out,
       mp_cache_read = f_of_rat F cr, mp_cache_write = f_of_rat F cw \<rparr>"

definition claude_pricing :: "float_ops \<Rightarrow> rat \<Rightarrow> rat \<Rightarrow> ModelPricing" where
  "claude_pricing F i out =
     \<lparr> mp_input = f_of_rat F i, mp_output = f_of_rat F out,
       mp_cache_read = f_mul F (f_of_rat F i) (f_of_rat F (1 / 10)),
       mp_cache_write = f_mul F (f_of_rat F i) (f_of_rat F (125 / 100)) \<rparr>"

text \<open>
  The chain of \<open>contains\<close> tests, in the source's order: the patterns of a row (any of them
  matches) and its prices.
\<close>

datatype price_row =
    ClaudeRow "string list" rat rat
  | FullRow "string list" rat rat rat rat

fun row_patterns :: "price_row \<Rightarrow> string list" where
  "row_patterns (ClaudeRow ps _ _) = ps"
| "row_patterns (FullRow ps _ _ _ _) = ps"

fun row_pricing :: "float_ops \<Rightarrow> price_row \<Rightarrow> ModelPricing" where
  "row_pricing F (ClaudeRow _ i out) = claude_pricing F i out"
| "row_pricing F (FullRow _ i out cr cw) = pricing_lits F i out cr cw"

definition anthropic_openai_rows :: "price_row list" where
  "anthropic_openai_rows =
   [ ClaudeRow [''opus-4-0'', ''opus-4-1'', ''opus-4.0'', ''opus-4.1''] 15 75,
     ClaudeRow [''opus''] 5 25,
     ClaudeRow [''haiku''] (80 / 100) 4,
     ClaudeRow [''sonnet''] 3 15,
     ClaudeRow [''gpt-4o''] (25 / 10) 10,
     ClaudeRow [''gpt-4''] 10 30,
     ClaudeRow [''o1'', ''o3''] 15 60,
     FullRow [''gpt-5-codex-mini'', ''gpt-5.1-codex-mini'']
       (25 / 100) 2 (25 / 1000) (25 / 100),
     FullRow [''gpt-5-codex'', ''gpt-5.1-codex'']
       (125 / 100) 10 (125 / 1000) (125 / 100),
     FullRow [''gpt-5.2-codex''] (175 / 100) 14 (175 / 1000) (175 / 100),
     FullRow [''gpt-5.3-codex'', ''gpt-5.3-chat''] (175 / 100) 14 (175 / 1000) (175 / 100),
     FullRow [''gpt-5.4-pro''] 30 180 3 30,
     FullRow [''gpt-5.4-nano''] (20 / 100) (125 / 100) (20 / 1000) (20 / 100),
     FullRow [''gpt-5.4-mini''] (75 / 100) (450 / 100) (75 / 1000) (75 / 100),
     FullRow [''gpt-5.4''] (250 / 100) 15 (25 / 100) (250 / 100),
     FullRow [''gpt-5.2''] (175 / 100) 14 (175 / 1000) (175 / 100),
     FullRow [''gpt-5.1''] (125 / 100) 10 (125 / 1000) (125 / 100),
     FullRow [''gpt-5''] (125 / 100) 10 (125 / 1000) (125 / 100) ]"

definition third_party_rows :: "price_row list" where
  "third_party_rows =
   [ FullRow [''deepseek''] (28 / 100) (42 / 100) (28 / 1000) (28 / 100),
     FullRow [''kimi-k2.5'', ''kimi-k25''] (60 / 100) 3 (10 / 100) (60 / 100),
     FullRow [''kimi''] (60 / 100) (250 / 100) (15 / 100) (60 / 100),
     FullRow [''glm-4.5-flash'', ''glm-4-5-flash''] 0 0 0 0,
     FullRow [''glm-4.5-air'', ''glm-4-5-air''] (20 / 100) (110 / 100) (3 / 100) (20 / 100),
     FullRow [''glm-4.7'', ''glm-4-7'', ''glm''] (60 / 100) (220 / 100) (11 / 100) (60 / 100),
     FullRow [''qwen3-max''] (120 / 100) 6 (12 / 100) (120 / 100),
     FullRow [''qwen3.5-plus'', ''qwen35-plus''] (40 / 100) (240 / 100) (4 / 100) (40 / 100),
     FullRow [''qwen-plus''] (40 / 100) (120 / 100) (4 / 100) (40 / 100),
     FullRow [''qwen-flash'', ''qwen''] (5 / 100) (40 / 100) (5 / 1000) (5 / 100),
     FullRow [''doubao''] (17 / 100) (111 / 100) (34 / 1000) (17 / 100),
     FullRow [''MiniMax-M2.5-highspeed'', ''minimax-m2.5-highspeed'']
       (30 / 100) (240 / 100) (3 / 100) (30 / 100),
     FullRow [''MiniMax'', ''minimax''] (30 / 100) (120 / 100) (3 / 100) (30 / 100),
     FullRow [''mimo''] (10 / 100) (30 / 100) (1 / 100) (10 / 100) ]"

definition row_matches :: "string \<Rightarrow> price_row \<Rightarrow> bool" where
  "row_matches model r \<longleftrightarrow> list_ex (\<lambda>p. str_contains model p) (row_patterns r)"

definition try_get_pricing :: "float_ops \<Rightarrow> string \<Rightarrow> ModelPricing option" where
  "try_get_pricing F model =
     map_option (row_pricing F)
       (find (row_matches model) (anthropic_openai_rows @ third_party_rows))"

definition get_pricing :: "float_ops \<Rightarrow> string \<Rightarrow> ModelPricing" where
  "get_pricing F model = unwrap_or (try_get_pricing F model) (claude_pricing F 3 15)"

definition is_third_party :: "string \<Rightarrow> bool" where
  "is_third_party model \<longleftrightarrow>
     str_contains model ''deepseek'' \<or> str_contains model ''kimi'' \<or> str_contains model ''glm''
     \<or> str_contains model ''qwen'' \<or> str_contains model ''doubao''
     \<or> str_contains model ''minimax'' \<or> str_contains model ''MiniMax''
     \<or> str_contains model ''mimo''"

definition compute_cost ::
  "float_ops \<Rightarrow> ModelPricing \<Rightarrow> u64 \<Rightarrow> u64 \<Rightarrow> u64 \<Rightarrow> u64 \<Rightarrow> f64" where
  "compute_cost F p input_tokens output_tokens cache_read_tokens cache_write_tokens =
     f_div F
       (f_add F
          (f_add F
             (f_add F (f_mul F (f_of_u64 F input_tokens) (mp_input p))
                      (f_mul F (f_of_u64 F output_tokens) (mp_output p)))
             (f_mul F (f_of_u64 F cache_read_tokens) (mp_cache_read p)))
          (f_mul F (f_of_u64 F cache_write_tokens) (mp_cache_write p)))
       (f_of_rat F 1000000)"

definition estimate_cost ::
  "float_ops \<Rightarrow> string \<Rightarrow> u64 \<Rightarrow> u64 \<Rightarrow> u64 \<Rightarrow> u64 \<Rightarrow> f64" where
  "estimate_cost F model i out cr cw = compute_cost F (get_pricing F model) i out cr cw"

definition try_estimate_cost ::
  "float_ops \<Rightarrow> string \<Rightarrow> u64 \<Rightarrow> u64 \<Rightarrow> u64 \<Rightarrow> u64 \<Rightarrow> f64 option" where
  "try_estimate_cost F model i out cr cw =
     map_option (\<lambda>p. compute_cost F p i out cr cw) (try_get_pricing F model)"

section \<open>Every third-party model has a price\<close>

lemma str_contains_trans:
  "str_contains s p \<Longrightarrow> str_contains p q \<Longrightarrow> str_contains s q"
  unfolding str_contains_iff by (metis append.assoc)

lemma third_party_matches:
  "is_third_party model \<Longrightarrow> \<exists>r \<in> set third_party_rows. row_matches model r"
  unfolding is_third_party_def third_party_rows_def row_matches_def by auto

lemma try_get_pricing_third_party:
  assumes "is_third_party model"
  shows "\<exists>p. try_get_pricing F model = Some p"
proof -
  obtain r where "r \<in> set third_party_rows" "row_matches model r"
    using third_party_matches [OF assms] by blast
  then have "find (row_matches model) (anthropic_openai_rows @ third_party_rows) \<noteq> None"
    by (auto simp: find_None_iff)
  then show ?thesis by (auto simp: try_get_pricing_def)
qed

text \<open>The rows are tried in order: a match of an earlier row decides.\<close>

lemma find_append:
  "find P (xs @ ys) = (case find P xs of None \<Rightarrow> find P ys | Some x \<Rightarrow> Some x)"
  by (induction xs) auto

end
