(* ===== verification/ClaudeProtocol.thy ===== *)
theory ClaudeProtocol
  imports TurnEngine Pricing
begin

text \<open>
  The stream-json parser of \<open>src-tauri/src/agent/claude_protocol.rs\<close>: the accumulator
  \<open>ProtocolState\<close> and \<open>map_event\<close>, which turns one JSON line of the CLI into bus events.
  \<open>map_event\<close> is one definition per event type, composed by \<open>map_event\<close> in the order of
  the source's \<open>match\<close>.  \<open>F\<close> is the floating-point arithmetic and \<open>uuid\<close> the value
  \<open>Uuid::new_v4\<close> yields (used for a message without an id).  Log statements are left out.
\<close>

section \<open>State\<close>

definition str_field :: "json \<Rightarrow> string \<Rightarrow> string" where
  "str_field v k = unwrap_or (get_str v k) []"

definition opt_str :: "json \<Rightarrow> string \<Rightarrow> string option" where
  "opt_str v k = get_str v k"

record ParserStats =
  st_unknown_event_count :: u32
  st_parse_warn_count :: u32
  st_invalid_tool_count :: u32
  st_dropped_count :: u32

record ProtocolState =
  ps_emitted_tool_ids :: "(string \<times> string) list"
  ps_input_json_accum :: "(string \<times> string) list"
  ps_last_tool_use_id :: "string option"
  ps_got_result_event :: bool
  ps_result_subtype :: "string option"
  ps_is_resume :: bool
  ps_seen_first_init :: bool
  ps_pending_slash_command :: "string option"
  ps_stats :: ParserStats
  ps_seen_stream_event_envelope :: bool

definition protocol_new :: "bool \<Rightarrow> ProtocolState" where
  "protocol_new is_resume =
     \<lparr> ps_emitted_tool_ids = [], ps_input_json_accum = [], ps_last_tool_use_id = None,
       ps_got_result_event = False, ps_result_subtype = None, ps_is_resume = is_resume,
       ps_seen_first_init = False, ps_pending_slash_command = None,
       ps_stats = \<lparr> st_unknown_event_count = 0, st_parse_warn_count = 0,
                    st_invalid_tool_count = 0, st_dropped_count = 0 \<rparr>,
       ps_seen_stream_event_envelope = False \<rparr>"

definition set_pending_slash_command :: "string option \<Rightarrow> ProtocolState \<Rightarrow> ProtocolState" where
  "set_pending_slash_command cmd ps = ps\<lparr>ps_pending_slash_command := cmd\<rparr>"

definition bump_unknown :: "ProtocolState \<Rightarrow> ProtocolState" where
  "bump_unknown ps =
     ps\<lparr>ps_stats := (ps_stats ps)
          \<lparr>st_unknown_event_count := st_unknown_event_count (ps_stats ps) + 1\<rparr>\<rparr>"

definition bump_dropped :: "ProtocolState \<Rightarrow> ProtocolState" where
  "bump_dropped ps =
     ps\<lparr>ps_stats := (ps_stats ps)\<lparr>st_dropped_count := st_dropped_count (ps_stats ps) + 1\<rparr>\<rparr>"

definition add_parse_warn :: "nat \<Rightarrow> ProtocolState \<Rightarrow> ProtocolState" where
  "add_parse_warn n ps =
     ps\<lparr>ps_stats := (ps_stats ps)
          \<lparr>st_parse_warn_count := st_parse_warn_count (ps_stats ps) + of_nat n\<rparr>\<rparr>"

definition bump_invalid_tool :: "ProtocolState \<Rightarrow> ProtocolState" where
  "bump_invalid_tool ps =
     ps\<lparr>ps_stats := (ps_stats ps)
          \<lparr>st_invalid_tool_count := st_invalid_tool_count (ps_stats ps) + 1\<rparr>\<rparr>"

section \<open>Output validation\<close>

text \<open>\<open>True\<close>: \<open>validate_bus_event\<close> returns a warning and the event is dropped.\<close>

definition event_invalid :: "BusEvent \<Rightarrow> bool" where
  "event_invalid ev \<longleftrightarrow>
     (case ev of
        ToolStart _ tool_use_id _ _ _ \<Rightarrow> tool_use_id = []
      | ToolEnd _ tool_use_id _ _ _ _ _ _ \<Rightarrow> tool_use_id = []
      | ToolInputDelta _ tool_use_id _ _ \<Rightarrow> tool_use_id = []
      | ToolProgress _ tool_use_id _ _ _ \<Rightarrow> tool_use_id = []
      | ToolOutputDelta _ tool_use_id _ _ \<Rightarrow> tool_use_id = []
      | ToolUseSummary _ tool_use_id _ _ _ _ \<Rightarrow> tool_use_id = []
      | _ \<Rightarrow> False)"

section \<open>XML tags and envelopes\<close>

definition extract_xml_tag :: "string \<Rightarrow> string \<Rightarrow> string option" where
  "extract_xml_tag txt tag =
     (let op = ''<'' @ tag @ ''>''; cl = ''</'' @ tag @ ''>'' in
      Option.bind (str_find txt op) (\<lambda>start.
        let rest = drop (start + length op) txt in
        Option.bind (str_find rest cl) (\<lambda>e.
          let val = str_trim (take e rest) in
          if val = [] then None else Some val)))"

definition nonempty_str :: "json option \<Rightarrow> string option" where
  "nonempty_str v = opt_filter (\<lambda>s. s \<noteq> []) (Option.bind v as_str)"

text \<open>The event to map, its parent tool use, and the state (which notes the first envelope).\<close>

definition unwrap_envelope ::
  "json \<Rightarrow> ProtocolState \<Rightarrow> json \<times> string option \<times> ProtocolState" where
  "unwrap_envelope raw ps =
     (if str_field raw ''type'' = ''stream_event'' then
        (case opt_filter (\<lambda>v. is_some_and (get_str v ''type'') (\<lambda>s. s \<noteq> []))
                (j_get raw ''event'') of
           Some inner \<Rightarrow>
             (inner,
              nonempty_str (or_else (j_get inner ''parent_tool_use_id'')
                                    (j_get raw ''parent_tool_use_id'')),
              ps\<lparr>ps_seen_stream_event_envelope := True\<rparr>)
         | None \<Rightarrow> (raw, nonempty_str (j_get raw ''parent_tool_use_id''), ps))
      else (raw, nonempty_str (j_get raw ''parent_tool_use_id''), ps))"

section \<open>System events\<close>

definition string_items :: "json \<Rightarrow> string \<Rightarrow> string list" where
  "string_items raw k = unwrap_or (map_option (List.map_filter as_str) (get_array raw k)) []"

definition tool_item :: "json \<Rightarrow> string option" where
  "tool_item v = or_else (get_str v ''name'') (as_str v)"

definition mcp_item :: "json \<Rightarrow> McpServerInfo option" where
  "mcp_item s =
     map_option (\<lambda>name. \<lparr> mcp_name = name, mcp_status = unwrap_or (get_str s ''status'') ''pending'',
                          mcp_server_type = opt_str s ''type'', mcp_error = opt_str s ''error'' \<rparr>)
       (get_str s ''name'')"

definition session_init_data :: "json \<Rightarrow> SessionInitData" where
  "session_init_data raw =
     \<lparr> si_session_id = get_str raw ''session_id'',
       si_model = get_str raw ''model'',
       si_tools = unwrap_or (map_option (List.map_filter tool_item) (get_array raw ''tools'')) [],
       si_cwd = unwrap_or (get_str raw ''cwd'') [],
       si_slash_commands = unwrap_or (get_array raw ''slash_commands'') [],
       si_mcp_servers =
         unwrap_or (map_option (List.map_filter mcp_item) (get_array raw ''mcp_servers'')) [],
       si_permission_mode = get_str raw ''permissionMode'',
       si_api_key_source = get_str raw ''apiKeySource'',
       si_claude_code_version = get_str raw ''claude_code_version'',
       si_output_style = get_str raw ''output_style'',
       si_agents = string_items raw ''agents'',
       si_skills = string_items raw ''skills'',
       si_plugins = unwrap_or (get_array raw ''plugins'') [],
       si_plugin_errors = unwrap_or (get_array raw ''plugin_errors'') [],
       si_fast_mode_state = get_str raw ''fast_mode_state'' \<rparr>"

definition map_system_init ::
  "string \<Rightarrow> json \<Rightarrow> ProtocolState \<Rightarrow> ProtocolState \<times> BusEvent list" where
  "map_system_init run_id raw ps =
     (let d = session_init_data raw;
          mcp_raw_count = unwrap_or (map_option length (get_array raw ''mcp_servers'')) 0;
          mcp_dropped = mcp_raw_count - length (si_mcp_servers d);
          ps1 = (if mcp_dropped > 0 then add_parse_warn mcp_dropped ps else ps);
          state = (if \<not> ps_seen_first_init ps1 \<and> \<not> ps_is_resume ps1
                   then [RunState run_id ''running'' None None] else [])
      in (ps1\<lparr>ps_seen_first_init := True\<rparr>, SessionInit run_id d # state))"

definition compact_boundary_event :: "string \<Rightarrow> json \<Rightarrow> BusEvent" where
  "compact_boundary_event run_id raw =
     (let metadata = j_get raw ''compact_metadata'' in
      CompactBoundary run_id
        (unwrap_or (Option.bind metadata (\<lambda>m. get_str m ''trigger'')) ''auto'')
        (Option.bind metadata (\<lambda>m. get_u64 m ''pre_tokens'')))"

definition hook_response_event :: "string \<Rightarrow> json \<Rightarrow> BusEvent" where
  "hook_response_event run_id raw =
     HookResponse run_id (unwrap_or (get_str raw ''hook_id'') [])
       (unwrap_or (get_str raw ''hook_event'') []) (unwrap_or (get_str raw ''outcome'') [])
       raw (get_str raw ''hook_name'') (opt_str raw ''stdout'') (opt_str raw ''stderr'')
       (map_option ucast (Option.bind (j_get raw ''exit_code'') as_i64))"

definition map_system ::
  "string \<Rightarrow> json \<Rightarrow> ProtocolState \<Rightarrow> ProtocolState \<times> BusEvent list" where
  "map_system run_id raw ps =
     (let subtype = str_field raw ''subtype'' in
      if subtype = ''init'' then map_system_init run_id raw ps
      else if subtype = ''compact_boundary'' then (ps, [compact_boundary_event run_id raw])
      else if subtype = ''microcompact_boundary'' then
        (ps, [CompactBoundary run_id ''micro_auto'' None])
      else if subtype = ''status'' then (ps, [SystemStatus run_id (opt_str raw ''status'') raw])
      else if subtype = ''hook_started'' then
        (ps, [HookStarted run_id (unwrap_or (get_str raw ''hook_event'') [])
                (unwrap_or (get_str raw ''hook_id'') []) raw (get_str raw ''hook_name'')])
      else if subtype = ''hook_progress'' then
        (ps, [HookProgress run_id (unwrap_or (get_str raw ''hook_id'') []) raw])
      else if subtype = ''hook_response'' then (ps, [hook_response_event run_id raw])
      else if subtype = ''task_notification'' then
        (ps, [TaskNotification run_id (unwrap_or (get_str raw ''task_id'') [])
                (unwrap_or (get_str raw ''status'') []) raw])
      else if subtype = ''files_persisted'' then
        (ps, [FilesPersisted run_id (unwrap_or (j_get raw ''files'') (JArr [])) raw])
      else if subtype = ''auth_status'' then
        (ps, [AuthStatus run_id (unwrap_or (get_bool raw ''isAuthenticating'') False)
                (string_items raw ''output'') raw])
      else if subtype = ''local_command_output'' then
        (let content = unwrap_or (get_str raw ''content'') [] in
         (ps\<lparr>ps_pending_slash_command := None\<rparr>,
          if content \<noteq> [] then [CommandOutput run_id content] else []))
      else if subtype \<noteq> [] then
        (bump_unknown ps, [Raw run_id (''claude_system_'' @ subtype) raw])
      else (ps, []))"

section \<open>Streaming events\<close>

definition map_content_block_start ::
  "string \<Rightarrow> string option \<Rightarrow> json \<Rightarrow> ProtocolState \<Rightarrow> ProtocolState \<times> BusEvent list" where
  "map_content_block_start run_id ptui raw ps =
     (case j_get raw ''content_block'' of
        None \<Rightarrow> (ps, [])
      | Some content_block \<Rightarrow>
          (let block_type = unwrap_or (get_str content_block ''type'') [] in
           if block_type = ''tool_use'' then
             (let tool_use_id = unwrap_or (get_str content_block ''id'') [];
                  tool_name = unwrap_or (get_str content_block ''name'') []
              in if tool_use_id \<noteq> [] then
                   (ps\<lparr>ps_emitted_tool_ids := hm_insert tool_use_id tool_name (ps_emitted_tool_ids ps),
                       ps_input_json_accum := hm_insert tool_use_id [] (ps_input_json_accum ps),
                       ps_last_tool_use_id := Some tool_use_id\<rparr>,
                    [ToolStart run_id tool_use_id tool_name JNull ptui])
                 else (ps, []))
           else if block_type = ''thinking'' then
             (let txt = unwrap_or (get_str content_block ''thinking'') [] in
              (ps, if txt \<noteq> [] then [ThinkingDelta run_id txt ptui] else []))
           else (ps, [])))"

definition accum_push :: "string \<Rightarrow> string \<Rightarrow> (string \<times> string) list \<Rightarrow> (string \<times> string) list" where
  "accum_push i partial m =
     (case map_of m i of None \<Rightarrow> m | Some acc \<Rightarrow> hm_insert i (acc @ partial) m)"

definition map_content_block_delta ::
  "string \<Rightarrow> string option \<Rightarrow> json \<Rightarrow> ProtocolState \<Rightarrow> ProtocolState \<times> BusEvent list" where
  "map_content_block_delta run_id ptui raw ps =
     (case j_get raw ''delta'' of
        None \<Rightarrow> (ps, [])
      | Some delta \<Rightarrow>
          (let delta_type = str_field delta ''type'' in
           if delta_type = ''text_delta'' then
             (case get_str delta ''text'' of
                None \<Rightarrow> (ps, [])
              | Some txt \<Rightarrow> (ps, if txt \<noteq> [] then [MessageDelta run_id txt ptui] else []))
           else if delta_type = ''thinking_delta'' \<or> delta_type = ''thinking'' then
             (let txt = str_field delta ''thinking'' in
              (ps, if txt \<noteq> [] then [ThinkingDelta run_id txt ptui] else []))
           else if delta_type = ''input_json_delta'' then
             (case get_str delta ''partial_json'' of
                None \<Rightarrow> (ps, [])
              | Some partial \<Rightarrow>
                  (case ps_last_tool_use_id ps of
                     None \<Rightarrow> (ps, [])
                   | Some i \<Rightarrow>
                       (ps\<lparr>ps_input_json_accum := accum_push i partial (ps_input_json_accum ps)\<rparr>,
                        if partial \<noteq> [] then [ToolInputDelta run_id i partial ptui] else [])))
           else (ps, [])))"

section \<open>Complete messages\<close>

text \<open>One content block of an assistant message: the state, the event and the text it adds.\<close>

definition assistant_block ::
  "string \<Rightarrow> string option \<Rightarrow> json \<Rightarrow> ProtocolState \<Rightarrow> ProtocolState \<times> BusEvent list \<times> string list"
where
  "assistant_block run_id ptui block ps =
     (let block_type = str_field block ''type'' in
      if block_type = ''text'' then
        (ps, [], case get_str block ''text'' of None \<Rightarrow> [] | Some t \<Rightarrow> [t])
      else if block_type = ''tool_use'' then
        (let tool_use_id = unwrap_or (get_str block ''id'') [];
             tool_name = unwrap_or (get_str block ''name'') []
         in if map_of (ps_emitted_tool_ids ps) tool_use_id \<noteq> None then (ps, [], [])
            else (ps\<lparr>ps_emitted_tool_ids := hm_insert tool_use_id tool_name (ps_emitted_tool_ids ps)\<rparr>,
                  [ToolStart run_id tool_use_id tool_name
                     (unwrap_or (j_get block ''input'') JNull) ptui], []))
      else (ps, [], []))"

fun assistant_blocks ::
  "string \<Rightarrow> string option \<Rightarrow> json list \<Rightarrow> ProtocolState \<Rightarrow> ProtocolState \<times> BusEvent list \<times> string list"
where
  "assistant_blocks run_id ptui [] ps = (ps, [], [])"
| "assistant_blocks run_id ptui (b # bs) ps =
     (case assistant_block run_id ptui b ps of
        (ps1, es1, ts1) \<Rightarrow>
          (case assistant_blocks run_id ptui bs ps1 of
             (ps2, es2, ts2) \<Rightarrow> (ps2, es1 @ es2, ts1 @ ts2)))"

definition map_assistant ::
  "string \<Rightarrow> string \<Rightarrow> string option \<Rightarrow> json \<Rightarrow> ProtocolState \<Rightarrow> ProtocolState \<times> BusEvent list" where
  "map_assistant uuid run_id ptui raw ps =
     (let message = unwrap_or (j_get raw ''message'') raw;
          message_id = unwrap_or (get_str message ''id'') (str_field raw ''id'');
          msg_model = get_str message ''model'';
          msg_stop_reason = get_str message ''stop_reason'';
          msg_usage = j_get message ''usage''
      in case get_array message ''content'' of
           None \<Rightarrow> (ps, [])
         | Some content \<Rightarrow>
             (case assistant_blocks run_id ptui content ps of
                (ps', es, text_parts) \<Rightarrow>
                  (ps',
                   if text_parts \<noteq> [] then
                     es @ [MessageComplete run_id
                             (if message_id = [] then take 12 uuid else message_id)
                             (concat text_parts) ptui msg_model msg_stop_reason msg_usage]
                   else es)))"

text \<open>
  A user event: command output, a background task notification, or tool results.  The
  \<open>None\<close> of the first two definitions means that the source goes on to the next case.
\<close>

definition command_stdout_open :: string where
  "command_stdout_open = ''<local-command-stdout>''"

definition command_stdout_close :: string where
  "command_stdout_close = ''</local-command-stdout>''"

definition user_command_output :: "json \<Rightarrow> string option" where
  "user_command_output message =
     (case get_str message ''content'' of
        None \<Rightarrow> None
      | Some txt \<Rightarrow>
          if starts_with txt command_stdout_open then
            (let inner = unwrap_or (strip_prefix txt command_stdout_open) txt in
             Some (str_trim (unwrap_or (strip_suffix inner command_stdout_close) inner)))
          else None)"

definition task_notification_data :: "string \<Rightarrow> string \<Rightarrow> string \<Rightarrow> json" where
  "task_notification_data txt tid st =
     JObj [(''task_id'', JStr tid),
           (''tool_use_id'', opt_json (extract_xml_tag txt ''tool-use-id'')),
           (''status'', JStr st),
           (''summary'', opt_json (extract_xml_tag txt ''summary'')),
           (''result'', opt_json (extract_xml_tag txt ''result'')),
           (''output_file'', opt_json (extract_xml_tag txt ''output-file''))]"

definition user_task_notification :: "string \<Rightarrow> json \<Rightarrow> BusEvent list option" where
  "user_task_notification run_id message =
     (case get_str message ''content'' of
        None \<Rightarrow> None
      | Some txt \<Rightarrow>
          if str_contains txt ''<task-notification>'' \<and> str_contains txt ''</task-notification>''
          then (case (extract_xml_tag txt ''task-id'', extract_xml_tag txt ''status'') of
                  (Some tid, Some st) \<Rightarrow>
                    Some [TaskNotification run_id tid st (task_notification_data txt tid st)]
                | _ \<Rightarrow> Some [])
          else None)"

definition tool_result_event ::
  "string \<Rightarrow> string option \<Rightarrow> json option \<Rightarrow> ProtocolState \<Rightarrow> json \<Rightarrow> BusEvent option" where
  "tool_result_event run_id ptui tool_use_result ps block =
     (if str_field block ''type'' = ''tool_result'' then
        (let tool_use_id = unwrap_or (get_str block ''tool_use_id'') [] in
         Some (ToolEnd run_id tool_use_id
                 (unwrap_or (map_of (ps_emitted_tool_ids ps) tool_use_id) [])
                 (unwrap_or (j_get block ''content'') JNull)
                 (if unwrap_or (get_bool block ''is_error'') False then ''error'' else ''success'')
                 None ptui tool_use_result))
      else None)"

definition map_user ::
  "string \<Rightarrow> string option \<Rightarrow> json \<Rightarrow> ProtocolState \<Rightarrow> ProtocolState \<times> BusEvent list" where
  "map_user run_id ptui raw ps =
     (let tool_use_result = j_get raw ''tool_use_result'';
          message = unwrap_or (j_get raw ''message'') raw
      in case user_command_output message of
           Some inner \<Rightarrow>
             (ps\<lparr>ps_pending_slash_command := None\<rparr>, [CommandOutput run_id inner])
         | None \<Rightarrow>
             (case user_task_notification run_id message of
                Some es \<Rightarrow> (ps, es)
              | None \<Rightarrow>
                  (case get_array message ''content'' of
                     None \<Rightarrow> (ps, [])
                   | Some content \<Rightarrow>
                       (ps, List.map_filter
                              (tool_result_event run_id ptui tool_use_result ps) content))))"

section \<open>Results\<close>

definition model_usage_entry :: "float_ops \<Rightarrow> json \<Rightarrow> ModelUsageEntry" where
  "model_usage_entry F entry =
     \<lparr> mu_input_tokens = unwrap_or (get_u64 entry ''inputTokens'') 0,
       mu_output_tokens = unwrap_or (get_u64 entry ''outputTokens'') 0,
       mu_cache_read_tokens = unwrap_or (get_u64 entry ''cacheReadInputTokens'') 0,
       mu_cache_write_tokens = unwrap_or (get_u64 entry ''cacheCreationInputTokens'') 0,
       mu_web_search_requests = unwrap_or (get_u64 entry ''webSearchRequests'') 0,
       mu_cost_usd = unwrap_or (Option.bind (j_get entry ''costUSD'') (as_f64 F)) 0,
       mu_context_window = get_u64 entry ''contextWindow'',
       mu_max_output_tokens = get_u64 entry ''maxOutputTokens'' \<rparr>"

definition parse_model_usage ::
  "float_ops \<Rightarrow> json \<Rightarrow> (string \<times> ModelUsageEntry) list option" where
  "parse_model_usage F raw =
     map_option (map (\<lambda>(name, entry). (name, model_usage_entry F entry)))
       (Option.bind (j_get raw ''modelUsage'') as_object)"

text \<open>The loop that reprices every entry, in the order of the entries, and sums the costs.\<close>

fun recalc_costs ::
  "float_ops \<Rightarrow> f64 \<Rightarrow> (string \<times> ModelUsageEntry) list
     \<Rightarrow> f64 \<times> (string \<times> ModelUsageEntry) list" where
  "recalc_costs F tot [] = (tot, [])"
| "recalc_costs F tot ((name, e) # mu) =
     (let c = estimate_cost F name (mu_input_tokens e) (mu_output_tokens e)
                (mu_cache_read_tokens e) (mu_cache_write_tokens e)
      in case recalc_costs F (f_add F tot c) mu of
           (t, mu') \<Rightarrow> (t, (name, e\<lparr>mu_cost_usd := c\<rparr>) # mu'))"

definition result_cost ::
  "float_ops \<Rightarrow> f64 \<Rightarrow> (string \<times> ModelUsageEntry) list option
     \<Rightarrow> f64 \<times> (string \<times> ModelUsageEntry) list option" where
  "result_cost F cost model_usage =
     (case model_usage of
        None \<Rightarrow> (cost, None)
      | Some mu \<Rightarrow>
          if list_ex (\<lambda>(m, _). is_third_party m) mu
          then (case recalc_costs F 0 mu of (t, mu1) \<Rightarrow> (t, Some mu1))
          else (cost, Some mu))"

definition cli_cost :: "float_ops \<Rightarrow> json \<Rightarrow> f64" where
  "cli_cost F raw =
     unwrap_or (or_else (Option.bind (j_get raw ''cost_usd'') (as_f64 F))
                        (Option.bind (j_get raw ''total_cost_usd'') (as_f64 F))) 0"

definition usage_data :: "float_ops \<Rightarrow> json \<Rightarrow> json \<Rightarrow> UsageData" where
  "usage_data F raw usage =
     (let (cost, model_usage) = result_cost F (cli_cost F raw) (parse_model_usage F raw);
          cache_creation = j_get usage ''cache_creation''
      in \<lparr> uu_input_tokens = unwrap_or (get_u64 usage ''input_tokens'') 0,
           uu_output_tokens = unwrap_or (get_u64 usage ''output_tokens'') 0,
           uu_cache_read_tokens = get_u64 usage ''cache_read_input_tokens'',
           uu_cache_write_tokens = get_u64 usage ''cache_creation_input_tokens'',
           uu_total_cost_usd = cost,
           uu_turn_index = None,
           uu_model_usage = model_usage,
           uu_duration_api_ms = get_u64 raw ''duration_api_ms'',
           uu_duration_ms = get_u64 raw ''duration_ms'',
           uu_num_turns = get_u64 raw ''num_turns'',
           uu_stop_reason = get_str raw ''stop_reason'',
           uu_service_tier = get_str usage ''service_tier'',
           uu_speed = get_str usage ''speed'',
           uu_web_fetch_requests =
             Option.bind (j_get usage ''server_tool_use'') (\<lambda>v. get_u64 v ''web_fetch_requests''),
           uu_cache_creation_5m =
             Option.bind cache_creation (\<lambda>c. get_u64 c ''ephemeral_5m_input_tokens''),
           uu_cache_creation_1h =
             Option.bind cache_creation (\<lambda>c. get_u64 c ''ephemeral_1h_input_tokens'') \<rparr>)"

definition slash_hint :: "string \<Rightarrow> string" where
  "slash_hint cmd =
     (if cmd = ''/cost'' then
        ''The /cost output is not available in the current CLI version. '' @
        ''Cumulative cost is shown in the status bar.''
      else if cmd = ''/context'' then
        ''The /context output is not available in the current CLI version. '' @
        ''Run /context in a terminal session instead.''
      else [])"

text \<open>The part of a result that is guarded by its \<open>usage\<close> object.\<close>

definition result_usage ::
  "float_ops \<Rightarrow> string \<Rightarrow> json \<Rightarrow> ProtocolState \<Rightarrow> ProtocolState \<times> BusEvent list" where
  "result_usage F run_id raw ps =
     (case j_get raw ''usage'' of
        None \<Rightarrow> (ps, [])
      | Some usage \<Rightarrow>
          (ps\<lparr>ps_pending_slash_command := None\<rparr>,
           UsageUpdate run_id (usage_data F raw usage)
           # (case ps_pending_slash_command ps of
                None \<Rightarrow> []
              | Some cmd \<Rightarrow>
                  (let hint = slash_hint cmd in
                   if hint \<noteq> [] then [CommandOutput run_id hint] else []))))"

definition denial_event :: "string \<Rightarrow> json \<Rightarrow> BusEvent option" where
  "denial_event run_id denial =
     (let tool_name = unwrap_or (get_str denial ''tool_name'') [] in
      if tool_name \<noteq> [] then
        Some (PermissionDenied run_id tool_name (unwrap_or (get_str denial ''tool_use_id'') [])
                (unwrap_or (j_get denial ''tool_input'') JNull))
      else None)"

definition result_denials :: "string \<Rightarrow> json \<Rightarrow> BusEvent list" where
  "result_denials run_id raw =
     (case get_array raw ''permission_denials'' of
        None \<Rightarrow> []
      | Some ds \<Rightarrow> List.map_filter (denial_event run_id) ds)"

definition result_error_msg :: "json \<Rightarrow> string" where
  "result_error_msg raw =
     unwrap_or
       (or_else (get_str raw ''error'')
                (map_option (\<lambda>arr. str_join ''; '' (List.map_filter as_str arr))
                   (get_array raw ''errors'')))
       ''Unknown error''"

text \<open>
  The slice \<open>&error_msg[..error_msg.len().min(200)]\<close> of the debug message; \<open>None\<close> is a panic.
\<close>

definition result_error_log :: "string \<Rightarrow> string option" where
  "result_error_log msg = str_slice msg 0 (min (length msg) 200)"

definition map_result ::
  "float_ops \<Rightarrow> string \<Rightarrow> json \<Rightarrow> ProtocolState \<Rightarrow> ProtocolState \<times> BusEvent list" where
  "map_result F run_id raw ps =
     (let subtype = str_field raw ''subtype'';
          (ps1, es1) = result_usage F run_id raw ps;
          es2 = result_denials run_id raw
      in if starts_with subtype ''error'' then
           (ps1\<lparr>ps_got_result_event := True, ps_result_subtype := Some subtype\<rparr>,
            es1 @ es2 @ [RunState run_id ''idle'' None (Some (result_error_msg raw))])
         else (ps1, es1 @ es2 @ [RunState run_id ''idle'' None None]))"

section \<open>Other top-level events\<close>

definition tool_progress_event :: "float_ops \<Rightarrow> string \<Rightarrow> string option \<Rightarrow> json \<Rightarrow> BusEvent" where
  "tool_progress_event F run_id ptui raw =
     ToolProgress run_id (unwrap_or (get_str raw ''tool_use_id'') [])
       (Option.bind (j_get raw ''elapsed_time_seconds'') (as_f64 F)) raw ptui"

definition tool_use_summary_event :: "string \<Rightarrow> string option \<Rightarrow> json \<Rightarrow> BusEvent" where
  "tool_use_summary_event run_id ptui raw =
     ToolUseSummary run_id (unwrap_or (get_str raw ''tool_use_id'') [])
       (unwrap_or (get_str raw ''summary'') []) (string_items raw ''preceding_tool_use_ids'') raw ptui"

definition rate_limit_event :: "float_ops \<Rightarrow> string \<Rightarrow> json \<Rightarrow> BusEvent" where
  "rate_limit_event F run_id raw =
     (let info = j_get raw ''rate_limit_info'' in
      RateLimitEvent run_id
        (unwrap_or (Option.bind info (\<lambda>v. get_str v ''status'')) ''allowed'')
        (Option.bind (Option.bind info (\<lambda>v. j_get v ''resetsAt'')) (as_f64 F))
        (Option.bind info (\<lambda>v. get_str v ''rateLimitType''))
        (Option.bind (Option.bind info (\<lambda>v. j_get v ''utilization'')) (as_f64 F))
        raw)"

definition map_unwrapped ::
  "float_ops \<Rightarrow> string \<Rightarrow> string \<Rightarrow> string option \<Rightarrow> json \<Rightarrow> ProtocolState
     \<Rightarrow> ProtocolState \<times> BusEvent list" where
  "map_unwrapped F uuid run_id ptui raw ps =
     (let event_type = str_field raw ''type'' in
      if event_type = ''system'' then map_system run_id raw ps
      else if event_type = ''content_block_start'' then map_content_block_start run_id ptui raw ps
      else if event_type = ''content_block_delta'' then map_content_block_delta run_id ptui raw ps
      else if event_type = ''content_block_stop'' then (ps, [])
      else if event_type = ''message_stop'' then (ps, [])
      else if event_type = ''assistant'' then map_assistant uuid run_id ptui raw ps
      else if event_type = ''user'' then map_user run_id ptui raw ps
      else if event_type = ''result'' then map_result F run_id raw ps
      else if event_type = ''tool_progress'' then (ps, [tool_progress_event F run_id ptui raw])
      else if event_type = ''tool_use_summary'' then (ps, [tool_use_summary_event run_id ptui raw])
      else if event_type = ''rate_limit_event'' then (ps, [rate_limit_event F run_id raw])
      else if event_type \<noteq> [] then
        (bump_unknown ps, [Raw run_id (''claude_'' @ event_type) raw])
      else (bump_dropped ps, []))"

definition map_event ::
  "float_ops \<Rightarrow> string \<Rightarrow> string \<Rightarrow> json \<Rightarrow> ProtocolState \<Rightarrow> ProtocolState \<times> BusEvent list" where
  "map_event F uuid run_id raw ps =
     (case unwrap_envelope raw ps of
        (raw', ptui, ps') \<Rightarrow> map_unwrapped F uuid run_id ptui raw' ps')"

section \<open>What one event does to the state\<close>

named_theorems proto_defs \<open>definitions of the event mappers that touch no tool table\<close>

lemmas [proto_defs] = map_system_def map_system_init_def Let_def bump_unknown_def
  bump_dropped_def add_parse_warn_def compact_boundary_event_def hook_response_event_def
  tool_progress_event_def tool_use_summary_event_def rate_limit_event_def

definition tool_start_of :: "BusEvent \<Rightarrow> (string \<times> string) option" where
  "tool_start_of e = (case e of ToolStart _ i n _ _ \<Rightarrow> Some (i, n) | _ \<Rightarrow> None)"

definition tool_starts :: "BusEvent list \<Rightarrow> (string \<times> string) list" where
  "tool_starts es = List.map_filter tool_start_of es"

lemma tool_starts_simps [simp]:
  "tool_starts [] = []"
  "tool_starts (e # es) =
     (case tool_start_of e of None \<Rightarrow> tool_starts es | Some p \<Rightarrow> p # tool_starts es)"
  by (simp_all add: tool_starts_def List.map_filter_def split: option.splits)

lemma tool_starts_append [simp]: "tool_starts (es @ fs) = tool_starts es @ tool_starts fs"
  by (simp add: tool_starts_def List.map_filter_def)

lemma map_filter_all_None: "(\<And>x y. f x = Some y \<Longrightarrow> g y = None) \<Longrightarrow>
    List.map_filter g (List.map_filter f xs) = []"
  by (induction xs) (auto simp: List.map_filter_def split: option.splits)

text \<open>
  The effect of one mapped event, in one relation: the run id and the run states of the
  events, the tool table, and the fields the session engine reads.
\<close>

definition proto_quiet :: "ProtocolState \<Rightarrow> ProtocolState \<Rightarrow> bool" where
  "proto_quiet ps ps' \<longleftrightarrow>
     ps_emitted_tool_ids ps' = ps_emitted_tool_ids ps
     \<and> ps_got_result_event ps' = ps_got_result_event ps
     \<and> ps_result_subtype ps' = ps_result_subtype ps
     \<and> ps_is_resume ps' = ps_is_resume ps"

lemma proto_quiet_refl [simp]: "proto_quiet ps ps"
  by (simp add: proto_quiet_def)

lemma proto_quiet_updates [simp]:
  "proto_quiet ps (ps'\<lparr>ps_pending_slash_command := c\<rparr>) = proto_quiet ps ps'"
  "proto_quiet ps (ps'\<lparr>ps_stats := t\<rparr>) = proto_quiet ps ps'"
  "proto_quiet ps (ps'\<lparr>ps_seen_first_init := b\<rparr>) = proto_quiet ps ps'"
  "proto_quiet ps (ps'\<lparr>ps_input_json_accum := m\<rparr>) = proto_quiet ps ps'"
  "proto_quiet ps (ps'\<lparr>ps_seen_stream_event_envelope := b\<rparr>) = proto_quiet ps ps'"
  by (simp_all add: proto_quiet_def)

definition run_ids_ok :: "string \<Rightarrow> BusEvent list \<Rightarrow> bool" where
  "run_ids_ok r es \<longleftrightarrow> (\<forall>e \<in> set es. event_run_id e = r \<and> \<not> actor_event e)"

lemma run_ids_ok_simps [simp]:
  "run_ids_ok r []"
  "run_ids_ok r (e # es) \<longleftrightarrow> event_run_id e = r \<and> \<not> actor_event e \<and> run_ids_ok r es"
  "run_ids_ok r (es @ fs) \<longleftrightarrow> run_ids_ok r es \<and> run_ids_ok r fs"
  by (auto simp: run_ids_ok_def)

lemma map_system_effect:
  assumes "map_system r raw ps = (ps', es)"
  shows "proto_quiet ps ps' \<and> tool_starts es = [] \<and> run_ids_ok r es
    \<and> run_states es = (if str_field raw ''subtype'' = ''init'' \<and> \<not> ps_seen_first_init ps
                       \<and> \<not> ps_is_resume ps then [''running''] else [])
    \<and> (ps_seen_first_init ps' \<longleftrightarrow> ps_seen_first_init ps \<or> str_field raw ''subtype'' = ''init'')"
  using assms
  by (auto simp: proto_defs tool_start_of_def run_state_of_def split: if_splits)

lemma map_content_block_start_effect:
  assumes "map_content_block_start r ptui raw ps = (ps', es)"
  shows "run_states es = [] \<and> run_ids_ok r es
    \<and> ps_got_result_event ps' = ps_got_result_event ps \<and> ps_result_subtype ps' = ps_result_subtype ps
    \<and> ps_is_resume ps' = ps_is_resume ps \<and> ps_seen_first_init ps' = ps_seen_first_init ps
    \<and> (tool_starts es = [] \<and> ps_emitted_tool_ids ps' = ps_emitted_tool_ids ps
       \<or> (\<exists>i n. i \<noteq> [] \<and> tool_starts es = [(i, n)]
              \<and> ps_emitted_tool_ids ps' = hm_insert i n (ps_emitted_tool_ids ps)))"
  using assms
  by (auto simp: map_content_block_start_def Let_def tool_start_of_def run_state_of_def
      split: if_splits option.splits)

lemma map_content_block_delta_effect:
  assumes "map_content_block_delta r ptui raw ps = (ps', es)"
  shows "proto_quiet ps ps' \<and> tool_starts es = [] \<and> run_ids_ok r es \<and> run_states es = []
    \<and> ps_seen_first_init ps' = ps_seen_first_init ps"
  using assms
  by (auto simp: map_content_block_delta_def Let_def tool_start_of_def run_state_of_def
      split: if_splits option.splits)

lemma assistant_block_effect:
  assumes "assistant_block r ptui b ps = (ps', es, ts)"
  shows "run_states es = [] \<and> run_ids_ok r es
    \<and> ps_got_result_event ps' = ps_got_result_event ps \<and> ps_result_subtype ps' = ps_result_subtype ps
    \<and> ps_is_resume ps' = ps_is_resume ps \<and> ps_seen_first_init ps' = ps_seen_first_init ps
    \<and> (tool_starts es = [] \<and> ps_emitted_tool_ids ps' = ps_emitted_tool_ids ps
       \<or> (\<exists>i n. map_of (ps_emitted_tool_ids ps) i = None \<and> tool_starts es = [(i, n)]
              \<and> ps_emitted_tool_ids ps' = hm_insert i n (ps_emitted_tool_ids ps)))"
  using assms
  by (auto simp: assistant_block_def Let_def tool_start_of_def run_state_of_def
      split: if_splits)

text \<open>The tool table after a step: old entries, and one entry per start.\<close>

definition tools_step :: "ProtocolState \<Rightarrow> BusEvent list \<Rightarrow> ProtocolState \<Rightarrow> bool" where
  "tools_step ps es ps' \<longleftrightarrow>
     (\<forall>i. map_of (ps_emitted_tool_ids ps') i = None \<longleftrightarrow>
            map_of (ps_emitted_tool_ids ps) i = None \<and> i \<notin> fst ` set (tool_starts es))
     \<and> (\<forall>i n. map_of (ps_emitted_tool_ids ps') i = Some n \<longrightarrow>
            map_of (ps_emitted_tool_ids ps) i = Some n \<or> (i, n) \<in> set (tool_starts es))"

lemma tools_step_quiet: "proto_quiet ps ps' \<Longrightarrow> tool_starts es = [] \<Longrightarrow> tools_step ps es ps'"
  by (simp add: tools_step_def proto_quiet_def)

lemma tools_step_trans:
  assumes "tools_step ps es ps1" "tools_step ps1 fs ps2"
  shows "tools_step ps (es @ fs) ps2"
proof -
  have "map_of (ps_emitted_tool_ids ps2) i = None \<longleftrightarrow>
      map_of (ps_emitted_tool_ids ps) i = None \<and> i \<notin> fst ` set (tool_starts (es @ fs))" for i
    using assms unfolding tools_step_def tool_starts_append set_append image_Un by blast
  moreover have "map_of (ps_emitted_tool_ids ps) i = Some n \<or> (i, n) \<in> set (tool_starts (es @ fs))"
    if "map_of (ps_emitted_tool_ids ps2) i = Some n" for i n
    using that assms unfolding tools_step_def tool_starts_append set_append by blast
  ultimately show ?thesis unfolding tools_step_def by blast
qed

lemma tools_step_insert:
  assumes "tool_starts es = [(i, n)]" "ps_emitted_tool_ids ps' = hm_insert i n (ps_emitted_tool_ids ps)"
  shows "tools_step ps es ps'"
  using assms by (auto simp: tools_step_def)

lemma tools_step_none:
  assumes "tool_starts es = []" "ps_emitted_tool_ids ps' = ps_emitted_tool_ids ps"
  shows "tools_step ps es ps'"
  using assms by (auto simp: tools_step_def)

definition same_result :: "ProtocolState \<Rightarrow> ProtocolState \<Rightarrow> bool" where
  "same_result ps ps' \<longleftrightarrow>
     ps_got_result_event ps' = ps_got_result_event ps \<and> ps_result_subtype ps' = ps_result_subtype ps
     \<and> ps_is_resume ps' = ps_is_resume ps"

lemma assistant_blocks_effect:
  assumes "assistant_blocks r ptui bs ps = (ps', es, ts)"
  shows "run_states es = [] \<and> run_ids_ok r es \<and> same_result ps ps'
    \<and> ps_seen_first_init ps' = ps_seen_first_init ps
    \<and> tools_step ps es ps' \<and> distinct (map fst (tool_starts es))
    \<and> (\<forall>i \<in> fst ` set (tool_starts es). map_of (ps_emitted_tool_ids ps) i = None)"
  using assms
proof (induction bs arbitrary: ps ps' es ts)
  case Nil
  then show ?case by (simp add: same_result_def tools_step_none)
next
  case (Cons b bs)
  obtain ps1 es1 ts1 where b: "assistant_block r ptui b ps = (ps1, es1, ts1)" by (metis prod_cases3)
  obtain ps2 es2 ts2 where bs: "assistant_blocks r ptui bs ps1 = (ps2, es2, ts2)" by (metis prod_cases3)
  from Cons.prems b bs have eq: "ps' = ps2" "es = es1 @ es2" by simp_all
  note ih = Cons.IH [OF bs] and e = assistant_block_effect [OF b]
  have t1: "tools_step ps es1 ps1"
    using e tools_step_none tools_step_insert by blast
  have d: "distinct (map fst (tool_starts es1))" using e by auto
  have n1: "\<forall>i \<in> fst ` set (tool_starts es1). map_of (ps_emitted_tool_ids ps) i = None"
    using e by auto
  have n2: "map_of (ps_emitted_tool_ids ps) i = None \<and> i \<notin> fst ` set (tool_starts es1)"
    if "i \<in> fst ` set (tool_starts es2)" for i
  proof -
    from ih have "\<forall>i \<in> fst ` set (tool_starts es2). map_of (ps_emitted_tool_ids ps1) i = None"
      by (elim conjE) assumption
    then have "map_of (ps_emitted_tool_ids ps1) i = None" using that by (rule bspec)
    with t1 show ?thesis by (simp add: tools_step_def)
  qed
  have "fst ` set (tool_starts es1) \<inter> fst ` set (tool_starts es2) = {}" using n2 by blast
  with d ih have "distinct (map fst (tool_starts es))" by (simp add: eq)
  moreover have "\<forall>i \<in> fst ` set (tool_starts es). map_of (ps_emitted_tool_ids ps) i = None"
    using n1 n2 by (auto simp: eq)
  moreover have "tools_step ps es ps'" using tools_step_trans [OF t1] ih by (simp add: eq)
  moreover have "same_result ps ps'" using e ih by (simp add: eq same_result_def)
  ultimately show ?case using e ih by (simp add: eq)
qed

lemma map_assistant_effect:
  assumes "map_assistant u r ptui raw ps = (ps', es)"
  shows "run_states es = [] \<and> run_ids_ok r es \<and> same_result ps ps'
    \<and> ps_seen_first_init ps' = ps_seen_first_init ps
    \<and> tools_step ps es ps' \<and> distinct (map fst (tool_starts es))
    \<and> (\<forall>i \<in> fst ` set (tool_starts es). map_of (ps_emitted_tool_ids ps) i = None)"
proof (cases "get_array (unwrap_or (j_get raw ''message'') raw) ''content''")
  case None
  with assms show ?thesis by (simp add: map_assistant_def same_result_def tools_step_none)
next
  case (Some content)
  obtain ps1 es1 ts where b: "assistant_blocks r ptui content ps = (ps1, es1, ts)"
    by (metis prod_cases3)
  obtain m where es: "ps' = ps1" "es = es1 \<or> es = es1 @ [m]" "tool_start_of m = None"
    "run_state_of m = None" "event_run_id m = r \<and> \<not> actor_event m"
  proof (cases "ts = []")
    case True
    with assms Some b have "ps' = ps1" "es = es1" by (simp_all add: map_assistant_def Let_def)
    then show ?thesis
      by (intro that [of "CommandOutput r []"]) (simp_all add: tool_start_of_def run_state_of_def)
  next
    case False
    let ?m = "unwrap_or (j_get raw ''message'') raw"
    let ?i = "unwrap_or (get_str ?m ''id'') (str_field raw ''id'')"
    from False assms Some b have "ps' = ps1"
      "es = es1 @ [MessageComplete r (if ?i = [] then take 12 u else ?i) (concat ts) ptui
          (get_str ?m ''model'') (get_str ?m ''stop_reason'') (j_get ?m ''usage'')]"
      by (simp_all add: map_assistant_def Let_def)
    then show ?thesis by (intro that) (auto simp: tool_start_of_def run_state_of_def)
  qed
  from es(2) es(3,4) have "tool_starts es = tool_starts es1" "run_states es = run_states es1"
    by auto
  moreover have "run_ids_ok r es \<longleftrightarrow> run_ids_ok r es1" using es(2,5) by auto
  ultimately show ?thesis
    using assistant_blocks_effect [OF b] es(1) by (simp add: tools_step_def)
qed

lemma tool_result_events:
  "run_states (List.map_filter (tool_result_event r ptui tur ps) c) = []
   \<and> tool_starts (List.map_filter (tool_result_event r ptui tur ps) c) = []
   \<and> run_ids_ok r (List.map_filter (tool_result_event r ptui tur ps) c)"
proof -
  have x: "run_state_of e = None \<and> tool_start_of e = None \<and> event_run_id e = r \<and> \<not> actor_event e"
    if "tool_result_event r ptui tur ps b = Some e" for b e
    using that by (auto simp: tool_result_event_def Let_def run_state_of_def tool_start_of_def
        split: if_splits)
  have "run_ids_ok r (List.map_filter (tool_result_event r ptui tur ps) c)"
    using x by (auto simp: run_ids_ok_def List.map_filter_def)
  moreover have "run_states (List.map_filter (tool_result_event r ptui tur ps) c) = []"
    unfolding run_states_def by (rule map_filter_all_None) (simp add: x)
  moreover have "tool_starts (List.map_filter (tool_result_event r ptui tur ps) c) = []"
    unfolding tool_starts_def by (rule map_filter_all_None) (simp add: x)
  ultimately show ?thesis by simp
qed

lemma map_user_effect:
  assumes "map_user r ptui raw ps = (ps', es)"
  shows "proto_quiet ps ps' \<and> tool_starts es = [] \<and> run_ids_ok r es \<and> run_states es = []
    \<and> ps_seen_first_init ps' = ps_seen_first_init ps"
proof -
  let ?m = "unwrap_or (j_get raw ''message'') raw"
  show ?thesis
  proof (cases "user_command_output ?m")
    case (Some x)
    with assms show ?thesis
      by (auto simp: map_user_def Let_def tool_start_of_def run_state_of_def)
  next
    case None
    show ?thesis
    proof (cases "user_task_notification r ?m")
      case (Some x)
      then have "tool_starts x = [] \<and> run_ids_ok r x \<and> run_states x = []"
        by (auto simp: user_task_notification_def tool_start_of_def run_state_of_def
            split: option.splits if_splits)
      with None Some assms show ?thesis by (simp add: map_user_def Let_def)
    next
      case N: None
      with None assms tool_result_events show ?thesis
        by (auto simp: map_user_def Let_def split: option.splits)
    qed
  qed
qed

lemma result_denials_effect:
  "run_states (result_denials r raw) = [] \<and> tool_starts (result_denials r raw) = []
   \<and> run_ids_ok r (result_denials r raw)"
proof -
  have x: "run_state_of e = None \<and> tool_start_of e = None \<and> event_run_id e = r \<and> \<not> actor_event e"
    if "denial_event r d = Some e" for d e
    using that by (auto simp: denial_event_def Let_def run_state_of_def tool_start_of_def
        split: if_splits)
  have "run_ids_ok r (List.map_filter (denial_event r) ds)" for ds
    using x by (auto simp: run_ids_ok_def List.map_filter_def)
  then show ?thesis
    using x map_filter_all_None [of "denial_event r" run_state_of]
      map_filter_all_None [of "denial_event r" tool_start_of]
    by (cases "get_array raw ''permission_denials''")
      (simp_all add: result_denials_def run_states_def tool_starts_def List.map_filter_simps)
qed

lemma result_usage_effect:
  assumes "result_usage F r raw ps = (ps', es)"
  shows "proto_quiet ps ps' \<and> tool_starts es = [] \<and> run_ids_ok r es \<and> run_states es = []
    \<and> ps_seen_first_init ps' = ps_seen_first_init ps"
  using assms
  by (auto simp: result_usage_def Let_def tool_start_of_def run_state_of_def
      split: option.splits if_splits)

lemma map_result_effect:
  assumes "map_result F r raw ps = (ps', es)"
  shows "tool_starts es = [] \<and> run_ids_ok r es \<and> run_states es = [''idle'']
    \<and> ps_emitted_tool_ids ps' = ps_emitted_tool_ids ps
    \<and> ps_is_resume ps' = ps_is_resume ps \<and> ps_seen_first_init ps' = ps_seen_first_init ps
    \<and> (if starts_with (str_field raw ''subtype'') ''error''
       then ps_got_result_event ps' \<and> ps_result_subtype ps' = Some (str_field raw ''subtype'')
       else ps_got_result_event ps' = ps_got_result_event ps
            \<and> ps_result_subtype ps' = ps_result_subtype ps)"
proof -
  obtain ps1 es1 where u: "result_usage F r raw ps = (ps1, es1)" by fastforce
  note e = result_usage_effect [OF u] result_denials_effect [of r raw]
  from assms u have eq: "(ps', es) =
     (if starts_with (str_field raw ''subtype'') ''error'' then
       (ps1\<lparr>ps_got_result_event := True, ps_result_subtype := Some (str_field raw ''subtype'')\<rparr>,
        es1 @ result_denials r raw @ [RunState r ''idle'' None (Some (result_error_msg raw))])
     else (ps1, es1 @ result_denials r raw @ [RunState r ''idle'' None None]))"
    by (simp add: map_result_def Let_def)
  show ?thesis
    using e eq by (simp add: proto_quiet_def tool_start_of_def run_state_of_def split: if_splits)
qed

section \<open>The effect of \<open>map_event\<close>\<close>

definition inner_event :: "json \<Rightarrow> json" where
  "inner_event raw = fst (unwrap_envelope raw (protocol_new False))"

definition event_kind :: "json \<Rightarrow> string" where
  "event_kind raw = str_field (inner_event raw) ''type''"

definition event_subtype :: "json \<Rightarrow> string" where
  "event_subtype raw = str_field (inner_event raw) ''subtype''"

lemma unwrap_envelope_inner:
  assumes "unwrap_envelope raw ps = (raw', ptui, ps')"
  shows "raw' = inner_event raw \<and> (ps' = ps \<or> ps' = ps\<lparr>ps_seen_stream_event_envelope := True\<rparr>)"
  using assms
  by (auto simp: unwrap_envelope_def inner_event_def split: if_splits option.splits)

lemma map_unwrapped_cases:
  assumes "map_unwrapped F u r ptui raw ps = (ps', es)"
  obtains (system) "str_field raw ''type'' = ''system''" "map_system r raw ps = (ps', es)"
    | (start) "str_field raw ''type'' = ''content_block_start''"
        "map_content_block_start r ptui raw ps = (ps', es)"
    | (delta) "str_field raw ''type'' = ''content_block_delta''"
        "map_content_block_delta r ptui raw ps = (ps', es)"
    | (assistant) "str_field raw ''type'' = ''assistant''" "map_assistant u r ptui raw ps = (ps', es)"
    | (user) "str_field raw ''type'' = ''user''" "map_user r ptui raw ps = (ps', es)"
    | (result) "str_field raw ''type'' = ''result''" "map_result F r raw ps = (ps', es)"
    | (single) e where "str_field raw ''type'' \<noteq> ''result''" "str_field raw ''type'' \<noteq> ''system''"
        "es = [] \<or> es = [e]" "event_run_id e = r \<and> \<not> actor_event e" "run_state_of e = None" "tool_start_of e = None"
        "\<And>r i n ou s d pt rs. e \<noteq> ToolEnd r i n ou s d pt rs"
        "proto_quiet ps ps'" "ps_seen_first_init ps' = ps_seen_first_init ps"
proof -
  let ?t = "str_field raw ''type''"
  note single_event = run_state_of_def tool_start_of_def proto_defs
  consider "?t = ''system''" | "?t = ''content_block_start''" | "?t = ''content_block_delta''"
    | "?t = ''content_block_stop''" | "?t = ''message_stop''" | "?t = ''assistant''"
    | "?t = ''user''" | "?t = ''result''" | "?t = ''tool_progress''" | "?t = ''tool_use_summary''"
    | "?t = ''rate_limit_event''"
    | "?t \<notin> {''system'', ''content_block_start'', ''content_block_delta'', ''content_block_stop'',
        ''message_stop'', ''assistant'', ''user'', ''result'', ''tool_progress'', ''tool_use_summary'',
        ''rate_limit_event''}"
    by blast
  then show ?thesis
  proof cases
    case 1 with assms system show ?thesis by (simp add: map_unwrapped_def)
  next
    case 2 with assms start show ?thesis by (simp add: map_unwrapped_def)
  next
    case 3 with assms delta show ?thesis by (simp add: map_unwrapped_def)
  next
    case 4
    with assms show ?thesis
      by (intro single [of "Raw r [] raw"]) (simp_all add: map_unwrapped_def single_event)
  next
    case 5
    with assms show ?thesis
      by (intro single [of "Raw r [] raw"]) (simp_all add: map_unwrapped_def single_event)
  next
    case 6 with assms assistant show ?thesis by (simp add: map_unwrapped_def)
  next
    case 7 with assms user show ?thesis by (simp add: map_unwrapped_def)
  next
    case 8 with assms result show ?thesis by (simp add: map_unwrapped_def)
  next
    case 9
    with assms show ?thesis
      by (intro single [of "tool_progress_event F r ptui raw"])
        (simp_all add: map_unwrapped_def single_event)
  next
    case 10
    with assms show ?thesis
      by (intro single [of "tool_use_summary_event r ptui raw"])
        (simp_all add: map_unwrapped_def single_event)
  next
    case 11
    with assms show ?thesis
      by (intro single [of "rate_limit_event F r raw"]) (simp_all add: map_unwrapped_def single_event)
  next
    case 12
    then have "map_unwrapped F u r ptui raw ps =
        (if ?t \<noteq> [] then (bump_unknown ps, [Raw r (''claude_'' @ ?t) raw]) else (bump_dropped ps, []))"
      by (simp add: map_unwrapped_def)
    with assms 12 show ?thesis
      by (intro single [of "Raw r (''claude_'' @ ?t) raw"])
        (auto simp: single_event split: if_splits)
  qed
qed

lemma map_event_effect:
  assumes "map_event F u r raw ps = (ps', es)"
  shows "run_ids_ok r es \<and> tools_step ps es ps' \<and> ps_is_resume ps' = ps_is_resume ps
    \<and> run_states es =
       (if event_kind raw = ''result'' then [''idle'']
        else if event_kind raw = ''system'' \<and> event_subtype raw = ''init''
                \<and> \<not> ps_seen_first_init ps \<and> \<not> ps_is_resume ps then [''running'']
        else [])
    \<and> (if event_kind raw = ''result'' \<and> starts_with (event_subtype raw) ''error''
       then ps_got_result_event ps' \<and> ps_result_subtype ps' = Some (event_subtype raw)
       else ps_got_result_event ps' = ps_got_result_event ps
            \<and> ps_result_subtype ps' = ps_result_subtype ps)
    \<and> (ps_seen_first_init ps' \<longleftrightarrow> ps_seen_first_init ps
         \<or> event_kind raw = ''system'' \<and> event_subtype raw = ''init'')"
proof -
  obtain raw' ptui ps0 where e: "unwrap_envelope raw ps = (raw', ptui, ps0)" by (metis prod_cases3)
  then have raw': "raw' = inner_event raw" and
    ps0: "ps_seen_first_init ps0 = ps_seen_first_init ps" "ps_is_resume ps0 = ps_is_resume ps"
      "ps_emitted_tool_ids ps0 = ps_emitted_tool_ids ps"
      "ps_got_result_event ps0 = ps_got_result_event ps" "ps_result_subtype ps0 = ps_result_subtype ps"
    using unwrap_envelope_inner [OF e] by auto
  have tools: "tools_step ps es ps' \<longleftrightarrow> tools_step ps0 es ps'" by (simp add: tools_step_def ps0)
  from assms e have "map_unwrapped F u r ptui raw' ps0 = (ps', es)" by (simp add: map_event_def)
  then show ?thesis
  proof (cases rule: map_unwrapped_cases)
    case system
    with map_system_effect [OF system(2)] tools_step_quiet [of ps0 ps' es] show ?thesis
      by (simp add: tools proto_quiet_def event_kind_def event_subtype_def ps0 flip: raw')
  next
    case start
    note b = map_content_block_start_effect [OF start(2)]
    then have "tools_step ps0 es ps'" using tools_step_none tools_step_insert by blast
    with b start(1) show ?thesis
      by (simp add: tools event_kind_def event_subtype_def ps0 flip: raw')
  next
    case delta
    with map_content_block_delta_effect [OF delta(2)] tools_step_quiet [of ps0 ps' es] show ?thesis
      by (simp add: tools proto_quiet_def event_kind_def event_subtype_def ps0 flip: raw')
  next
    case assistant
    with map_assistant_effect [OF assistant(2)] show ?thesis
      by (simp add: tools same_result_def event_kind_def event_subtype_def ps0 flip: raw')
  next
    case user
    with map_user_effect [OF user(2)] tools_step_quiet [of ps0 ps' es] show ?thesis
      by (simp add: tools proto_quiet_def event_kind_def event_subtype_def ps0 flip: raw')
  next
    case result
    with map_result_effect [OF result(2)] tools_step_none [of es ps' ps0] show ?thesis
      by (simp add: tools event_kind_def event_subtype_def ps0 flip: raw')
  next
    case (single e)
    then have "tool_starts es = [] \<and> run_ids_ok r es \<and> run_states es = []" by auto
    with single tools_step_quiet [of ps0 ps' es] show ?thesis
      by (simp add: tools proto_quiet_def event_kind_def event_subtype_def ps0 flip: raw')
  qed
qed

section \<open>Whole sessions\<close>

text \<open>A session: the lines in order, each with the identifier the generator would yield.\<close>

fun map_events ::
  "float_ops \<Rightarrow> string \<Rightarrow> (string \<times> json) list \<Rightarrow> ProtocolState \<Rightarrow> ProtocolState \<times> BusEvent list"
where
  "map_events F run_id [] ps = (ps, [])"
| "map_events F run_id ((uuid, raw) # raws) ps =
     (case map_event F uuid run_id raw ps of
        (ps1, es1) \<Rightarrow>
          (case map_events F run_id raws ps1 of (ps2, es2) \<Rightarrow> (ps2, es1 @ es2)))"

lemma map_events_tools:
  "map_events F r raws ps = (ps', es) \<Longrightarrow> tools_step ps es ps' \<and> run_ids_ok r es"
proof (induction raws arbitrary: ps es)
  case Nil
  then show ?case by (simp add: tools_step_none)
next
  case (Cons a raws)
  obtain u raw where a: "a = (u, raw)" by fastforce
  obtain ps1 es1 where e1: "map_event F u r raw ps = (ps1, es1)" by fastforce
  obtain ps2 es2 where e2: "map_events F r raws ps1 = (ps2, es2)" by fastforce
  from Cons.prems a e1 e2 have "ps' = ps2" "es = es1 @ es2" by simp_all
  with Cons.IH [of ps1 es2] e2 map_event_effect [OF e1] tools_step_trans show ?case by auto
qed

lemma assistant_block_no_end:
  "assistant_block r ptui b ps = (ps', es, ts) \<Longrightarrow> ToolEnd x i n ou s d pt rs \<notin> set es"
  by (auto simp: assistant_block_def Let_def split: if_splits)

lemma assistant_blocks_no_end:
  "assistant_blocks r ptui bs ps = (ps', es, ts) \<Longrightarrow> ToolEnd x i n ou s d pt rs \<notin> set es"
  by (induction bs arbitrary: ps ps' es ts)
    (auto dest: assistant_block_no_end split: prod.splits)

lemma map_assistant_no_end:
  "map_assistant u r ptui raw ps = (ps', es) \<Longrightarrow> ToolEnd x i n ou s d pt rs \<notin> set es"
  by (auto simp: map_assistant_def Let_def dest: assistant_blocks_no_end
      split: option.splits prod.splits if_splits)

lemma map_user_end:
  assumes "map_user r ptui raw ps = (ps', es)" "ToolEnd x i n ou s d pt rs \<in> set es"
  shows "n = unwrap_or (map_of (ps_emitted_tool_ids ps) i) []"
  using assms
  by (auto simp: map_user_def Let_def user_task_notification_def tool_result_event_def
      List.map_filter_def split: option.splits if_splits)

lemma map_event_end:
  assumes "map_event F u r raw ps = (ps', es)" "ToolEnd x i n ou s d pt rs \<in> set es"
  shows "n = unwrap_or (map_of (ps_emitted_tool_ids ps) i) []"
proof -
  obtain raw' ptui ps0 where e: "unwrap_envelope raw ps = (raw', ptui, ps0)" by (metis prod_cases3)
  then have "ps_emitted_tool_ids ps0 = ps_emitted_tool_ids ps"
    using unwrap_envelope_inner [OF e] by auto
  moreover from assms e have "map_unwrapped F u r ptui raw' ps0 = (ps', es)"
    by (simp add: map_event_def)
  then have "n = unwrap_or (map_of (ps_emitted_tool_ids ps0) i) []"
  proof (cases rule: map_unwrapped_cases)
    case system
    with assms(2) show ?thesis by (auto simp: proto_defs split: if_splits)
  next
    case start
    with assms(2) show ?thesis
      by (auto simp: map_content_block_start_def Let_def split: option.splits if_splits)
  next
    case delta
    with assms(2) show ?thesis
      by (auto simp: map_content_block_delta_def Let_def split: option.splits if_splits)
  next
    case assistant
    with assms(2) map_assistant_no_end show ?thesis by blast
  next
    case user
    from map_user_end [OF user(2) assms(2)] show ?thesis .
  next
    case result
    with assms(2) show ?thesis
      by (auto simp: map_result_def result_usage_def result_denials_def denial_event_def Let_def
          List.map_filter_def split: option.splits if_splits)
  next
    case (single e)
    with assms(2) show ?thesis by fastforce
  qed
  ultimately show ?thesis by simp
qed

section \<open>Streamed tool input\<close>

definition tool_block_start :: "string \<Rightarrow> string \<Rightarrow> json" where
  "tool_block_start i n =
     JObj [(''type'', JStr ''content_block_start''),
           (''content_block'', JObj [(''type'', JStr ''tool_use''), (''id'', JStr i), (''name'', JStr n)])]"

definition input_delta :: "string \<Rightarrow> json" where
  "input_delta p =
     JObj [(''type'', JStr ''content_block_delta''),
           (''delta'', JObj [(''type'', JStr ''input_json_delta''), (''partial_json'', JStr p)])]"

definition input_partials :: "string \<Rightarrow> BusEvent list \<Rightarrow> string list" where
  "input_partials i es =
     List.map_filter
       (\<lambda>e. case e of ToolInputDelta _ j p _ \<Rightarrow> if j = i then Some p else None | _ \<Rightarrow> None) es"

lemma map_event_tool_block_start:
  assumes "i \<noteq> []"
  shows "map_event F u r (tool_block_start i n) ps =
     (ps\<lparr>ps_emitted_tool_ids := hm_insert i n (ps_emitted_tool_ids ps),
         ps_input_json_accum := hm_insert i [] (ps_input_json_accum ps),
         ps_last_tool_use_id := Some i\<rparr>,
      [ToolStart r i n JNull None])"
  using assms
  by (simp add: map_event_def unwrap_envelope_def tool_block_start_def str_field_def nonempty_str_def
      map_unwrapped_def map_content_block_start_def)

lemma map_event_input_delta:
  assumes "ps_last_tool_use_id ps = Some i"
  shows "map_event F u r (input_delta p) ps =
     (ps\<lparr>ps_input_json_accum := accum_push i p (ps_input_json_accum ps)\<rparr>,
      if p \<noteq> [] then [ToolInputDelta r i p None] else [])"
  using assms
  by (simp add: map_event_def unwrap_envelope_def input_delta_def str_field_def nonempty_str_def
      map_unwrapped_def map_content_block_delta_def)

lemma map_events_input_deltas:
  assumes "ps_last_tool_use_id ps = Some i" "map_of (ps_input_json_accum ps) i = Some acc"
    and "map_events F r (map (\<lambda>p. (u, input_delta p)) parts) ps = (ps', es)"
  shows "map_of (ps_input_json_accum ps') i = Some (acc @ concat parts)
    \<and> concat (input_partials i es) = concat parts"
  using assms
proof (induction parts arbitrary: ps acc es)
  case Nil
  then show ?case by (auto simp: input_partials_def List.map_filter_simps)
next
  case (Cons p parts)
  let ?ps = "ps\<lparr>ps_input_json_accum := accum_push i p (ps_input_json_accum ps)\<rparr>"
  obtain ps2 es2 where
    e2: "map_events F r (map (\<lambda>p. (u, input_delta p)) parts) ?ps = (ps2, es2)" by fastforce
  from Cons.prems(1,3) e2 have eq: "ps' = ps2"
    "es = (if p \<noteq> [] then [ToolInputDelta r i p None] else []) @ es2"
    by (simp_all add: map_event_input_delta split: if_splits)
  have l: "ps_last_tool_use_id ?ps = Some i" using Cons.prems(1) by simp
  have m: "map_of (ps_input_json_accum ?ps) i = Some (acc @ p)"
    using Cons.prems(2) by (simp add: accum_push_def)
  from Cons.IH [OF l m] e2 eq(1)
  have "map_of (ps_input_json_accum ps') i = Some ((acc @ p) @ concat parts)
      \<and> concat (input_partials i es2) = concat parts" by simp
  then show ?case by (simp add: eq(2) input_partials_def List.map_filter_simps)
qed

lemma recalc_costs_eq:
  "recalc_costs F t mu =
     (let c = (\<lambda>(n, e). estimate_cost F n (mu_input_tokens e) (mu_output_tokens e)
                 (mu_cache_read_tokens e) (mu_cache_write_tokens e))
      in (foldl (f_add F) t (map c mu), map (\<lambda>p. (fst p, (snd p)\<lparr>mu_cost_usd := c p\<rparr>)) mu))"
  by (induction F t mu rule: recalc_costs.induct) (simp_all add: Let_def)

section \<open>Properties\<close>

definition sample_floats :: float_ops where
  "sample_floats =
     \<lparr> f_of_rat = (\<lambda>_. 1), f_of_u64 = (\<lambda>n. n), f_of_i64 = (\<lambda>n. n), f_add = (+), f_mul = (*),
       f_div = (\<lambda>a b. a) \<rparr>"

definition sample_assistant :: json where
  "sample_assistant =
     JObj [(''type'', JStr ''assistant''),
           (''message'', JObj [(''content'', JArr
              [JObj [(''type'', JStr ''tool_use''), (''id'', JStr ''t1''), (''name'', JStr ''Bash'')]])])]"

definition sample_tool_result :: json where
  "sample_tool_result =
     JObj [(''type'', JStr ''user''),
           (''message'', JObj [(''content'', JArr
              [JObj [(''type'', JStr ''tool_result''), (''tool_use_id'', JStr ''t1'')]])])]"

lemmas sample_eval = sample_assistant_def sample_tool_result_def map_event_def unwrap_envelope_def
  str_field_def nonempty_str_def map_unwrapped_def map_assistant_def assistant_block_def
  protocol_new_def map_user_def user_command_output_def user_task_notification_def
  tool_result_event_def tool_start_of_def event_kind_def inner_event_def List.map_filter_simps Let_def

text \<open>
  C26: a line of the CLI changes the run state in two cases only.  A \<open>result\<close>, successful or
  not, ends the turn with exactly one \<open>idle\<close>; the first \<open>system/init\<close> of a new session starts
  it with exactly one \<open>running\<close>; every other line, on any parser state and with or without a
  \<open>stream_event\<close> envelope, emits no run state at all.
\<close>

theorem turn_boundary:
  "run_states (snd (map_event F u r raw ps)) =
     (if event_kind raw = ''result'' then [''idle'']
      else if event_kind raw = ''system'' \<and> event_subtype raw = ''init''
              \<and> \<not> ps_seen_first_init ps \<and> \<not> ps_is_resume ps then [''running'']
      else [])"
proof (cases "map_event F u r raw ps")
  case (Pair ps' es)
  with map_event_effect [OF Pair] show ?thesis by simp
qed

text \<open>
  The error tracking that decides a run's final status changes only on a result whose
  subtype starts with \<open>error\<close>: it is set to that subtype, and no later line, a successful
  result included, takes it back.
\<close>

theorem error_tracking:
  "ps_got_result_event (fst (map_event F u r raw ps)) =
     (ps_got_result_event ps
      \<or> event_kind raw = ''result'' \<and> starts_with (event_subtype raw) ''error'')
   \<and> ps_result_subtype (fst (map_event F u r raw ps)) =
     (if event_kind raw = ''result'' \<and> starts_with (event_subtype raw) ''error''
      then Some (event_subtype raw) else ps_result_subtype ps)"
proof (cases "map_event F u r raw ps")
  case (Pair ps' es)
  with map_event_effect [OF Pair] show ?thesis by (auto split: if_splits)
qed

text \<open>
  Over a whole session, the end of a tool carries the name of a start of that tool that was
  emitted before; it has the empty name only if the tool was never started.
\<close>

theorem tool_end_named:
  assumes "map_events F r raws (protocol_new b) = (ps, es)"
    and "map_event F u r raw ps = (ps', es')"
    and "ToolEnd x i n out status dur ptui res \<in> set es'"
  shows "(i, n) \<in> set (tool_starts es) \<or> n = [] \<and> i \<notin> fst ` set (tool_starts es)"
proof -
  have t: "tools_step (protocol_new b) es ps" using map_events_tools [OF assms(1)] by simp
  show ?thesis
  proof (cases "map_of (ps_emitted_tool_ids ps) i")
    case None
    with map_event_end [OF assms(2,3)] have "n = []" by simp
    moreover from None t have "i \<notin> fst ` set (tool_starts es)" by (simp add: tools_step_def)
    ultimately show ?thesis by simp
  next
    case (Some m)
    with map_event_end [OF assms(2,3)] have "n = m" by simp
    with Some t show ?thesis by (auto simp: tools_step_def protocol_new_def)
  qed
qed

theorem tool_end_named_witness:
  "(''t1'', ''Bash'') \<in> set (tool_starts (snd (map_events sample_floats ''r''
       [(''u'', sample_assistant)] (protocol_new False))))"
proof -
  let ?s = "map_events sample_floats ''r'' [(''u'', sample_assistant)] (protocol_new False)"
  let ?e = "map_event sample_floats ''v'' ''r'' sample_tool_result (fst ?s)"
  have "ToolEnd ''r'' ''t1'' ''Bash'' JNull ''success'' None None None \<in> set (snd ?e)"
    by (simp add: sample_eval)
  from tool_end_named [OF prod.collapse [symmetric] prod.collapse [symmetric] this]
  show ?thesis by simp
qed

text \<open>
  The complete assistant message starts each of its tools at most once, and never one
  that was started before, by streaming or by an earlier message.
\<close>

theorem assistant_starts_fresh_tools:
  assumes "map_events F r raws (protocol_new b) = (ps, es)"
    and "event_kind raw = ''assistant''" and "map_event F u r raw ps = (ps', es')"
  shows "distinct (map fst (tool_starts es'))
    \<and> fst ` set (tool_starts es') \<inter> fst ` set (tool_starts es) = {}"
proof -
  obtain raw' ptui ps0 where e: "unwrap_envelope raw ps = (raw', ptui, ps0)" by (metis prod_cases3)
  then have t: "str_field raw' ''type'' = ''assistant''"
    and ps0: "ps_emitted_tool_ids ps0 = ps_emitted_tool_ids ps"
    using assms(2) unwrap_envelope_inner [OF e] by (auto simp: event_kind_def)
  from assms(3) e t have "map_assistant u r ptui raw' ps0 = (ps', es')"
    by (simp add: map_event_def map_unwrapped_def)
  from map_assistant_effect [OF this] ps0
  have "distinct (map fst (tool_starts es'))"
    "\<forall>i \<in> fst ` set (tool_starts es'). map_of (ps_emitted_tool_ids ps) i = None" by simp_all
  moreover have "tools_step (protocol_new b) es ps" using map_events_tools [OF assms(1)] by simp
  ultimately show ?thesis by (auto simp: tools_step_def)
qed

theorem assistant_starts_fresh_tools_witness:
  "''t1'' \<notin> fst ` set (tool_starts (snd (map_event sample_floats ''v'' ''r'' sample_assistant
      (fst (map_events sample_floats ''r'' [(''u'', sample_assistant)] (protocol_new False))))))"
proof -
  let ?s = "map_events sample_floats ''r'' [(''u'', sample_assistant)] (protocol_new False)"
  have "''t1'' \<in> fst ` set (tool_starts (snd ?s))" by (simp add: sample_eval)
  moreover have k: "event_kind sample_assistant = ''assistant''" by (simp add: sample_eval)
  ultimately show ?thesis
    using assistant_starts_fresh_tools
      [OF prod.collapse [symmetric] k prod.collapse [symmetric],
        where F = sample_floats and r = "''r''" and u = "''v''" and b = False
          and raws = "[(''u'', sample_assistant)]"] by blast
qed

text \<open>
  A tool's input that is streamed in any number of pieces is accumulated complete and in
  order, and the deltas that are emitted for it spell the same text.
\<close>

theorem streamed_input_roundtrip:
  assumes "i \<noteq> []"
    and "map_events F r ((u, tool_block_start i n) # map (\<lambda>p. (v, input_delta p)) parts) ps = (ps', es)"
  shows "map_of (ps_input_json_accum ps') i = Some (concat parts)
    \<and> concat (input_partials i es) = concat parts"
proof -
  let ?ps = "fst (map_event F u r (tool_block_start i n) ps)"
  obtain es2 where e: "map_events F r (map (\<lambda>p. (v, input_delta p)) parts) ?ps = (ps', es2)"
    and es: "es = ToolStart r i n JNull None # es2"
    using assms by (auto simp: map_event_tool_block_start split: prod.splits)
  have "ps_last_tool_use_id ?ps = Some i" "map_of (ps_input_json_accum ?ps) i = Some []"
    using assms(1) by (simp_all add: map_event_tool_block_start)
  from map_events_input_deltas [OF this e] show ?thesis
    by (simp add: es input_partials_def List.map_filter_simps)
qed

theorem streamed_input_roundtrip_witness:
  "map_of (ps_input_json_accum (fst (map_events sample_floats ''r''
      ((''u'', tool_block_start ''t1'' ''Bash'') # map (\<lambda>p. (''v'', input_delta p)) [''ab'', [], ''c''])
      (protocol_new False)))) ''t1'' = Some ''abc''"
proof -
  have ne: "''t1'' \<noteq> []" by simp
  show ?thesis
    using streamed_input_roundtrip [OF ne prod.collapse [symmetric], of sample_floats "''r''"
        "''u''" "''Bash''" "''v''" "[''ab'', [], ''c'']" "protocol_new False"] by simp
qed

text \<open>
  Validation drops tool events without a tool id and nothing else; in particular it never
  drops a run state, a session init, a usage update or a message, which the turn engine needs.
\<close>

theorem validation_drops_tools_only:
  "event_invalid e \<longleftrightarrow>
     (\<exists>r n x p. e = ToolStart r [] n x p)
     \<or> (\<exists>r n out s d p x. e = ToolEnd r [] n out s d p x)
     \<or> (\<exists>r x p. e = ToolInputDelta r [] x p)
     \<or> (\<exists>r t d p. e = ToolProgress r [] t d p)
     \<or> (\<exists>r d p. e = ToolOutputDelta r [] d p)
     \<or> (\<exists>r s l d p. e = ToolUseSummary r [] s l d p)"
  by (cases e) (simp_all add: event_invalid_def)

text \<open>
  The cost of a result.  Without a third-party model the figures of the CLI are kept; with
  one, every model is repriced by the price table and the total is their sum in order.
\<close>

theorem result_cost_correct:
  "result_cost F cost (Some mu) =
     (if \<exists>m \<in> fst ` set mu. is_third_party m
      then (foldl (f_add F) 0
              (map (\<lambda>(n, e). estimate_cost F n (mu_input_tokens e) (mu_output_tokens e)
                    (mu_cache_read_tokens e) (mu_cache_write_tokens e)) mu),
            Some (map (\<lambda>(n, e). (n, e\<lparr>mu_cost_usd :=
                estimate_cost F n (mu_input_tokens e) (mu_output_tokens e)
                    (mu_cache_read_tokens e) (mu_cache_write_tokens e)\<rparr>)) mu))
      else (cost, Some mu))"
proof -
  have ex: "list_ex (\<lambda>(m, _). is_third_party m) mu \<longleftrightarrow> (\<exists>m \<in> fst ` set mu. is_third_party m)"
    by (force simp: list_ex_iff)
  show ?thesis by (simp add: result_cost_def ex recalc_costs_eq Let_def case_prod_beta)
qed

text \<open>
  The debug message of an error result slices the text at byte 200, which panics exactly
  when the text is longer and a character crosses that byte.
\<close>

theorem result_error_log_panics:
  "result_error_log msg = None \<longleftrightarrow> length msg > 200 \<and> is_cont (msg ! 200)"
  by (auto simp: result_error_log_def str_slice_def is_char_boundary_def min_def)

end
