(* ===== verification/RunStore.thy ===== *)
theory RunStore
  imports Models "HOL-Library.List_Lexorder" "HOL-Library.Char_ord" "HOL-Library.Multiset"
begin

text \<open>
  The run metadata store, \<open>src-tauri/src/storage/runs.rs\<close>.  The store maps a run id to the
  metadata that its \<open>meta.json\<close> parses to (\<open>None\<close>: no file, or one that does not parse).
  The file system answers a save through \<open>fs_io\<close>: the outcomes of creating the directory, of
  writing the temporary file and of each attempt to rename it.  The per-run lock makes a
  read-modify-write one atomic step, so \<open>with_meta\<close> is a function of the store.
\<close>

type_synonym store = "string \<Rightarrow> RunMeta option"

datatype rename_outcome = RenOk | RenDenied string | RenErr string

record fs_io =
  io_ensure_dir :: "string option"
  io_write_tmp :: "string option"
  io_rename :: "nat \<Rightarrow> rename_outcome"

definition fs_ok :: fs_io where
  "fs_ok = \<lparr> io_ensure_dir = None, io_write_tmp = None, io_rename = (\<lambda>_. RenOk) \<rparr>"

text \<open>The text that the \<open>Display\<close> of the \<open>io::Error\<close> has is the payload of the outcome.\<close>

text \<open>
  The retry loop \<open>for attempt in 0..3u8\<close>: a denied rename is retried while
  \<open>attempt < 2\<close>, any other failure returns; \<open>n\<close> is the number of attempts left.
\<close>

fun rename_loop :: "(nat \<Rightarrow> rename_outcome) \<Rightarrow> nat \<Rightarrow> nat \<Rightarrow> string + unit" where
  "rename_loop ren attempt 0 = Inl ''rename: PermissionDenied after 3 retries''"
| "rename_loop ren attempt (Suc n) =
     (case ren attempt of
        RenOk \<Rightarrow> Inr ()
      | RenDenied e \<Rightarrow>
          if attempt < 2 then rename_loop ren (Suc attempt) n else Inl (''rename: '' @ e)
      | RenErr e \<Rightarrow> Inl (''rename: '' @ e))"

definition save_meta :: "fs_io \<Rightarrow> RunMeta \<Rightarrow> store \<Rightarrow> (string + unit) \<times> store" where
  "save_meta io m st =
     (case io_ensure_dir io of
        Some e \<Rightarrow> (Inl e, st)
      | None \<Rightarrow>
          (case io_write_tmp io of
             Some e \<Rightarrow> (Inl (''write tmp: '' @ e), st)
           | None \<Rightarrow>
               (case rename_loop (io_rename io) 0 3 of
                  Inl e \<Rightarrow> (Inl e, st)
                | Inr u \<Rightarrow> (Inr (), st(rm_id m \<mapsto> m)))))"

definition get_run_raw :: "store \<Rightarrow> string \<Rightarrow> RunMeta option" where
  "get_run_raw st i = st i"

definition get_run :: "store \<Rightarrow> string \<Rightarrow> RunMeta option" where
  "get_run st i =
     (case get_run_raw st i of
        None \<Rightarrow> None
      | Some m \<Rightarrow> if rm_deleted_at m \<noteq> None then None else Some m)"

definition with_meta ::
  "fs_io \<Rightarrow> string \<Rightarrow> (RunMeta \<Rightarrow> string + RunMeta) \<Rightarrow> store \<Rightarrow> (string + unit) \<times> store" where
  "with_meta io i f st =
     (case get_run st i of
        None \<Rightarrow> (Inl (''Run '' @ i @ '' not found''), st)
      | Some m \<Rightarrow>
          (case f m of
             Inl e \<Rightarrow> (Inl e, st)
           | Inr m' \<Rightarrow> save_meta io m' st))"

text \<open>
  The next process number, and the number the caller gets: on success the number stored,
  otherwise the error of \<open>with_meta\<close>.
\<close>

definition next_codex_process_seq ::
  "fs_io \<Rightarrow> string \<Rightarrow> store \<Rightarrow> (string + u32) \<times> store" where
  "next_codex_process_seq io i st =
     (let bump = (\<lambda>m. unwrap_or (rm_codex_process_seq m) 0 + 1) in
      case with_meta io i (\<lambda>m. Inr (m\<lparr>rm_codex_process_seq := Some (bump m)\<rparr>)) st of
        (Inl e, st') \<Rightarrow> (Inl e, st')
      | (Inr u, st') \<Rightarrow>
          (Inr (case get_run st i of None \<Rightarrow> 0 | Some m \<Rightarrow> bump m), st'))"

definition update_session_id ::
  "fs_io \<Rightarrow> string \<Rightarrow> string \<Rightarrow> store \<Rightarrow> (string + unit) \<times> store" where
  "update_session_id io i sid st =
     (if sid = [] then (Inr (), st)
      else with_meta io i
             (\<lambda>m. if rm_session_id m = Some sid then Inr m
                  else Inr (m\<lparr>rm_session_id := Some sid\<rparr>)) st)"

definition rename_run ::
  "fs_io \<Rightarrow> string \<Rightarrow> string \<Rightarrow> store \<Rightarrow> (string + unit) \<times> store" where
  "rename_run io i name st =
     with_meta io i (\<lambda>m. Inr (m\<lparr>rm_name := (if name = [] then None else Some name)\<rparr>)) st"

definition update_run_model ::
  "fs_io \<Rightarrow> string \<Rightarrow> string \<Rightarrow> store \<Rightarrow> (string + unit) \<times> store" where
  "update_run_model io i model st =
     with_meta io i (\<lambda>m. Inr (m\<lparr>rm_model := Some model\<rparr>)) st"

definition is_terminal :: "RunStatus \<Rightarrow> bool" where
  "is_terminal s \<longleftrightarrow> s = Completed \<or> s = Failed \<or> s = Stopped"

definition status_update ::
  "string \<Rightarrow> RunStatus \<Rightarrow> i32 option \<Rightarrow> string option \<Rightarrow> RunMeta \<Rightarrow> RunMeta" where
  "status_update now status exit_code error_message m =
     m\<lparr>rm_status := status,
       rm_ended_at := (if is_terminal status then Some now else None),
       rm_exit_code := exit_code,
       rm_error_message := error_message\<rparr>"

definition update_status ::
  "fs_io \<Rightarrow> string \<Rightarrow> string \<Rightarrow> RunStatus \<Rightarrow> i32 option \<Rightarrow> string option \<Rightarrow> store
     \<Rightarrow> (string + unit) \<times> store" where
  "update_status io now i status exit_code error_message st =
     with_meta io i (\<lambda>m. Inr (status_update now status exit_code error_message m)) st"

definition persist_result_error ::
  "fs_io \<Rightarrow> string \<Rightarrow> string option \<Rightarrow> string option \<Rightarrow> store \<Rightarrow> (string + unit) \<times> store" where
  "persist_result_error io i error_message result_subtype st =
     with_meta io i
       (\<lambda>m. Inr (m\<lparr>rm_error_message := error_message, rm_result_subtype := result_subtype\<rparr>)) st"

section \<open>Listing runs\<close>

definition truncate_preview :: "string \<Rightarrow> string" where
  "truncate_preview t =
     (let cs = utf8_chars t in
      if length cs > 100 then concat (take 100 cs) @ ''...'' else t)"

definition is_message_line :: "string \<Rightarrow> bool" where
  "is_message_line l \<longleftrightarrow>
     str_contains l (CHR 0x22 # ''user_message'' @ [CHR 0x22])
     \<or> str_contains l (CHR 0x22 # ''message_complete'' @ [CHR 0x22])
     \<or> str_contains l (CHR 0x22 # ''type'' @ CHR 0x22 # CHR 0x3A # CHR 0x22 # ''user'' @ [CHR 0x22])
     \<or> str_contains l
          (CHR 0x22 # ''type'' @ CHR 0x22 # CHR 0x3A # CHR 0x22 # ''assistant'' @ [CHR 0x22])"

text \<open>One of the last five lines: the timestamp and preview it leaves behind.\<close>

definition summarize_line ::
  "(string \<Rightarrow> json option) \<Rightarrow> string \<Rightarrow> string option \<times> string option
     \<Rightarrow> string option \<times> string option" where
  "summarize_line parse_json line acc =
     (case acc of (last_ts, last_preview) \<Rightarrow>
      (case parse_json line of
         None \<Rightarrow> acc
       | Some ev \<Rightarrow>
           if unwrap_or (get_bool ev ''_bus'') False then
             (or_else (get_str ev ''ts'') last_ts,
              (case j_get ev ''event'' of
                 None \<Rightarrow> last_preview
               | Some inner \<Rightarrow>
                   (let ty = unwrap_or (get_str inner ''type'') [] in
                    if ty = ''user_message'' \<or> ty = ''message_complete''
                    then or_else (map_option truncate_preview (get_str inner ''text'')) last_preview
                    else last_preview)))
           else
             (or_else (get_str ev ''timestamp'') last_ts,
              (let ty = unwrap_or (get_str ev ''type'') [] in
               if ty = ''user'' \<or> ty = ''assistant''
               then or_else
                      (map_option truncate_preview
                         (Option.bind (j_get ev ''payload'') (\<lambda>p. get_str p ''text'')))
                      last_preview
               else last_preview))))"

text \<open>\<open>events\<close> is the content of \<open>events.jsonl\<close>, \<open>None\<close> when it cannot be read.\<close>

definition summarize_events ::
  "(string \<Rightarrow> json option) \<Rightarrow> string option \<Rightarrow> string option \<times> u32 \<times> string option" where
  "summarize_events parse_json events =
     (case events of
        None \<Rightarrow> (None, 0, None)
      | Some content \<Rightarrow>
          (let lines = str_lines content;
               msg_count = foldl (\<lambda>(n :: u32) l.
                   let l' = str_trim l in
                   if l' \<noteq> [] \<and> is_message_line l' then n + 1 else n) 0 lines;
               last_lines = filter (\<lambda>l. str_trim l \<noteq> []) lines;
               tail_start = (if length last_lines > 5 then length last_lines - 5 else 0);
               (last_ts, last_preview) =
                 foldl (\<lambda>acc l. summarize_line parse_json l acc) (None, None)
                   (drop tail_start last_lines)
           in (last_ts, msg_count, last_preview)))"

record run_entry =
  re_is_dir :: bool
  re_meta :: "RunMeta option"
  re_events :: "string option"

text \<open>
  One directory entry of \<open>list_runs\<close>.  \<open>age_hours\<close> is the number of whole hours since an
  RFC 3339 instant, \<open>None\<close> when the text does not parse.
\<close>

definition list_entry ::
  "(string \<Rightarrow> json option) \<Rightarrow> (string \<Rightarrow> int option) \<Rightarrow> run_entry \<Rightarrow> TaskRun option" where
  "list_entry parse_json age_hours e =
     (if \<not> re_is_dir e then None
      else (case re_meta e of
              None \<Rightarrow> None
            | Some m \<Rightarrow>
                if rm_deleted_at m \<noteq> None then None
                else (case summarize_events parse_json (re_events e) of
                        (last_activity, msg_count, last_preview) \<Rightarrow>
                          if msg_count = 0 \<and> rm_status m \<notin> {Running, Pending, Idle}
                             \<and> is_some_and (age_hours (rm_started_at m)) (\<lambda>h. h > 1)
                          then None
                          else Some (to_task_run m last_activity (Some msg_count) last_preview))))"

text \<open>\<open>sort_by(|a, b| b.cmp(a))\<close> is stable: equal keys keep their order.\<close>

definition sort_desc_by :: "('a \<Rightarrow> 'b :: linorder) \<Rightarrow> 'a list \<Rightarrow> 'a list" where
  "sort_desc_by key xs = rev (sort_key key (rev xs))"

definition list_runs ::
  "(string \<Rightarrow> json option) \<Rightarrow> (string \<Rightarrow> int option) \<Rightarrow> run_entry list option \<Rightarrow> TaskRun list" where
  "list_runs parse_json age_hours entries =
     (case entries of
        None \<Rightarrow> []
      | Some es \<Rightarrow>
          sort_desc_by tr_started_at (List.map_filter (list_entry parse_json age_hours) es))"

definition list_all_run_metas :: "run_entry list option \<Rightarrow> RunMeta list" where
  "list_all_run_metas entries =
     (case entries of
        None \<Rightarrow> []
      | Some es \<Rightarrow>
          List.map_filter
            (\<lambda>e. case re_meta e of
                    None \<Rightarrow> None
                  | Some m \<Rightarrow> if rm_deleted_at m \<noteq> None then None else Some m) es)"

section \<open>Recovery after a crash\<close>

definition reconcile_meta :: "string \<Rightarrow> RunMeta \<Rightarrow> RunMeta \<times> bool" where
  "reconcile_meta now m =
     (let (m1, dirty1) =
            (if rm_status m = Running \<or> rm_status m = Idle
             then (m\<lparr>rm_status := Stopped, rm_ended_at := Some now,
                     rm_error_message := Some ''Recovered after app restart''\<rparr>, True)
             else (m, False))
      in if rm_status m1 = Pending
         then (m1\<lparr>rm_status := Failed, rm_ended_at := Some now,
                  rm_error_message := Some ''Session never started''\<rparr>, True)
         else (m1, dirty1))"

fun reconcile_orphaned_runs ::
  "(string \<Rightarrow> fs_io) \<Rightarrow> string \<Rightarrow> string list \<Rightarrow> store \<Rightarrow> store" where
  "reconcile_orphaned_runs io now [] st = st"
| "reconcile_orphaned_runs io now (i # is) st =
     reconcile_orphaned_runs io now is
       (case st i of
          None \<Rightarrow> st
        | Some m \<Rightarrow>
            (case reconcile_meta now m of
               (m', dirty) \<Rightarrow> if dirty then snd (save_meta (io i) m' st) else st))"

section \<open>Soft deletion\<close>

text \<open>\<open>ids.iter().filter(|id| seen.insert(id))\<close>: the first occurrence of each id.\<close>

fun dedup_seen :: "string list \<Rightarrow> string list \<Rightarrow> string list" where
  "dedup_seen seen [] = []"
| "dedup_seen seen (i # is) =
     (if i \<in> set seen then dedup_seen seen is else i # dedup_seen (i # seen) is)"

text \<open>Phase 1: all the metadata to delete, or the first error.\<close>

fun delete_precheck :: "store \<Rightarrow> string list \<Rightarrow> string + RunMeta list" where
  "delete_precheck st [] = Inr []"
| "delete_precheck st (i # is) =
     (case get_run_raw st i of
        None \<Rightarrow> Inl (''Run '' @ i @ '' not found'')
      | Some m \<Rightarrow>
          if rm_deleted_at m \<noteq> None then delete_precheck st is
          else if rm_status m = Running \<or> rm_status m = Pending \<or> rm_status m = Idle
          then Inl (''Cannot delete: run '' @ i @ '' is still active'')
          else (case delete_precheck st is of
                  Inl e \<Rightarrow> Inl e
                | Inr ms \<Rightarrow> Inr (m # ms)))"

fun save_all :: "(string \<Rightarrow> fs_io) \<Rightarrow> RunMeta list \<Rightarrow> store \<Rightarrow> store" where
  "save_all io [] st = st"
| "save_all io (m # ms) st = save_all io ms (snd (save_meta (io (rm_id m)) m st))"

text \<open>
  Phase 2: \<open>done\<close> holds the originals already processed, in order; on a failure they and the
  failing one are written back.  \<open>io\<close> answers the deletions and \<open>io'\<close> the rollback.
\<close>

fun delete_write ::
  "(string \<Rightarrow> fs_io) \<Rightarrow> (string \<Rightarrow> fs_io) \<Rightarrow> string \<Rightarrow> RunMeta list \<Rightarrow> RunMeta list \<Rightarrow> u32 \<Rightarrow> store
     \<Rightarrow> (string + u32) \<times> store" where
  "delete_write io io' now dn [] cnt st = (Inr cnt, st)"
| "delete_write io io' now dn (m # ms) cnt st =
     (case save_meta (io (rm_id m)) (m\<lparr>rm_deleted_at := Some now\<rparr>) st of
        (Inl e, st') \<Rightarrow>
          (Inl (''Failed to delete run '' @ rm_id m @ '': '' @ e @ ''. Rollback attempted.''),
           save_all io' (dn @ [m]) st')
      | (Inr u, st') \<Rightarrow> delete_write io io' now (dn @ [m]) ms (cnt + 1) st')"

definition soft_delete_runs ::
  "(string \<Rightarrow> fs_io) \<Rightarrow> (string \<Rightarrow> fs_io) \<Rightarrow> string \<Rightarrow> string list \<Rightarrow> store
     \<Rightarrow> (string + u32) \<times> store" where
  "soft_delete_runs io io' now ids st =
     (case delete_precheck st (dedup_seen [] ids) of
        Inl e \<Rightarrow> (Inl e, st)
      | Inr ms \<Rightarrow> delete_write io io' now [] ms 0 st)"

section \<open>Laws of the store operations\<close>

definition store_wf :: "store \<Rightarrow> bool" where
  "store_wf st \<longleftrightarrow> (\<forall>i m. st i = Some m \<longrightarrow> rm_id m = i)"

definition saves_ok :: "fs_io \<Rightarrow> bool" where
  "saves_ok io \<longleftrightarrow>
     io_ensure_dir io = None \<and> io_write_tmp io = None
     \<and> rename_loop (io_rename io) 0 3 = Inr ()"

lemma saves_ok_fs_ok [simp]: "saves_ok fs_ok"
  by (simp add: saves_ok_def fs_ok_def numeral_3_eq_3)

lemma save_meta_saves_ok: "saves_ok io \<Longrightarrow> save_meta io m st = (Inr (), st(rm_id m \<mapsto> m))"
  by (simp add: save_meta_def saves_ok_def)

lemma save_meta_Inl: "save_meta io m st = (Inl e, st') \<Longrightarrow> st' = st"
  by (auto simp: save_meta_def split: option.splits sum.splits)

lemma save_meta_Inr: "save_meta io m st = (Inr u, st') \<Longrightarrow> st' = st(rm_id m \<mapsto> m)"
  by (auto simp: save_meta_def split: option.splits sum.splits)

lemma with_meta_Inl: "with_meta io i f st = (Inl e, st') \<Longrightarrow> st' = st"
  by (auto simp: with_meta_def dest: save_meta_Inl split: option.splits sum.splits)

lemma with_meta_Inr:
  assumes "with_meta io i f st = (Inr u, st')"
  obtains m m' where "get_run st i = Some m" "f m = Inr m'" "st' = st(rm_id m' \<mapsto> m')"
  using assms by (auto simp: with_meta_def dest: save_meta_Inr split: option.splits sum.splits)

lemma with_meta_saves_ok:
  assumes "saves_ok io" "get_run st i = Some m" "f m = Inr m'"
  shows "with_meta io i f st = (Inr (), st(rm_id m' \<mapsto> m'))"
  using assms by (simp add: with_meta_def save_meta_saves_ok)

text \<open>
  The interface that the session engine uses: an atomic, fallible modification of one
  entry.  The laws say that a failure changes nothing, and that a success changes that entry
  only, by the function it was given.
\<close>

locale meta_store =
  fixes lookup :: "'s \<Rightarrow> string \<Rightarrow> RunMeta option"
    and modify :: "'io \<Rightarrow> string \<Rightarrow> (RunMeta \<Rightarrow> string + RunMeta) \<Rightarrow> 's \<Rightarrow> (string + unit) \<times> 's"
    and inv :: "'s \<Rightarrow> bool"
  assumes modify_failed: "modify io i f s = (Inl e, s') \<Longrightarrow> s' = s"
    and modify_done: "modify io i f s = (Inr u, s') \<Longrightarrow> inv s \<Longrightarrow>
      (\<And>m m'. f m = Inr m' \<Longrightarrow> rm_id m' = rm_id m \<and> rm_deleted_at m' = rm_deleted_at m) \<Longrightarrow>
      \<exists>m m'. lookup s i = Some m \<and> f m = Inr m' \<and> inv s' \<and> lookup s' = (lookup s)(i \<mapsto> m')"
begin

definition keeps :: "(RunMeta \<Rightarrow> string + RunMeta) \<Rightarrow> bool" where
  "keeps f \<longleftrightarrow>
     (\<forall>m m'. f m = Inr m' \<longrightarrow> rm_id m' = rm_id m \<and> rm_deleted_at m' = rm_deleted_at m)"

lemma modify_inv:
  assumes "inv s" "keeps f"
  shows "inv (snd (modify io i f s))"
proof (cases "modify io i f s")
  case (Pair r s')
  show ?thesis
  proof (cases r)
    case (Inl e)
    with Pair assms show ?thesis by (auto dest: modify_failed)
  next
    case (Inr u)
    with Pair modify_done [of io i f s u s'] assms show ?thesis by (auto simp: keeps_def)
  qed
qed

lemma modify_other:
  assumes "inv s" "keeps f" "j \<noteq> i"
  shows "lookup (snd (modify io i f s)) j = lookup s j"
proof (cases "modify io i f s")
  case (Pair r s')
  show ?thesis
  proof (cases r)
    case (Inl e)
    with Pair show ?thesis by (auto dest: modify_failed)
  next
    case (Inr u)
    with Pair modify_done [of io i f s u s'] assms show ?thesis by (auto simp: keeps_def)
  qed
qed

text \<open>A relation that the function respects, and that is reflexive, holds across the call.\<close>

lemma modify_rel:
  assumes "inv s" "keeps f" "\<And>m m'. f m = Inr m' \<Longrightarrow> R m m'" "\<And>m. R m m"
  shows "rel_option R (lookup s j) (lookup (snd (modify io i f s)) j)"
proof (cases "modify io i f s")
  case (Pair r s')
  show ?thesis
  proof (cases r)
    case (Inl e)
    with Pair assms(4) show ?thesis
      by (cases "lookup s j") (auto dest: modify_failed)
  next
    case (Inr u)
    with Pair modify_done [of io i f s u s'] assms obtain m m' where
      "lookup s i = Some m" "f m = Inr m'" "lookup s' = (lookup s)(i \<mapsto> m')"
      by (auto simp: keeps_def)
    with Pair assms(3,4) show ?thesis by (cases "lookup s j") auto
  qed
qed

end

lemma get_run_upd:
  assumes "rm_deleted_at m' = None"
  shows "get_run (st(i \<mapsto> m')) = (get_run st)(i \<mapsto> m')"
  using assms by (auto simp: get_run_def get_run_raw_def fun_eq_iff)

lemma get_run_Some: "get_run st i = Some m \<longleftrightarrow> st i = Some m \<and> rm_deleted_at m = None"
  by (auto simp: get_run_def get_run_raw_def split: option.splits)

interpretation runs: meta_store get_run with_meta store_wf
proof unfold_locales
  fix io i f s e s'
  assume "with_meta io i f s = (Inl e, s')"
  then show "s' = s" by (rule with_meta_Inl)
next
  fix io i f s u s'
  assume w: "with_meta io i f s = (Inr u, s')" and wf: "store_wf s"
    and k: "\<And>m m'. f m = Inr m' \<Longrightarrow> rm_id m' = rm_id m \<and> rm_deleted_at m' = rm_deleted_at m"
  from w obtain m m' where g: "get_run s i = Some m" and f: "f m = Inr m'"
    and s': "s' = s(rm_id m' \<mapsto> m')" by (rule with_meta_Inr)
  from g wf have "rm_id m = i" by (auto simp: get_run_Some store_wf_def)
  with k [OF f] have i: "rm_id m' = i" by simp
  from g k [OF f] have "rm_deleted_at m' = None" by (simp add: get_run_Some)
  then have "get_run s' = (get_run s)(i \<mapsto> m')" using s' i by (simp add: get_run_upd)
  moreover have "store_wf s'" using wf s' i by (simp add: store_wf_def)
  ultimately show "\<exists>m m'. get_run s i = Some m \<and> f m = Inr m' \<and> store_wf s'
      \<and> get_run s' = (get_run s)(i \<mapsto> m')"
    using g f by blast
qed

section \<open>The retry loop\<close>

lemma rename_loop_3:
  "rename_loop ren 0 3 = Inr () \<longleftrightarrow>
     (\<exists>k < 3. ren k = RenOk \<and> (\<forall>j < k. \<exists>e. ren j = RenDenied e))"
proof -
  have l: "(\<exists>k < 3. P k) \<longleftrightarrow> P 0 \<or> P 1 \<or> P (2 :: nat)" for P
    by (auto simp: numeral_3_eq_3 numeral_2_eq_2 less_Suc_eq)
  have a1: "(\<forall>j < (1 :: nat). P j) \<longleftrightarrow> P 0" for P by auto
  have a2: "(\<forall>j < (2 :: nat). P j) \<longleftrightarrow> P 0 \<and> P 1" for P
    by (auto simp: numeral_2_eq_2 less_Suc_eq)
  have unroll: "rename_loop ren 0 3 = Inr () \<longleftrightarrow>
      ren 0 = RenOk \<or> (\<exists>e. ren 0 = RenDenied e) \<and>
        (ren 1 = RenOk \<or> (\<exists>e. ren 1 = RenDenied e) \<and> ren 2 = RenOk)"
    by (cases "ren 0"; cases "ren 1"; cases "ren 2") (simp_all add: numeral_3_eq_3 numeral_2_eq_2)
  show ?thesis unfolding unroll l a1 a2 by auto
qed

section \<open>Recovery\<close>

lemma reconcile_meta_id [simp]: "rm_id (fst (reconcile_meta now m)) = rm_id m"
  by (auto simp: reconcile_meta_def Let_def)

lemma reconcile_meta_terminal: "is_terminal (rm_status (fst (reconcile_meta now m)))"
  by (cases "rm_status m") (auto simp: reconcile_meta_def is_terminal_def)

lemma reconcile_meta_clean: "\<not> snd (reconcile_meta now m) \<Longrightarrow> fst (reconcile_meta now m) = m"
  by (cases "rm_status m") (simp_all add: reconcile_meta_def)

lemma reconcile_meta_terminal_id:
  "is_terminal (rm_status m) \<Longrightarrow> reconcile_meta now m = (m, False)"
  by (auto simp: reconcile_meta_def is_terminal_def)

lemma reconcile_step:
  assumes "store_wf st" "saves_ok (io i)"
  shows "(case st i of None \<Rightarrow> st
            | Some m \<Rightarrow> (case reconcile_meta now m of
                 (m', dirty) \<Rightarrow> if dirty then snd (save_meta (io i) m' st) else st))
         = st(i := map_option (\<lambda>m. fst (reconcile_meta now m)) (st i))"
proof (cases "st i")
  case None
  then show ?thesis by (simp add: fun_eq_iff)
next
  case (Some m)
  with assms have i: "rm_id m = i" by (simp add: store_wf_def)
  obtain m' d where r: "reconcile_meta now m = (m', d)" by fastforce
  then have "rm_id m' = i" using i reconcile_meta_id [of now m] by simp
  moreover have "\<not> d \<Longrightarrow> m' = m" using r reconcile_meta_clean [of now m] by simp
  ultimately show ?thesis using Some r assms(2) by (auto simp: save_meta_saves_ok)
qed

lemma reconcile_eq:
  assumes "store_wf st" "\<And>i. i \<in> set is \<Longrightarrow> saves_ok (io i)"
  shows "reconcile_orphaned_runs io now is st =
     (\<lambda>i. if i \<in> set is then map_option (\<lambda>m. fst (reconcile_meta now m)) (st i) else st i)"
  using assms
proof (induction "is" arbitrary: st)
  case Nil
  then show ?case by simp
next
  case (Cons i "is")
  let ?r = "\<lambda>m. fst (reconcile_meta now m)"
  let ?st = "st(i := map_option ?r (st i))"
  have idem: "?r (?r m) = ?r m" for m
    by (simp add: reconcile_meta_terminal_id reconcile_meta_terminal)
  have wf: "store_wf ?st" using Cons.prems(1) by (auto simp: store_wf_def)
  have "reconcile_orphaned_runs io now (i # is) st = reconcile_orphaned_runs io now is ?st"
    using reconcile_step [OF Cons.prems(1), of io i now] Cons.prems(2) by simp
  also have "\<dots> = (\<lambda>j. if j \<in> set is then map_option ?r (?st j) else ?st j)"
    by (rule Cons.IH [OF wf]) (simp add: Cons.prems(2))
  finally show ?case by (auto simp: fun_eq_iff option.map_comp comp_def idem)
qed

section \<open>Soft deletion\<close>

lemma set_dedup_seen: "set (dedup_seen seen is) = set is - set seen"
  by (induction seen "is" rule: dedup_seen.induct) auto

lemma distinct_dedup_seen: "distinct (dedup_seen seen is)"
  by (induction seen "is" rule: dedup_seen.induct) (auto simp: set_dedup_seen)

definition deletable :: "store \<Rightarrow> string \<Rightarrow> bool" where
  "deletable st i \<longleftrightarrow> (\<exists>m. st i = Some m \<and> rm_deleted_at m = None \<and> is_terminal (rm_status m))"

lemma delete_precheck_Cons_Inr:
  assumes "delete_precheck st (i # is) = Inr ms"
  obtains (deleted) m where "st i = Some m" "rm_deleted_at m \<noteq> None"
      "delete_precheck st is = Inr ms"
    | (live) m ms' where "st i = Some m" "rm_deleted_at m = None" "is_terminal (rm_status m)"
      "delete_precheck st is = Inr ms'" "ms = m # ms'"
proof (cases "st i")
  case None
  with assms show ?thesis by (simp add: get_run_raw_def)
next
  case (Some m)
  show ?thesis
  proof (cases "rm_deleted_at m = None")
    case False
    with Some assms deleted show ?thesis by (simp add: get_run_raw_def)
  next
    case True
    with Some assms obtain ms' where "ms = m # ms'" "delete_precheck st is = Inr ms'"
        and "rm_status m \<noteq> Running" "rm_status m \<noteq> Pending" "rm_status m \<noteq> Idle"
      by (auto simp: get_run_raw_def split: sum.splits if_splits)
    moreover from this have "is_terminal (rm_status m)"
      by (cases "rm_status m") (auto simp: is_terminal_def)
    ultimately show ?thesis using Some True live by simp
  qed
qed

lemma delete_precheck_Inr:
  assumes "delete_precheck st is = Inr ms" "store_wf st"
  shows "map rm_id ms = filter (deletable st) is
    \<and> (\<forall>m \<in> set ms. st (rm_id m) = Some m \<and> rm_deleted_at m = None)
    \<and> (\<forall>i \<in> set is. \<exists>m. st i = Some m \<and> (rm_deleted_at m \<noteq> None \<or> is_terminal (rm_status m)))"
  using assms
proof (induction "is" arbitrary: ms)
  case Nil
  then show ?case by simp
next
  case (Cons i "is")
  from Cons.prems(1) show ?case
  proof (cases rule: delete_precheck_Cons_Inr)
    case (deleted m)
    then have "\<not> deletable st i" by (simp add: deletable_def)
    with Cons.IH [OF deleted(3) Cons.prems(2)] deleted show ?thesis by simp
  next
    case (live m ms')
    then have "deletable st i" by (simp add: deletable_def)
    moreover have "rm_id m = i" using live(1) Cons.prems(2) by (simp add: store_wf_def)
    ultimately show ?thesis using Cons.IH [OF live(4) Cons.prems(2)] live by simp
  qed
qed

lemma delete_write_Inr:
  assumes "delete_write io io' now dn ms c st = (Inr n, st')"
    and "\<forall>m \<in> set ms. st (rm_id m) = Some m" "distinct (map rm_id ms)"
  shows "n = c + of_nat (length ms)
    \<and> st' = (\<lambda>i. if i \<in> rm_id ` set ms
                then map_option (\<lambda>m. m\<lparr>rm_deleted_at := Some now\<rparr>) (st i) else st i)"
  using assms
proof (induction ms arbitrary: dn c st)
  case Nil
  then show ?case by simp
next
  case (Cons m ms)
  from Cons.prems(1) obtain u where
    s: "save_meta (io (rm_id m)) (m\<lparr>rm_deleted_at := Some now\<rparr>) st
        = (Inr u, st(rm_id m \<mapsto> m\<lparr>rm_deleted_at := Some now\<rparr>))"
    by (auto dest: save_meta_Inr split: prod.splits sum.splits)
  let ?st = "st(rm_id m \<mapsto> m\<lparr>rm_deleted_at := Some now\<rparr>)"
  have "\<forall>x \<in> set ms. ?st (rm_id x) = Some x"
  proof
    fix x assume "x \<in> set ms"
    with Cons.prems(3) have "rm_id x \<noteq> rm_id m" by (metis distinct.simps(2) image_eqI list.set_map list.simps(9))
    with \<open>x \<in> set ms\<close> Cons.prems(2) show "?st (rm_id x) = Some x" by simp
  qed
  moreover have "delete_write io io' now (dn @ [m]) ms (c + 1) ?st = (Inr n, st')"
    using Cons.prems(1) by (simp only: delete_write.simps s prod.case sum.case)
  moreover have "distinct (map rm_id ms)" using Cons.prems(3) by simp
  ultimately have "n = c + 1 + of_nat (length ms)"
    "st' = (\<lambda>i. if i \<in> rm_id ` set ms
                then map_option (\<lambda>m. m\<lparr>rm_deleted_at := Some now\<rparr>) (?st i) else ?st i)"
    using Cons.IH [of "dn @ [m]" "c + 1" ?st] by blast+
  moreover have "st (rm_id m) = Some m" using Cons.prems(2) by simp
  moreover have "rm_id m \<notin> rm_id ` set ms" using Cons.prems(3) by (simp add: image_image)
  ultimately show ?case by (simp add: fun_eq_iff)
qed

lemma save_all_restores:
  assumes "\<forall>m \<in> set ms. orig (rm_id m) = Some m" "\<And>i. saves_ok (io i)"
    and "\<And>i. i \<notin> rm_id ` set ms \<Longrightarrow> st i = orig i"
  shows "save_all io ms st = orig"
  using assms
proof (induction ms arbitrary: st)
  case Nil
  then show ?case by (simp add: fun_eq_iff)
next
  case (Cons m ms)
  have "save_all io (m # ms) st = save_all io ms (st(rm_id m \<mapsto> m))"
    using Cons.prems(2) by (simp add: save_meta_saves_ok)
  also have "\<dots> = orig"
    using Cons.prems by (intro Cons.IH) (auto simp: image_iff)
  finally show ?case .
qed

lemma delete_write_rollback:
  assumes "delete_write io io' now dn ms c st = (Inl e, st')"
    and "\<forall>m \<in> set (dn @ ms). orig (rm_id m) = Some m" "\<And>i. saves_ok (io' i)"
    and "\<And>i. i \<notin> rm_id ` set dn \<Longrightarrow> st i = orig i"
  shows "st' = orig"
  using assms
proof (induction ms arbitrary: dn c st)
  case Nil
  then show ?case by simp
next
  case (Cons m ms)
  show ?case
  proof (cases "save_meta (io (rm_id m)) (m\<lparr>rm_deleted_at := Some now\<rparr>) st")
    case (Pair r st1)
    show ?thesis
    proof (cases r)
      case (Inl x)
      with Pair have "st1 = st" by (auto dest: save_meta_Inl)
      with Pair Inl Cons.prems have "st' = save_all io' (dn @ [m]) st" by simp
      also have "\<dots> = orig" using Cons.prems(2-4) by (intro save_all_restores) auto
      finally show ?thesis .
    next
      case (Inr u)
      with Pair have st1: "st1 = st(rm_id m \<mapsto> m\<lparr>rm_deleted_at := Some now\<rparr>)"
        by (auto dest: save_meta_Inr)
      show ?thesis
      proof (rule Cons.IH)
        show "delete_write io io' now (dn @ [m]) ms (c + 1) st1 = (Inl e, st')"
          using Cons.prems(1) Pair Inr by simp
      qed (use Cons.prems(2-4) st1 in auto)
    qed
  qed
qed

section \<open>Properties\<close>

text \<open>A concrete run, for the witnesses.\<close>

definition sample_meta :: "string \<Rightarrow> RunStatus \<Rightarrow> RunMeta" where
  "sample_meta i status =
     \<lparr> rm_id = i, rm_prompt = ''p'', rm_cwd = ''/w'', rm_agent = ''claude'',
       rm_auth_mode = ''cli'', rm_status = status, rm_started_at = ''2026-01-01'',
       rm_ended_at = None, rm_exit_code = None, rm_error_message = None,
       rm_session_id = None, rm_result_subtype = None, rm_model = None,
       rm_parent_run_id = None, rm_name = None, rm_remote_host_name = None,
       rm_remote_cwd = None, rm_remote_host_snapshot = None, rm_platform_id = None,
       rm_platform_base_url = None, rm_source = None, rm_cli_import_watermark = None,
       rm_cli_session_path = None, rm_cli_usage_incomplete = None, rm_deleted_at = None,
       rm_no_session_persistence = False, rm_execution_path = None,
       rm_conversation_ref = None, rm_codex_process_seq = None,
       rm_codex_imported_rollouts = None \<rparr>"

definition sample_store :: store where
  "sample_store = [''a'' \<mapsto> sample_meta ''a'' Running, ''b'' \<mapsto> sample_meta ''b'' Completed]"

lemma sample_store_wf [simp]: "store_wf sample_store"
  by (simp add: store_wf_def sample_store_def sample_meta_def)

text \<open>
  C9: when the server starts again and every save succeeds, recovery leaves no run of the
  directory pending, running or idle, gives each such orphan its end time, keeps the runs
  that had ended as they were, and writes no other run.
\<close>

theorem recovery_no_orphans:
  assumes "store_wf st" and "\<And>i. i \<in> set is \<Longrightarrow> saves_ok (io i)"
    and "i \<in> set is" and "st i = Some m"
  shows "\<exists>m'. reconcile_orphaned_runs io now is st i = Some m' \<and> is_terminal (rm_status m')
      \<and> (is_terminal (rm_status m) \<longrightarrow> m' = m)
      \<and> (\<not> is_terminal (rm_status m) \<longrightarrow> rm_ended_at m' = Some now)
      \<and> (rm_status m = Pending \<longrightarrow> rm_status m' = Failed)
      \<and> (rm_status m \<in> {Running, Idle} \<longrightarrow> rm_status m' = Stopped)
      \<and> (\<forall>j. j \<notin> set is \<longrightarrow> reconcile_orphaned_runs io now is st j = st j)"
proof -
  let ?m' = "fst (reconcile_meta now m)"
  have "reconcile_orphaned_runs io now is st i = Some ?m'"
    using assms by (simp add: reconcile_eq)
  moreover have "\<forall>j. j \<notin> set is \<longrightarrow> reconcile_orphaned_runs io now is st j = st j"
    using assms by (simp add: reconcile_eq)
  moreover have "is_terminal (rm_status ?m')" by (rule reconcile_meta_terminal)
  moreover have "is_terminal (rm_status m) \<longrightarrow> ?m' = m" by (simp add: reconcile_meta_terminal_id)
  moreover have "\<not> is_terminal (rm_status m) \<longrightarrow> rm_ended_at ?m' = Some now"
    by (cases "rm_status m") (simp_all add: reconcile_meta_def is_terminal_def)
  moreover have "rm_status m = Pending \<longrightarrow> rm_status ?m' = Failed"
    "rm_status m \<in> {Running, Idle} \<longrightarrow> rm_status ?m' = Stopped"
    by (auto simp: reconcile_meta_def)
  ultimately show ?thesis by blast
qed

theorem recovery_no_orphans_witness:
  "\<exists>m'. reconcile_orphaned_runs (\<lambda>_. fs_ok) ''t'' [''b'', ''a''] sample_store ''a'' = Some m'
      \<and> rm_status m' = Stopped \<and> rm_ended_at m' = Some ''t''"
proof -
  have a: "sample_store ''a'' = Some (sample_meta ''a'' Running)" by (simp add: sample_store_def)
  have "rm_status (sample_meta ''a'' Running) = Running" by (simp add: sample_meta_def)
  with recovery_no_orphans [of sample_store "[''b'', ''a'']" "\<lambda>_. fs_ok" "''a''" _ "''t''", OF _ _ _ a]
  show ?thesis by (auto simp: is_terminal_def)
qed

text \<open>
  A soft deletion that succeeds hides exactly the requested runs and touches no other;
  it happens only when none of them is active, and it counts the runs it newly deleted.
\<close>

theorem soft_delete_success:
  assumes "store_wf st" "soft_delete_runs io io' now ids st = (Inr n, st')"
  shows "(\<forall>i \<in> set ids. get_run st' i = None
            \<and> (\<exists>m. st i = Some m \<and> (rm_deleted_at m \<noteq> None \<or> is_terminal (rm_status m))))
      \<and> (\<forall>i. i \<notin> set ids \<longrightarrow> st' i = st i)
      \<and> n = of_nat (length (filter (deletable st) (dedup_seen [] ids)))"
proof -
  from assms(2) obtain ms where ms: "delete_precheck st (dedup_seen [] ids) = Inr ms"
    and w: "delete_write io io' now [] ms 0 st = (Inr n, st')"
    by (auto simp: soft_delete_runs_def split: sum.splits)
  note pre = delete_precheck_Inr [OF ms assms(1)]
  have ids: "rm_id ` set ms = {i \<in> set ids. deletable st i}"
  proof -
    have "set (map rm_id ms) = set (filter (deletable st) (dedup_seen [] ids))" using pre by simp
    then show ?thesis by (auto simp: set_dedup_seen)
  qed
  have "distinct (map rm_id ms)" using pre by (simp add: distinct_dedup_seen)
  then have st': "st' = (\<lambda>i. if i \<in> rm_id ` set ms
        then map_option (\<lambda>m. m\<lparr>rm_deleted_at := Some now\<rparr>) (st i) else st i)"
    and n: "n = 0 + of_nat (length ms)"
    using delete_write_Inr [OF w] pre by blast+
  have "length ms = length (map rm_id ms)" by simp
  then have "length ms = length (filter (deletable st) (dedup_seen [] ids))" using pre by simp
  moreover have "get_run st' i = None
      \<and> (\<exists>m. st i = Some m \<and> (rm_deleted_at m \<noteq> None \<or> is_terminal (rm_status m)))"
    if i: "i \<in> set ids" for i
  proof -
    from i pre obtain m where m: "st i = Some m" "rm_deleted_at m \<noteq> None \<or> is_terminal (rm_status m)"
      by (auto simp: set_dedup_seen)
    moreover have "get_run st' i = None"
    proof (cases "deletable st i")
      case True
      with i m(1) show ?thesis by (simp add: get_run_def get_run_raw_def st' ids)
    next
      case False
      with m have "rm_deleted_at m \<noteq> None" by (auto simp: deletable_def)
      with False m(1) show ?thesis by (simp add: get_run_def get_run_raw_def st' ids)
    qed
    ultimately show ?thesis by blast
  qed
  ultimately show ?thesis using st' n ids by simp
qed

theorem soft_delete_success_witness:
  "get_run (snd (soft_delete_runs (\<lambda>_. fs_ok) (\<lambda>_. fs_ok) ''t'' [''b'', ''b''] sample_store)) ''b'' = None
   \<and> fst (soft_delete_runs (\<lambda>_. fs_ok) (\<lambda>_. fs_ok) ''t'' [''b'', ''b''] sample_store) = Inr 1"
proof -
  let ?r = "soft_delete_runs (\<lambda>_. fs_ok) (\<lambda>_. fs_ok) ''t'' [''b'', ''b''] sample_store"
  have "fst ?r = Inr 1"
    by (simp add: soft_delete_runs_def get_run_raw_def sample_store_def sample_meta_def
        save_meta_saves_ok)
  moreover from this have "?r = (Inr 1, snd ?r)" by (metis prod.collapse)
  ultimately show ?thesis using soft_delete_success [OF sample_store_wf, of _ _ _ _ 1] by simp
qed

text \<open>
  C25: a soft deletion that reports an error leaves the store as it was, provided that the
  writes of the rollback succeed: the pre-check rejects before any write, and a failed write
  is undone together with all that came before it.
\<close>

theorem soft_delete_failure_atomic:
  assumes "store_wf st" "\<And>i. saves_ok (io' i)"
    and "soft_delete_runs io io' now ids st = (Inl e, st')"
  shows "st' = st"
proof (cases "delete_precheck st (dedup_seen [] ids)")
  case (Inl x)
  with assms(3) show ?thesis by (simp add: soft_delete_runs_def)
next
  case (Inr ms)
  with assms(3) have w: "delete_write io io' now [] ms 0 st = (Inl e, st')"
    by (simp add: soft_delete_runs_def)
  have "\<forall>m \<in> set ([] @ ms). st (rm_id m) = Some m"
    using delete_precheck_Inr [OF Inr assms(1)] by simp
  from delete_write_rollback [OF w this assms(2)] show ?thesis by simp
qed

theorem soft_delete_failure_atomic_witness:
  "\<exists>e. soft_delete_runs (\<lambda>_. fs_ok) (\<lambda>_. fs_ok) ''t'' [''b'', ''a''] sample_store
       = (Inl e, sample_store)"
proof -
  let ?r = "soft_delete_runs (\<lambda>_. fs_ok) (\<lambda>_. fs_ok) ''t'' [''b'', ''a''] sample_store"
  have "\<exists>e. fst ?r = Inl e"
    by (simp add: soft_delete_runs_def get_run_raw_def sample_store_def sample_meta_def)
  then obtain e where "?r = (Inl e, snd ?r)" by (metis prod.collapse)
  moreover from soft_delete_failure_atomic [OF sample_store_wf _ this] have "snd ?r = sample_store"
    by simp
  ultimately show ?thesis by metis
qed

text \<open>
  An atomic save of the metadata succeeds exactly when the directory and the temporary
  file can be written and one of the first three renames succeeds after nothing but
  permission errors; whatever it reports, the store holds either the old or the new metadata
  of that run, and the store changes only on success.
\<close>

theorem save_meta_atomic:
  "(fst (save_meta io m st) = Inr () \<longleftrightarrow>
     io_ensure_dir io = None \<and> io_write_tmp io = None
     \<and> (\<exists>k < 3. io_rename io k = RenOk \<and> (\<forall>j < k. \<exists>e. io_rename io j = RenDenied e)))
   \<and> snd (save_meta io m st) = (if fst (save_meta io m st) = Inr () then st(rm_id m \<mapsto> m) else st)"
  by (auto simp: save_meta_def rename_loop_3 [symmetric] split: option.splits sum.splits)

text \<open>Two denied renames and then a good one: the third attempt succeeds.\<close>

definition denied_twice :: fs_io where
  "denied_twice =
     fs_ok\<lparr>io_rename := (\<lambda>k. if k = 2 then RenOk else RenDenied ''denied'')\<rparr>"

theorem save_meta_atomic_witness:
  "fst (save_meta denied_twice (sample_meta ''r'' Idle) (\<lambda>_. None)) = Inr ()
   \<and> snd (save_meta denied_twice (sample_meta ''r'' Idle) (\<lambda>_. None)) = [''r'' \<mapsto> sample_meta ''r'' Idle]"
proof -
  have "\<exists>k < 3. io_rename denied_twice k = RenOk
          \<and> (\<forall>j < k. \<exists>e. io_rename denied_twice j = RenDenied e)"
    by (rule exI [of _ "2::nat"]) (simp add: denied_twice_def)
  then show ?thesis
    using save_meta_atomic [of denied_twice "sample_meta ''r'' Idle" "\<lambda>_. None"]
    by (simp add: denied_twice_def fs_ok_def sample_meta_def)
qed

text \<open>
  The list of runs is ordered by start time, latest first, and holds exactly the runs of
  the directory that are not deleted and that are active, have a message, started recently or
  have a start time that does not parse.
\<close>

theorem list_runs_correct:
  "sorted_wrt (\<lambda>a b. tr_started_at a \<ge> tr_started_at b)
     (list_runs parse_json age_hours (Some es))
   \<and> mset (list_runs parse_json age_hours (Some es))
      = mset (List.map_filter (list_entry parse_json age_hours) es)"
proof -
  have "sorted (map tr_started_at (sort_key tr_started_at xs))" for xs by simp
  then have "sorted_wrt (\<lambda>a b. tr_started_at a \<ge> tr_started_at b) (sort_desc_by tr_started_at xs)" for xs
    by (simp add: sort_desc_by_def sorted_wrt_rev sorted_wrt_map)
  then show ?thesis by (simp add: list_runs_def sort_desc_by_def)
qed

end
