(* ===== verification/ActorText.thy ===== *)
theory ActorText
  imports TurnEngine
begin

text \<open>
  The text helpers of \<open>agent/session_actor.rs\<close>: ANSI stripping, the promise tag, truncation on
  a character boundary, the control response, and the user payload with its attachments; also
  the mode mappings of \<open>agent/adapter.rs\<close> and \<open>commands/session.rs\<close> that the actor calls.
  Strings are byte strings in UTF-8.  The result \<open>None\<close> of a function that slices a string is
  the panic of the slice (the release build aborts the process then).
\<close>

section \<open>Text helpers\<close>

definition ESC :: char where "ESC = CHR 0x1B"

definition is_csi_final :: "char \<Rightarrow> bool" where
  "is_csi_final c \<longleftrightarrow> (let n = (of_char c :: nat) in 0x40 \<le> n \<and> n \<le> 0x7E)"

text \<open>The inner loop: consume up to the final byte, inclusive.\<close>

fun skip_csi :: "string \<Rightarrow> string" where
  "skip_csi [] = []"
| "skip_csi (n # cs) = (if is_csi_final n then cs else skip_csi cs)"

lemma length_skip_csi: "length (skip_csi cs) \<le> length cs"
  by (induction cs) auto

function strip_ansi :: "string \<Rightarrow> string" where
  "strip_ansi [] = []"
| "strip_ansi (c # cs) =
     (if c = ESC
      then (if cs \<noteq> [] \<and> hd cs = CHR ''['' then strip_ansi (skip_csi (tl cs)) else strip_ansi cs)
      else c # strip_ansi cs)"
  by pat_completeness auto
termination
  by (relation "measure length")
    (auto simp: less_Suc_eq_le intro!: le_trans [OF length_skip_csi])

definition extract_promise_tag :: "string \<Rightarrow> string option option" where
  "extract_promise_tag text =
     (case str_find text ''<promise>'' of
        None \<Rightarrow> Some None
      | Some start \<Rightarrow>
          (case str_find text ''</promise>'' of
             None \<Rightarrow> Some None
           | Some end \<Rightarrow>
               if end \<le> start + 9 then Some None
               else map_option (\<lambda>s. Some (str_trim s)) (str_slice text (start + 9) end)))"

text \<open>The loop that snaps \<open>end\<close> down to a character boundary.\<close>

fun boundary_down :: "string \<Rightarrow> nat \<Rightarrow> nat" where
  "boundary_down s 0 = 0"
| "boundary_down s (Suc n) = (if is_char_boundary s (Suc n) then Suc n else boundary_down s n)"

definition truncate_str :: "string \<Rightarrow> nat \<Rightarrow> string option" where
  "truncate_str s mx =
     (if length s \<le> mx then Some s else str_slice s 0 (boundary_down s mx))"

definition build_control_response :: "string \<Rightarrow> string + json \<Rightarrow> json" where
  "build_control_response request_id outcome =
     (let inner =
        (case outcome of
           Inr response \<Rightarrow>
             JObj [(''subtype'', JStr ''success''), (''request_id'', JStr request_id),
                   (''response'', response)]
         | Inl error \<Rightarrow>
             JObj [(''subtype'', JStr ''error''), (''request_id'', JStr request_id),
                   (''error'', JStr error)])
      in JObj [(''type'', JStr ''control_response''), (''response'', inner)])"

definition map_state_to_run_status :: "string \<Rightarrow> RunStatus option" where
  "map_state_to_run_status state =
     (if state = ''spawning'' \<or> state = ''running'' then Some Running
      else if state = ''completed'' then Some Completed
      else if state = ''failed'' then Some Failed
      else if state = ''stopped'' then Some Stopped
      else if state = ''idle'' then Some Idle
      else None)"

section \<open>Permission modes\<close>

definition map_permission_mode :: "string \<Rightarrow> string" where
  "map_permission_mode mode =
     (if mode = ''ask'' then ''default''
      else if mode = ''auto_read'' then ''acceptEdits''
      else if mode = ''auto_all'' then ''bypassPermissions''
      else if mode = ''auto'' then ''auto''
      else if mode = ''delegate'' then ''acceptEdits''
      else if mode = ''dont_ask'' then ''dontAsk''
      else if mode = ''plan'' then ''plan''
      else mode)"

definition codex_sandbox_for :: "string option \<Rightarrow> string" where
  "codex_sandbox_for perm =
     (if perm = Some ''plan'' then ''read-only''
      else if perm = Some ''bypassPermissions'' \<or> perm = Some ''dontAsk''
      then ''danger-full-access''
      else ''workspace-write'')"

definition codex_approval_for :: "string option \<Rightarrow> string" where
  "codex_approval_for perm =
     (if perm = Some ''bypassPermissions'' \<or> perm = Some ''dontAsk'' then ''never''
      else ''on-request'')"

section \<open>Attachments\<close>

text \<open>
  What the operating system and the crates answer while an attachment is saved: the attachment
  directory, whether it can be created, the base64 decoder, the clock in milliseconds, a fresh
  UUID, whether the file can be written, its length as the file system reports it, and which
  characters outside ASCII are alphanumeric (the Unicode tables).
\<close>

record att_io =
  ai_dir :: string
  ai_mkdir_ok :: bool
  ai_decode :: "string \<Rightarrow> string option"
  ai_now_ms :: nat
  ai_uuid :: string
  ai_write_ok :: bool
  ai_file_len :: u64
  ai_alnum :: "string \<Rightarrow> bool"

definition ascii_alnum :: "char \<Rightarrow> bool" where
  "ascii_alnum c \<longleftrightarrow>
     (let n = (of_char c :: nat) in
      48 \<le> n \<and> n \<le> 57 \<or> 65 \<le> n \<and> n \<le> 90 \<or> 97 \<le> n \<and> n \<le> 122)"

text \<open>One character (its UTF-8 bytes) of a file name, replaced by \<open>_\<close> unless it is safe.\<close>

definition safe_char :: "(string \<Rightarrow> bool) \<Rightarrow> string \<Rightarrow> string" where
  "safe_char alnum c =
     (if (case c of [b] \<Rightarrow> ascii_alnum b \<or> b = CHR ''.'' \<or> b = CHR ''_'' \<or> b = CHR ''-''
          | _ \<Rightarrow> alnum c)
      then c else ''_'')"

definition att_cleaned :: "(string \<Rightarrow> bool) \<Rightarrow> string \<Rightarrow> string" where
  "att_cleaned alnum name = concat (map (safe_char alnum) (utf8_chars name))"

definition att_safe_filename :: "(string \<Rightarrow> bool) \<Rightarrow> string \<Rightarrow> string option" where
  "att_safe_filename alnum name =
     (let cleaned = att_cleaned alnum name in
      case (if length cleaned > 120 then str_slice cleaned 0 120 else Some cleaned) of
        None \<Rightarrow> None
      | Some truncated \<Rightarrow>
          if truncated = [] then Some ''attachment.bin'' else Some truncated)"

definition att_extension :: "string \<Rightarrow> string" where
  "att_extension mime =
     (if starts_with mime ''image/png'' then ''.png''
      else if starts_with mime ''image/jpeg'' then ''.jpg''
      else if starts_with mime ''image/webp'' then ''.webp''
      else if starts_with mime ''image/gif'' then ''.gif''
      else if starts_with mime ''application/pdf'' then ''.pdf''
      else [])"

text \<open>The outer option is the panic, the inner one the result.\<close>

definition save_attachment_to_disk :: "att_io \<Rightarrow> AttachmentData \<Rightarrow> string option option" where
  "save_attachment_to_disk io att =
     (if \<not> ai_mkdir_ok io then Some None
      else case ai_decode io (ad_content_base64 att) of
        None \<Rightarrow> Some None
      | Some bytes \<Rightarrow>
          if bytes = [] then Some None
          else case att_safe_filename (ai_alnum io) (ad_filename att) of
            None \<Rightarrow> None
          | Some safe_name \<Rightarrow>
              if \<not> ai_write_ok io then Some None
              else Some (Some (ai_dir io @ ''/'' @ show_nat (ai_now_ms io) @ ''-''
                     @ take 6 (ai_uuid io) @ ''-'' @ safe_name
                     @ att_extension (ad_media_type att))))"

definition att_source :: "string \<Rightarrow> AttachmentData \<Rightarrow> json" where
  "att_source kind att =
     JObj [(''type'', JStr kind),
           (''source'', JObj [(''type'', JStr ''base64''),
                              (''media_type'', JStr (ad_media_type att)),
                              (''data'', JStr (ad_content_base64 att))])]"

definition att_oversized :: "AttachmentData \<Rightarrow> bool" where
  "att_oversized att \<longleftrightarrow>
     (of_nat (length (ad_content_base64 att)) * 3 :: u64) div 4
       > max_attachment_size (ad_media_type att)"

definition att_part :: "AttachmentData \<Rightarrow> json list" where
  "att_part att =
     (if List.member ALLOWED_DOC_TYPES (ad_media_type att) then [att_source ''document'' att]
      else if List.member ALLOWED_IMAGE_TYPES (ad_media_type att) then [att_source ''image'' att]
      else [])"

text \<open>
  The loop over the attachments: their parts and the paths they were saved at, or \<open>None\<close> when
  one panics.  \<open>ios\<close> answers for the attachments in turn.
\<close>

fun att_loop ::
  "(nat \<Rightarrow> att_io) \<Rightarrow> nat \<Rightarrow> AttachmentData list \<Rightarrow> (json list \<times> string list) option" where
  "att_loop ios k [] = Some ([], [])"
| "att_loop ios k (att # atts) =
     (if att_oversized att then att_loop ios (Suc k) atts
      else case save_attachment_to_disk (ios k) att of
        None \<Rightarrow> None
      | Some path \<Rightarrow>
          (case att_loop ios (Suc k) atts of
             None \<Rightarrow> None
           | Some (parts, paths) \<Rightarrow>
               Some (att_part att @ parts,
                     (case path of None \<Rightarrow> paths | Some p \<Rightarrow> p # paths))))"

definition augmented_text :: "string \<Rightarrow> string list \<Rightarrow> string" where
  "augmented_text text paths =
     (if paths = [] then text
      else text @ [CHR 0x0A, CHR 0x0A] @ ''[Attached files saved at:'' @ [CHR 0x0A]
             @ str_join [CHR 0x0A] (map (\<lambda>p. ''- '' @ p) paths) @ [CHR 0x0A]
             @ ''Use these file paths with the Read tool if you need to access them later.]'')"

definition build_user_payload ::
  "(nat \<Rightarrow> att_io) \<Rightarrow> string \<Rightarrow> string \<Rightarrow> AttachmentData list \<Rightarrow> (json \<times> string) option" where
  "build_user_payload ios uuid text attachments =
     map_option
       (\<lambda>content.
          (JObj [(''type'', JStr ''user''), (''uuid'', JStr uuid),
                 (''message'', JObj [(''role'', JStr ''user''), (''content'', content)])],
           uuid))
       (if attachments = [] then Some (JStr text)
        else map_option
          (\<lambda>(parts, paths).
             JArr (JObj [(''type'', JStr ''text''), (''text'', JStr (augmented_text text paths))]
                   # parts))
          (att_loop ios 0 attachments))"

text \<open>
  The attachments of a Codex turn: every one that is saved is listed in the breadcrumb, and the
  images are passed as paths.
\<close>

definition codex_breadcrumb :: "att_io \<Rightarrow> AttachmentData \<Rightarrow> string \<Rightarrow> string" where
  "codex_breadcrumb io att path =
     ''- '' @ ad_filename att @ '' ('' @ ad_media_type att @ '', ''
       @ show_nat (unat (ai_file_len io)) @ '' bytes) => '' @ path"

fun codex_att_loop ::
  "(nat \<Rightarrow> att_io) \<Rightarrow> nat \<Rightarrow> AttachmentData list \<Rightarrow> (string list \<times> string list) option" where
  "codex_att_loop ios k [] = Some ([], [])"
| "codex_att_loop ios k (att # atts) =
     (case save_attachment_to_disk (ios k) att of
        None \<Rightarrow> None
      | Some None \<Rightarrow> codex_att_loop ios (Suc k) atts
      | Some (Some path) \<Rightarrow>
          map_option
            (\<lambda>(images, crumbs).
               ((if starts_with (ad_media_type att) ''image/'' then path # images else images),
                codex_breadcrumb (ios k) att path # crumbs))
            (codex_att_loop ios (Suc k) atts))"

definition codex_augmented :: "string \<Rightarrow> string list \<Rightarrow> string" where
  "codex_augmented text crumbs =
     (if crumbs = [] then text
      else text @ [CHR 0x0A, CHR 0x0A] @ ''Attached files:'' @ [CHR 0x0A]
             @ str_join [CHR 0x0A] crumbs @ [CHR 0x0A]
             @ ''Use these local file paths directly when needed.'')"


section \<open>Laws of the text helpers\<close>

lemma boundary_down_le: "boundary_down s n \<le> n"
  by (induction n) auto

lemma boundary_down_boundary: "is_char_boundary s (boundary_down s n)"
  by (induction n) auto

lemma boundary_down_greatest: "k \<le> n \<Longrightarrow> is_char_boundary s k \<Longrightarrow> k \<le> boundary_down s n"
  by (induction n) (auto simp: le_Suc_eq)

lemma truncate_str_long:
  "length s > n \<Longrightarrow> truncate_str s n = Some (take (boundary_down s n) s)"
  using boundary_down_le [of s n] boundary_down_boundary [of s n]
  by (auto simp: truncate_str_def str_slice_def)

lemma strip_ansi_plain: "ESC \<notin> set s \<Longrightarrow> strip_ansi s = s"
  by (induction s) auto

lemma skip_csi_set: "set (skip_csi cs) \<subseteq> set cs"
  by (induction cs) auto

lemma strip_ansi_set: "set (strip_ansi s) \<subseteq> set s - {ESC}"
proof (induction s rule: strip_ansi.induct)
  case (2 c cs)
  have "set (skip_csi (tl cs)) \<subseteq> set cs"
    using skip_csi_set [of "tl cs"] by (cases cs) auto
  with 2 show ?case by auto
qed simp

lemma safe_char_nonempty: "c \<noteq> [] \<Longrightarrow> safe_char alnum c \<noteq> []"
  by (auto simp: safe_char_def)

text \<open>
  Truncation never panics and gives the longest prefix of at most that many bytes that
  ends on a character boundary.
\<close>

theorem truncate_str_longest:
  "\<exists>t. truncate_str s n = Some t \<and> starts_with s t \<and> length t \<le> n
     \<and> is_char_boundary s (length t)
     \<and> (\<forall>k \<le> n. is_char_boundary s k \<longrightarrow> k \<le> length s \<longrightarrow> k \<le> length t)"
proof (cases "length s \<le> n")
  case True
  then show ?thesis by (auto simp: truncate_str_def)
next
  case False
  then have "length (take (boundary_down s n) s) = boundary_down s n"
    using boundary_down_le [of s n] by simp
  with False show ?thesis
    using boundary_down_le [of s n] boundary_down_boundary [of s n] boundary_down_greatest [of _ n s]
    by (auto simp: truncate_str_long starts_with_def)
qed

theorem truncate_str_longest_witness:
  "\<exists>t. truncate_str (''ab'' @ [CHR 0xC3, CHR 0xA9]) 3 = Some t \<and> length t \<ge> 2"
  using truncate_str_longest [of "''ab'' @ [CHR 0xC3, CHR 0xA9]" 3]
  by (auto simp: is_char_boundary_def is_cont_def dest!: spec [of _ 2])

text \<open>
  Stripping the ANSI sequences of a line leaves no escape character, keeps a line
  without one as it is, and so a second pass changes nothing.
\<close>

theorem strip_ansi_clean:
  "ESC \<notin> set (strip_ansi s) \<and> strip_ansi (strip_ansi s) = strip_ansi s
   \<and> (ESC \<in> set s \<or> strip_ansi s = s)"
  using strip_ansi_set [of s] strip_ansi_plain [of s] strip_ansi_plain [of "strip_ansi s"] by blast

lemma extract_promise_tag_sound:
  assumes "extract_promise_tag text = Some (Some t)"
  shows "\<exists>a p b. text = a @ ''<promise>'' @ p @ ''</promise>'' @ b \<and> p \<noteq> [] \<and> t = str_trim p"
proof -
  from assms obtain i j where i: "str_find text ''<promise>'' = Some i"
    and j: "str_find text ''</promise>'' = Some j" and ij: "i + 9 < j"
    and t: "str_slice text (i + 9) j = Some (drop (i + 9) (take j text))"
      "t = str_trim (drop (i + 9) (take j text))"
    by (auto simp: extract_promise_tag_def str_slice_def drop_take split: option.splits if_splits)
  from str_find_Some [OF i] obtain a r where a: "text = a @ ''<promise>'' @ r" "length a = i" by blast
  from str_find_Some [OF j] obtain c b where c: "text = c @ ''</promise>'' @ b" "length c = j" by blast
  define p where "p = drop (i + 9) c"
  have "drop (i + 9) text = r" using a by simp
  moreover have "drop (i + 9) text = p @ ''</promise>'' @ b" using c ij by (simp add: p_def)
  ultimately have "text = a @ ''<promise>'' @ p @ ''</promise>'' @ b" using a(1) by simp
  moreover have "take j text = c" using c by simp
  then have "t = str_trim p" using t(2) by (simp add: p_def)
  moreover have "p \<noteq> []" using ij c by (simp add: p_def)
  ultimately show ?thesis by blast
qed

text \<open>
  The file name of an attachment is sliced at byte 120, which panics exactly when the
  cleaned name is longer and a character crosses that byte; otherwise the name is not empty,
  no longer than 120 bytes and the start of the cleaned name.
\<close>

theorem att_safe_filename_panics:
  "(att_safe_filename alnum name = None \<longleftrightarrow>
      length (att_cleaned alnum name) > 120 \<and> is_cont (att_cleaned alnum name ! 120))
   \<and> (case att_safe_filename alnum name of
        None \<Rightarrow> True
      | Some n \<Rightarrow> n \<noteq> [] \<and> length n \<le> 120
          \<and> (n = ''attachment.bin'' \<or> starts_with (att_cleaned alnum name) n))"
  by (auto simp: att_safe_filename_def str_slice_def is_char_boundary_def starts_with_def Let_def
      split: option.splits if_splits)

lemma att_loop_parts:
  assumes "att_loop ios k atts = Some (parts, paths)"
  shows "parts = concat (map att_part (filter (\<lambda>a. \<not> att_oversized a) atts))
    \<and> length paths \<le> length atts"
  using assms
  by (induction ios k atts arbitrary: parts paths rule: att_loop.induct)
    (fastforce split: if_splits option.splits)+

text \<open>
  A user payload with attachments carries the text first and then, in order, one block for
  each attachment that is not oversized and has a supported type; without attachments its
  content is the plain text; the uuid returned is the one in the payload.
\<close>

theorem user_payload_content:
  "case build_user_payload ios uuid text atts of
     None \<Rightarrow> atts \<noteq> [] \<and> att_loop ios 0 atts = None
   | Some (payload, u) \<Rightarrow>
       u = uuid \<and> get_str payload ''uuid'' = Some u
       \<and> (case Option.bind (j_get payload ''message'') (\<lambda>m. j_get m ''content'') of
            Some (JStr t) \<Rightarrow> atts = [] \<and> t = text
          | Some (JArr ps) \<Rightarrow> atts \<noteq> [] \<and> ps \<noteq> []
              \<and> (\<exists>aug. get_str (hd ps) ''text'' = Some aug \<and> starts_with aug text)
              \<and> tl ps = concat (map att_part (filter (\<lambda>a. \<not> att_oversized a) atts))
          | _ \<Rightarrow> False)"
  by (auto simp: build_user_payload_def augmented_text_def dest!: att_loop_parts
      split: if_splits option.split)

end
