(* ===== verification/ActorState.thy ===== *)
theory ActorState
  imports ClaudeProtocol RunStore ActorText
begin

text \<open>
  The state of a session actor (\<open>agent/session_actor.rs\<close>), the world it acts on, and its
  elementary operations: emitting events, writing a line to the child, replying, updating the
  metadata and the run state.

  What lies outside the program is an argument \<open>env\<close>: the JSON parser, the UUID generator, the
  outcomes of the writes to the child's stdin and of the file system, the child's exit status.
  Outcomes that may differ from call to call are functions of a counter in the world.  The
  effects of the actor that leave it are recorded in order in \<open>w_trace\<close>.
\<close>

section \<open>The protocol driver\<close>

text \<open>
  The operations of the trait \<open>SessionProtocol\<close> and the inherent framing methods of
  \<open>CodexAppServer\<close> that the actor calls, over the driver's state \<open>'c\<close>.
\<close>

record 'c driver =
  dr_frame_user_turn ::
    "string \<Rightarrow> string list \<Rightarrow> CodexSkillRef list \<Rightarrow> CodexTurnOverrides \<Rightarrow> 'c \<Rightarrow> json list \<times> 'c"
  dr_frame_interrupt :: "'c \<Rightarrow> json list \<times> 'c"
  dr_frame_steer :: "string \<Rightarrow> 'c \<Rightarrow> json list \<times> 'c"
  dr_parse_line :: "string \<Rightarrow> string \<Rightarrow> 'c \<Rightarrow> ParsedLine \<times> 'c"
  dr_frame_response :: "PendingKind \<Rightarrow> string \<Rightarrow> json \<Rightarrow> 'c \<Rightarrow> json list \<times> 'c"
  dr_is_ready :: "'c \<Rightarrow> bool"
  dr_frame_compact :: "string \<Rightarrow> 'c \<Rightarrow> json list \<times> 'c"
  dr_frame_rollback :: "string \<Rightarrow> u64 \<Rightarrow> 'c \<Rightarrow> json list \<times> 'c"
  dr_frame_fork :: "string \<Rightarrow> 'c \<Rightarrow> json list \<times> 'c"
  dr_frame_goal_set ::
    "string \<Rightarrow> string option \<Rightarrow> string option \<Rightarrow> u64 option \<Rightarrow> 'c \<Rightarrow> json list \<times> 'c"
  dr_frame_goal_get :: "string \<Rightarrow> 'c \<Rightarrow> json list \<times> 'c"
  dr_frame_goal_clear :: "string \<Rightarrow> 'c \<Rightarrow> json list \<times> 'c"
  dr_frame_mcp_status :: "string \<Rightarrow> 'c \<Rightarrow> json list \<times> 'c"
  dr_frame_skills_list :: "string \<Rightarrow> 'c \<Rightarrow> json list \<times> 'c"
  dr_frame_experimental_feature_list :: "string \<Rightarrow> 'c \<Rightarrow> json list \<times> 'c"
  dr_frame_model_list :: "string \<Rightarrow> 'c \<Rightarrow> json list \<times> 'c"

section \<open>The world\<close>

text \<open>
  What the actor does to the outside, in order: events that are persisted and broadcast,
  realtime messages, lines that the child accepted, answers to commands (a command is known by
  its number; \<open>SendReply\<close> answers a message), control waiters that are resolved or dropped, and
  the end of the process.
\<close>

datatype (plugins only: code) effect =
    Persisted BusEvent
  | RealtimeEvent string BusEvent
  | RealtimeJson string json
  | Wire json
  | SendReply nat "string + unit"
  | Reply nat "string + unit"
  | ReplyControl nat "string + string"
  | ReplyRalph nat "string + (u32 \<times> bool)"
  | Resolve nat json
  | DropWaiter nat
  | Killed
  | Shutdown

datatype write_outcome = WOk | WFlushFail string | WFail string

datatype wait_outcome = Exited "i32 option" | WaitErr

record 'c env =
  en_float :: float_ops
  en_parse :: "string \<Rightarrow> json option"
  en_uuid :: "nat \<Rightarrow> string"
  en_write :: "nat \<Rightarrow> write_outcome"
  en_fs :: "nat \<Rightarrow> fs_io"
  en_att :: "nat \<Rightarrow> att_io"
  en_wait :: wait_outcome
  en_driver :: "'c driver"

text \<open>
  The clock is read once for each input of the loop: \<open>w_now\<close> is \<open>Instant::now()\<close> and
  \<open>w_iso\<close> is \<open>now_iso()\<close> while that input is handled.
\<close>

record World =
  w_trace :: "effect list"
  w_now :: instant
  w_iso :: string
  w_store :: store
  w_sessions :: "string \<Rightarrow> nat option"
  w_uuids :: nat
  w_writes :: nat
  w_saves :: nat
  w_atts :: nat

section \<open>The actor\<close>

datatype RalphPhase = RalphRunning | WaitingRetry | PausedByUser RalphPhase | CancelPending

record RalphLoopState =
  rl_prompt :: string
  rl_phase :: RalphPhase
  rl_iteration :: u32
  rl_max_iterations :: u32
  rl_completion_promise :: "string option"
  rl_started_at :: string
  rl_consecutive_failures :: u32
  rl_max_consecutive_failures :: u32
  rl_retry_after :: "instant option"
  rl_turn_toplevel_texts :: "string list"

record PendingInteractiveRequest =
  pr_request_id :: string
  pr_subtype :: string
  pr_detail :: string
  pr_received_at :: instant

text \<open>
  The handles \<open>stdin\<close>, \<open>child\<close> and \<open>shutdown_tx\<close> are there or not; a control waiter is the number
  of the command that waits; \<open>ac_cancelled\<close> is the cancellation token.  \<open>ac_panicked\<close> says
  that a handler panicked, after which nothing more is executed.
\<close>

record 'c SessionActor =
  ac_run_id :: string
  ac_tag :: nat
  ac_protocol :: ProtocolState
  ac_codex :: "'c option"
  ac_codex_startup :: "json list"
  ac_codex_ready :: bool
  ac_codex_overrides :: CodexTurnOverrides
  ac_state :: string
  ac_stdin :: bool
  ac_child :: bool
  ac_cancelled :: bool
  ac_pending_interrupt :: bool
  ac_control_waiters :: "(string \<times> nat) list"
  ac_shutdown_tx :: bool
  ac_active_turn :: "ActiveTurn option"
  ac_active_extractor :: "ContextExtractor option"
  ac_queued_user :: "UserTurnTicket list"
  ac_queued_internal :: "InternalJob list"
  ac_next_turn_index :: u32
  ac_next_auto_ctx_id :: u32
  ac_next_turn_seq :: u64
  ac_last_auto_context_for :: "u32 option"
  ac_must_run_internal_for_turn :: "u32 option"
  ac_quarantine_until_result :: bool
  ac_quarantine_deadline :: "instant option"
  ac_interrupt_sent_for_quarantine :: bool
  ac_quarantine_from_internal :: bool
  ac_terminated :: bool
  ac_json_parse_fail_count :: u32
  ac_ralph_loop :: "RalphLoopState option"
  ac_ralph_needs_dispatch :: bool
  ac_pending_interactive_request :: "PendingInteractiveRequest option"
  ac_panicked :: bool
  ac_w :: World

text \<open>\<open>spawn_actor\<close>: the state the task starts with.\<close>

definition spawn_actor ::
  "string \<Rightarrow> nat \<Rightarrow> bool \<Rightarrow> u32 \<Rightarrow> u32 \<Rightarrow> 'c option \<Rightarrow> json list \<Rightarrow> World \<Rightarrow> 'c SessionActor" where
  "spawn_actor run_id tag is_resume initial_turn_index initial_auto_ctx_id codex codex_startup w =
     \<lparr> ac_run_id = run_id, ac_tag = tag, ac_protocol = protocol_new is_resume,
       ac_codex = codex, ac_codex_startup = codex_startup, ac_codex_ready = False,
       ac_codex_overrides = default_overrides, ac_state = [], ac_stdin = True, ac_child = True,
       ac_cancelled = False, ac_pending_interrupt = False, ac_control_waiters = [],
       ac_shutdown_tx = True, ac_active_turn = None, ac_active_extractor = None,
       ac_queued_user = [], ac_queued_internal = [], ac_next_turn_index = initial_turn_index,
       ac_next_auto_ctx_id = initial_auto_ctx_id, ac_next_turn_seq = 0,
       ac_last_auto_context_for = None, ac_must_run_internal_for_turn = None,
       ac_quarantine_until_result = False, ac_quarantine_deadline = None,
       ac_interrupt_sent_for_quarantine = False, ac_quarantine_from_internal = False,
       ac_terminated = False, ac_json_parse_fail_count = 0, ac_ralph_loop = None,
       ac_ralph_needs_dispatch = False, ac_pending_interactive_request = None,
       ac_panicked = False, ac_w = w \<rparr>"


section \<open>Elementary operations\<close>

definition now_of :: "'c SessionActor \<Rightarrow> instant" where
  "now_of a = w_now (ac_w a)"

definition emit_fx :: "effect \<Rightarrow> 'c SessionActor \<Rightarrow> 'c SessionActor" where
  "emit_fx e a = a\<lparr>ac_w := (ac_w a)\<lparr>w_trace := w_trace (ac_w a) @ [e]\<rparr>\<rparr>"

definition persist_and_emit :: "BusEvent \<Rightarrow> 'c SessionActor \<Rightarrow> 'c SessionActor" where
  "persist_and_emit ev a = emit_fx (Persisted ev) a"

text \<open>A fresh UUID.\<close>

definition new_uuid :: "'c env \<Rightarrow> 'c SessionActor \<Rightarrow> string \<times> 'c SessionActor" where
  "new_uuid E a =
     (en_uuid E (w_uuids (ac_w a)), a\<lparr>ac_w := (ac_w a)\<lparr>w_uuids := Suc (w_uuids (ac_w a))\<rparr>\<rparr>)"

text \<open>One read-modify-write of the store of runs.\<close>

definition store_op ::
  "'c env \<Rightarrow> (fs_io \<Rightarrow> store \<Rightarrow> (string + unit) \<times> store) \<Rightarrow> 'c SessionActor
     \<Rightarrow> (string + unit) \<times> 'c SessionActor" where
  "store_op E f a =
     (case f (en_fs E (w_saves (ac_w a))) (w_store (ac_w a)) of
        (r, st) \<Rightarrow>
          (r, a\<lparr>ac_w := (ac_w a)\<lparr>w_store := st, w_saves := Suc (w_saves (ac_w a))\<rparr>\<rparr>))"

text \<open>
  \<open>write_json_line\<close>: serialising a JSON value does not fail; a line counts as written when
  \<open>write_all\<close> succeeds, and a failing flush is only logged.
\<close>

definition write_json_line ::
  "'c env \<Rightarrow> json \<Rightarrow> string \<Rightarrow> 'c SessionActor \<Rightarrow> (string + unit) \<times> 'c SessionActor" where
  "write_json_line E payload cx a =
     (if \<not> ac_stdin a then (Inl ''stdin closed'', a)
      else
        (let w = ac_w a; k = w_writes w in
         case en_write E k of
           WFail e \<Rightarrow> (Inl (cx @ '' write failed: '' @ e), a\<lparr>ac_w := w\<lparr>w_writes := Suc k\<rparr>\<rparr>)
         | _ \<Rightarrow>
             (Inr (), a\<lparr>ac_w := w\<lparr>w_writes := Suc k, w_trace := w_trace w @ [Wire payload]\<rparr>\<rparr>)))"

text \<open>\<open>for line in &lines { self.write_json_line(line, cx).await?; }\<close>\<close>

fun write_lines ::
  "'c env \<Rightarrow> json list \<Rightarrow> string \<Rightarrow> 'c SessionActor \<Rightarrow> (string + unit) \<times> 'c SessionActor" where
  "write_lines E [] cx a = (Inr (), a)"
| "write_lines E (l # ls) cx a =
     (case write_json_line E l cx a of
        (Inl e, a') \<Rightarrow> (Inl e, a')
      | (Inr u, a') \<Rightarrow> write_lines E ls cx a')"

definition write_control_response ::
  "'c env \<Rightarrow> string \<Rightarrow> json \<Rightarrow> 'c SessionActor \<Rightarrow> (string + unit) \<times> 'c SessionActor" where
  "write_control_response E request_id response a =
     write_json_line E (build_control_response request_id (Inr response)) ''control response'' a"

definition write_control_response_error ::
  "'c env \<Rightarrow> string \<Rightarrow> string \<Rightarrow> 'c SessionActor \<Rightarrow> (string + unit) \<times> 'c SessionActor" where
  "write_control_response_error E request_id error a =
     write_json_line E (build_control_response request_id (Inl error))
       ''control response (error)'' a"

text \<open>
  \<open>write_user_to_stdin\<close>: the uuid of the message or an error, and \<open>None\<close> when saving an
  attachment panics.  With a Codex driver the message becomes a turn frame.
\<close>

definition write_user_to_stdin ::
  "'c env \<Rightarrow> string \<Rightarrow> AttachmentData list \<Rightarrow> CodexSkillRef list \<Rightarrow> 'c SessionActor
     \<Rightarrow> (string + string) option \<times> 'c SessionActor" where
  "write_user_to_stdin E text atts skills a =
     (let ios = (\<lambda>k. en_att E (w_atts (ac_w a) + k));
          b = a\<lparr>ac_w := (ac_w a)\<lparr>w_atts := w_atts (ac_w a) + length atts\<rparr>\<rparr>
      in case ac_codex a of
        Some c \<Rightarrow>
          (case codex_att_loop ios 0 atts of
             None \<Rightarrow> (None, b)
           | Some (images, crumbs) \<Rightarrow>
               (case dr_frame_user_turn (en_driver E) (codex_augmented text crumbs) images skills
                       (ac_codex_overrides a) c of
                  (lines, c') \<Rightarrow>
                    (case write_lines E lines ''codex turn/start'' (b\<lparr>ac_codex := Some c'\<rparr>) of
                       (Inl e, a') \<Rightarrow> (Some (Inl e), a')
                     | (Inr u, a') \<Rightarrow>
                         (case new_uuid E a' of (uuid, a'') \<Rightarrow> (Some (Inr uuid), a'')))))
      | None \<Rightarrow>
          if \<not> ac_stdin a then (Some (Inl ''stdin closed''), a)
          else
            (case new_uuid E b of
               (uuid, b') \<Rightarrow>
                 (case build_user_payload ios uuid text atts of
                    None \<Rightarrow> (None, b')
                  | Some (payload, user_uuid) \<Rightarrow>
                      (let w = ac_w b'; k = w_writes w in
                       case en_write E k of
                         WFail e \<Rightarrow>
                           (Some (Inl (''stdin write failed: '' @ e)),
                            b'\<lparr>ac_w := w\<lparr>w_writes := Suc k\<rparr>\<rparr>)
                       | WFlushFail e \<Rightarrow>
                           (Some (Inl (''stdin flush failed: '' @ e)),
                            b'\<lparr>ac_w := w\<lparr>w_writes := Suc k, w_trace := w_trace w @ [Wire payload]\<rparr>\<rparr>)
                       | WOk \<Rightarrow>
                           (Some (Inr user_uuid),
                            b'\<lparr>ac_w := w\<lparr>w_writes := Suc k, w_trace := w_trace w @ [Wire payload]\<rparr>\<rparr>)))))"

section \<open>Run state and metadata\<close>

text \<open>The closures that \<open>emit_state\<close> and \<open>finalize_meta\<close> apply to the metadata.\<close>

definition clear_result_error :: "RunMeta \<Rightarrow> RunMeta" where
  "clear_result_error m =
     (if rm_error_message m \<noteq> None \<or> rm_result_subtype m \<noteq> None
      then m\<lparr>rm_error_message := None, rm_result_subtype := None\<rparr> else m)"

definition finalized_meta :: "string \<Rightarrow> i32 option \<Rightarrow> RunMeta \<Rightarrow> RunMeta" where
  "finalized_meta now exit_code m =
     (let had_result_error =
            is_some_and (rm_result_subtype m) (\<lambda>s. starts_with s ''error'');
          terminal_status =
            (if had_result_error then Failed
             else if exit_code = Some 0 then Completed else Failed);
          m1 = m\<lparr>rm_status := terminal_status, rm_exit_code := exit_code\<rparr>
      in if rm_ended_at m1 = None then m1\<lparr>rm_ended_at := Some now\<rparr> else m1)"

definition emit_state ::
  "'c env \<Rightarrow> string \<Rightarrow> i32 option \<Rightarrow> string option \<Rightarrow> bool \<Rightarrow> 'c SessionActor \<Rightarrow> 'c SessionActor" where
  "emit_state E new_state exit_code error update_meta a =
     (if ac_state a = new_state then a
      else
        (let a1 = persist_and_emit (RunState (ac_run_id a) new_state exit_code error)
                    (a\<lparr>ac_state := new_state\<rparr>)
         in if \<not> update_meta then a1
            else
              (let a2 =
                     (case map_state_to_run_status new_state of
                        None \<Rightarrow> a1
                      | Some status \<Rightarrow>
                          snd (store_op E
                            (\<lambda>io. update_status io (w_iso (ac_w a1)) (ac_run_id a1) status exit_code
                               (if new_state = ''failed'' then error else None)) a1));
                   a3 =
                     (if new_state = ''running'' then
                        (case store_op E
                           (\<lambda>io. with_meta io (ac_run_id a2) (\<lambda>m. Inr (clear_result_error m))) a2 of
                           (_, b) \<Rightarrow>
                             b\<lparr>ac_protocol := (ac_protocol b)\<lparr>ps_result_subtype := None\<rparr>\<rparr>)
                      else a2)
               in if new_state = ''failed'' then
                    snd (store_op E
                      (\<lambda>io. persist_result_error io (ac_run_id a3) error
                         (ps_result_subtype (ac_protocol a3))) a3)
                  else a3)))"

definition finalize_meta :: "'c env \<Rightarrow> i32 option \<Rightarrow> 'c SessionActor \<Rightarrow> 'c SessionActor" where
  "finalize_meta E exit_code a =
     snd (store_op E
       (\<lambda>io. with_meta io (ac_run_id a)
          (\<lambda>m. Inr (finalized_meta (w_iso (ac_w a)) exit_code m))) a)"

definition status_payload :: "string \<Rightarrow> RunStatus \<Rightarrow> json" where
  "status_payload run_id status =
     JObj [(''run_id'', JStr run_id), (''status'', JStr (status_to_string status))]"

definition persist_idle_running :: "'c env \<Rightarrow> RunStatus \<Rightarrow> 'c SessionActor \<Rightarrow> 'c SessionActor" where
  "persist_idle_running E target a =
     (case get_run (w_store (ac_w a)) (ac_run_id a) of
        None \<Rightarrow> a
      | Some m \<Rightarrow>
          if \<not> (rm_status m = Running \<and> target = Idle \<or> rm_status m = Idle \<and> target = Running)
          then a
          else
            (case store_op E
                    (\<lambda>io. update_status io (w_iso (ac_w a)) (ac_run_id a) target None None) a of
               (Inl e, a') \<Rightarrow> a'
             | (Inr u, a') \<Rightarrow>
                 emit_fx (RealtimeJson ''ocv:status-changed''
                   (status_payload (ac_run_id a) target)) a'))"

section \<open>Pending replies and control waiters\<close>

fun fail_tickets :: "string \<Rightarrow> UserTurnTicket list \<Rightarrow> 'c SessionActor \<Rightarrow> 'c SessionActor" where
  "fail_tickets reason [] a = a"
| "fail_tickets reason (t # ts) a = fail_tickets reason ts (emit_fx (SendReply (tk_reply t) (Inl reason)) a)"

definition fail_all_pending_replies :: "string \<Rightarrow> 'c SessionActor \<Rightarrow> 'c SessionActor" where
  "fail_all_pending_replies reason a =
     (fail_tickets reason (ac_queued_user a) (a\<lparr>ac_queued_user := []\<rparr>))
       \<lparr>ac_queued_internal := [], ac_must_run_internal_for_turn := None\<rparr>"

definition is_internal_turn :: "'c SessionActor \<Rightarrow> bool" where
  "is_internal_turn a \<longleftrightarrow> is_some_and (ac_active_turn a) (\<lambda>t. is_internal_origin (at_origin t))"

definition is_ralph_turn :: "'c SessionActor \<Rightarrow> bool" where
  "is_ralph_turn a \<longleftrightarrow> is_some_and (ac_active_turn a) (\<lambda>t. at_origin t = ORalph)"

definition set_pending_slash :: "string option \<Rightarrow> 'c SessionActor \<Rightarrow> 'c SessionActor" where
  "set_pending_slash cmd a =
     a\<lparr>ac_protocol := set_pending_slash_command cmd (ac_protocol a)\<rparr>"

text \<open>
  Inserting a waiter drops one that has the same id; removing one resolves it with a value, or
  drops it.
\<close>

definition insert_waiter :: "string \<Rightarrow> nat \<Rightarrow> 'c SessionActor \<Rightarrow> 'c SessionActor" where
  "insert_waiter rid n a =
     (let a' = (case map_of (ac_control_waiters a) rid of
                  None \<Rightarrow> a | Some old \<Rightarrow> emit_fx (DropWaiter old) a)
      in a'\<lparr>ac_control_waiters := hm_insert rid n (ac_control_waiters a')\<rparr>)"

definition resolve_waiter :: "string \<Rightarrow> json \<Rightarrow> 'c SessionActor \<Rightarrow> 'c SessionActor" where
  "resolve_waiter rid v a =
     (case map_of (ac_control_waiters a) rid of
        None \<Rightarrow> a
      | Some n \<Rightarrow>
          emit_fx (Resolve n v) (a\<lparr>ac_control_waiters := hm_remove rid (ac_control_waiters a)\<rparr>))"

definition drop_waiter :: "string \<Rightarrow> 'c SessionActor \<Rightarrow> 'c SessionActor" where
  "drop_waiter rid a =
     (case map_of (ac_control_waiters a) rid of
        None \<Rightarrow> a
      | Some n \<Rightarrow>
          emit_fx (DropWaiter n) (a\<lparr>ac_control_waiters := hm_remove rid (ac_control_waiters a)\<rparr>))"

definition clear_pending_interactive_request :: "string \<Rightarrow> 'c SessionActor \<Rightarrow> 'c SessionActor" where
  "clear_pending_interactive_request rid a =
     (if is_some_and (ac_pending_interactive_request a) (\<lambda>r. pr_request_id r = rid)
      then a\<lparr>ac_pending_interactive_request := None\<rparr> else a)"

text \<open>\<open>send_interrupt_to_cli\<close>: a failing write is only logged.\<close>

definition send_interrupt_to_cli :: "'c env \<Rightarrow> 'c SessionActor \<Rightarrow> 'c SessionActor" where
  "send_interrupt_to_cli E a =
     (case new_uuid E a of
        (uuid, a1) \<Rightarrow>
          (let payload =
             JObj [(''type'', JStr ''control_request''),
                   (''request_id'', JStr (''ocv_qint_'' @ uuid)),
                   (''request'', JObj [(''subtype'', JStr ''interrupt'')])]
           in snd (write_json_line E payload ''interrupt'' a1)))"


section \<open>Frame laws\<close>

text \<open>
  The effects that the properties are about: answers to messages, run states, user messages and
  the events of the Ralph loop.  The other effects are quiet.
\<close>

definition loud_event :: "BusEvent \<Rightarrow> bool" where
  "loud_event ev \<longleftrightarrow>
     (case ev of
        RunState r s x e \<Rightarrow> True
      | UserMessage r t u c atts \<Rightarrow> True
      | RalphStarted r p m c s \<Rightarrow> True
      | RalphIteration r i m \<Rightarrow> True
      | RalphComplete r c i \<Rightarrow> True
      | _ \<Rightarrow> False)"

definition loud :: "effect \<Rightarrow> bool" where
  "loud e \<longleftrightarrow>
     (case e of SendReply n r \<Rightarrow> True | Persisted ev \<Rightarrow> loud_event ev | _ \<Rightarrow> False)"

definition marks :: "World \<Rightarrow> effect list" where
  "marks w = filter loud (w_trace w)"

lemma loud_event_simps [simp]:
  "loud_event (RunState r s x e)" "loud_event (UserMessage r t u c atts)"
  "loud_event (RalphStarted r p m c' s)" "loud_event (RalphIteration r i m)"
  "loud_event (RalphComplete r rr i)"
  by (simp_all add: loud_event_def)

lemma loud_simps [simp]:
  "loud (SendReply n r)" "loud (Persisted ev) = loud_event ev"
  "\<not> loud (Wire j)" "\<not> loud (RealtimeEvent s ev)" "\<not> loud (RealtimeJson s j)"
  "\<not> loud (Reply n r)" "\<not> loud (ReplyControl n rc)" "\<not> loud (ReplyRalph n rr)"
  "\<not> loud (Resolve n j)" "\<not> loud (DropWaiter n)" "\<not> loud Killed" "\<not> loud Shutdown"
  by (simp_all add: loud_def)

lemma marks_simps [simp]:
  "marks (w\<lparr>w_trace := es\<rparr>) = filter loud es"
  "marks (w\<lparr>w_now := n\<rparr>) = marks w" "marks (w\<lparr>w_iso := i\<rparr>) = marks w"
  "marks (w\<lparr>w_store := st\<rparr>) = marks w" "marks (w\<lparr>w_sessions := ss\<rparr>) = marks w"
  "marks (w\<lparr>w_uuids := k\<rparr>) = marks w" "marks (w\<lparr>w_writes := k\<rparr>) = marks w"
  "marks (w\<lparr>w_saves := k\<rparr>) = marks w" "marks (w\<lparr>w_atts := k\<rparr>) = marks w"
  by (simp_all add: marks_def)

lemma filter_loud_trace [simp]: "filter loud (w_trace w) = marks w"
  by (simp add: marks_def)

text \<open>
  \<open>quiet a a'\<close>: only the world has changed, the clock stands, and no effect of interest has
  been added.
\<close>

definition quiet_w :: "World \<Rightarrow> World \<Rightarrow> bool" where
  "quiet_w w w' \<longleftrightarrow> marks w' = marks w \<and> w_now w' = w_now w \<and> w_iso w' = w_iso w"

definition quiet :: "'c SessionActor \<Rightarrow> 'c SessionActor \<Rightarrow> bool" where
  "quiet a a' \<longleftrightarrow> (\<exists>w. a' = a\<lparr>ac_w := w\<rparr> \<and> quiet_w (ac_w a) w)"

lemma quiet_w_trans: "quiet_w w w' \<Longrightarrow> quiet_w w' w'' \<Longrightarrow> quiet_w w w''"
  by (simp add: quiet_w_def)

lemma quiet_refl [simp]: "quiet a a"
  by (auto simp: quiet_def quiet_w_def intro!: exI [of _ "ac_w a"])

lemma quiet_trans: "quiet a b \<Longrightarrow> quiet b c \<Longrightarrow> quiet a c"
  by (fastforce simp: quiet_def intro: quiet_w_trans)

lemma quietE:
  assumes "quiet a a'"
  obtains w where "a' = a\<lparr>ac_w := w\<rparr>" "quiet_w (ac_w a) w"
  using assms by (auto simp: quiet_def)

lemma quiet_emit_fx [simp]: "quiet a (emit_fx e a)" if "\<not> loud e"
  using that by (auto simp: quiet_def emit_fx_def quiet_w_def intro!: exI)

lemma quiet_persist [simp]: "quiet a (persist_and_emit ev a)" if "\<not> loud_event ev"
  using that by (simp add: persist_and_emit_def)

lemma quiet_new_uuid [simp]: "quiet a (snd (new_uuid E a))"
  by (auto simp: quiet_def new_uuid_def quiet_w_def intro!: exI)

lemma quiet_store_op [simp]: "quiet a (snd (store_op E f a))"
  by (auto simp: quiet_def store_op_def quiet_w_def split: prod.splits intro!: exI)

lemma quiet_write_json_line [simp]: "quiet a (snd (write_json_line E j cx a))"
  by (auto simp: quiet_def write_json_line_def quiet_w_def Let_def
      split: write_outcome.splits intro!: exI)

lemma quiet_write_lines [simp]: "quiet a (snd (write_lines E ls cx a))"
proof (induction E ls cx a rule: write_lines.induct)
  case (2 E l ls cx a)
  show ?case
  proof (cases "write_json_line E l cx a")
    case (Pair r a')
    with quiet_write_json_line [of a E l cx] have "quiet a a'" by simp
    with 2 Pair show ?thesis by (auto split: sum.splits intro: quiet_trans)
  qed
qed simp

lemma quiet_write_control_response [simp]:
  "quiet a (snd (write_control_response E rid r a))"
  "quiet a (snd (write_control_response_error E rid e a))"
  by (simp_all add: write_control_response_def write_control_response_error_def)

lemma quiet_send_interrupt [simp]: "quiet a (send_interrupt_to_cli E a)"
proof (cases "new_uuid E a")
  case (Pair u b)
  with quiet_new_uuid [of a E] have "quiet a b" by simp
  then show ?thesis
    by (simp add: send_interrupt_to_cli_def Pair Let_def quiet_trans [OF _ quiet_write_json_line])
qed

lemma quiet_persist_idle_running [simp]: "quiet a (persist_idle_running E s a)"
proof (cases "get_run (w_store (ac_w a)) (ac_run_id a)")
  case (Some m)
  let ?f = "\<lambda>io. update_status io (w_iso (ac_w a)) (ac_run_id a) s None None"
  obtain r b where p: "store_op E ?f a = (r, b)" by (cases "store_op E ?f a")
  with quiet_store_op [of a E ?f] have "quiet a b" by simp
  then have "quiet a (emit_fx (RealtimeJson x j) b)" for x j
    by (rule quiet_trans) simp
  with \<open>quiet a b\<close> show ?thesis
    by (cases r) (simp_all add: persist_idle_running_def Some p)
qed (simp add: persist_idle_running_def)


text \<open>Writing a user message may also advance the driver.\<close>

definition quiet_c :: "'c SessionActor \<Rightarrow> 'c SessionActor \<Rightarrow> bool" where
  "quiet_c a a' \<longleftrightarrow>
     (\<exists>c w. a' = a\<lparr>ac_codex := c, ac_w := w\<rparr> \<and> quiet_w (ac_w a) w
        \<and> (c = None \<longleftrightarrow> ac_codex a = None))"

lemma quiet_cE:
  assumes "quiet_c a a'"
  obtains c w where "a' = a\<lparr>ac_codex := c, ac_w := w\<rparr>" "quiet_w (ac_w a) w"
    "c = None \<longleftrightarrow> ac_codex a = None"
  using assms by (auto simp: quiet_c_def)

lemma quiet_imp_quiet_c: "quiet a b \<Longrightarrow> quiet_c a b"
  by (auto simp: quiet_def quiet_c_def intro!: exI [of _ "ac_codex a"])

lemma quiet_c_refl [simp]: "quiet_c a a"
  by (rule quiet_imp_quiet_c) simp

lemma quiet_c_trans:
  assumes "quiet_c a b" "quiet_c b d"
  shows "quiet_c a d"
proof -
  from assms(1) obtain c w where b: "b = a\<lparr>ac_codex := c, ac_w := w\<rparr>" "quiet_w (ac_w a) w"
    "c = None \<longleftrightarrow> ac_codex a = None" by (rule quiet_cE)
  from assms(2) obtain c' w' where d: "d = b\<lparr>ac_codex := c', ac_w := w'\<rparr>" "quiet_w (ac_w b) w'"
    "c' = None \<longleftrightarrow> ac_codex b = None" by (rule quiet_cE)
  have "d = a\<lparr>ac_codex := c', ac_w := w'\<rparr>" using b d by simp
  moreover have "quiet_w (ac_w a) w'" using b d quiet_w_trans by simp
  moreover have "c' = None \<longleftrightarrow> ac_codex a = None" using b d by simp
  ultimately show ?thesis unfolding quiet_c_def by (intro exI conjI)
qed

lemma quiet_c_codex: "ac_codex a \<noteq> None \<Longrightarrow> quiet_c a (a\<lparr>ac_codex := Some c\<rparr>)"
  by (auto simp: quiet_c_def quiet_w_def intro!: exI [of _ "Some c"] exI [of _ "ac_w a"])

lemma quiet_atts: "quiet a (a\<lparr>ac_w := (ac_w a)\<lparr>w_atts := k\<rparr>\<rparr>)"
  by (auto simp: quiet_def quiet_w_def intro!: exI)

lemma quiet_c_write_user: "quiet_c a (snd (write_user_to_stdin E text atts skills a))"
proof (cases "ac_codex a")
  case None
  then have "quiet a (snd (write_user_to_stdin E text atts skills a))"
    by (auto simp: write_user_to_stdin_def Let_def new_uuid_def quiet_def quiet_w_def
        split: write_outcome.splits option.splits intro!: exI)
  then show ?thesis by (rule quiet_imp_quiet_c)
next
  case (Some c)
  let ?b = "a\<lparr>ac_w := (ac_w a)\<lparr>w_atts := w_atts (ac_w a) + length atts\<rparr>\<rparr>"
  have b: "quiet_c a ?b" by (intro quiet_imp_quiet_c quiet_atts)
  have "quiet_c ?b (?b\<lparr>ac_codex := Some c'\<rparr>)" for c' using Some by (intro quiet_c_codex) simp
  then have c: "quiet_c a (?b\<lparr>ac_codex := Some c'\<rparr>)" for c' using b quiet_c_trans by blast
  have l: "quiet_c a (snd (write_lines E ls cx (?b\<lparr>ac_codex := Some c'\<rparr>)))" for ls cx c'
    by (rule quiet_c_trans [OF c quiet_imp_quiet_c [OF quiet_write_lines]])
  have u: "quiet_c a (snd (new_uuid E (snd (write_lines E ls cx (?b\<lparr>ac_codex := Some c'\<rparr>)))))"
    for ls cx c'
    by (rule quiet_c_trans [OF l quiet_imp_quiet_c [OF quiet_new_uuid]])
  show ?thesis
    using Some b l u
    by (simp add: write_user_to_stdin_def Let_def split: option.split prod.split sum.split)
      (metis snd_conv)
qed

lemma write_lines_ok:
  assumes "\<And>k. en_write E k = WOk" and "ac_stdin a"
  shows "fst (write_lines E ls cx a) = Inr ()"
  using assms(2)
proof (induction ls arbitrary: a)
  case (Cons l ls)
  then show ?case using Cons.IH
    by (auto simp: write_json_line_def Let_def assms(1))
qed simp

lemma write_user_ok:
  assumes "\<And>k. en_write E k = WOk" and "ac_stdin a"
    and "write_user_to_stdin E text atts skills a = (r, a')"
  shows "r = None \<or> (\<exists>u. r = Some (Inr u))"
proof -
  have "fst (write_lines E ls cx (a\<lparr>ac_w := w, ac_codex := c\<rparr>)) = Inr ()" for ls cx w c
    using assms(1,2) by (simp add: write_lines_ok)
  then have "write_lines E ls cx (a\<lparr>ac_w := w, ac_codex := c\<rparr>) \<noteq> (Inl e, b)" for ls cx w c e b
    by (metis fst_conv sum.distinct(1))
  with assms show ?thesis
    by (auto simp: write_user_to_stdin_def Let_def split: option.splits prod.splits sum.splits)
qed

lemma emit_state_quiet_meta:
  "emit_state E s x e False a =
     (if ac_state a = s then a
      else persist_and_emit (RunState (ac_run_id a) s x e) (a\<lparr>ac_state := s\<rparr>))"
  by (simp add: emit_state_def Let_def)

text \<open>Whatever it does to the metadata, a new run state is emitted once, an old one is not.\<close>

definition stated ::
  "string \<Rightarrow> effect list \<Rightarrow> 'c SessionActor \<Rightarrow> 'c SessionActor \<Rightarrow> bool" where
  "stated s es a b \<longleftrightarrow>
     (\<exists>p w. b = a\<lparr>ac_state := s, ac_protocol := p, ac_w := w\<rparr>
        \<and> marks w = marks (ac_w a) @ es \<and> w_now w = w_now (ac_w a) \<and> w_iso w = w_iso (ac_w a)
        \<and> (s \<noteq> ''running'' \<longrightarrow> p = ac_protocol a))"

lemma statedE:
  assumes "stated s es a b"
  obtains p w where "b = a\<lparr>ac_state := s, ac_protocol := p, ac_w := w\<rparr>"
    "marks w = marks (ac_w a) @ es" "w_now w = w_now (ac_w a)" "w_iso w = w_iso (ac_w a)"
    "s \<noteq> ''running'' \<longrightarrow> p = ac_protocol a"
  using assms unfolding stated_def by (elim exE conjE) (rule that)

lemma stated_quiet:
  assumes "stated s es a b" "quiet b c"
  shows "stated s es a c"
proof -
  from assms(1) obtain p w where b: "b = a\<lparr>ac_state := s, ac_protocol := p, ac_w := w\<rparr>"
    "marks w = marks (ac_w a) @ es" "w_now w = w_now (ac_w a)" "w_iso w = w_iso (ac_w a)"
    "s \<noteq> ''running'' \<longrightarrow> p = ac_protocol a" by (rule statedE)
  from assms(2) obtain w' where c: "c = b\<lparr>ac_w := w'\<rparr>" "quiet_w (ac_w b) w'" by (rule quietE)
  have "c = a\<lparr>ac_state := s, ac_protocol := p, ac_w := w'\<rparr>" using b c by simp
  then show ?thesis using b c unfolding stated_def quiet_w_def
    by (intro exI [of _ p] exI [of _ w']) simp
qed

lemma stated_protocol:
  assumes "stated ''running'' es a b"
  shows "stated ''running'' es a (b\<lparr>ac_protocol := p\<rparr>)"
proof -
  from assms obtain q w where b: "b = a\<lparr>ac_state := ''running'', ac_protocol := q, ac_w := w\<rparr>"
    "marks w = marks (ac_w a) @ es" "w_now w = w_now (ac_w a)" "w_iso w = w_iso (ac_w a)"
    by (rule statedE)
  have e: "b\<lparr>ac_protocol := p\<rparr> = a\<lparr>ac_state := ''running'', ac_protocol := p, ac_w := w\<rparr>"
    unfolding b(1) by simp
  show ?thesis unfolding stated_def e
    by (intro exI [of _ p] exI [of _ w] conjI b(2-4) refl) simp
qed

lemma emit_state_frame:
  "stated s (if ac_state a = s then [] else [Persisted (RunState (ac_run_id a) s x e)]) a
     (emit_state E s x e um a)"
proof (cases "ac_state a = s")
  case True
  then show ?thesis
    by (auto simp: emit_state_def stated_def intro!: exI [of _ "ac_protocol a"] exI [of _ "ac_w a"])
next
  case False
  let ?R = "stated s [Persisted (RunState (ac_run_id a) s x e)] a"
  have R1: "?R (persist_and_emit (RunState (ac_run_id a) s x e) (a\<lparr>ac_state := s\<rparr>))"
    unfolding persist_and_emit_def emit_fx_def stated_def
    by (intro exI [of _ "ac_protocol a"]
        exI [of _ "(ac_w a)\<lparr>w_trace := w_trace (ac_w a) @ [Persisted (RunState (ac_run_id a) s x e)]\<rparr>"]) simp
  have R2: "?R (snd (store_op E f b))" if "?R b" for f b
    using that quiet_store_op by (rule stated_quiet)
  have R3: "?R (b\<lparr>ac_protocol := p\<rparr>)" if "?R b" "s = ''running''" for b p
    using that stated_protocol by blast
  show ?thesis
  proof (cases um)
    case True
    then show ?thesis using False
      apply (simp add: emit_state_def Let_def split del: if_split)
      apply (simp only: option.case_eq_if prod.case_eq_if split: if_split)
      by (intro conjI impI R1 R2 R3)
  qed (use False R1 in \<open>simp add: emit_state_quiet_meta\<close>)
qed

end
