(* ===== verification/TurnDispatch.thy ===== *)
theory TurnDispatch
  imports ActorState
begin

text \<open>
  The turn transaction engine of \<open>agent/session_actor.rs\<close>: queueing a message, the dispatch
  gate, starting and ending turns, the Ralph loop and the timeout clock.
\<close>

section \<open>Starting a turn\<close>

definition user_turn :: "instant \<Rightarrow> UserTurnTicket \<Rightarrow> ActiveTurn" where
  "user_turn now t =
     \<lparr> at_turn_seq = tk_seq t, at_origin = OUser (tk_kind t), at_phase = PhaseActive,
       at_started_at = now, at_soft_deadline = now + USER_SOFT_TIMEOUT,
       at_hard_deadline = now + USER_HARD_TIMEOUT, at_turn_index = tk_turn_index t \<rparr>"

definition start_user_turn :: "'c env \<Rightarrow> UserTurnTicket \<Rightarrow> 'c SessionActor \<Rightarrow> 'c SessionActor" where
  "start_user_turn E t a =
     (let a1 = (case tk_kind t of
                  SlashTurn command \<Rightarrow> set_pending_slash (Some command) a
                | NormalTurn i \<Rightarrow> set_pending_slash None a)
      in case write_user_to_stdin E (tk_text t) (tk_attachments t) (tk_skills t) a1 of
        (None, a2) \<Rightarrow> a2\<lparr>ac_panicked := True\<rparr>
      | (Some (Inl e), a2) \<Rightarrow> emit_fx (SendReply (tk_reply t) (Inl e)) a2
      | (Some (Inr user_uuid), a2) \<Rightarrow>
          (let a3 = persist_and_emit
                      (UserMessage (ac_run_id a2) (tk_text t) (Some user_uuid) None []) a2;
               a4 = emit_state E ''running'' None None False a3;
               a5 = persist_idle_running E Running a4;
               a6 = emit_fx (SendReply (tk_reply t) (Inr ())) a5
           in a6\<lparr>ac_active_turn := Some (user_turn (now_of a6) t)\<rparr>))"

definition internal_turn :: "instant \<Rightarrow> InternalJob \<Rightarrow> ActiveTurn" where
  "internal_turn now j =
     \<lparr> at_turn_seq = ij_seq j, at_origin = OInternal (ij_kind j), at_phase = PhaseActive,
       at_started_at = now, at_soft_deadline = now + INTERNAL_SOFT_TIMEOUT,
       at_hard_deadline = now + INTERNAL_HARD_TIMEOUT, at_turn_index = ij_for_turn_index j \<rparr>"

definition start_internal_turn :: "'c env \<Rightarrow> InternalJob \<Rightarrow> 'c SessionActor \<Rightarrow> 'c SessionActor" where
  "start_internal_turn E j a =
     (let a1 = set_pending_slash (Some ''/context'') a
      in case write_user_to_stdin E ''/context'' [] [] a1 of
        (None, a2) \<Rightarrow> a2\<lparr>ac_panicked := True\<rparr>
      | (Some (Inl e), a2) \<Rightarrow>
          set_pending_slash None (a2\<lparr>ac_must_run_internal_for_turn := None\<rparr>)
      | (Some (Inr user_uuid), a2) \<Rightarrow>
          a2\<lparr>ac_active_turn := Some (internal_turn (now_of a2) j),
             ac_active_extractor :=
               Some \<lparr> ce_run_id = ac_run_id a2, ce_for_turn_index = ij_for_turn_index j,
                      ce_captured = False \<rparr>,
             ac_last_auto_context_for := Some (ij_for_auto_ctx_id j),
             ac_must_run_internal_for_turn := None\<rparr>)"

section \<open>The Ralph loop\<close>

definition emit_ralph_complete :: "RalphCompleteReason \<Rightarrow> 'c SessionActor \<Rightarrow> 'c SessionActor" where
  "emit_ralph_complete reason a =
     (let iteration = (case ac_ralph_loop a of None \<Rightarrow> 0 | Some r \<Rightarrow> rl_iteration r)
      in persist_and_emit (RalphComplete (ac_run_id a) reason iteration)
           (a\<lparr>ac_ralph_loop := None\<rparr>))"

text \<open>\<open>Duration::from_secs(2 * failures)\<close>, in milliseconds.\<close>

definition ralph_backoff :: "u32 \<Rightarrow> duration" where
  "ralph_backoff failures = 2 * unat failures * 1000"

definition ralph_turn :: "instant \<Rightarrow> u64 \<Rightarrow> u32 \<Rightarrow> ActiveTurn" where
  "ralph_turn now sq turn_index =
     \<lparr> at_turn_seq = sq, at_origin = ORalph, at_phase = PhaseActive, at_started_at = now,
       at_soft_deadline = now + USER_SOFT_TIMEOUT, at_hard_deadline = now + USER_HARD_TIMEOUT,
       at_turn_index = turn_index \<rparr>"

text \<open>What a failed write of the prompt does to the loop.\<close>

definition ralph_write_failed :: "'c SessionActor \<Rightarrow> 'c SessionActor" where
  "ralph_write_failed a =
     (case ac_ralph_loop a of
        None \<Rightarrow> a
      | Some r \<Rightarrow>
          (let r1 = r\<lparr>rl_consecutive_failures := rl_consecutive_failures r + 1\<rparr>
           in if rl_consecutive_failures r1 \<ge> rl_max_consecutive_failures r1
              then emit_ralph_complete FailStopped (a\<lparr>ac_ralph_loop := Some r1\<rparr>)
              else a\<lparr>ac_ralph_loop := Some (r1\<lparr>
                       rl_retry_after := Some (now_of a + ralph_backoff (rl_consecutive_failures r1)),
                       rl_phase := WaitingRetry\<rparr>)\<rparr>))"

definition start_ralph_turn :: "'c env \<Rightarrow> string \<Rightarrow> 'c SessionActor \<Rightarrow> 'c SessionActor" where
  "start_ralph_turn E prompt a =
     (let turn_index = ac_next_turn_index a; sq = ac_next_turn_seq a;
          a1 = a\<lparr>ac_next_turn_index := turn_index + 1, ac_next_turn_seq := sq + 1,
                 ac_ralph_loop :=
                   map_option (\<lambda>r. r\<lparr>rl_turn_toplevel_texts := []\<rparr>) (ac_ralph_loop a)\<rparr>
      in case write_user_to_stdin E prompt [] [] a1 of
        (None, a2) \<Rightarrow> a2\<lparr>ac_panicked := True\<rparr>
      | (Some (Inl e), a2) \<Rightarrow> ralph_write_failed a2
      | (Some (Inr user_uuid), a2) \<Rightarrow>
          (let a3 = persist_and_emit
                      (UserMessage (ac_run_id a2) prompt (Some user_uuid) None []) a2;
               a4 = emit_state E ''running'' None None False a3;
               a5 = persist_idle_running E Running a4
           in a5\<lparr>ac_active_turn := Some (ralph_turn (now_of a5) sq turn_index)\<rparr>))"

datatype RalphAction =
    RComplete RalphCompleteReason
  | REmitIteration u32 u32
  | RSetWaitingRetry duration
  | RResumeFrom RalphPhase
  | RNoop

text \<open>Step 1 of \<open>ralph_on_turn_end\<close>: the new loop state and the action.\<close>

definition promise_matched :: "RalphLoopState \<Rightarrow> string \<Rightarrow> bool" where
  "promise_matched r promise \<longleftrightarrow>
     list_ex (\<lambda>text. extract_promise_tag text = Some (Some promise)) (rl_turn_toplevel_texts r)"

definition natural_reason :: "RalphLoopState \<Rightarrow> RalphCompleteReason option" where
  "natural_reason r =
     (if rl_max_iterations r > 0 \<and> rl_iteration r \<ge> rl_max_iterations r then Some MaxIterations
      else (case rl_completion_promise r of
              None \<Rightarrow> None
            | Some promise \<Rightarrow> if promise_matched r promise then Some CompletionPromise else None))"

definition ralph_turn_action :: "bool \<Rightarrow> RalphLoopState \<Rightarrow> RalphLoopState \<times> RalphAction" where
  "ralph_turn_action turn_failed r =
     (let is_cancel_pending = (rl_phase r = CancelPending) in
      if turn_failed then
        (if is_cancel_pending then (r, RComplete Cancelled)
         else
           (let r1 = r\<lparr>rl_consecutive_failures := rl_consecutive_failures r + 1\<rparr> in
            if rl_consecutive_failures r1 \<ge> rl_max_consecutive_failures r1
            then (r1, RComplete FailStopped)
            else (r1, RSetWaitingRetry (ralph_backoff (rl_consecutive_failures r1)))))
      else
        (let r1 = r\<lparr>rl_consecutive_failures := 0, rl_iteration := rl_iteration r + 1\<rparr> in
         case natural_reason r1 of
           Some reason \<Rightarrow> (r1, RComplete reason)
         | None \<Rightarrow>
             if is_cancel_pending then (r1, RComplete Cancelled)
             else (r1, REmitIteration (rl_iteration r1) (rl_max_iterations r1))))"

definition ralph_user_action :: "RalphLoopState \<Rightarrow> RalphAction" where
  "ralph_user_action r = (case rl_phase r of PausedByUser was \<Rightarrow> RResumeFrom was | _ \<Rightarrow> RNoop)"

definition ralph_action :: "TurnOrigin \<Rightarrow> bool \<Rightarrow> RalphLoopState \<Rightarrow> RalphLoopState \<times> RalphAction" where
  "ralph_action og turn_failed r =
     (case og of
        ORalph \<Rightarrow> ralph_turn_action turn_failed r
      | OUser u \<Rightarrow> (r, ralph_user_action r)
      | OInternal k \<Rightarrow> (r, RNoop))"

definition ralph_on_turn_end :: "ActiveTurn \<Rightarrow> bool \<Rightarrow> 'c SessionActor \<Rightarrow> 'c SessionActor" where
  "ralph_on_turn_end turn turn_failed a =
     (case ac_ralph_loop a of
        None \<Rightarrow> a
      | Some r \<Rightarrow>
          (case ralph_action (at_origin turn) turn_failed r of
             (r1, action) \<Rightarrow>
               (let a1 = a\<lparr>ac_ralph_loop := Some r1\<rparr> in
                case action of
                  RComplete reason \<Rightarrow> emit_ralph_complete reason a1
                | REmitIteration i m \<Rightarrow>
                    persist_and_emit (RalphIteration (ac_run_id a1) i m) a1
                | RSetWaitingRetry backoff \<Rightarrow>
                    a1\<lparr>ac_ralph_loop := Some (r1\<lparr>rl_phase := WaitingRetry,
                         rl_retry_after := Some (now_of a1 + backoff)\<rparr>)\<rparr>
                | RResumeFrom phase \<Rightarrow> a1\<lparr>ac_ralph_loop := Some (r1\<lparr>rl_phase := phase\<rparr>)\<rparr>
                | RNoop \<Rightarrow> a1)))"

section \<open>The dispatch gate\<close>

definition pause_ralph :: "RalphLoopState \<Rightarrow> RalphLoopState" where
  "pause_ralph r =
     (case rl_phase r of
        RalphRunning \<Rightarrow> r\<lparr>rl_phase := PausedByUser RalphRunning\<rparr>
      | WaitingRetry \<Rightarrow> r\<lparr>rl_phase := PausedByUser WaitingRetry\<rparr>
      | _ \<Rightarrow> r)"

text \<open>The job that the barrier asks for, and the queue without it.\<close>

fun take_job :: "u32 \<Rightarrow> InternalJob list \<Rightarrow> (InternalJob \<times> InternalJob list) option" where
  "take_job i [] = None"
| "take_job i (j # js) =
     (if ij_for_turn_index j = i then Some (j, js)
      else map_option (\<lambda>(k, ks). (k, j # ks)) (take_job i js))"

text \<open>The last part of \<open>try_dispatch\<close>: an internal job, if there is one.\<close>

definition dispatch_internal :: "'c env \<Rightarrow> 'c SessionActor \<Rightarrow> 'c SessionActor" where
  "dispatch_internal E a =
     (case ac_queued_internal a of
        [] \<Rightarrow> a
      | j # js \<Rightarrow> start_internal_turn E j (a\<lparr>ac_queued_internal := js\<rparr>))"

definition dispatch_ralph :: "'c env \<Rightarrow> 'c SessionActor \<Rightarrow> 'c SessionActor" where
  "dispatch_ralph E a =
     (case ac_ralph_loop a of
        None \<Rightarrow> dispatch_internal E a
      | Some r \<Rightarrow>
          (case rl_phase r of
             RalphRunning \<Rightarrow> start_ralph_turn E (rl_prompt r) a
           | WaitingRetry \<Rightarrow>
               if is_some_and (rl_retry_after r) (\<lambda>d. now_of a \<ge> d)
               then start_ralph_turn E (rl_prompt r)
                      (a\<lparr>ac_ralph_loop := Some (r\<lparr>rl_phase := RalphRunning, rl_retry_after := None\<rparr>)\<rparr>)
               else dispatch_internal E a
           | _ \<Rightarrow> dispatch_internal E a))"

definition dispatch_user :: "'c env \<Rightarrow> 'c SessionActor \<Rightarrow> 'c SessionActor" where
  "dispatch_user E a =
     (case ac_queued_user a of
        t # ts \<Rightarrow>
          if ac_must_run_internal_for_turn a = None
          then start_user_turn E t
                 (a\<lparr>ac_queued_user := ts, ac_ralph_loop := map_option pause_ralph (ac_ralph_loop a)\<rparr>)
          else dispatch_ralph E a
      | [] \<Rightarrow> dispatch_ralph E a)"

definition try_dispatch :: "'c env \<Rightarrow> 'c SessionActor \<Rightarrow> 'c SessionActor" where
  "try_dispatch E a =
     (if ac_active_turn a \<noteq> None \<or> ac_quarantine_until_result a \<or> ac_terminated a then a
      else if ac_codex a \<noteq> None \<and> \<not> ac_codex_ready a then a
      else
        (case Option.bind (ac_must_run_internal_for_turn a) (\<lambda>b. take_job b (ac_queued_internal a)) of
           Some (j, js) \<Rightarrow> start_internal_turn E j (a\<lparr>ac_queued_internal := js\<rparr>)
         | None \<Rightarrow> dispatch_user E a))"

section \<open>Queueing a message and ending a turn\<close>

definition handle_send_message ::
  "'c env \<Rightarrow> nat \<Rightarrow> string \<Rightarrow> AttachmentData list \<Rightarrow> CodexSkillRef list \<Rightarrow> 'c SessionActor
     \<Rightarrow> 'c SessionActor" where
  "handle_send_message E n text atts skills a =
     (if ac_terminated a then emit_fx (SendReply n (Inl ''Session terminated'')) a
      else
        (let trimmed = str_trim text;
             turn_index = ac_next_turn_index a;
             a1 = a\<lparr>ac_next_turn_index := turn_index + 1\<rparr>;
             (kind, a2) =
               (if starts_with trimmed ''/'' then (SlashTurn trimmed, a1)
                else (NormalTurn (ac_next_auto_ctx_id a1),
                      a1\<lparr>ac_next_auto_ctx_id := ac_next_auto_ctx_id a1 + 1\<rparr>));
             sq = ac_next_turn_seq a2;
             a3 = a2\<lparr>ac_next_turn_seq := sq + 1\<rparr>;
             ticket = \<lparr> tk_seq = sq, tk_text = text, tk_attachments = atts, tk_skills = skills,
                        tk_kind = kind, tk_turn_index = turn_index, tk_reply = n \<rparr>
         in try_dispatch E (a3\<lparr>ac_queued_user := ac_queued_user a3 @ [ticket]\<rparr>)))"

definition end_turn_and_dispatch :: "'c env \<Rightarrow> 'c SessionActor \<Rightarrow> 'c SessionActor" where
  "end_turn_and_dispatch E a =
     try_dispatch E
       (set_pending_slash None (a\<lparr>ac_active_turn := None, ac_active_extractor := None\<rparr>))"

text \<open>Auto-context is disabled in the source: only the dedup state is kept.\<close>

definition on_user_turn_finished :: "ActiveTurn \<Rightarrow> 'c SessionActor \<Rightarrow> 'c SessionActor" where
  "on_user_turn_finished turn a =
     (case at_origin turn of
        OUser (NormalTurn i) \<Rightarrow> a\<lparr>ac_last_auto_context_for := Some i\<rparr>
      | _ \<Rightarrow> a)"

section \<open>The timeout clock\<close>

definition pending_timeout_msg :: "instant \<Rightarrow> PendingInteractiveRequest \<Rightarrow> string" where
  "pending_timeout_msg now r =
     ''Session timeout '' @ [CHR 0xE2, CHR 0x80, CHR 0x94] @ '' waited ''
       @ show_nat ((now - pr_received_at r) div 1000) @ ''s for '' @ pr_subtype r
       @ '' response ('' @ pr_detail r @ ''). Process killed.''"

definition quarantine_error_msg :: "'c SessionActor \<Rightarrow> string" where
  "quarantine_error_msg a =
     (if ac_quarantine_from_internal a
      then ''Auto-context hard timeout '' @ [CHR 0xE2, CHR 0x80, CHR 0x94] @ '' process killed''
      else (case ac_pending_interactive_request a of
              Some r \<Rightarrow> pending_timeout_msg (now_of a) r
            | None \<Rightarrow>
                ''Session timeout '' @ [CHR 0xE2, CHR 0x80, CHR 0x94]
                  @ '' no output from CLI for 30 minutes. Process killed.''))"

definition quarantine_kill :: "'c env \<Rightarrow> 'c SessionActor \<Rightarrow> 'c SessionActor" where
  "quarantine_kill E a =
     (let a1 = set_pending_slash None a;
          a2 = (if ac_child a1 then emit_fx Killed a1 else a1);
          a3 = emit_state E ''failed'' None (Some (quarantine_error_msg a2)) True a2;
          a4 = fail_all_pending_replies ''Session hard timeout'' a3
      in a4\<lparr>ac_terminated := True\<rparr>)"

definition tick_quarantine :: "'c env \<Rightarrow> 'c SessionActor \<Rightarrow> 'c SessionActor" where
  "tick_quarantine E a =
     (if is_some_and (ac_quarantine_deadline a) (\<lambda>d. now_of a \<ge> d) then quarantine_kill E a
      else if \<not> ac_interrupt_sent_for_quarantine a then
        (let a1 = send_interrupt_to_cli E a in
         a1\<lparr>ac_interrupt_sent_for_quarantine := True,
            ac_quarantine_deadline := Some (now_of a1 + QUARANTINE_DEADLINE)\<rparr>)
      else a)"

definition tick_no_turn :: "'c SessionActor \<Rightarrow> 'c SessionActor" where
  "tick_no_turn a =
     (case ac_ralph_loop a of
        None \<Rightarrow> a
      | Some r \<Rightarrow>
          if rl_phase r = WaitingRetry \<and> is_some_and (rl_retry_after r) (\<lambda>d. now_of a \<ge> d)
          then a\<lparr>ac_ralph_needs_dispatch := True\<rparr> else a)"

definition enter_quarantine :: "bool \<Rightarrow> 'c SessionActor \<Rightarrow> 'c SessionActor" where
  "enter_quarantine from_internal a =
     (set_pending_slash None a)
       \<lparr>ac_active_turn := None, ac_quarantine_until_result := True,
        ac_interrupt_sent_for_quarantine := False, ac_quarantine_deadline := None,
        ac_quarantine_from_internal := from_internal\<rparr>"

definition tick_turn :: "ActiveTurn \<Rightarrow> 'c SessionActor \<Rightarrow> 'c SessionActor" where
  "tick_turn t a =
     (let now = now_of a in
      if is_internal_origin (at_origin t) then
        (if now \<ge> at_hard_deadline t
         then enter_quarantine True (a\<lparr>ac_active_extractor := None\<rparr>)
         else if now \<ge> at_soft_deadline t \<and> at_phase t = PhaseActive
         then a\<lparr>ac_active_turn := Some (t\<lparr>at_phase := PhaseDraining\<rparr>)\<rparr>
         else a)
      else if now \<ge> at_hard_deadline t then enter_quarantine False a
      else a)"

definition on_tick_timeout :: "'c env \<Rightarrow> 'c SessionActor \<Rightarrow> 'c SessionActor" where
  "on_tick_timeout E a =
     (if ac_quarantine_until_result a then tick_quarantine E a
      else (case ac_active_turn a of
              None \<Rightarrow> tick_no_turn a
            | Some t \<Rightarrow> tick_turn t a))"

end
