(* ===== verification/TurnSpec.thy ===== *)
theory TurnSpec
  imports TurnDispatch
begin

text \<open>
  What the turn engine promises, without the protocol, the metadata, the control waiters and
  the machinery of internal turns: an abstract engine that has at most one turn, a queue of
  messages, a quarantine flag and a Ralph loop.  Its steps leave open what the child and the
  clock do (an \<open>outcome\<close> for each write, any run state at any time).  The theory
  \<open>TurnRefinement\<close> shows that the session actor refines it.
\<close>

section \<open>The abstract engine\<close>

record engine =
  e_run_id :: string
  e_claude :: bool
  e_ready :: bool
  e_open :: bool
  e_now :: instant
  e_state :: string
  e_turn :: "ActiveTurn option"
  e_queue :: "UserTurnTicket list"
  e_seq :: u64
  e_index :: u32
  e_quarantine :: bool
  e_terminated :: bool
  e_ralph :: "RalphLoopState option"
  e_panicked :: bool
  e_marks :: "effect list"

datatype outcome = Sent string | Refused string | Panics

definition sp_mark :: "effect \<Rightarrow> engine \<Rightarrow> engine" where
  "sp_mark e v = v\<lparr>e_marks := e_marks v @ [e]\<rparr>"

definition sp_state :: "string \<Rightarrow> i32 option \<Rightarrow> string option \<Rightarrow> engine \<Rightarrow> engine" where
  "sp_state s x er v =
     (if e_state v = s then v
      else sp_mark (Persisted (RunState (e_run_id v) s x er)) (v\<lparr>e_state := s\<rparr>))"

definition sp_running :: "string \<Rightarrow> string \<Rightarrow> engine \<Rightarrow> engine" where
  "sp_running text uuid v =
     sp_state ''running'' None None
       (sp_mark (Persisted (UserMessage (e_run_id v) text (Some uuid) None [])) v)"

definition sp_start_user :: "outcome \<Rightarrow> UserTurnTicket \<Rightarrow> engine \<Rightarrow> engine" where
  "sp_start_user oc t v =
     (case oc of
        Panics \<Rightarrow> v\<lparr>e_panicked := True\<rparr>
      | Refused e \<Rightarrow> sp_mark (SendReply (tk_reply t) (Inl e)) v
      | Sent u \<Rightarrow>
          (sp_mark (SendReply (tk_reply t) (Inr ())) (sp_running (tk_text t) u v))
            \<lparr>e_turn := Some (user_turn (e_now v) t)\<rparr>)"

definition sp_ralph_complete :: "RalphCompleteReason \<Rightarrow> engine \<Rightarrow> engine" where
  "sp_ralph_complete reason v =
     sp_mark (Persisted (RalphComplete (e_run_id v) reason
                (case e_ralph v of None \<Rightarrow> 0 | Some r \<Rightarrow> rl_iteration r)))
       (v\<lparr>e_ralph := None\<rparr>)"

definition sp_ralph_failed :: "engine \<Rightarrow> engine" where
  "sp_ralph_failed v =
     (case e_ralph v of
        None \<Rightarrow> v
      | Some r \<Rightarrow>
          (let r1 = r\<lparr>rl_consecutive_failures := rl_consecutive_failures r + 1\<rparr>
           in if rl_consecutive_failures r1 \<ge> rl_max_consecutive_failures r1
              then sp_ralph_complete FailStopped (v\<lparr>e_ralph := Some r1\<rparr>)
              else v\<lparr>e_ralph := Some (r1\<lparr>
                       rl_retry_after := Some (e_now v + ralph_backoff (rl_consecutive_failures r1)),
                       rl_phase := WaitingRetry\<rparr>)\<rparr>))"

definition sp_start_ralph :: "outcome \<Rightarrow> string \<Rightarrow> engine \<Rightarrow> engine" where
  "sp_start_ralph oc prompt v =
     (let v1 = v\<lparr>e_index := e_index v + 1, e_seq := e_seq v + 1,
                 e_ralph := map_option (\<lambda>r. r\<lparr>rl_turn_toplevel_texts := []\<rparr>) (e_ralph v)\<rparr>
      in case oc of
           Panics \<Rightarrow> v1\<lparr>e_panicked := True\<rparr>
         | Refused e \<Rightarrow> sp_ralph_failed v1
         | Sent u \<Rightarrow>
             (sp_running prompt u v1)\<lparr>e_turn := Some (ralph_turn (e_now v) (e_seq v) (e_index v))\<rparr>)"

definition sp_gate :: "engine \<Rightarrow> bool" where
  "sp_gate v \<longleftrightarrow>
     e_turn v = None \<and> \<not> e_quarantine v \<and> \<not> e_terminated v \<and> (e_claude v \<or> e_ready v)"

definition sp_dispatch_ralph :: "outcome \<Rightarrow> engine \<Rightarrow> engine" where
  "sp_dispatch_ralph oc v =
     (case e_ralph v of
        None \<Rightarrow> v
      | Some r \<Rightarrow>
          (case rl_phase r of
             RalphRunning \<Rightarrow> sp_start_ralph oc (rl_prompt r) v
           | WaitingRetry \<Rightarrow>
               if is_some_and (rl_retry_after r) (\<lambda>d. e_now v \<ge> d)
               then sp_start_ralph oc (rl_prompt r)
                      (v\<lparr>e_ralph := Some (r\<lparr>rl_phase := RalphRunning, rl_retry_after := None\<rparr>)\<rparr>)
               else v
           | _ \<Rightarrow> v))"

definition sp_dispatch :: "outcome \<Rightarrow> engine \<Rightarrow> engine" where
  "sp_dispatch oc v =
     (if \<not> sp_gate v then v
      else (case e_queue v of
              t # ts \<Rightarrow>
                sp_start_user oc t (v\<lparr>e_queue := ts, e_ralph := map_option pause_ralph (e_ralph v)\<rparr>)
            | [] \<Rightarrow> sp_dispatch_ralph oc v))"

definition sp_enqueue :: "UserTurnTicket \<Rightarrow> engine \<Rightarrow> engine" where
  "sp_enqueue t v =
     v\<lparr>e_queue := e_queue v @ [t\<lparr>tk_seq := e_seq v, tk_turn_index := e_index v\<rparr>],
        e_seq := e_seq v + 1, e_index := e_index v + 1\<rparr>"

definition sp_ralph_end :: "ActiveTurn \<Rightarrow> bool \<Rightarrow> engine \<Rightarrow> engine" where
  "sp_ralph_end turn failed v =
     (case e_ralph v of
        None \<Rightarrow> v
      | Some r \<Rightarrow>
          (case ralph_action (at_origin turn) failed r of
             (r1, action) \<Rightarrow>
               (let v1 = v\<lparr>e_ralph := Some r1\<rparr> in
                case action of
                  RComplete reason \<Rightarrow> sp_ralph_complete reason v1
                | REmitIteration i m \<Rightarrow>
                    sp_mark (Persisted (RalphIteration (e_run_id v1) i m)) v1
                | RSetWaitingRetry backoff \<Rightarrow>
                    v1\<lparr>e_ralph := Some (r1\<lparr>rl_phase := WaitingRetry,
                                            rl_retry_after := Some (e_now v1 + backoff)\<rparr>)\<rparr>
                | RResumeFrom phase \<Rightarrow> v1\<lparr>e_ralph := Some (r1\<lparr>rl_phase := phase\<rparr>)\<rparr>
                | RNoop \<Rightarrow> v1)))"

fun sp_fail_tickets :: "string \<Rightarrow> UserTurnTicket list \<Rightarrow> engine \<Rightarrow> engine" where
  "sp_fail_tickets reason [] v = v"
| "sp_fail_tickets reason (t # ts) v =
     sp_fail_tickets reason ts (sp_mark (SendReply (tk_reply t) (Inl reason)) v)"

definition sp_fail_all :: "string \<Rightarrow> engine \<Rightarrow> engine" where
  "sp_fail_all reason v = sp_fail_tickets reason (e_queue v) (v\<lparr>e_queue := []\<rparr>)"

definition sp_ralph_loop :: "string \<Rightarrow> u32 \<Rightarrow> string option \<Rightarrow> string \<Rightarrow> RalphLoopState" where
  "sp_ralph_loop prompt mx promise started =
     \<lparr> rl_prompt = prompt, rl_phase = RalphRunning, rl_iteration = 0,
       rl_max_iterations = mx, rl_completion_promise = promise, rl_started_at = started,
       rl_consecutive_failures = 0, rl_max_consecutive_failures = 3, rl_retry_after = None,
       rl_turn_toplevel_texts = [] \<rparr>"

section \<open>Its steps\<close>

datatype spec_label = Accept nat | Tau

text \<open>
  \<open>P\<close> restricts the outcomes of the writes and \<open>Q\<close> the events that the driver of a Codex session
  emits of its own.
\<close>

inductive spec_step ::
  "(outcome \<Rightarrow> bool) \<Rightarrow> (BusEvent \<Rightarrow> bool) \<Rightarrow> engine \<Rightarrow> spec_label \<Rightarrow> engine \<Rightarrow> bool"
  for P Q where
  sp_time: "e_now v \<le> n \<Longrightarrow> spec_step P Q v Tau (v\<lparr>e_now := n\<rparr>)"
| sp_accept:
    "P oc \<Longrightarrow> \<not> e_terminated v \<Longrightarrow> tk_reply t = n \<Longrightarrow>
     spec_step P Q v (Accept n) (sp_dispatch oc (sp_enqueue t v))"
| sp_reject:
    "e_terminated v \<Longrightarrow>
     spec_step P Q v (Accept n) (sp_mark (SendReply n (Inl ''Session terminated'')) v)"
| sp_activity:
    "\<not> e_quarantine v \<Longrightarrow>
     spec_step P Q v Tau
       (v\<lparr>e_turn := map_option (\<lambda>t. t\<lparr>at_hard_deadline := e_now v + USER_HARD_TIMEOUT\<rparr>) (e_turn v)\<rparr>)"
| sp_new_state: "\<not> e_quarantine v \<or> \<not> e_claude v \<Longrightarrow> spec_step P Q v Tau (sp_state s x er v)"
| sp_finish:
    "P oc \<Longrightarrow> e_claude v \<Longrightarrow> \<not> e_quarantine v \<Longrightarrow> e_turn v = Some t \<Longrightarrow>
     spec_step P Q v Tau (sp_dispatch oc (sp_ralph_end t failed (v\<lparr>e_turn := None\<rparr>)))"
| sp_codex_end:
    "P oc \<Longrightarrow> \<not> e_claude v \<Longrightarrow> spec_step P Q v Tau (sp_dispatch oc (v\<lparr>e_turn := None\<rparr>))"
| sp_codex_ready:
    "P oc \<Longrightarrow> \<not> e_claude v \<Longrightarrow> spec_step P Q v Tau (sp_dispatch oc (v\<lparr>e_ready := True\<rparr>))"
| sp_codex_event:
    "Q ev \<Longrightarrow> \<not> e_claude v \<Longrightarrow> spec_step P Q v Tau (sp_mark (Persisted ev) v)"
| sp_timeout:
    "\<not> e_quarantine v \<Longrightarrow> e_turn v = Some t \<Longrightarrow> at_hard_deadline t \<le> e_now v \<Longrightarrow>
     spec_step P Q v Tau (v\<lparr>e_turn := None, e_quarantine := True\<rparr>)"
| sp_lift:
    "P oc \<Longrightarrow> e_claude v \<Longrightarrow> e_quarantine v \<Longrightarrow>
     spec_step P Q v Tau (sp_dispatch oc (v\<lparr>e_quarantine := False\<rparr>))"
| sp_kill:
    "e_quarantine v \<Longrightarrow>
     spec_step P Q v Tau
       ((sp_fail_all ''Session hard timeout'' (sp_state ''failed'' None er v))\<lparr>e_terminated := True\<rparr>)"
| sp_retry:
    "P oc \<Longrightarrow> spec_step P Q v Tau (sp_dispatch oc v)"
| sp_ralph_start:
    "P oc \<Longrightarrow> e_ralph v = None \<Longrightarrow>
     spec_step P Q v Tau
       (sp_dispatch oc
          (sp_mark (Persisted (RalphStarted (e_run_id v) prompt mx promise started))
             (v\<lparr>e_ralph := Some (sp_ralph_loop prompt mx promise started)\<rparr>)))"
| sp_ralph_cancel_pending:
    "e_ralph v = Some r \<Longrightarrow> e_turn v = Some t \<Longrightarrow> at_origin t = ORalph \<Longrightarrow>
     spec_step P Q v Tau (v\<lparr>e_ralph := Some (r\<lparr>rl_phase := CancelPending\<rparr>)\<rparr>)"
| sp_ralph_cancel:
    "e_ralph v \<noteq> None \<Longrightarrow> \<not> is_some_and (e_turn v) (\<lambda>t. at_origin t = ORalph) \<Longrightarrow>
     spec_step P Q v Tau (sp_ralph_complete Cancelled v)"

text \<open>How a session closes: its last messages fail, and it may end the turn and the quarantine.\<close>

inductive spec_close :: "engine \<Rightarrow> engine \<Rightarrow> bool" for v where
  close_refl: "spec_close v v"
| close_fail: "spec_close v w \<Longrightarrow> spec_close v (sp_fail_all reason w)"
| close_state: "spec_close v w \<Longrightarrow> spec_close v (sp_state s x er w)"
| close_end: "spec_close v w \<Longrightarrow> spec_close v (w\<lparr>e_turn := None, e_quarantine := False\<rparr>)"
| close_stdin: "spec_close v w \<Longrightarrow> spec_close v (w\<lparr>e_open := False\<rparr>)"

text \<open>Executions, with the numbers of the messages that were accepted.\<close>

inductive spec_run ::
  "(outcome \<Rightarrow> bool) \<Rightarrow> (BusEvent \<Rightarrow> bool) \<Rightarrow> engine \<Rightarrow> nat list \<Rightarrow> engine \<Rightarrow> bool"
  for P Q v where
  spec_run_nil: "spec_run P Q v [] v"
| spec_run_tau:
    "spec_run P Q v ns w \<Longrightarrow> \<not> e_panicked w \<Longrightarrow> spec_step P Q w Tau u \<Longrightarrow> spec_run P Q v ns u"
| spec_run_accept:
    "spec_run P Q v ns w \<Longrightarrow> \<not> e_panicked w \<Longrightarrow> spec_step P Q w (Accept n) u
       \<Longrightarrow> spec_run P Q v (ns @ [n]) u"

section \<open>Invariants of the engine\<close>

lemmas sp_defs = sp_mark_def sp_state_def sp_running_def sp_start_user_def sp_ralph_complete_def
  sp_ralph_failed_def sp_start_ralph_def sp_dispatch_ralph_def sp_ralph_end_def Let_def

text \<open>In quarantine no turn is active, and a terminated engine owes nothing.\<close>

definition gate_ok :: "engine \<Rightarrow> bool" where
  "gate_ok v \<longleftrightarrow>
     (e_quarantine v \<longrightarrow> e_turn v = None) \<and> (e_terminated v \<longrightarrow> e_queue v = [])
     \<and> (\<forall>t. e_turn v = Some t \<longrightarrow> \<not> is_internal_origin (at_origin t))"

lemma sp_fail_tickets_fields [simp]:
  "e_queue (sp_fail_tickets r ts v) = e_queue v" "e_turn (sp_fail_tickets r ts v) = e_turn v"
  "e_quarantine (sp_fail_tickets r ts v) = e_quarantine v"
  "e_terminated (sp_fail_tickets r ts v) = e_terminated v"
  "e_ralph (sp_fail_tickets r ts v) = e_ralph v" "e_claude (sp_fail_tickets r ts v) = e_claude v"
  "e_state (sp_fail_tickets r ts v) = e_state v"
  "e_panicked (sp_fail_tickets r ts v) = e_panicked v"
  "e_marks (sp_fail_tickets r ts v) =
     e_marks v @ map (\<lambda>t. SendReply (tk_reply t) (Inl r)) ts"
  by (induction ts arbitrary: v) (simp_all add: sp_mark_def)

lemma sp_fail_all_fields [simp]:
  "e_queue (sp_fail_all r v) = []" "e_turn (sp_fail_all r v) = e_turn v"
  "e_quarantine (sp_fail_all r v) = e_quarantine v"
  "e_terminated (sp_fail_all r v) = e_terminated v"
  "e_ralph (sp_fail_all r v) = e_ralph v" "e_claude (sp_fail_all r v) = e_claude v"
  "e_state (sp_fail_all r v) = e_state v" "e_panicked (sp_fail_all r v) = e_panicked v"
  "e_marks (sp_fail_all r v) =
     e_marks v @ map (\<lambda>t. SendReply (tk_reply t) (Inl r)) (e_queue v)"
  by (simp_all add: sp_fail_all_def)

lemma sp_dispatch_cases:
  obtains (closed) "\<not> sp_gate v" "sp_dispatch oc v = v"
  | (user) t ts where "sp_gate v" "e_queue v = t # ts"
      "sp_dispatch oc v =
         sp_start_user oc t (v\<lparr>e_queue := ts, e_ralph := map_option pause_ralph (e_ralph v)\<rparr>)"
  | (ralph) r where "sp_gate v" "e_queue v = []" "e_ralph v = Some r" "rl_phase r = RalphRunning"
      "sp_dispatch oc v = sp_start_ralph oc (rl_prompt r) v"
  | (retry) r where "sp_gate v" "e_queue v = []" "e_ralph v = Some r" "rl_phase r = WaitingRetry"
      "sp_dispatch oc v = sp_start_ralph oc (rl_prompt r)
         (v\<lparr>e_ralph := Some (r\<lparr>rl_phase := RalphRunning, rl_retry_after := None\<rparr>)\<rparr>)"
  | (idle) "sp_gate v" "e_queue v = []" "sp_dispatch oc v = v"
      "\<forall>r. e_ralph v = Some r \<longrightarrow> rl_phase r \<noteq> RalphRunning"
proof -
  show thesis
  proof (cases "sp_gate v")
    case g: True
    show thesis
    proof (cases "e_queue v")
      case (Cons t ts)
      then show thesis using g by (intro user) (simp_all add: sp_dispatch_def)
    next
      case q: Nil
      show thesis
      proof (cases "e_ralph v")
        case None
        then show thesis using g q by (intro idle) (simp_all add: sp_dispatch_def sp_dispatch_ralph_def)
      next
        case (Some r)
        note d = sp_dispatch_def sp_dispatch_ralph_def
        show thesis
        proof (cases "rl_phase r")
          case RalphRunning
          then show thesis using g q Some by (intro ralph [of r]) (simp_all add: d)
        next
          case W: WaitingRetry
          show thesis
          proof (cases "is_some_and (rl_retry_after r) (\<lambda>d. e_now v \<ge> d)")
            case True
            then show thesis using g q Some W by (intro retry [of r]) (simp_all add: d)
          next
            case False
            then show thesis using g q Some W by (intro idle) (simp_all add: d)
          qed
        next
          case (PausedByUser p)
          then show thesis using g q Some by (intro idle) (simp_all add: d)
        next
          case CancelPending
          then show thesis using g q Some by (intro idle) (simp_all add: d)
        qed
      qed
    qed
  qed (auto intro: closed simp: sp_dispatch_def)
qed

lemma gate_ok_dispatch:
  assumes "gate_ok v"
  shows "gate_ok (sp_dispatch oc v)"
  using assms
  by (cases rule: sp_dispatch_cases [of v oc])
    (auto simp: gate_ok_def sp_gate_def sp_defs user_turn_def ralph_turn_def split: outcome.split option.split)

lemma gate_ok_step:
  assumes "spec_step P Q v l v'" "gate_ok v"
  shows "gate_ok v'"
  using assms
  by (induction rule: spec_step.induct)
    (auto simp: gate_ok_def sp_enqueue_def sp_defs
        intro!: gate_ok_dispatch [unfolded gate_ok_def] split: option.split prod.split RalphAction.split)

text \<open>
  The messages that are answered, in order, and those that wait: together exactly what was
  accepted.
\<close>

definition send_id :: "effect \<Rightarrow> nat option" where
  "send_id e = (case e of SendReply n r \<Rightarrow> Some n | _ \<Rightarrow> None)"

definition answered :: "effect list \<Rightarrow> nat list" where
  "answered es = List.map_filter send_id es"

lemma answered_simps [simp]:
  "answered [] = []" "answered (es @ fs) = answered es @ answered fs"
  "answered (SendReply n r # es) = n # answered es"
  "answered (Persisted ev # es) = answered es"
  "answered (map (\<lambda>t. SendReply (f t) (g t)) ts) = map f ts"
  by (simp_all add: answered_def List.map_filter_def send_id_def comp_def)

definition owed :: "engine \<Rightarrow> nat list" where
  "owed v = answered (e_marks v) @ map tk_reply (e_queue v)"

lemma owed_dispatch:
  assumes "\<not> e_panicked (sp_dispatch oc v)"
  shows "owed (sp_dispatch oc v) = owed v"
  using assms
  by (cases rule: sp_dispatch_cases [of v oc])
    (auto simp: owed_def sp_defs split: outcome.split option.split)

lemma owed_step:
  assumes "spec_step P Q v l v'" "gate_ok v" "\<not> e_panicked v'"
  shows "owed v' = owed v @ (case l of Accept n \<Rightarrow> [n] | Tau \<Rightarrow> [])"
  using assms
  by (induction rule: spec_step.induct)
    (auto simp: owed_dispatch, auto simp: owed_def gate_ok_def sp_enqueue_def sp_defs
       split: option.split prod.split RalphAction.split)

text \<open>The Ralph loop: its phases, the failure bound and the iteration bound.\<close>

definition phase_ok :: "RalphLoopState \<Rightarrow> bool" where
  "phase_ok r \<longleftrightarrow>
     (case rl_phase r of
        RalphRunning \<Rightarrow> True
      | CancelPending \<Rightarrow> True
      | WaitingRetry \<Rightarrow> rl_retry_after r \<noteq> None
      | PausedByUser p \<Rightarrow> p = RalphRunning \<or> p = WaitingRetry \<and> rl_retry_after r \<noteq> None)"

definition loop_ok :: "RalphLoopState \<Rightarrow> bool" where
  "loop_ok r \<longleftrightarrow>
     phase_ok r \<and> rl_turn_toplevel_texts r = [] \<and> rl_max_consecutive_failures r = 3
     \<and> rl_consecutive_failures r < 3
     \<and> (rl_max_iterations r > 0 \<longrightarrow> rl_iteration r < rl_max_iterations r)"

definition ralph_ok :: "engine \<Rightarrow> bool" where
  "ralph_ok v \<longleftrightarrow>
     (\<forall>r. e_ralph v = Some r \<longrightarrow> loop_ok r \<and> (\<not> e_claude v \<longrightarrow> rl_iteration r = 0))
     \<and> (\<forall>t. e_turn v = Some t \<longrightarrow> at_origin t = ORalph \<longrightarrow>
          (\<exists>r. e_ralph v = Some r \<and> (rl_phase r = RalphRunning \<or> rl_phase r = CancelPending)))"

lemma loop_ok_start: "loop_ok (sp_ralph_loop prompt mx promise started)"
  by (simp add: loop_ok_def phase_ok_def sp_ralph_loop_def)

lemma loop_ok_pause: "loop_ok r \<Longrightarrow> loop_ok (pause_ralph r)"
  by (auto simp: loop_ok_def phase_ok_def pause_ralph_def split: RalphPhase.splits)

lemma rl_iteration_pause [simp]: "rl_iteration (pause_ralph r) = rl_iteration r"
  by (simp add: pause_ralph_def split: RalphPhase.split)

lemma loop_ok_texts: "loop_ok r \<Longrightarrow> r\<lparr>rl_turn_toplevel_texts := []\<rparr> = r"
  by (cases r) (simp add: loop_ok_def)

lemma ralph_ok_failed:
  assumes "ralph_ok v" "e_turn v = None"
  shows "ralph_ok (sp_ralph_failed v)"
proof (cases "e_ralph v")
  case None
  with assms show ?thesis by (simp add: sp_ralph_failed_def)
next
  case (Some r)
  let ?f = "rl_consecutive_failures r + 1"
  from assms Some have r: "loop_ok r" "\<not> e_claude v \<longrightarrow> rl_iteration r = 0"
    by (simp_all add: ralph_ok_def)
  have m: "rl_max_consecutive_failures r = 3" using r by (simp add: loop_ok_def)
  show ?thesis
  proof (cases "3 \<le> ?f")
    case True
    with assms show ?thesis
      by (simp add: sp_ralph_failed_def Some m sp_ralph_complete_def sp_mark_def ralph_ok_def Let_def)
  next
    case False
    then have "loop_ok (r\<lparr>rl_consecutive_failures := ?f, rl_retry_after := Some d,
        rl_phase := WaitingRetry\<rparr>)" for d
      using r unfolding loop_ok_def phase_ok_def not_le by simp
    with False r assms show ?thesis
      by (simp add: sp_ralph_failed_def Some m ralph_ok_def Let_def)
  qed
qed

lemma ralph_ok_start_ralph:
  assumes "ralph_ok v" "e_turn v = None" "e_ralph v = Some r" "rl_phase r = RalphRunning"
  shows "ralph_ok (sp_start_ralph oc p v)"
proof (cases oc)
  case (Refused e)
  let ?v = "v\<lparr>e_index := e_index v + 1, e_seq := e_seq v + 1,
      e_ralph := map_option (\<lambda>r. r\<lparr>rl_turn_toplevel_texts := []\<rparr>) (e_ralph v)\<rparr>"
  have "ralph_ok ?v" using assms by (auto simp: ralph_ok_def loop_ok_texts)
  then have "ralph_ok (sp_ralph_failed ?v)" using assms by (intro ralph_ok_failed) simp_all
  then show ?thesis by (simp add: sp_start_ralph_def Refused)
qed (use assms in \<open>auto simp: ralph_ok_def sp_defs loop_ok_texts ralph_turn_def\<close>)

lemma ralph_ok_dispatch:
  assumes "ralph_ok v"
  shows "ralph_ok (sp_dispatch oc v)"
proof (cases rule: sp_dispatch_cases [of v oc])
  case (user t ts)
  then have "e_turn v = None" by (simp add: sp_gate_def)
  with user assms show ?thesis
    by (auto simp: ralph_ok_def sp_defs user_turn_def loop_ok_pause split: outcome.split)
next
  case (ralph r)
  with assms show ?thesis by (simp add: ralph_ok_start_ralph sp_gate_def)
next
  case (retry r)
  let ?v = "v\<lparr>e_ralph := Some (r\<lparr>rl_phase := RalphRunning, rl_retry_after := None\<rparr>)\<rparr>"
  have "ralph_ok ?v" using retry assms
    by (auto simp: ralph_ok_def loop_ok_def phase_ok_def sp_gate_def)
  with retry show ?thesis by (auto intro: ralph_ok_start_ralph simp: sp_gate_def)
qed (use assms in simp_all)

lemma loop_ok_action:
  assumes "loop_ok r" "ralph_action og failed r = (r1, action)"
    and "\<forall>c. action \<noteq> RComplete c"
  shows "case action of
      RSetWaitingRetry b \<Rightarrow> loop_ok (r1\<lparr>rl_phase := WaitingRetry, rl_retry_after := Some d\<rparr>)
    | RResumeFrom p \<Rightarrow> loop_ok (r1\<lparr>rl_phase := p\<rparr>)
    | _ \<Rightarrow> loop_ok r1"
  using assms
  by (auto simp: ralph_action_def ralph_turn_action_def ralph_user_action_def natural_reason_def
      promise_matched_def loop_ok_def phase_ok_def not_le Let_def
      split: TurnOrigin.splits if_splits option.splits RalphPhase.splits)

lemma ralph_ok_end:
  assumes "ralph_ok v" "e_claude v" "e_turn v = None"
  shows "ralph_ok (sp_ralph_end t failed v)"
proof (cases "e_ralph v")
  case None
  then show ?thesis using assms by (simp add: sp_ralph_end_def)
next
  case (Some r)
  obtain r1 action where a: "ralph_action (at_origin t) failed r = (r1, action)" by fastforce
  have "loop_ok r" using assms Some by (simp add: ralph_ok_def)
  note act = loop_ok_action [OF this a]
  show ?thesis
  proof (cases action)
    case (RComplete c)
    then show ?thesis using assms by (simp add: sp_ralph_end_def Some a sp_ralph_complete_def sp_mark_def ralph_ok_def)
  qed (use assms act in \<open>simp_all add: sp_ralph_end_def Some a sp_mark_def ralph_ok_def Let_def\<close>)
qed

lemma ralph_ok_step:
  assumes "spec_step P Q v l v'" "ralph_ok v"
  shows "ralph_ok v'"
  using assms
proof (induction rule: spec_step.induct)
  case (sp_finish oc v t failed)
  then have "ralph_ok (v\<lparr>e_turn := None\<rparr>)" by (simp add: ralph_ok_def)
  with sp_finish show ?case by (intro ralph_ok_dispatch ralph_ok_end) simp_all
next
  case (sp_ralph_start oc v prompt mx promise started)
  then show ?case
    by (intro ralph_ok_dispatch) (auto simp: ralph_ok_def sp_mark_def loop_ok_start, simp add: sp_ralph_loop_def)
next
  case (sp_ralph_cancel_pending v r t)
  then show ?case by (auto simp: ralph_ok_def loop_ok_def phase_ok_def)
qed (auto intro!: ralph_ok_dispatch, auto simp: ralph_ok_def sp_enqueue_def sp_defs)

text \<open>The run states that are emitted: no two in a row are equal.\<close>

definition mark_state :: "effect \<Rightarrow> string option" where
  "mark_state e = (case e of Persisted ev \<Rightarrow> run_state_of ev | _ \<Rightarrow> None)"

definition mark_states :: "effect list \<Rightarrow> string list" where
  "mark_states es = List.map_filter mark_state es"

lemma mark_states_simps [simp]:
  "mark_states [] = []" "mark_states (es @ fs) = mark_states es @ mark_states fs"
  "mark_states (SendReply n r # es) = mark_states es"
  "mark_states (Persisted (RunState i s x er) # es) = s # mark_states es"
  "mark_states (Persisted (UserMessage i t u c ats) # es) = mark_states es"
  "mark_states (Persisted (RalphStarted i p m pr st) # es) = mark_states es"
  "mark_states (Persisted (RalphIteration i k m) # es) = mark_states es"
  "mark_states (Persisted (RalphComplete i rc k) # es) = mark_states es"
  "mark_states (map (\<lambda>t. SendReply (f t) (g t)) ts) = []"
  by (simp_all add: mark_states_def List.map_filter_def mark_state_def run_state_of_def comp_def)

definition quiet_events :: "(BusEvent \<Rightarrow> bool) \<Rightarrow> bool" where
  "quiet_events Q \<longleftrightarrow> (\<forall>ev. Q ev \<longrightarrow> \<not> loud_event ev)"

lemma quiet_event_marks:
  assumes "\<not> loud_event ev"
  shows "mark_states (es @ [Persisted ev]) = mark_states es"
    "Persisted (RalphComplete i c k) \<noteq> Persisted ev"
proof -
  have "run_state_of ev = None" using assms by (cases ev) (simp_all add: run_state_of_def)
  then show "mark_states (es @ [Persisted ev]) = mark_states es"
    by (simp add: mark_states_def mark_state_def List.map_filter_def)
  show "Persisted (RalphComplete i c k) \<noteq> Persisted ev" using assms by auto
qed

definition states_ok :: "(BusEvent \<Rightarrow> bool) \<Rightarrow> engine \<Rightarrow> bool" where
  "states_ok Q v \<longleftrightarrow>
     (e_claude v \<or> quiet_events Q \<longrightarrow> distinct_adj (mark_states (e_marks v))
        \<and> (mark_states (e_marks v) \<noteq> [] \<longrightarrow> last (mark_states (e_marks v)) = e_state v))"

lemma states_ok_state: "states_ok Q v \<Longrightarrow> states_ok Q (sp_state s x er v)"
  by (auto simp: states_ok_def sp_state_def sp_mark_def distinct_adj_append_iff)

lemma states_ok_running: "states_ok Q v \<Longrightarrow> states_ok Q (sp_running t u v)"
  unfolding sp_running_def by (rule states_ok_state) (simp add: states_ok_def sp_mark_def)

text \<open>States, marks and mode decide \<open>states_ok\<close>.\<close>

lemma states_ok_cong:
  "states_ok Q v \<Longrightarrow> e_claude w = e_claude v \<Longrightarrow> mark_states (e_marks w) = mark_states (e_marks v)
     \<Longrightarrow> e_state w = e_state v \<Longrightarrow> states_ok Q w"
  by (simp add: states_ok_def)

lemma sp_ralph_failed_marks:
  "mark_states (e_marks (sp_ralph_failed v)) = mark_states (e_marks v)"
  "e_state (sp_ralph_failed v) = e_state v" "e_claude (sp_ralph_failed v) = e_claude v"
  by (simp_all add: sp_ralph_failed_def sp_ralph_complete_def sp_mark_def Let_def split: option.split)

lemma states_ok_start:
  assumes "states_ok Q v"
  shows "states_ok Q (sp_start_user oc t v)" "states_ok Q (sp_start_ralph oc p v)"
proof -
  show "states_ok Q (sp_start_user oc t v)"
  proof (cases oc)
    case (Sent u)
    then show ?thesis
      by (intro states_ok_cong [OF states_ok_running [OF assms, of "tk_text t" u]])
        (simp_all add: sp_start_user_def sp_mark_def)
  qed (use assms in \<open>simp_all add: sp_start_user_def sp_mark_def states_ok_def\<close>)
  let ?v = "v\<lparr>e_index := e_index v + 1, e_seq := e_seq v + 1,
      e_ralph := map_option (\<lambda>r. r\<lparr>rl_turn_toplevel_texts := []\<rparr>) (e_ralph v)\<rparr>"
  have v: "states_ok Q ?v" using assms by (simp add: states_ok_def)
  show "states_ok Q (sp_start_ralph oc p v)"
  proof (cases oc)
    case (Sent u)
    then show ?thesis
      by (intro states_ok_cong [OF states_ok_running [OF v, of p u]])
        (simp_all add: sp_start_ralph_def)
  next
    case (Refused e)
    then show ?thesis
      by (intro states_ok_cong [OF v]) (simp_all add: sp_start_ralph_def sp_ralph_failed_marks)
  qed (use v in \<open>simp add: sp_start_ralph_def states_ok_def\<close>)
qed

lemma states_ok_dispatch:
  assumes "states_ok Q v"
  shows "states_ok Q (sp_dispatch oc v)"
proof -
  have v: "states_ok Q (v\<lparr>e_queue := q, e_ralph := r\<rparr>)" "states_ok Q (v\<lparr>e_ralph := r\<rparr>)" for q r
    using assms by (simp_all add: states_ok_def)
  show ?thesis
    by (cases rule: sp_dispatch_cases [of v oc])
      (simp_all only: states_ok_start v assms)
qed

lemma states_ok_end: "states_ok Q v \<Longrightarrow> states_ok Q (sp_ralph_end t failed v)"
  by (auto simp: sp_ralph_end_def sp_ralph_complete_def sp_mark_def states_ok_def Let_def
      split: option.split prod.split RalphAction.split)

lemma states_ok_step:
  assumes "spec_step P Q v l v'" "states_ok Q v"
  shows "states_ok Q v'"
  using assms
proof (induction rule: spec_step.induct)
  case (sp_finish oc v t failed)
  then have "states_ok Q (v\<lparr>e_turn := None\<rparr>)" by (simp add: states_ok_def)
  then show ?case by (intro states_ok_dispatch states_ok_end)
next
  case (sp_kill v er)
  then have "states_ok Q (sp_state ''failed'' None er v)" by (intro states_ok_state)
  then show ?case by (simp add: states_ok_def)
next
  case (sp_ralph_start oc v prompt mx promise started)
  then show ?case by (intro states_ok_dispatch) (simp add: states_ok_def sp_mark_def)
next
  case (sp_codex_event ev v)
  then have "quiet_events Q \<Longrightarrow> \<not> loud_event ev" by (simp add: quiet_events_def)
  with sp_codex_event show ?case
    by (simp add: states_ok_def sp_mark_def quiet_event_marks(1) del: mark_states_simps(2))
qed (auto intro!: states_ok_dispatch states_ok_state,
     auto simp: states_ok_def sp_enqueue_def sp_mark_def sp_ralph_complete_def Let_def)

text \<open>A session whose driver emits no event of the loop never completes it by its promise.\<close>

definition no_promise :: "(BusEvent \<Rightarrow> bool) \<Rightarrow> engine \<Rightarrow> bool" where
  "no_promise Q v \<longleftrightarrow>
     (e_claude v \<or> quiet_events Q \<longrightarrow> (\<forall>i k. Persisted (RalphComplete i CompletionPromise k) \<notin> set (e_marks v)))"

lemma no_promise_state: "no_promise Q v \<Longrightarrow> no_promise Q (sp_state s x er v)"
  by (auto simp: no_promise_def sp_state_def sp_mark_def)

lemma no_promise_failed: "no_promise Q v \<Longrightarrow> no_promise Q (sp_ralph_failed v)"
  by (auto simp: no_promise_def sp_ralph_failed_def sp_ralph_complete_def sp_mark_def Let_def
      split: option.split)

lemma no_promise_running: "no_promise Q v \<Longrightarrow> no_promise Q (sp_running t u v)"
  unfolding sp_running_def by (rule no_promise_state) (simp add: no_promise_def sp_mark_def)

lemma no_promise_cong:
  "no_promise Q v \<Longrightarrow> e_claude w = e_claude v \<Longrightarrow> e_marks w = e_marks v \<Longrightarrow> no_promise Q w"
  by (simp add: no_promise_def)

lemma no_promise_start:
  assumes "no_promise Q v"
  shows "no_promise Q (sp_start_user oc t v)" "no_promise Q (sp_start_ralph oc p v)"
proof -
  show "no_promise Q (sp_start_user oc t v)"
  proof (cases oc)
    case (Sent u)
    from no_promise_running [OF assms, of "tk_text t" u] show ?thesis
      by (simp add: sp_start_user_def Sent sp_mark_def no_promise_def)
  qed (use assms in \<open>simp_all add: sp_start_user_def sp_mark_def no_promise_def\<close>)
  let ?v = "v\<lparr>e_index := e_index v + 1, e_seq := e_seq v + 1,
      e_ralph := map_option (\<lambda>r. r\<lparr>rl_turn_toplevel_texts := []\<rparr>) (e_ralph v)\<rparr>"
  have v: "no_promise Q ?v" using assms by (simp add: no_promise_def)
  show "no_promise Q (sp_start_ralph oc p v)"
  proof (cases oc)
    case (Sent u)
    from no_promise_running [OF v, of p u] show ?thesis
      by (simp add: sp_start_ralph_def Sent no_promise_def)
  next
    case (Refused e)
    from no_promise_failed [OF v] show ?thesis by (simp add: sp_start_ralph_def Refused)
  qed (use v in \<open>simp add: sp_start_ralph_def no_promise_def\<close>)
qed

lemma no_promise_dispatch:
  assumes "no_promise Q v"
  shows "no_promise Q (sp_dispatch oc v)"
proof -
  have v: "no_promise Q (v\<lparr>e_queue := q, e_ralph := r\<rparr>)" "no_promise Q (v\<lparr>e_ralph := r\<rparr>)" for q r
    using assms by (simp_all add: no_promise_def)
  show ?thesis
    by (cases rule: sp_dispatch_cases [of v oc]) (simp_all only: no_promise_start v assms)
qed

lemma no_promise_action:
  "loop_ok r \<Longrightarrow> ralph_action og failed r = (r1, RComplete c) \<Longrightarrow> c \<noteq> CompletionPromise"
  by (auto simp: ralph_action_def ralph_turn_action_def ralph_user_action_def natural_reason_def
      promise_matched_def loop_ok_def Let_def
      split: TurnOrigin.splits if_splits option.splits RalphPhase.splits)

lemma no_promise_end:
  assumes "no_promise Q v" "ralph_ok v"
  shows "no_promise Q (sp_ralph_end t failed v)"
proof (cases "e_ralph v")
  case (Some r)
  obtain r1 action where a: "ralph_action (at_origin t) failed r = (r1, action)" by fastforce
  have "loop_ok r" using assms Some by (simp add: ralph_ok_def)
  then have "c \<noteq> CompletionPromise" if "action = RComplete c" for c
    using no_promise_action a that by blast
  with assms show ?thesis
    by (auto simp: sp_ralph_end_def Some a sp_ralph_complete_def sp_mark_def no_promise_def Let_def
        split: RalphAction.split)
qed (use assms in \<open>simp add: sp_ralph_end_def\<close>)

lemma no_promise_step:
  assumes "spec_step P Q v l v'" "no_promise Q v" "ralph_ok v"
  shows "no_promise Q v'"
  using assms
proof (induction rule: spec_step.induct)
  case (sp_finish oc v t failed)
  then have "no_promise Q (v\<lparr>e_turn := None\<rparr>)" "ralph_ok (v\<lparr>e_turn := None\<rparr>)"
    by (simp_all add: no_promise_def ralph_ok_def)
  then show ?case by (intro no_promise_dispatch no_promise_end)
next
  case (sp_kill v er)
  then have "no_promise Q (sp_state ''failed'' None er v)" by (intro no_promise_state)
  then show ?case by (auto simp: no_promise_def)
next
  case (sp_ralph_start oc v prompt mx promise started)
  then show ?case by (intro no_promise_dispatch) (simp add: no_promise_def sp_mark_def)
next
  case (sp_codex_event ev v)
  then have "quiet_events Q \<Longrightarrow> \<not> loud_event ev" by (simp add: quiet_events_def)
  with sp_codex_event show ?case by (auto simp: no_promise_def sp_mark_def)
qed (auto intro!: no_promise_dispatch no_promise_state,
     auto simp: no_promise_def sp_enqueue_def sp_mark_def sp_ralph_complete_def Let_def)

text \<open>
  An open gate leaves nothing to do, as long as no write is refused: no message waits and no
  Ralph loop is ready to run.
\<close>

definition accepting :: "outcome \<Rightarrow> bool" where
  "accepting oc \<longleftrightarrow> (\<forall>e. oc \<noteq> Refused e)"

definition work_ok :: "engine \<Rightarrow> bool" where
  "work_ok v \<longleftrightarrow>
     (sp_gate v \<longrightarrow> e_queue v = [] \<and> (\<forall>r. e_ralph v = Some r \<longrightarrow> rl_phase r \<noteq> RalphRunning))"

lemma work_ok_dispatch:
  assumes "accepting oc" "\<not> e_panicked (sp_dispatch oc v)"
  shows "work_ok (sp_dispatch oc v)"
proof -
  have u: "work_ok (sp_start_user oc t w)" if "\<not> e_panicked (sp_start_user oc t w)" for t w
    using that assms(1)
    by (cases oc) (simp_all add: accepting_def sp_start_user_def work_ok_def sp_gate_def)
  have r: "work_ok (sp_start_ralph oc p w)" if "\<not> e_panicked (sp_start_ralph oc p w)" for p w
    using that assms(1)
    by (cases oc) (simp_all add: accepting_def sp_start_ralph_def work_ok_def sp_gate_def)
  show ?thesis
    using assms(2) u r
    by (cases rule: sp_dispatch_cases [of v oc]) (auto simp: work_ok_def)
qed

lemma work_ok_step:
  assumes "spec_step P Q v l v'" "work_ok v" "\<not> e_panicked v'" "P \<le> accepting"
  shows "work_ok v'"
  using assms
proof (induction rule: spec_step.induct)
  case (sp_activity v)
  then show ?case by (simp add: work_ok_def sp_gate_def)
next
  case (sp_new_state v s x er)
  then show ?case by (simp add: work_ok_def sp_gate_def sp_state_def sp_mark_def)
qed (auto intro: work_ok_dispatch simp: le_fun_def,
     auto simp: work_ok_def sp_gate_def sp_mark_def sp_ralph_complete_def Let_def)

text \<open>Closing answers everything and keeps the rest.\<close>

lemma spec_close_inv:
  assumes "spec_close v w" "gate_ok v" "states_ok Q v" "no_promise Q v"
  shows "gate_ok w \<and> states_ok Q w \<and> no_promise Q w \<and> owed w = owed v \<and> e_claude w = e_claude v"
  using assms(1)
proof (induction rule: spec_close.induct)
  case close_refl
  then show ?case using assms(2-4) by simp
next
  case (close_fail w reason)
  then show ?case by (auto simp: gate_ok_def states_ok_def no_promise_def owed_def)
next
  case (close_stdin w)
  then show ?case by (auto simp: gate_ok_def states_ok_def no_promise_def owed_def)
next
  case (close_end w)
  then show ?case by (auto simp: gate_ok_def states_ok_def no_promise_def owed_def)
next
  case (close_state w s x er)
  then have w: "gate_ok w" "states_ok Q w" "no_promise Q w" "owed w = owed v" "e_claude w = e_claude v"
    by simp_all
  have "gate_ok (sp_state s x er w)" using w(1) by (simp add: gate_ok_def sp_state_def sp_mark_def)
  moreover have "owed (sp_state s x er w) = owed v" "e_claude (sp_state s x er w) = e_claude v"
    using w(4,5) by (simp_all add: owed_def sp_state_def sp_mark_def)
  ultimately show ?case using states_ok_state [OF w(2)] no_promise_state [OF w(3)] by simp
qed

text \<open>The child's input stays open while the loop runs, and the mode never changes.\<close>

lemma sp_dispatch_open [simp]:
  "e_open (sp_dispatch oc v) = e_open v" "e_claude (sp_dispatch oc v) = e_claude v"
  by (cases rule: sp_dispatch_cases [of v oc];
      simp add: sp_start_user_def sp_start_ralph_def sp_running_def sp_state_def sp_mark_def
        sp_ralph_failed_def sp_ralph_complete_def Let_def split: outcome.split option.split)+

lemma sp_fail_all_open [simp]: "e_open (sp_fail_all r v) = e_open v"
proof -
  have "e_open (sp_fail_tickets r ts w) = e_open w" for ts w
    by (induction ts arbitrary: w) (simp_all add: sp_mark_def)
  then show ?thesis by (simp add: sp_fail_all_def)
qed

lemma sp_ralph_end_open [simp]:
  "e_open (sp_ralph_end t f v) = e_open v" "e_claude (sp_ralph_end t f v) = e_claude v"
  by (simp_all add: sp_ralph_end_def sp_ralph_complete_def sp_mark_def Let_def
      split: option.split prod.split RalphAction.split)

lemma spec_step_open:
  assumes "spec_step P Q v l v'"
  shows "e_open v' = e_open v \<and> e_claude v' = e_claude v"
  using assms
  by (induction rule: spec_step.induct)
    (simp_all add: sp_enqueue_def sp_mark_def sp_state_def sp_ralph_complete_def Let_def)

lemma spec_run_open: "spec_run P Q v ns w \<Longrightarrow> e_open w = e_open v \<and> e_claude w = e_claude v"
  by (induction rule: spec_run.induct) (auto dest: spec_step_open)

lemma spec_run_trans:
  assumes "spec_run P Q v ns w" "spec_run P Q w ms u"
  shows "spec_run P Q v (ns @ ms) u"
  using assms(2)
proof (induction rule: spec_run.induct)
  case spec_run_nil
  then show ?case using assms(1) by simp
next
  case (spec_run_accept ms w n u)
  then show ?case using spec_run.spec_run_accept by fastforce
qed (blast intro: spec_run.spec_run_tau)

lemma spec_run_single:
  "\<not> e_panicked v \<Longrightarrow> spec_step P Q v Tau w \<Longrightarrow> spec_run P Q v [] w"
  "\<not> e_panicked v \<Longrightarrow> spec_step P Q v (Accept n) w \<Longrightarrow> spec_run P Q v [n] w"
  using spec_run_tau [OF spec_run_nil] spec_run_accept [OF spec_run_nil] by fastforce+

text \<open>A Codex session never leaves quarantine.\<close>

lemma codex_quarantine_step:
  assumes "spec_step P Q v l v'" "\<not> e_claude v" "e_quarantine v"
  shows "e_quarantine v' \<and> \<not> e_claude v'"
proof -
  have d: "sp_dispatch oc w = w" if "e_quarantine w" for oc w
    using that by (simp add: sp_dispatch_def sp_gate_def)
  show ?thesis using assms
    by (induction rule: spec_step.induct)
      (simp_all add: d sp_enqueue_def sp_mark_def sp_state_def sp_ralph_complete_def Let_def)
qed


section \<open>Invariants of executions\<close>

text \<open>
  The contract of an invariant: whoever shows that the steps of the engine keep it (up to a
  panic, after which nothing is executed) gets it for the executions.
\<close>

locale engine_invariant =
  fixes P :: "outcome \<Rightarrow> bool" and Q :: "BusEvent \<Rightarrow> bool" and I :: "engine \<Rightarrow> bool"
  assumes keeps: "spec_step P Q v l v' \<Longrightarrow> \<not> e_panicked v' \<Longrightarrow> I v \<Longrightarrow> I v'"
begin

lemma run: "spec_run P Q v ns w \<Longrightarrow> I v \<Longrightarrow> \<not> e_panicked w \<Longrightarrow> I w"
  by (induction rule: spec_run.induct) (blast intro: keeps)+

end

text \<open>An invariant together with an account of what the steps accept.\<close>

locale engine_account = engine_invariant +
  fixes owes :: "engine \<Rightarrow> nat list"
  assumes pays: "spec_step P Q v l v' \<Longrightarrow> \<not> e_panicked v' \<Longrightarrow> I v \<Longrightarrow>
    owes v' = owes v @ (case l of Accept n \<Rightarrow> [n] | Tau \<Rightarrow> [])"
begin

lemma balance:
  "spec_run P Q v ns w \<Longrightarrow> I v \<Longrightarrow> \<not> e_panicked w \<Longrightarrow> owes w = owes v @ ns"
proof (induction rule: spec_run.induct)
  case (spec_run_tau ns w u)
  then show ?case using pays [OF spec_run_tau(3)] run [OF spec_run_tau(1)] by simp
next
  case (spec_run_accept ns w n u)
  then show ?case using pays [OF spec_run_accept(3)] run [OF spec_run_accept(1)] by simp
qed simp

end

interpretation messages: engine_account P Q gate_ok owed for P Q
  by unfold_locales (auto intro: gate_ok_step owed_step)

interpretation ralph: engine_invariant P Q ralph_ok for P Q
  by unfold_locales (rule ralph_ok_step)

interpretation states: engine_invariant P Q "states_ok Q" for P Q
  by unfold_locales (rule states_ok_step)

interpretation promise: engine_invariant P Q "\<lambda>v. no_promise Q v \<and> ralph_ok v" for P Q
  by unfold_locales (blast intro: no_promise_step ralph_ok_step)

interpretation work: engine_invariant accepting Q work_ok for Q
  by unfold_locales (simp add: work_ok_step)

interpretation frozen: engine_invariant P Q "\<lambda>v. e_quarantine v \<and> \<not> e_claude v" for P Q
  by unfold_locales (blast dest: codex_quarantine_step)

end
