(* ===== verification/ActorControl.thy ===== *)
theory ActorControl
  imports TurnDispatch
begin

text \<open>
  The control commands of the session actor: requests to the CLI with a waiter for the answer,
  the interpretation of the control subtypes for Codex, answers to interactive requests, and
  the control lines that the CLI sends.
\<close>

section \<open>Requests to the CLI\<close>

type_synonym control_result = "string + string"

definition ok_true :: json where "ok_true = JObj [(''ok'', JBool True)]"

definition no_thread :: json where
  "no_thread = JObj [(''ok'', JBool False), (''error'', JStr ''no thread'')]"

text \<open>
  A subtype that returns data: without an open thread the caller is answered at once; otherwise
  its waiter is registered and the frames are written.
\<close>

definition codex_tracked ::
  "'c env \<Rightarrow> string \<Rightarrow> ('c \<Rightarrow> json list \<times> 'c) \<Rightarrow> 'c \<Rightarrow> string \<Rightarrow> nat \<Rightarrow> 'c SessionActor
     \<Rightarrow> control_result \<times> 'c SessionActor" where
  "codex_tracked E cx frame c rid n a =
     (case frame c of
        (lines, c') \<Rightarrow>
          (let a1 = a\<lparr>ac_codex := Some c'\<rparr> in
           if lines = [] then (Inr rid, emit_fx (Resolve n no_thread) a1)
           else
             (case write_lines E lines cx (insert_waiter rid n a1) of
                (Inl e, a2) \<Rightarrow> (Inl e, a2)
              | (Inr u, a2) \<Rightarrow> (Inr rid, a2))))"

text \<open>The data-returning subtypes: the context of the write and the frame.\<close>

definition codex_tracked_frame ::
  "'c driver \<Rightarrow> string \<Rightarrow> json \<Rightarrow> string \<Rightarrow> (string \<times> ('c \<Rightarrow> json list \<times> 'c)) option" where
  "codex_tracked_frame D subtype request rid =
     (if subtype = ''rollback'' then
        Some (''codex thread/rollback'',
              dr_frame_rollback D rid (unwrap_or (get_u64 request ''num_turns'') 1))
      else if subtype = ''fork'' then Some (''codex thread/fork'', dr_frame_fork D rid)
      else if subtype = ''goal_get'' then Some (''codex thread/goal/get'', dr_frame_goal_get D rid)
      else if subtype = ''mcp_status'' then
        Some (''codex mcpServerStatus/list'', dr_frame_mcp_status D rid)
      else if subtype = ''skills_list'' then Some (''codex skills/list'', dr_frame_skills_list D rid)
      else if subtype = ''experimental_feature_list'' then
        Some (''codex experimentalFeature/list'', dr_frame_experimental_feature_list D rid)
      else if subtype = ''model_list'' then Some (''codex model/list'', dr_frame_model_list D rid)
      else None)"

text \<open>The fire-and-forget subtypes that write frames.\<close>

definition codex_plain_frame ::
  "'c driver \<Rightarrow> string \<Rightarrow> json \<Rightarrow> string \<Rightarrow> (string \<times> ('c \<Rightarrow> json list \<times> 'c)) option" where
  "codex_plain_frame D subtype request rid =
     (if subtype = ''interrupt'' then Some (''codex turn/interrupt'', dr_frame_interrupt D)
      else if subtype = ''steer'' then
        map_option (\<lambda>t. (''codex turn/steer'', dr_frame_steer D t)) (get_str request ''text'')
      else if subtype = ''compact'' then
        Some (''codex thread/compact/start'', dr_frame_compact D rid)
      else if subtype = ''goal_set'' then
        Some (''codex thread/goal/set'',
              dr_frame_goal_set D rid (get_str request ''objective'') (get_str request ''status'')
                (get_u64 request ''token_budget''))
      else if subtype = ''goal_clear'' then
        Some (''codex thread/goal/clear'', dr_frame_goal_clear D rid)
      else None)"

text \<open>The subtypes that change the overrides of the next turns.\<close>

definition codex_override :: "string \<Rightarrow> json \<Rightarrow> CodexTurnOverrides \<Rightarrow> CodexTurnOverrides" where
  "codex_override subtype request ov =
     (if subtype = ''set_permission_mode'' then
        (case get_str request ''mode'' of
           None \<Rightarrow> ov
         | Some mode \<Rightarrow>
             (let cli_mode = map_permission_mode mode in
              ov\<lparr>ov_approval_policy := Some (codex_approval_for (Some cli_mode)),
                 ov_sandbox := Some (codex_sandbox_for (Some cli_mode))\<rparr>))
      else if subtype = ''set_model'' then
        (case get_str request ''model'' of None \<Rightarrow> ov | Some m \<Rightarrow> ov\<lparr>ov_model := Some m\<rparr>)
      else if subtype = ''set_effort'' then
        (case get_str request ''effort'' of None \<Rightarrow> ov | Some e \<Rightarrow> ov\<lparr>ov_effort := Some e\<rparr>)
      else ov)"

definition handle_codex_control ::
  "'c env \<Rightarrow> 'c \<Rightarrow> string \<Rightarrow> json \<Rightarrow> string \<Rightarrow> nat \<Rightarrow> 'c SessionActor
     \<Rightarrow> control_result \<times> 'c SessionActor" where
  "handle_codex_control E c subtype request rid n a =
     (case codex_tracked_frame (en_driver E) subtype request rid of
        Some (cx, frame) \<Rightarrow> codex_tracked E cx frame c rid n a
      | None \<Rightarrow>
          (case (case codex_plain_frame (en_driver E) subtype request rid of
                   None \<Rightarrow>
                     (Inr (),
                      a\<lparr>ac_codex_overrides := codex_override subtype request (ac_codex_overrides a)\<rparr>)
                 | Some (cx, frame) \<Rightarrow>
                     (case frame c of
                        (lines, c') \<Rightarrow> write_lines E lines cx (a\<lparr>ac_codex := Some c'\<rparr>))) of
             (Inl e, a1) \<Rightarrow> (Inl e, a1)
           | (Inr u, a1) \<Rightarrow> (Inr rid, emit_fx (Resolve n ok_true) a1)))"

definition handle_send_control_async ::
  "'c env \<Rightarrow> nat \<Rightarrow> json \<Rightarrow> 'c SessionActor \<Rightarrow> control_result \<times> 'c SessionActor" where
  "handle_send_control_async E n request a =
     (case new_uuid E a of
        (uuid, a1) \<Rightarrow>
          (let request_id = ''ocv_ctrl_'' @ uuid;
               subtype = unwrap_or (get_str request ''subtype'') []
           in case ac_codex a1 of
             Some c \<Rightarrow> handle_codex_control E c subtype request request_id n a1
           | None \<Rightarrow>
               (let a2 = (if subtype = ''interrupt'' then a1\<lparr>ac_pending_interrupt := True\<rparr> else a1);
                    payload = JObj [(''type'', JStr ''control_request''),
                                    (''request_id'', JStr request_id), (''request'', request)]
                in case write_json_line E payload ''control request'' (insert_waiter request_id n a2) of
                  (Inl e, a3) \<Rightarrow> (Inl e, a3)
                | (Inr u, a3) \<Rightarrow> (Inr request_id, a3))))"

section \<open>Stopping, and answers of the user\<close>

text \<open>\<open>handle_stop\<close>: closing stdin and killing the child cannot fail visibly.\<close>

definition handle_stop :: "'c SessionActor \<Rightarrow> 'c SessionActor" where
  "handle_stop a =
     (let a1 = a\<lparr>ac_stdin := False\<rparr> in if ac_child a1 then emit_fx Killed a1 else a1)"

definition write_interactive_response ::
  "'c env \<Rightarrow> PendingKind \<Rightarrow> string \<Rightarrow> json \<Rightarrow> 'c SessionActor \<Rightarrow> (string + unit) \<times> 'c SessionActor" where
  "write_interactive_response E kind rid response a =
     (case ac_codex a of
        None \<Rightarrow> write_control_response E rid response a
      | Some c \<Rightarrow>
          (case dr_frame_response (en_driver E) kind rid response c of
             (lines, c') \<Rightarrow>
               write_lines E lines ''codex interactive response'' (a\<lparr>ac_codex := Some c'\<rparr>)))"

definition handle_respond_permission ::
  "'c env \<Rightarrow> string \<Rightarrow> json \<Rightarrow> 'c SessionActor \<Rightarrow> (string + unit) \<times> 'c SessionActor" where
  "handle_respond_permission E rid response a =
     write_interactive_response E KPermission rid response (clear_pending_interactive_request rid a)"

definition handle_cancel_control_request ::
  "'c env \<Rightarrow> string \<Rightarrow> 'c SessionActor \<Rightarrow> (string + unit) \<times> 'c SessionActor" where
  "handle_cancel_control_request E rid a =
     write_json_line E
       (JObj [(''type'', JStr ''control_cancel_request''), (''request_id'', JStr rid)])
       ''cancel control request'' a"

section \<open>Control lines of the CLI\<close>

definition response_request_id :: "json \<Rightarrow> string option" where
  "response_request_id parsed =
     or_else (Option.bind (j_get parsed ''response'') (\<lambda>r. get_str r ''request_id''))
       (get_str parsed ''request_id'')"

definition request_subtype :: "json \<Rightarrow> string" where
  "request_subtype parsed =
     unwrap_or (Option.bind (j_get parsed ''request'') (\<lambda>r. get_str r ''subtype'')) []"

text \<open>A \<open>control_response\<close> resolves its waiter, both in a user turn and in an internal one.\<close>

definition handle_control_response :: "json \<Rightarrow> 'c SessionActor \<Rightarrow> 'c SessionActor" where
  "handle_control_response parsed a =
     (case response_request_id parsed of
        None \<Rightarrow> a
      | Some rid \<Rightarrow> resolve_waiter rid (unwrap_or (j_get parsed ''response'') JNull) a)"

definition set_pending_interactive ::
  "string \<Rightarrow> string \<Rightarrow> string \<Rightarrow> 'c SessionActor \<Rightarrow> 'c SessionActor" where
  "set_pending_interactive rid subtype detail a =
     a\<lparr>ac_pending_interactive_request :=
         Some \<lparr> pr_request_id = rid, pr_subtype = subtype, pr_detail = detail,
                pr_received_at = now_of a \<rparr>\<rparr>"

definition handle_hook_callback :: "'c env \<Rightarrow> json \<Rightarrow> 'c SessionActor \<Rightarrow> 'c SessionActor" where
  "handle_hook_callback E parsed a =
     (let request_id = str_field parsed ''request_id'';
          request = unwrap_or (j_get parsed ''request'') JNull;
          hook_event = str_field request ''hook_event'';
          hook_id = str_field request ''hook_id'';
          hook_name = get_str request ''tool_name'';
          a1 = persist_and_emit
                 (HookCallback (ac_run_id a) request_id hook_event hook_id hook_name request) a
      in if hook_event \<noteq> ''PreToolUse''
         then snd (write_control_response E request_id
                     (JObj [(''decision'', JStr ''allow'')]) a1)
         else set_pending_interactive request_id ''hook_callback''
                (''PreToolUse:'' @ unwrap_or hook_name ''hook'') a1)"

definition handle_elicitation :: "json \<Rightarrow> 'c SessionActor \<Rightarrow> 'c SessionActor" where
  "handle_elicitation parsed a =
     (let request_id = str_field parsed ''request_id'';
          request = unwrap_or (j_get parsed ''request'') JNull;
          server = str_field request ''mcp_server_name'';
          a1 = persist_and_emit
                 (ElicitationPrompt (ac_run_id a) request_id server (str_field request ''message'')
                    (get_str request ''elicitation_id'') (get_str request ''mode'')
                    (get_str request ''url'') (j_get request ''requested_schema'')) a
      in set_pending_interactive request_id ''elicitation'' server a1)"

definition handle_can_use_tool :: "json \<Rightarrow> 'c SessionActor \<Rightarrow> 'c SessionActor" where
  "handle_can_use_tool parsed a =
     (let request_id = str_field parsed ''request_id'';
          request = unwrap_or (j_get parsed ''request'') JNull;
          tool_name = unwrap_or (get_str request ''tool_name'') ''unknown'';
          a1 = persist_and_emit
                 (PermissionPrompt (ac_run_id a) request_id tool_name
                    (str_field request ''tool_use_id'')
                    (unwrap_or (j_get request ''input'') (JObj []))
                    (str_field request ''decision_reason'')
                    (opt_filter (\<lambda>s. s \<noteq> []) (get_str parsed ''parent_tool_use_id''))
                    (unwrap_or (get_array request ''suggestions'') [])) a
      in set_pending_interactive request_id ''can_use_tool'' tool_name a1)"

definition handle_control_event ::
  "'c env \<Rightarrow> json \<Rightarrow> string \<Rightarrow> 'c SessionActor \<Rightarrow> 'c SessionActor" where
  "handle_control_event E parsed event_type a =
     (if event_type = ''control_response'' then handle_control_response parsed a
      else if event_type = ''control_cancel_request'' then
        (let rid = str_field parsed ''request_id'' in
         persist_and_emit (ControlCancelled (ac_run_id a) rid) (drop_waiter rid a))
      else
        (let subtype = request_subtype parsed in
         if subtype = ''hook_callback'' then handle_hook_callback E parsed a
         else if subtype = ''mcp_message'' then
           emit_fx (RealtimeEvent ''bus-event'' (Raw (ac_run_id a) ''mcp_message'' parsed)) a
         else if subtype = ''elicitation'' then handle_elicitation parsed a
         else if subtype = ''can_use_tool'' then handle_can_use_tool parsed a
         else
           (let rid = str_field parsed ''request_id'' in
            if rid = [] then a
            else snd (write_control_response_error E rid
                        (''unsupported control_request subtype: '' @ subtype) a))))"

definition internal_auto_response :: "string \<Rightarrow> string + json" where
  "internal_auto_response subtype =
     (if subtype = ''can_use_tool'' then
        Inr (JObj [(''behavior'', JStr ''deny''),
                   (''message'', JStr ''Tool use not allowed during internal turn'')])
      else if subtype = ''hook_callback'' then Inr (JObj [(''decision'', JStr ''allow'')])
      else Inl (''unsupported control_request subtype during internal turn: '' @ subtype))"

definition handle_control_event_internal ::
  "'c env \<Rightarrow> json \<Rightarrow> string \<Rightarrow> 'c SessionActor \<Rightarrow> 'c SessionActor" where
  "handle_control_event_internal E parsed event_type a =
     (if event_type = ''control_response'' then handle_control_response parsed a
      else if event_type = ''control_cancel_request''
      then drop_waiter (str_field parsed ''request_id'') a
      else
        (let rid = str_field parsed ''request_id'' in
         if rid = [] then a
         else
           (case internal_auto_response (request_subtype parsed) of
              Inr response \<Rightarrow> snd (write_control_response E rid response a)
            | Inl msg \<Rightarrow> snd (write_control_response_error E rid msg a))))"

end
