(* ===== verification/SessionActor.thy ===== *)
theory SessionActor
  imports ActorControl
begin

text \<open>
  The session actor's handlers for the child's output, the end of the process and the main
  loop of \<open>agent/session_actor.rs\<close>, and the executions of the actor as a step relation.
\<close>

section \<open>Codex lines\<close>

definition codex_pending_subtype :: "PendingKind \<Rightarrow> string" where
  "codex_pending_subtype k =
     (case k of KPermission \<Rightarrow> ''can_use_tool'' | KElicitation \<Rightarrow> ''elicitation''
      | KUserInput \<Rightarrow> ''request_user_input'')"

fun emit_codex_events :: "BusEvent list \<Rightarrow> 'c SessionActor \<Rightarrow> 'c SessionActor" where
  "emit_codex_events [] a = a"
| "emit_codex_events (ev # evs) a =
     emit_codex_events evs (if event_invalid ev then a else persist_and_emit ev a)"

definition persist_thread_id :: "'c env \<Rightarrow> string \<Rightarrow> 'c SessionActor \<Rightarrow> 'c SessionActor" where
  "persist_thread_id E tid a =
     snd (store_op E
       (\<lambda>io. with_meta io (ac_run_id a)
          (\<lambda>m. Inr (m\<lparr>rm_conversation_ref := Some (CodexThread tid)\<rparr>))) a)"

definition codex_lifecycle :: "'c env \<Rightarrow> LifecycleSignal \<Rightarrow> 'c SessionActor \<Rightarrow> 'c SessionActor" where
  "codex_lifecycle E sig a =
     (case sig of
        TurnStarted \<Rightarrow> emit_state E ''running'' None None False a
      | TurnCompleted \<Rightarrow>
          end_turn_and_dispatch E
            (persist_idle_running E Idle (emit_state E ''idle'' (Some 0) None True a))
      | TurnFailed err \<Rightarrow>
          end_turn_and_dispatch E
            (persist_idle_running E Idle (emit_state E ''idle'' None err True a)))"

text \<open>Opening the gate when the thread is ready, which dispatches the queue.\<close>

definition codex_open_gate :: "'c env \<Rightarrow> 'c SessionActor \<Rightarrow> 'c SessionActor" where
  "codex_open_gate E a =
     (if \<not> ac_codex_ready a \<and> is_some_and (ac_codex a) (dr_is_ready (en_driver E))
      then try_dispatch E (a\<lparr>ac_codex_ready := True\<rparr>) else a)"

definition handle_codex_line ::
  "'c env \<Rightarrow> 'c \<Rightarrow> string \<Rightarrow> 'c SessionActor \<Rightarrow> 'c SessionActor" where
  "handle_codex_line E c text a =
     (let a1 = a\<lparr>ac_active_turn :=
                   fst (apply_activity_reset (now_of a) (ac_quarantine_until_result a)
                          (ac_active_turn a))\<rparr>
      in case dr_parse_line (en_driver E) (ac_run_id a1) text c of
        (p, c') \<Rightarrow>
          (let a2 = a1\<lparr>ac_codex := Some c'\<rparr>;
               a3 = (case pl_control_response p of
                       None \<Rightarrow> a2 | Some (rid, resp) \<Rightarrow> resolve_waiter rid resp a2);
               a4 = (case pl_thread_id p of
                       None \<Rightarrow> a3 | Some tid \<Rightarrow> persist_thread_id E tid a3);
               a5 = codex_open_gate E a4
           in if ac_panicked a5 then a5
              else
                (let a6 = emit_codex_events (pl_events p) a5;
                     a7 = (case pl_interactive p of
                             None \<Rightarrow> a6
                           | Some q \<Rightarrow>
                               set_pending_interactive (pi_request_id q)
                                 (codex_pending_subtype (pi_kind q)) [] a6)
                 in case pl_lifecycle p of
                      None \<Rightarrow> a7
                    | Some sig \<Rightarrow> codex_lifecycle E sig a7)))"

section \<open>Claude lines\<close>

definition bump_invalid :: "'c SessionActor \<Rightarrow> 'c SessionActor" where
  "bump_invalid a = a\<lparr>ac_protocol := bump_invalid_tool (ac_protocol a)\<rparr>"

definition is_boundary_state :: "string \<Rightarrow> bool" where
  "is_boundary_state s \<longleftrightarrow> s = ''idle'' \<or> s = ''failed''"

text \<open>Step 1: in quarantine only a boundary state counts.\<close>

definition lift_quarantine :: "'c env \<Rightarrow> 'c SessionActor \<Rightarrow> 'c SessionActor" where
  "lift_quarantine E a =
     try_dispatch E
       (set_pending_slash None
          (a\<lparr>ac_quarantine_until_result := False, ac_quarantine_deadline := None,
             ac_interrupt_sent_for_quarantine := False, ac_quarantine_from_internal := False\<rparr>))"

fun quarantine_events :: "'c env \<Rightarrow> BusEvent list \<Rightarrow> 'c SessionActor \<Rightarrow> 'c SessionActor" where
  "quarantine_events E [] a = a"
| "quarantine_events E (ev # evs) a =
     (if event_invalid ev then quarantine_events E evs (bump_invalid a)
      else (case ev of
              RunState r state exit_code error \<Rightarrow>
                if is_boundary_state state then lift_quarantine E a else quarantine_events E evs a
            | _ \<Rightarrow> quarantine_events E evs a))"

text \<open>Step 4a: an event during an internal turn.\<close>

definition extractor_feed :: "BusEvent \<Rightarrow> 'c SessionActor \<Rightarrow> 'c SessionActor" where
  "extractor_feed ev a =
     (case ac_active_extractor a of
        None \<Rightarrow> a
      | Some x \<Rightarrow>
          (case extractor_on_event (w_iso (ac_w a)) x ev of
             (x', out) \<Rightarrow>
               (let a1 = a\<lparr>ac_active_extractor := Some x'\<rparr> in
                case out of None \<Rightarrow> a1 | Some j \<Rightarrow> emit_fx (RealtimeJson ''context-snapshot'' j) a1)))"

definition ralph_push_text :: "string \<Rightarrow> 'c SessionActor \<Rightarrow> 'c SessionActor" where
  "ralph_push_text text a =
     (if is_ralph_turn a
      then a\<lparr>ac_ralph_loop :=
               map_option (\<lambda>r. r\<lparr>rl_turn_toplevel_texts := rl_turn_toplevel_texts r @ [text]\<rparr>)
                 (ac_ralph_loop a)\<rparr>
      else a)"

definition route_internal :: "'c env \<Rightarrow> BusEvent \<Rightarrow> 'c SessionActor \<Rightarrow> 'c SessionActor" where
  "route_internal E ev a =
     (case ev of
        CommandOutput r content \<Rightarrow> extractor_feed ev a
      | MessageComplete r mid text parent model sr usage \<Rightarrow>
          (let a1 = extractor_feed ev a in
           if parent = None then ralph_push_text text a1 else a1)
      | RunState r state exit_code error \<Rightarrow> end_turn_and_dispatch E a
      | _ \<Rightarrow> a)"

text \<open>Step 4b: a run state during a user turn, or while idle.\<close>

definition persist_error :: "'c env \<Rightarrow> string option \<Rightarrow> 'c SessionActor \<Rightarrow> 'c SessionActor" where
  "persist_error E error a =
     snd (store_op E
       (\<lambda>io. persist_result_error io (ac_run_id a) error (ps_result_subtype (ac_protocol a))) a)"

definition finish_turn ::
  "'c env \<Rightarrow> string \<Rightarrow> string option \<Rightarrow> ActiveTurn \<Rightarrow> 'c SessionActor \<Rightarrow> 'c SessionActor" where
  "finish_turn E state error turn a =
     (let a1 = on_user_turn_finished turn (a\<lparr>ac_active_turn := None\<rparr>);
          a2 = set_pending_slash None (a1\<lparr>ac_active_extractor := None\<rparr>);
          turn_failed = (state = ''failed'' \<or> state = ''idle'' \<and> error \<noteq> None)
      in try_dispatch E (ralph_on_turn_end turn turn_failed a2))"

definition route_run_state ::
  "'c env \<Rightarrow> string \<Rightarrow> i32 option \<Rightarrow> string option \<Rightarrow> 'c SessionActor \<Rightarrow> 'c SessionActor" where
  "route_run_state E state exit_code error a =
     (let (a1, st, er) =
            (if ac_pending_interrupt a \<and> is_boundary_state state
             then (a\<lparr>ac_pending_interrupt := False,
                     ac_protocol := (ac_protocol a)\<lparr>ps_got_result_event := False,
                                                    ps_result_subtype := None\<rparr>\<rparr>,
                   ''idle'', None)
             else (a, state, error));
          a2 = emit_state E st exit_code er False a1;
          a3 = (if st = ''idle'' then
                  (let b = persist_idle_running E Idle a2 in
                   if is_some_and (ps_result_subtype (ac_protocol b)) (\<lambda>s. starts_with s ''error'')
                   then persist_error E er b else b)
                else a2);
          a4 = (if st = ''failed'' then persist_error E er a3 else a3)
      in if is_boundary_state st
         then (case ac_active_turn a4 of None \<Rightarrow> a4 | Some turn \<Rightarrow> finish_turn E st er turn a4)
         else a4)"

text \<open>Any other event of a user turn.\<close>

definition persist_session_id :: "'c env \<Rightarrow> string \<Rightarrow> 'c SessionActor \<Rightarrow> 'c SessionActor" where
  "persist_session_id E sid a =
     snd (store_op E
       (\<lambda>io. with_meta io (ac_run_id a)
          (\<lambda>m. Inr (m\<lparr>rm_session_id := Some sid,
                      rm_conversation_ref := Some (ClaudeSession sid)\<rparr>))) a)"

definition enrich_usage :: "ActiveTurn option \<Rightarrow> UsageData \<Rightarrow> UsageData" where
  "enrich_usage turn u =
     (case turn of None \<Rightarrow> u | Some t \<Rightarrow> u\<lparr>uu_turn_index := Some (at_turn_index t)\<rparr>)"

definition route_user :: "'c env \<Rightarrow> BusEvent \<Rightarrow> 'c SessionActor \<Rightarrow> 'c SessionActor" where
  "route_user E ev a =
     (case ev of
        RunState r state exit_code error \<Rightarrow> route_run_state E state exit_code error a
      | SessionInit r d \<Rightarrow>
          persist_and_emit ev
            (case si_session_id d of None \<Rightarrow> a | Some sid \<Rightarrow> persist_session_id E sid a)
      | UsageUpdate r u \<Rightarrow>
          persist_and_emit (UsageUpdate r (enrich_usage (ac_active_turn a) u)) a
      | _ \<Rightarrow> persist_and_emit ev a)"

definition route_event :: "'c env \<Rightarrow> BusEvent \<Rightarrow> 'c SessionActor \<Rightarrow> 'c SessionActor" where
  "route_event E ev a =
     (if event_invalid ev then bump_invalid a
      else if is_internal_turn a then route_internal E ev a
      else route_user E ev a)"

fun route_events :: "'c env \<Rightarrow> BusEvent list \<Rightarrow> 'c SessionActor \<Rightarrow> 'c SessionActor" where
  "route_events E [] a = a"
| "route_events E (ev # evs) a =
     (if ac_panicked a then a else route_events E evs (route_event E ev a))"

text \<open>\<open>self.protocol.map_event\<close>: the events of a line; the UUID is for those that need one.\<close>

definition map_line :: "'c env \<Rightarrow> json \<Rightarrow> 'c SessionActor \<Rightarrow> BusEvent list \<times> 'c SessionActor" where
  "map_line E parsed a =
     (case new_uuid E a of
        (uuid, a1) \<Rightarrow>
          (case map_event (en_float E) uuid (ac_run_id a1) parsed (ac_protocol a1) of
             (ps, evs) \<Rightarrow> (evs, a1\<lparr>ac_protocol := ps\<rparr>)))"

definition is_control_type :: "string \<Rightarrow> bool" where
  "is_control_type t \<longleftrightarrow>
     t = ''control_response'' \<or> t = ''control_cancel_request'' \<or> t = ''control_request''"

definition unparsed_line :: "string \<Rightarrow> 'c SessionActor \<Rightarrow> 'c SessionActor" where
  "unparsed_line text a =
     (let a1 = a\<lparr>ac_json_parse_fail_count := ac_json_parse_fail_count a + 1\<rparr> in
      if ac_quarantine_until_result a1 \<or> is_internal_turn a1 then a1
      else persist_and_emit (Raw (ac_run_id a1) ''claude_stdout_text'' (JStr text)) a1)"

definition handle_claude_line :: "'c env \<Rightarrow> json \<Rightarrow> 'c SessionActor \<Rightarrow> 'c SessionActor" where
  "handle_claude_line E parsed a =
     (let a1 = a\<lparr>ac_active_turn :=
                   fst (apply_activity_reset (now_of a) (ac_quarantine_until_result a)
                          (ac_active_turn a))\<rparr>;
          event_type = str_field parsed ''type''
      in if ac_quarantine_until_result a1 then
           (if is_control_type event_type then handle_control_event_internal E parsed event_type a1
            else (case map_line E parsed a1 of (evs, a2) \<Rightarrow> quarantine_events E evs a2))
         else if is_control_type event_type then
           (if is_internal_turn a1 then handle_control_event_internal E parsed event_type a1
            else handle_control_event E parsed event_type a1)
         else (case map_line E parsed a1 of (evs, a2) \<Rightarrow> route_events E evs a2))"

definition handle_stdout_line :: "'c env \<Rightarrow> string \<Rightarrow> 'c SessionActor \<Rightarrow> 'c SessionActor" where
  "handle_stdout_line E line a =
     (let text = str_trim line in
      if text = [] then a
      else (case ac_codex a of
        Some c \<Rightarrow> handle_codex_line E c text a
      | None \<Rightarrow>
          (case en_parse E text of
             None \<Rightarrow> unparsed_line text a
           | Some parsed \<Rightarrow> handle_claude_line E parsed a)))"

definition handle_stderr_line :: "string \<Rightarrow> 'c SessionActor \<Rightarrow> 'c SessionActor" where
  "handle_stderr_line line a =
     (if ac_cancelled a then a
      else
        (let text = str_trim line in
         if text = [] \<or> ac_codex a \<noteq> None then a
         else persist_and_emit (Raw (ac_run_id a) ''claude_stderr'' (JStr (strip_ansi text))) a))"


section \<open>End of the process\<close>

text \<open>\<open>{:?}\<close> of an exit code.\<close>

definition show_exit_code :: "i32 option \<Rightarrow> string" where
  "show_exit_code x = (case x of None \<Rightarrow> ''None'' | Some n \<Rightarrow> ''Some('' @ show_i32 n @ '')'')"

definition wait_exit_code :: "'c env \<Rightarrow> 'c SessionActor \<Rightarrow> i32 option" where
  "wait_exit_code E a =
     (if ac_child a then (case en_wait E of Exited code \<Rightarrow> code | WaitErr \<Rightarrow> Some 1) else None)"

definition eof_state :: "bool \<Rightarrow> i32 option \<Rightarrow> string" where
  "eof_state cancelled exit_code =
     (if cancelled then ''stopped'' else if exit_code = Some 0 then ''completed'' else ''failed'')"

definition handle_eof :: "'c env \<Rightarrow> 'c SessionActor \<Rightarrow> 'c SessionActor" where
  "handle_eof E a =
     (let exit_code = wait_exit_code E a;
          a1 = (fail_all_pending_replies ''Session ended'' a)
                 \<lparr>ac_active_turn := None, ac_active_extractor := None,
                  ac_quarantine_until_result := False\<rparr>
      in if \<not> ps_got_result_event (ac_protocol a1) then
           (let state_str = eof_state (ac_cancelled a1) exit_code;
                error_msg = (if state_str = ''failed''
                             then Some (''Process exited with code '' @ show_exit_code exit_code)
                             else None)
            in emit_state E state_str exit_code error_msg True a1)
         else finalize_meta E exit_code a1)"

text \<open>
  \<open>cleanup\<close>: the waiters are dropped in the order of the table, and the entry of the session
  map is removed only if it is this actor's.
\<close>

fun drop_waiters :: "nat list \<Rightarrow> 'c SessionActor \<Rightarrow> 'c SessionActor" where
  "drop_waiters [] a = a"
| "drop_waiters (n # ns) a = drop_waiters ns (emit_fx (DropWaiter n) a)"

definition remove_session :: "'c SessionActor \<Rightarrow> 'c SessionActor" where
  "remove_session a =
     (if w_sessions (ac_w a) (ac_run_id a) = Some (ac_tag a)
      then a\<lparr>ac_w := (ac_w a)\<lparr>w_sessions := (w_sessions (ac_w a))(ac_run_id a := None)\<rparr>\<rparr>
      else a)"

definition cleanup :: "'c SessionActor \<Rightarrow> 'c SessionActor" where
  "cleanup a =
     (let a1 = fail_all_pending_replies ''Session cleanup'' (a\<lparr>ac_stdin := False\<rparr>);
          a2 = drop_waiters (map snd (ac_control_waiters a1)) (a1\<lparr>ac_control_waiters := []\<rparr>);
          a3 = remove_session a2
      in if ac_shutdown_tx a3 then emit_fx Shutdown (a3\<lparr>ac_shutdown_tx := False\<rparr>) else a3)"

section \<open>The main loop\<close>

text \<open>
  One input of the \<open>select!\<close> loop: a command of the mailbox with the number of its reply
  channel (\<open>InClosed\<close>: all senders are gone), a line or the end of stdout (a read error is
  handled like the end), a line of stderr, a tick of the clock, the cancellation.
\<close>

datatype input =
    InSend nat string "AttachmentData list" "CodexSkillRef list"
  | InStop nat
  | InControl nat json
  | InPermission nat string json
  | InCancelControl nat string
  | InHook nat string json
  | InElicitation nat string json
  | InUserInput nat string json
  | InStartRalph nat string u32 "string option"
  | InCancelRalph nat
  | InClosed
  | InLine string
  | InEof
  | InErrLine string
  | InTick
  | InCancelled

definition start_ralph_loop ::
  "'c env \<Rightarrow> nat \<Rightarrow> string \<Rightarrow> u32 \<Rightarrow> string option \<Rightarrow> 'c SessionActor \<Rightarrow> 'c SessionActor" where
  "start_ralph_loop E n prompt max_iterations completion_promise a =
     (if ac_ralph_loop a \<noteq> None
      then emit_fx (Reply n (Inl ''Ralph loop already active'')) a
      else
        (let started_at = w_iso (ac_w a);
             r = \<lparr> rl_prompt = prompt, rl_phase = RalphRunning, rl_iteration = 0,
                   rl_max_iterations = max_iterations, rl_completion_promise = completion_promise,
                   rl_started_at = started_at, rl_consecutive_failures = 0,
                   rl_max_consecutive_failures = 3, rl_retry_after = None,
                   rl_turn_toplevel_texts = [] \<rparr>;
             a1 = persist_and_emit
                    (RalphStarted (ac_run_id a) prompt max_iterations completion_promise started_at)
                    (a\<lparr>ac_ralph_loop := Some r\<rparr>)
         in try_dispatch E (emit_fx (Reply n (Inr ())) a1)))"

definition cancel_ralph_loop :: "nat \<Rightarrow> 'c SessionActor \<Rightarrow> 'c SessionActor" where
  "cancel_ralph_loop n a =
     (case ac_ralph_loop a of
        None \<Rightarrow> emit_fx (ReplyRalph n (Inl ''No active ralph loop'')) a
      | Some r \<Rightarrow>
          if is_ralph_turn a
          then emit_fx (ReplyRalph n (Inr (rl_iteration r, False)))
                 (a\<lparr>ac_ralph_loop := Some (r\<lparr>rl_phase := CancelPending\<rparr>)\<rparr>)
          else emit_ralph_complete Cancelled
                 (emit_fx (ReplyRalph n (Inr (rl_iteration r, True))) a))"

definition reply_with :: "nat \<Rightarrow> (string + unit) \<times> 'c SessionActor \<Rightarrow> 'c SessionActor" where
  "reply_with n p = (case p of (r, a) \<Rightarrow> emit_fx (Reply n r) a)"

definition handle_tick :: "'c env \<Rightarrow> 'c SessionActor \<Rightarrow> 'c SessionActor" where
  "handle_tick E a =
     (let a1 = on_tick_timeout E a in
      if ac_ralph_needs_dispatch a1 then try_dispatch E (a1\<lparr>ac_ralph_needs_dispatch := False\<rparr>)
      else a1)"

text \<open>One turn of the loop: the new state, and whether the loop ends.\<close>

definition run_step :: "'c env \<Rightarrow> input \<Rightarrow> 'c SessionActor \<Rightarrow> 'c SessionActor \<times> bool" where
  "run_step E i a =
     (case i of
        InSend n text atts skills \<Rightarrow> (handle_send_message E n text atts skills a, False)
      | InStop n \<Rightarrow> (emit_fx (Reply n (Inr ())) (handle_stop a), True)
      | InControl n request \<Rightarrow>
          (case handle_send_control_async E n request a of
             (r, a') \<Rightarrow> (emit_fx (ReplyControl n r) a', False))
      | InPermission n rid response \<Rightarrow>
          (reply_with n (handle_respond_permission E rid response a), False)
      | InCancelControl n rid \<Rightarrow>
          (reply_with n (handle_cancel_control_request E rid
             (clear_pending_interactive_request rid a)), False)
      | InHook n rid response \<Rightarrow>
          (reply_with n (write_control_response E rid response
             (clear_pending_interactive_request rid a)), False)
      | InElicitation n rid response \<Rightarrow>
          (reply_with n (write_interactive_response E KElicitation rid response
             (clear_pending_interactive_request rid a)), False)
      | InUserInput n rid response \<Rightarrow>
          (reply_with n (write_interactive_response E KUserInput rid response
             (clear_pending_interactive_request rid a)), False)
      | InStartRalph n prompt mx promise \<Rightarrow> (start_ralph_loop E n prompt mx promise a, False)
      | InCancelRalph n \<Rightarrow> (cancel_ralph_loop n a, False)
      | InClosed \<Rightarrow> (a, True)
      | InLine text \<Rightarrow> (handle_stdout_line E text a, False)
      | InEof \<Rightarrow> (handle_eof E a, True)
      | InErrLine text \<Rightarrow> (handle_stderr_line text a, False)
      | InTick \<Rightarrow> (handle_tick E a, False)
      | InCancelled \<Rightarrow> (handle_stop a, True))"

text \<open>The handshake of a Codex session: a failing write is only logged.\<close>

fun write_startup :: "'c env \<Rightarrow> json list \<Rightarrow> 'c SessionActor \<Rightarrow> 'c SessionActor" where
  "write_startup E [] a = a"
| "write_startup E (m # ms) a = write_startup E ms (snd (write_json_line E m ''codex handshake'' a))"

definition run_start :: "'c env \<Rightarrow> 'c SessionActor \<Rightarrow> 'c SessionActor" where
  "run_start E a = write_startup E (ac_codex_startup a) (a\<lparr>ac_codex_startup := []\<rparr>)"

text \<open>
  The states of the task: in the loop, ended after the cleanup, or aborted by a panic.  A step
  of the task handles one input at a time \<open>now\<close> (not before the last one), or ends the loop
  because the session is terminated; the token may be cancelled at any time, and the other
  tasks may write the store and the session map between two steps.
\<close>

datatype 'c task = Looping "'c SessionActor" | Ended "'c SessionActor" | Aborted "'c SessionActor"

definition at_time :: "instant \<Rightarrow> string \<Rightarrow> 'c SessionActor \<Rightarrow> 'c SessionActor" where
  "at_time now ts a = a\<lparr>ac_w := (ac_w a)\<lparr>w_now := now, w_iso := ts\<rparr>\<rparr>"

definition after_step :: "'c SessionActor \<times> bool \<Rightarrow> 'c task" where
  "after_step p =
     (case p of (a, brk) \<Rightarrow>
        if ac_panicked a then Aborted a else if brk then Ended (cleanup a) else Looping a)"

datatype label =
    LInput input | LTerminate | LCancelToken | LStore store | LSessions "string \<Rightarrow> nat option"

inductive task_step :: "'c env \<Rightarrow> 'c task \<Rightarrow> label \<Rightarrow> 'c task \<Rightarrow> bool" where
  step_input:
    "\<not> ac_terminated a \<Longrightarrow> w_now (ac_w a) \<le> now \<Longrightarrow>
     task_step E (Looping a) (LInput i) (after_step (run_step E i (at_time now ts a)))"
| step_terminate: "ac_terminated a \<Longrightarrow> task_step E (Looping a) LTerminate (Ended (cleanup a))"
| step_cancel: "task_step E (Looping a) LCancelToken (Looping (a\<lparr>ac_cancelled := True\<rparr>))"
| step_store:
    "task_step E (Looping a) (LStore st) (Looping (a\<lparr>ac_w := (ac_w a)\<lparr>w_store := st\<rparr>\<rparr>))"
| step_sessions:
    "task_step E (Looping a) (LSessions ss) (Looping (a\<lparr>ac_w := (ac_w a)\<lparr>w_sessions := ss\<rparr>\<rparr>))"

inductive_cases task_step_inputE: "task_step E t (LInput i) t'"
inductive_cases task_step_LoopingE: "task_step E (Looping a) l t'"
inductive_simps task_step_Ended: "task_step E (Ended a) l t'"
inductive_simps task_step_Aborted: "task_step E (Aborted a) l t'"

text \<open>The executions of a task from its start, with the labels of their steps.\<close>

inductive executes :: "'c env \<Rightarrow> 'c SessionActor \<Rightarrow> label list \<Rightarrow> 'c task \<Rightarrow> bool" for E a0 where
  exec_start: "executes E a0 [] (Looping (run_start E a0))"
| exec_step: "executes E a0 ls t \<Longrightarrow> task_step E t l t' \<Longrightarrow> executes E a0 (ls @ [l]) t'"

end
