(* ===== verification/TurnRefinement.thy ===== *)
theory TurnRefinement
  imports TurnSpec SessionActor
begin

text \<open>
  The session actor refines the abstract engine of \<open>TurnSpec\<close>: every operation of the actor is
  an operation of the engine on the part of the state that the engine sees, and keeps the
  machinery of internal turns unused.
\<close>

section \<open>The abstraction\<close>

definition eng :: "'c SessionActor \<Rightarrow> engine" where
  "eng a =
     \<lparr> e_run_id = ac_run_id a, e_claude = (ac_codex a = None), e_ready = ac_codex_ready a,
       e_open = ac_stdin a, e_now = w_now (ac_w a), e_state = ac_state a, e_turn = ac_active_turn a,
       e_queue = ac_queued_user a, e_seq = ac_next_turn_seq a, e_index = ac_next_turn_index a,
       e_quarantine = ac_quarantine_until_result a, e_terminated = ac_terminated a,
       e_ralph = ac_ralph_loop a, e_panicked = ac_panicked a, e_marks = marks (ac_w a) \<rparr>"

definition no_internal :: "'c SessionActor \<Rightarrow> bool" where
  "no_internal a \<longleftrightarrow>
     ac_queued_internal a = [] \<and> ac_must_run_internal_for_turn a = None
     \<and> ac_active_extractor a = None"

definition sim :: "'c SessionActor \<Rightarrow> engine \<Rightarrow> bool" where
  "sim a v \<longleftrightarrow> eng a = v \<and> no_internal a"

text \<open>The fields that the engine does not see.\<close>

lemma eng_updates [simp]:
  "eng (a\<lparr>ac_protocol := p\<rparr>) = eng a" "eng (a\<lparr>ac_codex_startup := js\<rparr>) = eng a"
  "eng (a\<lparr>ac_codex_overrides := ov\<rparr>) = eng a"
  "eng (a\<lparr>ac_cancelled := b\<rparr>) = eng a" "eng (a\<lparr>ac_pending_interrupt := b\<rparr>) = eng a"
  "eng (a\<lparr>ac_control_waiters := ws\<rparr>) = eng a" "eng (a\<lparr>ac_shutdown_tx := b\<rparr>) = eng a"
  "eng (a\<lparr>ac_active_extractor := x\<rparr>) = eng a" "eng (a\<lparr>ac_queued_internal := q\<rparr>) = eng a"
  "eng (a\<lparr>ac_next_auto_ctx_id := n\<rparr>) = eng a" "eng (a\<lparr>ac_last_auto_context_for := l\<rparr>) = eng a"
  "eng (a\<lparr>ac_must_run_internal_for_turn := l\<rparr>) = eng a"
  "eng (a\<lparr>ac_quarantine_deadline := d\<rparr>) = eng a"
  "eng (a\<lparr>ac_interrupt_sent_for_quarantine := b\<rparr>) = eng a"
  "eng (a\<lparr>ac_quarantine_from_internal := b\<rparr>) = eng a"
  "eng (a\<lparr>ac_json_parse_fail_count := n\<rparr>) = eng a"
  "eng (a\<lparr>ac_ralph_needs_dispatch := b\<rparr>) = eng a"
  "eng (a\<lparr>ac_pending_interactive_request := pr\<rparr>) = eng a"
  by (simp_all add: eng_def)

lemma no_internal_updates [simp]:
  "no_internal (a\<lparr>ac_protocol := p\<rparr>) = no_internal a"
  "no_internal (a\<lparr>ac_codex := c\<rparr>) = no_internal a"
  "no_internal (a\<lparr>ac_codex_startup := js\<rparr>) = no_internal a"
  "no_internal (a\<lparr>ac_codex_ready := b\<rparr>) = no_internal a"
  "no_internal (a\<lparr>ac_codex_overrides := ov\<rparr>) = no_internal a"
  "no_internal (a\<lparr>ac_state := s\<rparr>) = no_internal a"
  "no_internal (a\<lparr>ac_stdin := b\<rparr>) = no_internal a"
  "no_internal (a\<lparr>ac_cancelled := b\<rparr>) = no_internal a"
  "no_internal (a\<lparr>ac_pending_interrupt := b\<rparr>) = no_internal a"
  "no_internal (a\<lparr>ac_control_waiters := ws\<rparr>) = no_internal a"
  "no_internal (a\<lparr>ac_shutdown_tx := b\<rparr>) = no_internal a"
  "no_internal (a\<lparr>ac_active_turn := t\<rparr>) = no_internal a"
  "no_internal (a\<lparr>ac_queued_user := qu\<rparr>) = no_internal a"
  "no_internal (a\<lparr>ac_next_turn_index := n\<rparr>) = no_internal a"
  "no_internal (a\<lparr>ac_next_auto_ctx_id := n\<rparr>) = no_internal a"
  "no_internal (a\<lparr>ac_next_turn_seq := m\<rparr>) = no_internal a"
  "no_internal (a\<lparr>ac_last_auto_context_for := l\<rparr>) = no_internal a"
  "no_internal (a\<lparr>ac_quarantine_until_result := b\<rparr>) = no_internal a"
  "no_internal (a\<lparr>ac_quarantine_deadline := d\<rparr>) = no_internal a"
  "no_internal (a\<lparr>ac_interrupt_sent_for_quarantine := b\<rparr>) = no_internal a"
  "no_internal (a\<lparr>ac_quarantine_from_internal := b\<rparr>) = no_internal a"
  "no_internal (a\<lparr>ac_terminated := b\<rparr>) = no_internal a"
  "no_internal (a\<lparr>ac_json_parse_fail_count := n\<rparr>) = no_internal a"
  "no_internal (a\<lparr>ac_ralph_loop := r\<rparr>) = no_internal a"
  "no_internal (a\<lparr>ac_ralph_needs_dispatch := b\<rparr>) = no_internal a"
  "no_internal (a\<lparr>ac_pending_interactive_request := pr\<rparr>) = no_internal a"
  "no_internal (a\<lparr>ac_panicked := b\<rparr>) = no_internal a"
  "no_internal (a\<lparr>ac_w := w\<rparr>) = no_internal a"
  by (simp_all add: no_internal_def)

lemma no_internal_cleared [simp]:
  "no_internal (a\<lparr>ac_queued_internal := [], ac_must_run_internal_for_turn := None\<rparr>)
     \<longleftrightarrow> ac_active_extractor a = None"
  "no_internal a \<Longrightarrow> no_internal (a\<lparr>ac_active_extractor := None\<rparr>)"
  by (simp_all add: no_internal_def)

text \<open>The fields that it sees.\<close>

lemma eng_seen [simp]:
  "eng (a\<lparr>ac_active_turn := t\<rparr>) = (eng a)\<lparr>e_turn := t\<rparr>"
  "eng (a\<lparr>ac_queued_user := q\<rparr>) = (eng a)\<lparr>e_queue := q\<rparr>"
  "eng (a\<lparr>ac_next_turn_seq := m\<rparr>) = (eng a)\<lparr>e_seq := m\<rparr>"
  "eng (a\<lparr>ac_next_turn_index := n\<rparr>) = (eng a)\<lparr>e_index := n\<rparr>"
  "eng (a\<lparr>ac_quarantine_until_result := b\<rparr>) = (eng a)\<lparr>e_quarantine := b\<rparr>"
  "eng (a\<lparr>ac_terminated := b\<rparr>) = (eng a)\<lparr>e_terminated := b\<rparr>"
  "eng (a\<lparr>ac_ralph_loop := r\<rparr>) = (eng a)\<lparr>e_ralph := r\<rparr>"
  "eng (a\<lparr>ac_panicked := b\<rparr>) = (eng a)\<lparr>e_panicked := b\<rparr>"
  "eng (a\<lparr>ac_state := s\<rparr>) = (eng a)\<lparr>e_state := s\<rparr>"
  "eng (a\<lparr>ac_codex_ready := b\<rparr>) = (eng a)\<lparr>e_ready := b\<rparr>"
  "eng (a\<lparr>ac_stdin := b\<rparr>) = (eng a)\<lparr>e_open := b\<rparr>"
  "eng (a\<lparr>ac_codex := c\<rparr>) = (eng a)\<lparr>e_claude := (c = None)\<rparr>"
  "eng (a\<lparr>ac_w := w\<rparr>) = (eng a)\<lparr>e_now := w_now w, e_marks := marks w\<rparr>"
  by (simp_all add: eng_def)

lemma eng_fields [simp]:
  "e_run_id (eng a) = ac_run_id a" "e_claude (eng a) = (ac_codex a = None)"
  "e_ready (eng a) = ac_codex_ready a" "e_open (eng a) = ac_stdin a" "e_now (eng a) = w_now (ac_w a)"
  "e_state (eng a) = ac_state a" "e_turn (eng a) = ac_active_turn a"
  "e_queue (eng a) = ac_queued_user a" "e_seq (eng a) = ac_next_turn_seq a"
  "e_index (eng a) = ac_next_turn_index a"
  "e_quarantine (eng a) = ac_quarantine_until_result a"
  "e_terminated (eng a) = ac_terminated a" "e_ralph (eng a) = ac_ralph_loop a"
  "e_panicked (eng a) = ac_panicked a" "e_marks (eng a) = marks (ac_w a)"
  by (simp_all add: eng_def)

section \<open>Elementary operations\<close>

lemma sim_eng: "no_internal a \<Longrightarrow> sim a (eng a)"
  by (simp add: sim_def)

lemma eng_same_world:
  "w_now w = w_now (ac_w a) \<Longrightarrow> marks w = marks (ac_w a) \<Longrightarrow> eng (a\<lparr>ac_w := w\<rparr>) = eng a"
  by (simp add: eng_def del: eng_seen)

lemma eng_same_codex:
  "c = None \<longleftrightarrow> ac_codex a = None \<Longrightarrow> eng (a\<lparr>ac_codex := c\<rparr>) = eng a"
  by (simp add: eng_def del: eng_seen)

lemma sim_mark:
  assumes "sim a v" "loud e"
  shows "sim (emit_fx e a) (sp_mark e v)"
proof -
  have "eng (emit_fx e a) = sp_mark e (eng a)"
    using assms(2) by (simp add: emit_fx_def sp_mark_def eng_def del: eng_seen)
  with assms(1) show ?thesis by (simp add: sim_def emit_fx_def)
qed

lemma sim_quiet:
  assumes "sim a v" "quiet a b"
  shows "sim b v"
proof -
  from assms(2) obtain w where b: "b = a\<lparr>ac_w := w\<rparr>" "quiet_w (ac_w a) w" by (rule quietE)
  then have "eng b = eng a" using eng_same_world by (simp add: quiet_w_def del: eng_seen)
  with assms(1) b(1) show ?thesis by (simp add: sim_def)
qed

lemma sim_quiet_c:
  assumes "sim a v" "quiet_c a b"
  shows "sim b v"
proof -
  from assms(2) obtain c w where b: "b = a\<lparr>ac_codex := c, ac_w := w\<rparr>" "quiet_w (ac_w a) w"
    "c = None \<longleftrightarrow> ac_codex a = None" by (rule quiet_cE)
  have "eng b = eng (a\<lparr>ac_codex := c\<rparr>)"
    unfolding b(1) using b(2) by (intro eng_same_world) (simp_all add: quiet_w_def)
  also have "\<dots> = eng a" using b(3) by (rule eng_same_codex)
  finally show ?thesis using assms(1) b(1) by (simp add: sim_def)
qed

lemma sim_slash [simp]: "sim (set_pending_slash c a) v = sim a v"
  by (simp add: set_pending_slash_def sim_def)

lemma set_pending_slash_fields [simp]:
  "ac_codex (set_pending_slash c a) = ac_codex a" "ac_w (set_pending_slash c a) = ac_w a"
  "ac_stdin (set_pending_slash c a) = ac_stdin a" "ac_run_id (set_pending_slash c a) = ac_run_id a"
  "ac_active_turn (set_pending_slash c a) = ac_active_turn a"
  by (simp_all add: set_pending_slash_def)

lemma sim_state:
  assumes "sim a v"
  shows "sim (emit_state E s x er um a) (sp_state s x er v)"
proof -
  let ?es = "if ac_state a = s then [] else [Persisted (RunState (ac_run_id a) s x er)]"
  obtain p w where b: "emit_state E s x er um a = a\<lparr>ac_state := s, ac_protocol := p, ac_w := w\<rparr>"
    and w: "marks w = marks (ac_w a) @ ?es" "w_now w = w_now (ac_w a)"
    using emit_state_frame [of s a x er E um] by (rule statedE)
  have v: "eng a = v" "no_internal a" using assms by (simp_all add: sim_def)
  have "eng (a\<lparr>ac_state := s, ac_protocol := p, ac_w := w\<rparr>) = sp_state s x er (eng a)"
    using w by (simp add: sp_state_def sp_mark_def eng_def del: eng_seen)
  then show ?thesis using v by (simp add: sim_def b)
qed

lemma sim_idle_running: "sim a v \<Longrightarrow> sim (persist_idle_running E s a) v"
  by (erule sim_quiet) simp

text \<open>The outcomes that the environment allows: none is refused when no write fails.\<close>

definition writes_ok :: "'c env \<Rightarrow> bool" where
  "writes_ok E \<longleftrightarrow> (\<forall>k. en_write E k = WOk)"

definition allowed :: "'c env \<Rightarrow> engine \<Rightarrow> outcome \<Rightarrow> bool" where
  "allowed E v oc \<longleftrightarrow> (writes_ok E \<and> e_open v \<longrightarrow> accepting oc)"

definition outcome_of :: "(string + string) option \<Rightarrow> outcome" where
  "outcome_of r =
     (case r of None \<Rightarrow> Panics | Some (Inl e) \<Rightarrow> Refused e | Some (Inr u) \<Rightarrow> Sent u)"

lemma accepting_outcome:
  assumes "writes_ok E" "ac_stdin a" "write_user_to_stdin E text atts skills a = (r, b)"
  shows "accepting (outcome_of r)"
proof -
  have "r = None \<or> (\<exists>u. r = Some (Inr u))"
    using assms write_user_ok [of E a _ atts skills r b] by (simp add: writes_ok_def)
  then show ?thesis by (auto simp: accepting_def outcome_of_def)
qed


section \<open>Starting turns and dispatching\<close>

lemma sim_fields:
  assumes "sim a v"
  shows "ac_run_id a = e_run_id v" "ac_codex a = None \<longleftrightarrow> e_claude v"
    "ac_codex_ready a = e_ready v" "now_of a = e_now v" "ac_active_turn a = e_turn v"
    "ac_queued_user a = e_queue v" "ac_next_turn_seq a = e_seq v" "ac_next_turn_index a = e_index v"
    "ac_quarantine_until_result a = e_quarantine v" "ac_terminated a = e_terminated v"
    "ac_ralph_loop a = e_ralph v" "ac_panicked a = e_panicked v" "ac_state a = e_state v"
    "marks (ac_w a) = e_marks v" "no_internal a"
  using assms by (auto simp: sim_def now_of_def)

lemma sp_frame [simp]:
  "e_now (sp_mark e v) = e_now v" "e_now (sp_state s x er v) = e_now v"
  "e_now (sp_running t u v) = e_now v" "e_run_id (sp_mark e v) = e_run_id v"
  "e_turn (sp_mark e v) = e_turn v" "e_turn (sp_state s x er v) = e_turn v"
  "e_ralph (sp_mark e v) = e_ralph v" "e_ralph (sp_state s x er v) = e_ralph v"
  "e_quarantine (sp_mark e v) = e_quarantine v" "e_quarantine (sp_state s x er v) = e_quarantine v"
  "e_claude (sp_mark e v) = e_claude v" "e_claude (sp_state s x er v) = e_claude v"
  "e_queue (sp_mark e v) = e_queue v" "e_queue (sp_state s x er v) = e_queue v"
  "e_panicked (sp_mark e v) = e_panicked v" "e_panicked (sp_state s x er v) = e_panicked v"
  "e_terminated (sp_mark e v) = e_terminated v" "e_terminated (sp_state s x er v) = e_terminated v"
  by (simp_all add: sp_mark_def sp_state_def sp_running_def)

lemma sim_turn: "sim a v \<Longrightarrow> sim (a\<lparr>ac_active_turn := t\<rparr>) (v\<lparr>e_turn := t\<rparr>)"
  by (auto simp: sim_def)

lemma sim_panic: "sim a v \<Longrightarrow> sim (a\<lparr>ac_panicked := True\<rparr>) (v\<lparr>e_panicked := True\<rparr>)"
  by (auto simp: sim_def)

lemma sim_ralph: "sim a v \<Longrightarrow> sim (a\<lparr>ac_ralph_loop := r\<rparr>) (v\<lparr>e_ralph := r\<rparr>)"
  by (auto simp: sim_def)

text \<open>The events of a turn that starts.\<close>

lemma sim_running:
  assumes "sim a v"
  shows "sim (persist_idle_running E Running (emit_state E ''running'' None None False
       (persist_and_emit (UserMessage (ac_run_id a) tx (Some u) None []) a))) (sp_running tx u v)"
  unfolding persist_and_emit_def sp_running_def sim_fields(1) [OF assms]
  by (intro sim_idle_running sim_state sim_mark assms) simp

lemma sim_write_user:
  assumes "sim a v" "write_user_to_stdin E tx atts skills a = (r, b)"
  shows "sim b v"
  using sim_quiet_c [OF assms(1)] quiet_c_write_user [of a E tx atts skills] assms(2) by simp

lemma allowed_outcome:
  assumes "sim a v" "write_user_to_stdin E tx atts skills a = (r, b)"
  shows "allowed E v (outcome_of r)"
  using accepting_outcome [OF _ _ assms(2)] assms(1) by (auto simp: allowed_def sim_def)

lemma sim_start_user:
  assumes "sim a v"
  shows "\<exists>oc. sim (start_user_turn E t a) (sp_start_user oc t v) \<and> allowed E v oc"
proof -
  define a1 where "a1 = (case tk_kind t of
      SlashTurn command \<Rightarrow> set_pending_slash (Some command) a | NormalTurn i \<Rightarrow> set_pending_slash None a)"
  have a1: "sim a1 v"
    using assms by (simp add: a1_def split: UserTurnKind.split)
  obtain r a2 where w: "write_user_to_stdin E (tk_text t) (tk_attachments t) (tk_skills t) a1 = (r, a2)"
    by fastforce
  note s2 = sim_write_user [OF a1 w]
  have acc: "allowed E v (outcome_of r)" by (rule allowed_outcome [OF a1 w])
  have "sim (start_user_turn E t a) (sp_start_user (outcome_of r) t v)"
  proof (cases r)
    case None
    then show ?thesis using sim_panic [OF s2] w
      by (simp add: start_user_turn_def a1_def [symmetric] Let_def outcome_of_def sp_start_user_def)
  next
    case (Some q)
    show ?thesis
    proof (cases q)
      case (Inl e)
      then show ?thesis using Some sim_mark [OF s2] w
        by (simp add: start_user_turn_def a1_def [symmetric] Let_def outcome_of_def sp_start_user_def)
    next
      case (Inr u)
      let ?a5 = "persist_idle_running E Running (emit_state E ''running'' None None False
          (persist_and_emit (UserMessage (ac_run_id a2) (tk_text t) (Some u) None []) a2))"
      let ?a6 = "emit_fx (SendReply (tk_reply t) (Inr ())) ?a5"
      have s6: "sim ?a6 (sp_mark (SendReply (tk_reply t) (Inr ())) (sp_running (tk_text t) u v))"
        by (intro sim_mark sim_running s2) simp
      have "now_of ?a6 = e_now v" using sim_fields(4) [OF s6] by simp
      then show ?thesis using sim_turn [OF s6] Some Inr w
        by (simp add: start_user_turn_def a1_def [symmetric] Let_def outcome_of_def sp_start_user_def)
    qed
  qed
  with acc show ?thesis by blast
qed

lemma sim_ralph_complete:
  assumes "sim a v"
  shows "sim (emit_ralph_complete reason a) (sp_ralph_complete reason v)"
  unfolding emit_ralph_complete_def sp_ralph_complete_def persist_and_emit_def Let_def
    sim_fields(1,11) [OF assms]
  by (intro sim_mark sim_ralph assms) simp

lemma sim_ralph_failed:
  assumes "sim a v"
  shows "sim (ralph_write_failed a) (sp_ralph_failed v)"
  using assms sim_ralph_complete [OF sim_ralph [OF assms]] sim_ralph [OF assms] sim_fields(4) [OF assms]
  by (simp add: ralph_write_failed_def sp_ralph_failed_def sim_fields(11) [OF assms] Let_def
      split: option.split)

lemma sim_start_ralph:
  assumes "sim a v"
  shows "\<exists>oc. sim (start_ralph_turn E prompt a) (sp_start_ralph oc prompt v)
    \<and> allowed E v oc"
proof -
  let ?f = "\<lambda>r. r\<lparr>rl_turn_toplevel_texts := []\<rparr>"
  let ?a1 = "a\<lparr>ac_next_turn_index := ac_next_turn_index a + 1,
      ac_next_turn_seq := ac_next_turn_seq a + 1,
      ac_ralph_loop := map_option ?f (ac_ralph_loop a)\<rparr>"
  let ?v1 = "v\<lparr>e_index := e_index v + 1, e_seq := e_seq v + 1, e_ralph := map_option ?f (e_ralph v)\<rparr>"
  have s1: "sim ?a1 ?v1" using assms by (auto simp: sim_def)
  obtain r a2 where w: "write_user_to_stdin E prompt [] [] ?a1 = (r, a2)" by fastforce
  note s2 = sim_write_user [OF s1 w]
  have acc: "allowed E v (outcome_of r)" using allowed_outcome [OF s1 w] by (simp add: allowed_def)
  have "sim (start_ralph_turn E prompt a) (sp_start_ralph (outcome_of r) prompt v)"
  proof (cases r)
    case None
    then show ?thesis using sim_panic [OF s2] w
      by (simp add: start_ralph_turn_def Let_def outcome_of_def sp_start_ralph_def)
  next
    case (Some q)
    show ?thesis
    proof (cases q)
      case (Inl e)
      then show ?thesis using Some sim_ralph_failed [OF s2] w
        by (simp add: start_ralph_turn_def Let_def outcome_of_def sp_start_ralph_def)
    next
      case (Inr u)
      note s5 = sim_running [OF s2, of E prompt u]
      note n = sim_fields(4) [OF s5]
      show ?thesis using sim_turn [OF s5] Some Inr w n sim_fields(7,8) [OF assms]
        by (simp add: start_ralph_turn_def Let_def outcome_of_def sp_start_ralph_def)
    qed
  qed
  with acc show ?thesis by blast
qed

lemma sim_dispatch_ralph:
  assumes "sim a v"
  shows "\<exists>oc. sim (dispatch_ralph E a) (sp_dispatch_ralph oc v) \<and> allowed E v oc"
proof -
  have idle: "dispatch_internal E a = a"
    using sim_fields(15) [OF assms] by (simp add: dispatch_internal_def no_internal_def)
  have acc: "\<exists>oc. allowed E v oc" by (rule exI [of _ Panics]) (simp add: accepting_def allowed_def)
  show ?thesis
  proof (cases "e_ralph v")
    case None
    then show ?thesis using assms acc idle
      by (simp add: dispatch_ralph_def sp_dispatch_ralph_def sim_fields(11) [OF assms])
  next
    case (Some r)
    note defs = dispatch_ralph_def sp_dispatch_ralph_def sim_fields(4,11) [OF assms] Some
    let ?r = "Some (r\<lparr>rl_phase := RalphRunning, rl_retry_after := None\<rparr>)"
    have "\<exists>oc. sim (start_ralph_turn E (rl_prompt r) (a\<lparr>ac_ralph_loop := ?r\<rparr>))
             (sp_start_ralph oc (rl_prompt r) (v\<lparr>e_ralph := ?r\<rparr>)) \<and> allowed E v oc"
      using sim_start_ralph [OF sim_ralph [OF assms, of ?r], of E "rl_prompt r"]
      by (simp add: allowed_def)
    then show ?thesis using assms acc idle sim_start_ralph [OF assms, of E "rl_prompt r"]
      by (cases "rl_phase r") (simp_all add: defs)
  qed
qed

lemma sim_try_dispatch:
  assumes "sim a v"
  shows "\<exists>oc. sim (try_dispatch E a) (sp_dispatch oc v) \<and> allowed E v oc"
proof -
  have acc: "\<exists>oc. allowed E v oc" by (rule exI [of _ Panics]) (simp add: accepting_def allowed_def)
  have n: "ac_must_run_internal_for_turn a = None"
    using sim_fields(15) [OF assms] by (simp add: no_internal_def)
  have g: "try_dispatch E a = (if sp_gate v then dispatch_user E a else a)"
    using n by (auto simp: try_dispatch_def sp_gate_def sim_fields [OF assms])
  show ?thesis
  proof (cases "sp_gate v")
    case False
    then show ?thesis using assms acc by (simp add: g sp_dispatch_def)
  next
    case True
    show ?thesis
    proof (cases "e_queue v")
      case Nil
      then show ?thesis using True sim_dispatch_ralph [OF assms, of E]
        by (simp add: g dispatch_user_def sp_dispatch_def sim_fields(6) [OF assms])
    next
      case (Cons t ts)
      let ?a = "a\<lparr>ac_queued_user := ts, ac_ralph_loop := map_option pause_ralph (ac_ralph_loop a)\<rparr>"
      let ?v = "v\<lparr>e_queue := ts, e_ralph := map_option pause_ralph (e_ralph v)\<rparr>"
      have "sim ?a ?v" using assms by (auto simp: sim_def)
      from sim_start_user [OF this, of E t] show ?thesis
        using True n
        by (simp add: g dispatch_user_def sp_dispatch_def sim_fields(6) [OF assms] Cons allowed_def)
    qed
  qed
qed


section \<open>Messages, the end of a turn, the clock\<close>

lemma sim_updates [simp]:
  "sim (a\<lparr>ac_protocol := p\<rparr>) v = sim a v"
  "sim (a\<lparr>ac_codex_startup := js\<rparr>) v = sim a v"
  "sim (a\<lparr>ac_codex_overrides := ov\<rparr>) v = sim a v"
  "sim (a\<lparr>ac_cancelled := b\<rparr>) v = sim a v"
  "sim (a\<lparr>ac_pending_interrupt := b\<rparr>) v = sim a v"
  "sim (a\<lparr>ac_control_waiters := ws\<rparr>) v = sim a v"
  "sim (a\<lparr>ac_shutdown_tx := b\<rparr>) v = sim a v"
  "sim (a\<lparr>ac_next_auto_ctx_id := n\<rparr>) v = sim a v"
  "sim (a\<lparr>ac_last_auto_context_for := l\<rparr>) v = sim a v"
  "sim (a\<lparr>ac_quarantine_deadline := d\<rparr>) v = sim a v"
  "sim (a\<lparr>ac_interrupt_sent_for_quarantine := b\<rparr>) v = sim a v"
  "sim (a\<lparr>ac_quarantine_from_internal := b\<rparr>) v = sim a v"
  "sim (a\<lparr>ac_json_parse_fail_count := n\<rparr>) v = sim a v"
  "sim (a\<lparr>ac_ralph_needs_dispatch := b\<rparr>) v = sim a v"
  "sim (a\<lparr>ac_pending_interactive_request := pr\<rparr>) v = sim a v"
  by (simp_all add: sim_def)

lemma sim_seen:
  assumes "sim a v"
  shows "sim (a\<lparr>ac_queued_user := q\<rparr>) (v\<lparr>e_queue := q\<rparr>)"
    and "sim (a\<lparr>ac_quarantine_until_result := b\<rparr>) (v\<lparr>e_quarantine := b\<rparr>)"
    and "sim (a\<lparr>ac_terminated := b\<rparr>) (v\<lparr>e_terminated := b\<rparr>)"
    and "sim (a\<lparr>ac_codex_ready := b\<rparr>) (v\<lparr>e_ready := b\<rparr>)"
    and "sim (a\<lparr>ac_stdin := b\<rparr>) (v\<lparr>e_open := b\<rparr>)"
    and "sim (a\<lparr>ac_active_extractor := None\<rparr>) v"
  using assms by (auto simp: sim_def)

lemma sim_codex:
  assumes "sim a v" "\<not> e_claude v"
  shows "sim (a\<lparr>ac_codex := Some c\<rparr>) v"
proof -
  have "eng (a\<lparr>ac_codex := Some c\<rparr>) = eng a"
    using assms by (intro eng_same_codex) (auto simp: sim_def)
  with assms(1) show ?thesis by (simp add: sim_def)
qed

lemma sp_dispatch_quarantine [simp]: "e_quarantine (sp_dispatch oc v) = e_quarantine v"
  by (cases rule: sp_dispatch_cases [of v oc];
      simp add: sp_start_user_def sp_start_ralph_def sp_running_def
        sp_ralph_failed_def sp_ralph_complete_def Let_def split: outcome.split option.split)+

lemma sp_ralph_end_quarantine [simp]: "e_quarantine (sp_ralph_end t f v) = e_quarantine v"
  by (simp add: sp_ralph_end_def sp_ralph_complete_def sp_mark_def Let_def
      split: option.split prod.split RalphAction.split)

lemma allowed_cong: "e_open w = e_open v \<Longrightarrow> allowed E w = allowed E v"
  by (simp add: allowed_def fun_eq_iff)

text \<open>The events that the driver of the environment emits.\<close>

definition driver_evs :: "'c env \<Rightarrow> BusEvent \<Rightarrow> bool" where
  "driver_evs E ev \<longleftrightarrow> (\<exists>r l c. ev \<in> set (pl_events (fst (dr_parse_line (en_driver E) r l c))))"

text \<open>One step, and several steps, of the engine for an operation of the actor.\<close>

definition refines ::
  "'c env \<Rightarrow> engine \<Rightarrow> nat list \<Rightarrow> 'c SessionActor \<Rightarrow> bool" where
  "refines E v ns b \<longleftrightarrow> (\<exists>w. sim b w \<and> spec_run (allowed E v) (driver_evs E) v ns w)"

lemma refines_same: "sim b v \<Longrightarrow> refines E v [] b"
  using spec_run_nil unfolding refines_def by blast

lemma refines_tau:
  "\<not> e_panicked v \<Longrightarrow> sim b w \<Longrightarrow> spec_step (allowed E v) (driver_evs E) v Tau w \<Longrightarrow> refines E v [] b"
  using spec_run_single(1) unfolding refines_def by blast

lemma refines_trans:
  assumes "spec_run (allowed E v) (driver_evs E) v ns w" "refines E w ms b"
  shows "refines E v (ns @ ms) b"
proof -
  from assms(2) obtain u where u: "sim b u" "spec_run (allowed E w) (driver_evs E) w ms u"
    by (auto simp: refines_def)
  have "allowed E w = allowed E v" using spec_run_open [OF assms(1)] by (intro allowed_cong) simp
  with u assms(1) spec_run_trans show ?thesis unfolding refines_def by metis
qed

lemma sim_send:
  assumes "sim a v" "\<not> e_panicked v"
  shows "refines E v [n] (handle_send_message E n tx atts sk a)"
proof (cases "e_terminated v")
  case True
  then have "sim (handle_send_message E n tx atts sk a)
      (sp_mark (SendReply n (Inl ''Session terminated'')) v)"
    using sim_mark [OF assms(1)] by (simp add: handle_send_message_def sim_fields(10) [OF assms(1)])
  with True assms(2) show ?thesis
    unfolding refines_def by (blast intro: spec_run_single(2) sp_reject)
next
  case False
  define k where "k = (if starts_with (str_trim tx) ''/'' then SlashTurn (str_trim tx)
      else NormalTurn (ac_next_auto_ctx_id a))"
  define t where "t = \<lparr> tk_seq = e_seq v, tk_text = tx, tk_attachments = atts, tk_skills = sk,
      tk_kind = k, tk_turn_index = e_index v, tk_reply = n \<rparr>"
  obtain a3 where a3: "handle_send_message E n tx atts sk a = try_dispatch E a3"
    and s3: "sim a3 (sp_enqueue t v)"
  proof (cases "starts_with (str_trim tx) ''/''")
    case True
    let ?a = "a\<lparr>ac_next_turn_index := ac_next_turn_index a + 1,
        ac_next_turn_seq := ac_next_turn_seq a + 1, ac_queued_user := ac_queued_user a @ [t]\<rparr>"
    have "sim ?a (sp_enqueue t v)" using assms(1) by (auto simp: sim_def sp_enqueue_def t_def)
    then show ?thesis
      by (rule that [rotated])
        (simp add: handle_send_message_def sim_fields [OF assms(1)] False True t_def k_def Let_def)
  next
    case N: False
    let ?a = "a\<lparr>ac_next_turn_index := ac_next_turn_index a + 1,
        ac_next_auto_ctx_id := ac_next_auto_ctx_id a + 1,
        ac_next_turn_seq := ac_next_turn_seq a + 1, ac_queued_user := ac_queued_user a @ [t]\<rparr>"
    have "sim ?a (sp_enqueue t v)" using assms(1) by (auto simp: sim_def sp_enqueue_def t_def)
    then show ?thesis
      by (rule that [rotated])
        (simp add: handle_send_message_def sim_fields [OF assms(1)] False N t_def k_def Let_def)
  qed
  from sim_try_dispatch [OF s3, of E] obtain oc where
    oc: "sim (try_dispatch E a3) (sp_dispatch oc (sp_enqueue t v))" "allowed E (sp_enqueue t v) oc"
    by blast
  then have "allowed E v oc" by (simp add: allowed_def sp_enqueue_def)
  then have "spec_step (allowed E v) (driver_evs E) v (Accept n) (sp_dispatch oc (sp_enqueue t v))"
    using False by (intro sp_accept) (simp_all add: t_def)
  with oc(1) assms(2) show ?thesis
    unfolding refines_def a3 by (blast intro: spec_run_single(2))
qed

lemma sim_ralph_end:
  assumes "sim a v"
  shows "sim (ralph_on_turn_end t f a) (sp_ralph_end t f v)"
proof (cases "e_ralph v")
  case None
  then show ?thesis using assms by (simp add: ralph_on_turn_end_def sp_ralph_end_def sim_fields(11) [OF assms])
next
  case (Some r)
  obtain r1 action where act: "ralph_action (at_origin t) f r = (r1, action)" by fastforce
  note s1 = sim_ralph [OF assms, of "Some r1"]
  note defs = ralph_on_turn_end_def sp_ralph_end_def sim_fields(11) [OF assms] Some act Let_def
  show ?thesis
  proof (cases action)
    case (RComplete c)
    then show ?thesis using sim_ralph_complete [OF s1] by (simp add: defs)
  next
    case (REmitIteration i m)
    then show ?thesis using sim_mark [OF s1] sim_fields(1) [OF s1]
      by (simp add: defs persist_and_emit_def)
  next
    case (RSetWaitingRetry b)
    then show ?thesis using sim_ralph [OF assms] sim_fields(4) [OF s1] by (simp add: defs)
  next
    case (RResumeFrom p)
    then show ?thesis using sim_ralph [OF assms] by (simp add: defs)
  next
    case RNoop
    then show ?thesis using s1 by (simp add: defs)
  qed
qed

lemma sim_finish:
  assumes "sim a v"
  shows "\<exists>oc failed. sim (finish_turn E st er t a)
      (sp_dispatch oc (sp_ralph_end t failed (v\<lparr>e_turn := None\<rparr>))) \<and> allowed E v oc"
proof -
  define f where "f = (st = ''failed'' \<or> st = ''idle'' \<and> er \<noteq> None)"
  define a2 where "a2 = set_pending_slash None
      ((on_user_turn_finished t (a\<lparr>ac_active_turn := None\<rparr>))\<lparr>ac_active_extractor := None\<rparr>)"
  have "sim (on_user_turn_finished t (a\<lparr>ac_active_turn := None\<rparr>)) (v\<lparr>e_turn := None\<rparr>)"
    using sim_turn [OF assms] by (simp add: on_user_turn_finished_def split: TurnOrigin.split UserTurnKind.split)
  then have "sim a2 (v\<lparr>e_turn := None\<rparr>)" unfolding a2_def by (simp add: sim_seen(6))
  from sim_try_dispatch [OF sim_ralph_end [OF this, of t f], of E] obtain oc where
    "sim (try_dispatch E (ralph_on_turn_end t f a2)) (sp_dispatch oc (sp_ralph_end t f (v\<lparr>e_turn := None\<rparr>)))"
    "allowed E v oc"
    by (auto simp: allowed_def)
  then show ?thesis unfolding finish_turn_def Let_def a2_def [symmetric] f_def [symmetric] by blast
qed

lemma sim_end_turn:
  assumes "sim a v" "\<not> e_claude v" "\<not> e_panicked v"
  shows "refines E v [] (end_turn_and_dispatch E a)"
proof -
  have "sim (set_pending_slash None (a\<lparr>ac_active_turn := None, ac_active_extractor := None\<rparr>))
      (v\<lparr>e_turn := None\<rparr>)"
    using sim_seen(6) [OF sim_turn [OF assms(1)]] by simp
  from sim_try_dispatch [OF this, of E] obtain oc where
    "sim (end_turn_and_dispatch E a) (sp_dispatch oc (v\<lparr>e_turn := None\<rparr>))" "allowed E v oc"
    by (auto simp: allowed_def end_turn_and_dispatch_def)
  then show ?thesis using assms(2,3) by (blast intro: refines_tau sp_codex_end)
qed

lemma sim_fail_tickets: "sim a v \<Longrightarrow> sim (fail_tickets r ts a) (sp_fail_tickets r ts v)"
  by (induction ts arbitrary: a v) (simp_all add: sim_mark)

lemma sim_fail_all:
  assumes "sim a v"
  shows "sim (fail_all_pending_replies r a) (sp_fail_all r v)"
proof -
  have "sim (fail_tickets r (ac_queued_user a) (a\<lparr>ac_queued_user := []\<rparr>)) (sp_fail_all r v)"
    unfolding sp_fail_all_def sim_fields(6) [OF assms]
    by (intro sim_fail_tickets sim_seen(1) assms)
  then show ?thesis
    unfolding fail_all_pending_replies_def by (auto simp: sim_def no_internal_def)
qed


lemma sim_kill:
  assumes "sim a v"
  shows "\<exists>er. sim (quarantine_kill E a)
      ((sp_fail_all ''Session hard timeout'' (sp_state ''failed'' None er v))\<lparr>e_terminated := True\<rparr>)"
proof -
  let ?a1 = "set_pending_slash None a"
  let ?a2 = "if ac_child ?a1 then emit_fx Killed ?a1 else ?a1"
  have a1: "sim ?a1 v" using assms by simp
  have "sim (emit_fx Killed ?a1) v" by (rule sim_quiet [OF a1]) simp
  then have "sim ?a2 v" using a1 by simp
  from sim_seen(3) [OF sim_fail_all [OF sim_state [OF this]]]
  show ?thesis unfolding quarantine_kill_def Let_def by (rule exI)
qed

lemma sim_tick:
  assumes "sim a v" "gate_ok v" "\<not> e_panicked v"
  shows "\<exists>w. sim (on_tick_timeout E a) w \<and> spec_run (allowed E v) (driver_evs E) v [] w \<and> \<not> e_panicked w"
proof (cases "e_quarantine v")
  case True
  show ?thesis
  proof (cases "is_some_and (ac_quarantine_deadline a) (\<lambda>d. now_of a \<ge> d)")
    case D: True
    from sim_kill [OF assms(1)] obtain er where "sim (quarantine_kill E a)
      ((sp_fail_all ''Session hard timeout'' (sp_state ''failed'' None er v))\<lparr>e_terminated := True\<rparr>)"
      by blast
    moreover have "on_tick_timeout E a = quarantine_kill E a"
      using True D sim_fields(9) [OF assms(1)] by (simp add: on_tick_timeout_def tick_quarantine_def)
    ultimately show ?thesis
      using spec_run_single(1) [OF assms(3) sp_kill [OF True, of "allowed E v" "driver_evs E" er]] assms(3) by auto
  next
    case False
    have "sim (send_interrupt_to_cli E a) v" by (rule sim_quiet [OF assms(1)]) simp
    then have "sim (on_tick_timeout E a) v" using False True assms(1) sim_fields(9) [OF assms(1)]
      by (simp add: on_tick_timeout_def tick_quarantine_def Let_def)
    then show ?thesis using spec_run_nil assms(3) by blast
  qed
next
  case False
  note f = sim_fields [OF assms(1)]
  show ?thesis
  proof (cases "e_turn v")
    case None
    have "sim (tick_no_turn a) v" using assms(1) by (simp add: tick_no_turn_def split: option.split)
    then have "sim (on_tick_timeout E a) v" using None False f by (simp add: on_tick_timeout_def)
    then show ?thesis using spec_run_nil assms(3) by blast
  next
    case (Some t)
    then have i: "\<not> is_internal_origin (at_origin t)" using assms(2) by (simp add: gate_ok_def)
    show ?thesis
    proof (cases "e_now v \<ge> at_hard_deadline t")
      case True
      have "sim (enter_quarantine False a) (v\<lparr>e_turn := None, e_quarantine := True\<rparr>)"
        using assms(1) by (auto simp: enter_quarantine_def set_pending_slash_def sim_def)
      moreover have "on_tick_timeout E a = enter_quarantine False a"
        using True Some False f i by (simp add: on_tick_timeout_def tick_turn_def)
      ultimately show ?thesis
        using spec_run_single(1) [OF assms(3) sp_timeout [OF False Some True]] assms(3) by auto
    next
      case N: False
      then have "on_tick_timeout E a = a"
        using Some False f i by (simp add: on_tick_timeout_def tick_turn_def)
      then show ?thesis using spec_run_nil assms(1,3) by metis
    qed
  qed
qed

lemma refines_dispatch:
  assumes "sim a v" "\<not> e_panicked v"
  shows "refines E v [] (try_dispatch E a)"
  using sim_try_dispatch [OF assms(1), of E] assms(2) by (blast intro: refines_tau sp_retry)

lemma sim_handle_tick:
  assumes "sim a v" "gate_ok v" "\<not> e_panicked v"
  shows "refines E v [] (handle_tick E a)"
proof -
  from sim_tick [OF assms, of E] obtain w where
    w: "sim (on_tick_timeout E a) w" "spec_run (allowed E v) (driver_evs E) v [] w" "\<not> e_panicked w" by blast
  show ?thesis
  proof (cases "ac_ralph_needs_dispatch (on_tick_timeout E a)")
    case True
    have "sim ((on_tick_timeout E a)\<lparr>ac_ralph_needs_dispatch := False\<rparr>) w" using w(1) by simp
    from refines_trans [OF w(2) refines_dispatch [OF this w(3), of E]] True show ?thesis
      by (simp add: handle_tick_def)
  next
    case False
    then show ?thesis using w by (auto simp: handle_tick_def refines_def)
  qed
qed

section \<open>Control operations are invisible to the engine\<close>

lemma sim_persist: "sim a v \<Longrightarrow> \<not> loud_event ev \<Longrightarrow> sim (persist_and_emit ev a) v"
  by (erule sim_quiet) simp

lemma sim_fx_quiet: "sim a v \<Longrightarrow> \<not> loud e \<Longrightarrow> sim (emit_fx e a) v"
  by (erule sim_quiet) simp

lemma sim_insert_waiter: "sim a v \<Longrightarrow> sim (insert_waiter rid n a) v"
  by (simp add: insert_waiter_def Let_def sim_fx_quiet split: option.split)

lemma sim_resolve_waiter: "sim a v \<Longrightarrow> sim (resolve_waiter rid j a) v"
  by (simp add: resolve_waiter_def sim_fx_quiet split: option.split)

lemma sim_drop_waiter: "sim a v \<Longrightarrow> sim (drop_waiter rid a) v"
  by (simp add: drop_waiter_def sim_fx_quiet split: option.split)

lemma sim_clear_pending: "sim a v \<Longrightarrow> sim (clear_pending_interactive_request rid a) v"
  by (simp add: clear_pending_interactive_request_def)

lemma sim_set_pending: "sim a v \<Longrightarrow> sim (set_pending_interactive rid s d a) v"
  by (simp add: set_pending_interactive_def)

lemma sim_write: "sim a v \<Longrightarrow> sim (snd (write_json_line E j cx a)) v"
  "sim a v \<Longrightarrow> sim (snd (write_lines E ls cx a)) v"
  "sim a v \<Longrightarrow> sim (snd (write_control_response E rid r a)) v"
  "sim a v \<Longrightarrow> sim (snd (write_control_response_error E rid e a)) v"
  by (erule sim_quiet, simp)+

lemma sim_store: "sim a v \<Longrightarrow> sim (snd (store_op E f a)) v"
  by (erule sim_quiet) simp

lemma sim_uuid: "sim a v \<Longrightarrow> sim (snd (new_uuid E a)) v"
  by (erule sim_quiet) simp

lemmas sim_invisible = sim_fx_quiet sim_persist sim_insert_waiter sim_resolve_waiter sim_drop_waiter
  sim_clear_pending sim_set_pending sim_write sim_store sim_uuid

lemma sim_codex_tracked:
  assumes "sim a v" "\<not> e_claude v"
  shows "sim (snd (codex_tracked E cx frame c rid n a)) v"
proof -
  have w: "sim (snd (write_lines E ls cx (insert_waiter rid n (a\<lparr>ac_codex := Some c'\<rparr>)))) v" for ls c'
    by (intro sim_invisible sim_codex assms)
  have r: "sim (emit_fx (Resolve n no_thread) (a\<lparr>ac_codex := Some c'\<rparr>)) v" for c'
    by (intro sim_invisible sim_codex assms) simp
  show ?thesis using w r
    by (simp add: codex_tracked_def Let_def split: prod.split sum.split) (metis snd_conv)
qed

lemma sim_codex_control:
  assumes "sim a v" "\<not> e_claude v"
  shows "sim (snd (handle_codex_control E c sub req rid n a)) v"
proof (cases "codex_tracked_frame (en_driver E) sub req rid")
  case (Some p)
  then show ?thesis using sim_codex_tracked [OF assms]
    by (simp add: handle_codex_control_def split: prod.split)
next
  case None
  have r: "sim (emit_fx (Resolve n ok_true) b) v" if "sim b v" for b
    using that by (rule sim_fx_quiet) simp
  show ?thesis
  proof (cases "codex_plain_frame (en_driver E) sub req rid")
    case N: None
    have "sim (emit_fx (Resolve n ok_true)
        (a\<lparr>ac_codex_overrides := codex_override sub req (ac_codex_overrides a)\<rparr>)) v"
      by (rule r) (simp add: assms)
    with N show ?thesis by (simp add: handle_codex_control_def None)
  next
    case (Some p)
    obtain cx frame where p: "p = (cx, frame)" by fastforce
    obtain ls c' where f: "frame c = (ls, c')" by fastforce
    obtain q b where l: "write_lines E ls cx (a\<lparr>ac_codex := Some c'\<rparr>) = (q, b)" by fastforce
    have "sim b v" using sim_write(2) [OF sim_codex [OF assms, of c'], of E ls cx] l by simp
    then show ?thesis using r
      by (cases q) (simp_all add: handle_codex_control_def None Some p f l)
  qed
qed

lemma sim_send_control:
  assumes "sim a v"
  shows "sim (snd (handle_send_control_async E n req a)) v"
proof -
  obtain u a1 where u: "new_uuid E a = (u, a1)" by fastforce
  then have s: "sim a1 v" using sim_uuid [OF assms, of E] by simp
  show ?thesis
  proof (cases "ac_codex a1")
    case (Some c)
    then have "\<not> e_claude v" using sim_fields(2) [OF s] by simp
    with Some show ?thesis using sim_codex_control [OF s]
      by (simp add: handle_send_control_async_def u Let_def)
  next
    case None
    define a2 where "a2 = (if unwrap_or (get_str req ''subtype'') [] = ''interrupt''
        then a1\<lparr>ac_pending_interrupt := True\<rparr> else a1)"
    have s2: "sim a2 v" using s by (simp add: a2_def)
    define rid where "rid = ''ocv_ctrl_'' @ u"
    define j where "j = JObj [(''type'', JStr ''control_request''), (''request_id'', JStr rid), (''request'', req)]"
    obtain q b where w: "write_json_line E j ''control request'' (insert_waiter rid n a2) = (q, b)"
      by fastforce
    have "sim (snd (write_json_line E j ''control request'' (insert_waiter rid n a2))) v"
      using s2 by (intro sim_invisible)
    moreover have "snd (handle_send_control_async E n req a) = b"
      unfolding handle_send_control_async_def u Let_def prod.case None option.case
        a2_def [symmetric] rid_def [symmetric] j_def [symmetric] w
      by (cases q) simp_all
    ultimately show ?thesis using w by simp
  qed
qed

lemma sim_interactive_response:
  assumes "sim a v"
  shows "sim (snd (write_interactive_response E k rid r a)) v"
proof (cases "ac_codex a")
  case None
  then show ?thesis using assms by (simp add: write_interactive_response_def sim_write)
next
  case (Some c)
  then have "\<not> e_claude v" using sim_fields(2) [OF assms] by simp
  then show ?thesis
    using Some sim_write(2) [OF sim_codex [OF assms]]
    by (simp add: write_interactive_response_def split: prod.split)
qed

lemma loud_event_iff:
  "loud_event ev \<longleftrightarrow> actor_event ev \<or> (\<exists>r s x er. ev = RunState r s x er)"
  by (cases ev) (simp_all add: loud_event_def)

lemma sim_control_event:
  assumes "sim a v"
  shows "sim (handle_control_event E parsed ty a) v"
    and "sim (handle_control_event_internal E parsed ty a) v"
proof -
  have l: "\<not> loud_event (HookCallback r1 r2 r3 r4 r5 r6)"
    "\<not> loud_event (ElicitationPrompt r1 r2 r3 r4 x1 x2 x3 x4)"
    "\<not> loud_event (PermissionPrompt r1 r2 r3 r4 j r7 x1 ks)" "\<not> loud_event (ControlCancelled r1 r2)"
    for r1 r2 r3 r4 r5 r6 r7 x1 x2 x3 x4 j ks
    by (simp_all add: loud_event_iff)
  show "sim (handle_control_event E parsed ty a) v"
    unfolding handle_control_event_def handle_control_response_def handle_hook_callback_def
      handle_elicitation_def handle_can_use_tool_def Let_def
    using assms l
    by (auto intro!: sim_invisible split: option.split)
  show "sim (handle_control_event_internal E parsed ty a) v"
    unfolding handle_control_event_internal_def handle_control_response_def Let_def
    using assms by (auto intro!: sim_invisible split: option.split sum.split)
qed


section \<open>Lines of the child\<close>

lemma gate_ok_internal: "sim a v \<Longrightarrow> gate_ok v \<Longrightarrow> \<not> is_internal_turn a"
  by (auto simp: is_internal_turn_def is_some_and_def gate_ok_def sim_fields split: option.split)

lemma activity_step:
  assumes "sim a v" "gate_ok v" "\<not> e_panicked v"
  defines "a' \<equiv> a\<lparr>ac_active_turn := fst (apply_activity_reset (now_of a)
      (ac_quarantine_until_result a) (ac_active_turn a))\<rparr>"
  shows "\<exists>w. sim a' w \<and> spec_run (allowed E v) (driver_evs E) v [] w \<and> \<not> e_panicked w
    \<and> gate_ok w \<and> e_quarantine w = e_quarantine v \<and> e_claude w = e_claude v"
proof (cases "e_quarantine v")
  case True
  then have "a' = a"
    using sim_fields [OF assms(1)] unfolding a'_def by (cases a) (simp add: apply_activity_reset_def)
  then show ?thesis using assms(1-3) spec_run_nil by blast
next
  case False
  let ?w = "v\<lparr>e_turn := map_option (\<lambda>t. t\<lparr>at_hard_deadline := e_now v + USER_HARD_TIMEOUT\<rparr>) (e_turn v)\<rparr>"
  note f = sim_fields [OF assms(1)]
  have "fst (apply_activity_reset (now_of a) (ac_quarantine_until_result a) (ac_active_turn a))
      = e_turn ?w"
    using False assms(2) f
    by (auto simp: apply_activity_reset_def gate_ok_def split: option.split)
  then have "a' = a\<lparr>ac_active_turn := e_turn ?w\<rparr>" by (simp add: a'_def)
  then have "sim a' ?w" using sim_turn [OF assms(1), of "e_turn ?w"] by simp
  moreover have "spec_step (allowed E v) (driver_evs E) v Tau ?w" using False by (rule sp_activity)
  moreover have "gate_ok ?w" using assms(2) by (auto simp: gate_ok_def)
  ultimately show ?thesis using assms(3) spec_run_single(1) by fastforce
qed

text \<open>An event that is not a run state is invisible.\<close>

lemma sim_route_other:
  assumes "sim a v" "\<not> loud_event ev"
  shows "sim (route_user E ev a) v"
proof (cases "\<exists>r d. ev = SessionInit r d")
  case True
  then obtain r d where ev: "ev = SessionInit r d" by blast
  have "sim (persist_session_id E sid a) v" for sid
    using assms(1) unfolding persist_session_id_def by (rule sim_store)
  then show ?thesis using assms
    by (auto simp: route_user_def ev intro!: sim_persist split: option.split)
next
  case False
  have "sim (persist_and_emit (UsageUpdate r u) a) v" for r u
    using assms(1) by (rule sim_persist) (simp add: loud_event_iff)
  moreover have "sim (persist_and_emit ev a) v" using assms by (rule sim_persist)
  ultimately show ?thesis using assms(2) False
    by (cases ev) (simp_all add: route_user_def loud_event_iff)
qed

lemma route_run_state_step:
  assumes "sim a v" "gate_ok v" "\<not> e_panicked v" "e_claude v" "\<not> e_quarantine v"
  shows "\<exists>w. sim (route_run_state E st x er a) w \<and> spec_run (allowed E v) (driver_evs E) v [] w
    \<and> \<not> e_quarantine w"
proof -
  define q where "q = (ac_pending_interrupt a \<and> is_boundary_state st)"
  define a1 where "a1 = (if q then a\<lparr>ac_pending_interrupt := False,
      ac_protocol := (ac_protocol a)\<lparr>ps_got_result_event := False, ps_result_subtype := None\<rparr>\<rparr> else a)"
  define s where "s = (if q then ''idle'' else st)"
  define e where "e = (if q then None else er)"
  define a2 where "a2 = emit_state E s x e False a1"
  define b where "b = persist_idle_running E Idle a2"
  define a3 where "a3 = (if s = ''idle'' then
      (if is_some_and (ps_result_subtype (ac_protocol b)) (\<lambda>s. starts_with s ''error'')
       then persist_error E e b else b) else a2)"
  define a4 where "a4 = (if s = ''failed'' then persist_error E e a3 else a3)"
  have eq: "route_run_state E st x er a =
      (if is_boundary_state s
       then (case ac_active_turn a4 of None \<Rightarrow> a4 | Some turn \<Rightarrow> finish_turn E s e turn a4) else a4)"
  proof -
    have "(if ac_pending_interrupt a \<and> is_boundary_state st
        then (a\<lparr>ac_pending_interrupt := False,
                ac_protocol := (ac_protocol a)\<lparr>ps_got_result_event := False,
                                               ps_result_subtype := None\<rparr>\<rparr>, ''idle'', None)
        else (a, st, er)) = (a1, s, e)"
      by (simp add: a1_def s_def e_def q_def)
    then show ?thesis
      unfolding route_run_state_def by (simp only: Let_def prod.case a2_def b_def a3_def a4_def)
  qed
  let ?v = "sp_state s x e v"
  have "sim a1 v" using assms(1) by (simp add: a1_def)
  then have s2: "sim a2 ?v" unfolding a2_def by (rule sim_state)
  then have sb: "sim b ?v" unfolding b_def by (rule sim_idle_running)
  have pe: "sim (persist_error E e c) ?v" if "sim c ?v" for c
    using that unfolding persist_error_def by (rule sim_store)
  have s3: "sim a3 ?v" unfolding a3_def using s2 sb pe by presburger
  have s4: "sim a4 ?v" unfolding a4_def using s3 pe by presburger
  have st1: "spec_run (allowed E v) (driver_evs E) v [] ?v"
    using assms(3,5) by (intro spec_run_single(1) sp_new_state) simp_all
  show ?thesis
  proof (cases "is_boundary_state s \<and> e_turn v \<noteq> None")
    case True
    then obtain t where t: "e_turn v = Some t" by blast
    then have t4: "ac_active_turn a4 = Some t" using sim_fields(5) [OF s4] by simp
    from sim_finish [OF s4, of E s e t] obtain oc f where
      w: "sim (finish_turn E s e t a4) (sp_dispatch oc (sp_ralph_end t f (?v\<lparr>e_turn := None\<rparr>)))"
      "allowed E ?v oc" by blast
    have al: "allowed E ?v = allowed E v" using spec_run_open [OF st1] by (intro allowed_cong) simp
    have "spec_step (allowed E v) (driver_evs E) ?v Tau (sp_dispatch oc (sp_ralph_end t f (?v\<lparr>e_turn := None\<rparr>)))"
      using w(2) assms(4,5) t unfolding al by (intro sp_finish) simp_all
    then have "spec_run (allowed E v) (driver_evs E) v [] (sp_dispatch oc (sp_ralph_end t f (?v\<lparr>e_turn := None\<rparr>)))"
      using st1 assms(3) spec_run_tau by simp
    moreover have "\<not> e_quarantine (sp_dispatch oc (sp_ralph_end t f (?v\<lparr>e_turn := None\<rparr>)))"
      using assms(5) by simp
    ultimately show ?thesis using w(1) eq True t4 by auto
  next
    case False
    then have "route_run_state E st x er a = a4"
      using eq sim_fields(5) [OF s4] by auto
    then show ?thesis using s4 st1 assms(5) by auto
  qed
qed

lemma run_gate_ok: "spec_run P Q v ns w \<Longrightarrow> gate_ok v \<Longrightarrow> gate_ok w"
  by (induction rule: spec_run.induct) (auto intro: gate_ok_step)

lemma route_events_refines:
  assumes "sim a v" "gate_ok v" "\<not> e_panicked v" "e_claude v" "\<not> e_quarantine v"
    and "\<forall>ev \<in> set evs. \<not> actor_event ev"
  shows "refines E v [] (route_events E evs a)"
  using assms
proof (induction evs arbitrary: a v)
  case Nil
  then show ?case by (simp add: refines_same)
next
  case (Cons ev evs)
  have np: "\<not> ac_panicked a" using sim_fields(12) [OF Cons.prems(1)] Cons.prems(3) by simp
  have ni: "\<not> is_internal_turn a" using gate_ok_internal Cons.prems(1,2) by blast
  obtain w where w: "sim (route_event E ev a) w" "spec_run (allowed E v) (driver_evs E) v [] w" "\<not> e_quarantine w"
  proof (cases "event_invalid ev")
    case True
    have "sim (bump_invalid a) v" using Cons.prems(1) by (simp add: bump_invalid_def)
    then show ?thesis using that [of v] True Cons.prems(5) spec_run_nil by (simp add: route_event_def)
  next
    case V: False
    show ?thesis
    proof (cases "loud_event ev")
      case True
      then obtain r st x er where ev: "ev = RunState r st x er"
        using Cons.prems(6) by (auto simp: loud_event_iff)
      from route_run_state_step [OF Cons.prems(1-5), of E st x er] V ni that show ?thesis
        by (auto simp: route_event_def route_user_def ev)
    next
      case False
      then have "sim (route_event E ev a) v"
        using sim_route_other [OF Cons.prems(1) False] V ni by (simp add: route_event_def)
      then show ?thesis using that [of v] Cons.prems(5) spec_run_nil by blast
    qed
  qed
  show ?case
  proof (cases "e_panicked w")
    case True
    then have "route_events E evs (route_event E ev a) = route_event E ev a"
      using sim_fields(12) [OF w(1)] by (cases evs) simp_all
    then show ?thesis using w np by (auto simp: refines_def)
  next
    case False
    have "refines E w [] (route_events E evs (route_event E ev a))"
    proof (rule Cons.IH)
      show "gate_ok w" using run_gate_ok [OF w(2) Cons.prems(2)] .
      show "e_claude w" using spec_run_open [OF w(2)] Cons.prems(4) by simp
    qed (use w False Cons.prems(6) in simp_all)
    then show ?thesis using refines_trans [OF w(2)] np by fastforce
  qed
qed

lemma quarantine_events_refines:
  assumes "sim a v" "\<not> e_panicked v" "e_claude v" "e_quarantine v"
  shows "refines E v [] (quarantine_events E evs a)"
  using assms(1)
proof (induction evs arbitrary: a)
  case Nil
  then show ?case by (simp add: refines_same)
next
  case (Cons ev evs)
  have "sim (bump_invalid a) v" using Cons.prems by (simp add: bump_invalid_def)
  moreover have "refines E v [] (lift_quarantine E a)"
  proof -
    have "sim (set_pending_slash None (a\<lparr>ac_quarantine_until_result := False,
        ac_quarantine_deadline := None, ac_interrupt_sent_for_quarantine := False,
        ac_quarantine_from_internal := False\<rparr>)) (v\<lparr>e_quarantine := False\<rparr>)"
      using sim_seen(2) [OF Cons.prems] by simp
    from sim_try_dispatch [OF this, of E] obtain oc where
      "sim (lift_quarantine E a) (sp_dispatch oc (v\<lparr>e_quarantine := False\<rparr>))" "allowed E v oc"
      by (auto simp: lift_quarantine_def allowed_def)
    then show ?thesis using assms(2-4) by (blast intro: refines_tau sp_lift)
  qed
  ultimately show ?case using Cons.IH Cons.prems by (cases ev) simp_all
qed

lemma sim_map_line:
  assumes "sim a v" "map_line E parsed a = (evs, a')"
  shows "sim a' v" and "\<forall>ev \<in> set evs. \<not> actor_event ev"
proof -
  obtain u a1 where u: "new_uuid E a = (u, a1)" by fastforce
  obtain ps es where m: "map_event (en_float E) u (ac_run_id a1) parsed (ac_protocol a1) = (ps, es)"
    by fastforce
  have a': "a' = a1\<lparr>ac_protocol := ps\<rparr>" "evs = es" using assms(2) by (simp_all add: map_line_def u m)
  show "sim a' v" using sim_uuid [OF assms(1), of E] u a' by simp
  have "run_ids_ok (ac_run_id a1) es" using map_event_effect [OF m] by simp
  then show "\<forall>ev \<in> set evs. \<not> actor_event ev" using a' by (simp add: run_ids_ok_def)
qed

lemma claude_line_refines:
  assumes "sim a v" "gate_ok v" "\<not> e_panicked v" "e_claude v"
  shows "refines E v [] (handle_claude_line E parsed a)"
proof -
  define a1 where "a1 = a\<lparr>ac_active_turn := fst (apply_activity_reset (now_of a)
      (ac_quarantine_until_result a) (ac_active_turn a))\<rparr>"
  from activity_step [OF assms(1-3), of E] obtain w where
    w: "sim a1 w" "spec_run (allowed E v) (driver_evs E) v [] w" "\<not> e_panicked w" "gate_ok w" "e_claude w"
    using assms(4) unfolding a1_def by auto
  obtain evs a2 where m: "map_line E parsed a1 = (evs, a2)" by fastforce
  note s2 = sim_map_line [OF w(1) m]
  have "refines E w [] (handle_claude_line E parsed a)"
    using sim_control_event [OF w(1)] route_events_refines [OF s2(1) w(4,3,5) _ s2(2)]
      quarantine_events_refines [OF s2(1) w(3,5)] sim_fields(9) [OF w(1)]
    by (simp add: handle_claude_line_def a1_def [symmetric] Let_def m refines_same)
  then show ?thesis using refines_trans [OF w(2)] by fastforce
qed


lemma sim_resolve_opt:
  "sim a v \<Longrightarrow> sim (case x of None \<Rightarrow> a | Some (rid, resp) \<Rightarrow> resolve_waiter rid resp a) v"
  by (auto intro: sim_resolve_waiter split: option.split)

lemma sim_thread_opt:
  "sim a v \<Longrightarrow> sim (case x of None \<Rightarrow> a | Some tid \<Rightarrow> persist_thread_id E tid a) v"
  by (auto simp: persist_thread_id_def intro: sim_store split: option.split)

lemma sim_interactive_opt:
  "sim a v \<Longrightarrow> sim (case x of None \<Rightarrow> a
     | Some q \<Rightarrow> set_pending_interactive (pi_request_id q) (codex_pending_subtype (pi_kind q)) [] a) v"
  by (auto intro: sim_set_pending split: option.split)

lemma open_gate_refines:
  assumes "sim a v" "\<not> e_panicked v" "\<not> e_claude v"
  shows "refines E v [] (codex_open_gate E a)"
proof (cases "\<not> ac_codex_ready a \<and> is_some_and (ac_codex a) (dr_is_ready (en_driver E))")
  case True
  from sim_try_dispatch [OF sim_seen(4) [OF assms(1), of True], of E] obtain oc where
    "sim (codex_open_gate E a) (sp_dispatch oc (v\<lparr>e_ready := True\<rparr>))" "allowed E v oc"
    using True by (auto simp: codex_open_gate_def allowed_def)
  then show ?thesis using assms(2,3) by (blast intro: refines_tau sp_codex_ready)
next
  case False
  then show ?thesis using assms(1) by (auto simp: codex_open_gate_def intro: refines_same)
qed

lemma emit_codex_refines:
  assumes "sim a v" "\<not> e_panicked v" "\<not> e_claude v" "\<forall>ev \<in> set evs. driver_evs E ev"
  shows "\<exists>w. sim (emit_codex_events evs a) w \<and> spec_run (allowed E v) (driver_evs E) v [] w \<and> \<not> e_panicked w"
  using assms
proof (induction evs arbitrary: a v)
  case Nil
  then show ?case using spec_run_nil by fastforce
next
  case (Cons ev evs)
  let ?a = "if event_invalid ev then a else persist_and_emit ev a"
  obtain w where w: "sim ?a w" "spec_run (allowed E v) (driver_evs E) v [] w" "\<not> e_panicked w"
  proof (cases "event_invalid ev \<or> \<not> loud_event ev")
    case True
    then have "sim ?a v" using Cons.prems(1) sim_persist by auto
    then show ?thesis using that [of v] Cons.prems(2) spec_run_nil by blast
  next
    case False
    let ?v = "sp_mark (Persisted ev) v"
    have s: "sim ?a ?v" using False sim_mark [OF Cons.prems(1)] by (simp add: persist_and_emit_def)
    have "spec_run (allowed E v) (driver_evs E) v [] ?v"
      using Cons.prems(2-4) by (intro spec_run_single(1) sp_codex_event) simp_all
    then show ?thesis using that [OF s] Cons.prems(2) by simp
  qed
  have o: "e_open w = e_open v \<and> e_claude w = e_claude v" using spec_run_open [OF w(2)] .
  then have "\<not> e_claude w" using Cons.prems(3) by simp
  moreover have "\<forall>ev \<in> set evs. driver_evs E ev" using Cons.prems(4) by simp
  ultimately obtain u where
    u: "sim (emit_codex_events evs ?a) u" "spec_run (allowed E w) (driver_evs E) w [] u" "\<not> e_panicked u"
    using Cons.IH [OF w(1,3)] by blast
  have "allowed E w = allowed E v" using o by (intro allowed_cong) simp
  with u w(2) have "spec_run (allowed E v) (driver_evs E) v [] u" using spec_run_trans [of _ _ v "[]" w "[]" u] by simp
  with u show ?case by auto
qed

lemma idle_running_eq:
  "sim a v \<Longrightarrow> sim (persist_idle_running E Idle (emit_state E ''idle'' x er True a)) (sp_state ''idle'' x er v)"
  by (intro sim_idle_running sim_state)

lemma lifecycle_refines:
  assumes "sim a v" "\<not> e_panicked v" "\<not> e_claude v"
  shows "refines E v [] (codex_lifecycle E sig a)"
proof -
  have st: "spec_run (allowed E v) (driver_evs E) v [] (sp_state s x er v)" for s x er
    using assms(2,3) by (intro spec_run_single(1) sp_new_state) simp_all
  have "refines E v [] (end_turn_and_dispatch E
      (persist_idle_running E Idle (emit_state E ''idle'' x er True a)))" for x er
  proof -
    have "refines E (sp_state ''idle'' x er v) [] (end_turn_and_dispatch E
        (persist_idle_running E Idle (emit_state E ''idle'' x er True a)))"
      using assms by (intro sim_end_turn idle_running_eq) simp_all
    with refines_trans [OF st] show ?thesis by fastforce
  qed
  moreover have "refines E v [] (emit_state E ''running'' None None False a)"
    using sim_state [OF assms(1), of E "''running''"] st unfolding refines_def by blast
  ultimately show ?thesis by (cases sig) (simp_all add: codex_lifecycle_def)
qed

lemma refines_bind:
  assumes "\<exists>w. sim b w \<and> spec_run (allowed E v) (driver_evs E) v [] w \<and> \<not> e_panicked w" "\<not> e_claude v"
    and "\<And>w. sim b w \<Longrightarrow> \<not> e_panicked w \<Longrightarrow> \<not> e_claude w \<Longrightarrow> refines E w [] c"
  shows "refines E v [] c"
proof -
  from assms(1) obtain w where w: "sim b w" "spec_run (allowed E v) (driver_evs E) v [] w" "\<not> e_panicked w" by blast
  have "\<not> e_claude w" using spec_run_open [OF w(2)] assms(2) by simp
  from refines_trans [OF w(2) assms(3) [OF w(1,3) this]] show ?thesis by simp
qed

lemma codex_line_refines:
  assumes "sim a v" "gate_ok v" "\<not> e_panicked v" "\<not> e_claude v"
  shows "refines E v [] (handle_codex_line E c tx a)"
proof -
  define a1 where "a1 = a\<lparr>ac_active_turn := fst (apply_activity_reset (now_of a)
      (ac_quarantine_until_result a) (ac_active_turn a))\<rparr>"
  obtain p c' where p: "dr_parse_line (en_driver E) (ac_run_id a1) tx c = (p, c')" by fastforce
  define a3 where "a3 = (case pl_control_response p of None \<Rightarrow> a1\<lparr>ac_codex := Some c'\<rparr>
      | Some (rid, resp) \<Rightarrow> resolve_waiter rid resp (a1\<lparr>ac_codex := Some c'\<rparr>))"
  define a4 where "a4 = (case pl_thread_id p of None \<Rightarrow> a3 | Some tid \<Rightarrow> persist_thread_id E tid a3)"
  define a5 where "a5 = codex_open_gate E a4"
  define a6 where "a6 = emit_codex_events (pl_events p) a5"
  define a7 where "a7 = (case pl_interactive p of None \<Rightarrow> a6
      | Some q \<Rightarrow> set_pending_interactive (pi_request_id q) (codex_pending_subtype (pi_kind q)) [] a6)"
  have eq: "handle_codex_line E c tx a = (if ac_panicked a5 then a5
      else (case pl_lifecycle p of None \<Rightarrow> a7 | Some sig \<Rightarrow> codex_lifecycle E sig a7))"
    unfolding handle_codex_line_def a1_def [symmetric] Let_def p prod.case
      a3_def [symmetric] a4_def [symmetric] a5_def [symmetric] a6_def [symmetric] a7_def [symmetric] ..
  have "\<exists>w. sim a4 w \<and> spec_run (allowed E v) (driver_evs E) v [] w \<and> \<not> e_panicked w"
    using activity_step [OF assms(1-3), of E] assms(4) unfolding a4_def a3_def a1_def
    by (metis sim_codex sim_resolve_opt sim_thread_opt)
  then have "refines E v [] a5"
    using assms(4) by (rule refines_bind) (simp add: a5_def open_gate_refines)
  then obtain w where w: "sim a5 w" "spec_run (allowed E v) (driver_evs E) v [] w" by (auto simp: refines_def)
  show ?thesis
  proof (cases "e_panicked w")
    case True
    then have "handle_codex_line E c tx a = a5" using eq sim_fields(12) [OF w(1)] by simp
    then show ?thesis using w by (auto simp: refines_def)
  next
    case False
    have cl: "\<not> e_claude w" using spec_run_open [OF w(2)] assms(4) by simp
    have "\<forall>ev \<in> set (pl_events p). driver_evs E ev" unfolding driver_evs_def using p by (metis fst_conv)
    from emit_codex_refines [OF w(1) False cl this]
    have "\<exists>u. sim a7 u \<and> spec_run (allowed E w) (driver_evs E) w [] u \<and> \<not> e_panicked u"
      unfolding a7_def a6_def by (metis sim_interactive_opt)
    then have "refines E w [] (case pl_lifecycle p of None \<Rightarrow> a7 | Some sig \<Rightarrow> codex_lifecycle E sig a7)"
      using cl
      by (rule refines_bind) (simp add: lifecycle_refines refines_same split: option.split)
    then have "refines E w [] (handle_codex_line E c tx a)"
      using eq sim_fields(12) [OF w(1)] False by simp
    from refines_trans [OF w(2) this] show ?thesis by simp
  qed
qed

lemma stdout_refines:
  assumes "sim a v" "gate_ok v" "\<not> e_panicked v"
  shows "refines E v [] (handle_stdout_line E line a)"
proof -
  have u: "refines E v [] (unparsed_line tx a)" for tx
  proof -
    have "sim (a\<lparr>ac_json_parse_fail_count := n\<rparr>) v" for n using assms(1) by simp
    then have "sim (unparsed_line tx a) v"
      by (auto simp: unparsed_line_def Let_def loud_event_iff intro!: sim_persist)
    then show ?thesis by (rule refines_same)
  qed
  show ?thesis
    using u refines_same [OF assms(1), of E] codex_line_refines [OF assms] claude_line_refines [OF assms] sim_fields(2) [OF assms(1)]
    by (auto simp: handle_stdout_line_def Let_def split: option.split)
qed

lemma sim_stderr:
  assumes "sim a v"
  shows "sim (handle_stderr_line line a) v"
  using assms by (auto simp: handle_stderr_line_def Let_def loud_event_iff intro: sim_persist)

section \<open>The end of the session\<close>

lemma eof_closes:
  assumes "sim a v"
  shows "\<exists>w. sim (handle_eof E a) w \<and> spec_close v w"
proof -
  define a1 where "a1 = (fail_all_pending_replies ''Session ended'' a)
      \<lparr>ac_active_turn := None, ac_active_extractor := None, ac_quarantine_until_result := False\<rparr>"
  let ?v = "(sp_fail_all ''Session ended'' v)\<lparr>e_turn := None, e_quarantine := False\<rparr>"
  have s1: "sim a1 ?v"
    using sim_fail_all [OF assms, of "''Session ended''"] unfolding a1_def
    by (auto simp: sim_def no_internal_def)
  have c: "spec_close v ?v" by (intro close_end close_fail close_refl)
  have "sim (finalize_meta E x a1) ?v" for x
    using s1 unfolding finalize_meta_def by (rule sim_store)
  moreover have "sim (emit_state E s x er True a1) (sp_state s x er ?v)" for s x er
    using s1 by (rule sim_state)
  ultimately show ?thesis
    unfolding handle_eof_def Let_def a1_def [symmetric]
    using c close_state [OF c] by (cases "ps_got_result_event (ac_protocol a1)") (simp_all, blast+)
qed

lemma sim_drop_waiters: "sim a v \<Longrightarrow> sim (drop_waiters ns a) v"
  by (induction ns arbitrary: a) (simp_all add: sim_fx_quiet)

lemma sim_cleanup:
  assumes "sim a v"
  shows "sim (cleanup a) (sp_fail_all ''Session cleanup'' (v\<lparr>e_open := False\<rparr>))"
proof -
  let ?v = "sp_fail_all ''Session cleanup'' (v\<lparr>e_open := False\<rparr>)"
  have rs: "sim (remove_session b) ?v" if "sim b ?v" for b :: "'a SessionActor"
  proof (rule sim_quiet [OF that])
    show "quiet b (remove_session b)"
      by (auto simp: remove_session_def quiet_def quiet_w_def intro!: exI)
  qed
  define a1 where "a1 = fail_all_pending_replies ''Session cleanup'' (a\<lparr>ac_stdin := False\<rparr>)"
  have s1: "sim a1 ?v" unfolding a1_def by (intro sim_fail_all sim_seen(5) assms)
  let ?a3 = "remove_session (drop_waiters (map snd (ac_control_waiters a1)) (a1\<lparr>ac_control_waiters := []\<rparr>))"
  have s3: "sim ?a3 ?v" by (intro rs sim_drop_waiters) (simp add: s1)
  have "sim (emit_fx Shutdown (?a3\<lparr>ac_shutdown_tx := False\<rparr>)) ?v"
    by (rule sim_fx_quiet) (simp_all add: s3)
  with s3 show ?thesis unfolding cleanup_def a1_def [symmetric] Let_def by simp
qed

lemma sim_stop: "sim a v \<Longrightarrow> sim (handle_stop a) (v\<lparr>e_open := False\<rparr>)"
  using sim_seen(5) [of a v False] by (auto simp: handle_stop_def Let_def intro: sim_fx_quiet)


section \<open>The loop and the executions of the task\<close>

definition accepted :: "label \<Rightarrow> nat list" where
  "accepted l = (case l of LInput i \<Rightarrow> (case i of InSend n tx atts sk \<Rightarrow> [n] | _ \<Rightarrow> []) | _ \<Rightarrow> [])"

lemma sim_reply_with: "sim (snd p) v \<Longrightarrow> sim (reply_with n p) v"
  by (auto simp: reply_with_def intro: sim_fx_quiet split: prod.split)

lemma ralph_start_refines:
  assumes "sim a v" "\<not> e_panicked v"
  shows "refines E v [] (start_ralph_loop E n p m c a)"
proof (cases "e_ralph v")
  case (Some r)
  have "sim (emit_fx (Reply n (Inl ''Ralph loop already active'')) a) v"
    using assms(1) by (rule sim_fx_quiet) simp
  then show ?thesis using Some sim_fields(11) [OF assms(1)]
    by (simp add: start_ralph_loop_def refines_same)
next
  case None
  let ?r = "sp_ralph_loop p m c (w_iso (ac_w a))"
  let ?v = "sp_mark (Persisted (RalphStarted (e_run_id v) p m c (w_iso (ac_w a)))) (v\<lparr>e_ralph := Some ?r\<rparr>)"
  let ?a1 = "persist_and_emit (RalphStarted (ac_run_id a) p m c (w_iso (ac_w a))) (a\<lparr>ac_ralph_loop := Some ?r\<rparr>)"
  have "sim ?a1 ?v"
    unfolding persist_and_emit_def sim_fields(1) [OF assms(1)]
    by (intro sim_mark sim_ralph assms) simp
  then have "sim (emit_fx (Reply n (Inr ())) ?a1) ?v" by (rule sim_fx_quiet) simp
  moreover have "start_ralph_loop E n p m c a = try_dispatch E (emit_fx (Reply n (Inr ())) ?a1)"
    using None sim_fields(11) [OF assms(1)] by (simp add: start_ralph_loop_def Let_def sp_ralph_loop_def)
  ultimately obtain oc where "sim (start_ralph_loop E n p m c a) (sp_dispatch oc ?v)" "allowed E v oc"
    using sim_try_dispatch by (fastforce simp: allowed_def sp_mark_def)
  then show ?thesis using assms(2) None by (blast intro: refines_tau sp_ralph_start)
qed

lemma ralph_cancel_refines:
  assumes "sim a v" "\<not> e_panicked v"
  shows "refines E v [] (cancel_ralph_loop n a)"
proof (cases "e_ralph v")
  case None
  have "sim (emit_fx (ReplyRalph n (Inl ''No active ralph loop'')) a) v"
    using assms(1) by (rule sim_fx_quiet) simp
  then show ?thesis using None sim_fields(11) [OF assms(1)]
    by (simp add: cancel_ralph_loop_def refines_same)
next
  case (Some r)
  note f = sim_fields [OF assms(1)]
  show ?thesis
  proof (cases "is_ralph_turn a")
    case True
    then obtain t where t: "e_turn v = Some t" "at_origin t = ORalph"
      using f(5) by (auto simp: is_ralph_turn_def is_some_and_def split: option.splits)
    have "sim (emit_fx (ReplyRalph n (Inr (rl_iteration r, False)))
        (a\<lparr>ac_ralph_loop := Some (r\<lparr>rl_phase := CancelPending\<rparr>)\<rparr>))
      (v\<lparr>e_ralph := Some (r\<lparr>rl_phase := CancelPending\<rparr>)\<rparr>)"
      by (intro sim_fx_quiet sim_ralph assms) simp
    then have "sim (cancel_ralph_loop n a) (v\<lparr>e_ralph := Some (r\<lparr>rl_phase := CancelPending\<rparr>)\<rparr>)"
      using True Some f(11) by (simp add: cancel_ralph_loop_def)
    moreover have "spec_step (allowed E v) (driver_evs E) v Tau (v\<lparr>e_ralph := Some (r\<lparr>rl_phase := CancelPending\<rparr>)\<rparr>)"
      using Some t by (rule sp_ralph_cancel_pending)
    ultimately show ?thesis using assms(2) by (blast intro: refines_tau)
  next
    case False
    have "sim (emit_fx (ReplyRalph n (Inr (rl_iteration r, True))) a) v"
      using assms(1) by (rule sim_fx_quiet) simp
    then have "sim (cancel_ralph_loop n a) (sp_ralph_complete Cancelled v)"
      using False Some f(11) sim_ralph_complete by (simp add: cancel_ralph_loop_def)
    moreover have "spec_step (allowed E v) (driver_evs E) v Tau (sp_ralph_complete Cancelled v)"
      using Some False f(5) by (intro sp_ralph_cancel) (simp_all add: is_ralph_turn_def)
    ultimately show ?thesis using assms(2) by (blast intro: refines_tau)
  qed
qed

lemma step_refines:
  assumes "sim a v" "gate_ok v" "\<not> e_panicked v" "run_step E i a = (b, brk)"
  shows "if brk then accepted (LInput i) = [] \<and> (\<exists>w. sim b w \<and> spec_close v w)
    else refines E v (accepted (LInput i)) b"
proof (cases i)
  case (InSend n tx atts sk)
  then show ?thesis using assms sim_send [OF assms(1,3)] by (auto simp: run_step_def accepted_def)
next
  case (InStop n)
  have "sim (emit_fx (Reply n (Inr ())) (handle_stop a)) (v\<lparr>e_open := False\<rparr>)"
    by (intro sim_fx_quiet sim_stop assms) simp
  moreover have "spec_close v (v\<lparr>e_open := False\<rparr>)" by (intro close_stdin close_refl)
  ultimately show ?thesis using InStop assms(4) by (auto simp: run_step_def accepted_def)
next
  case (InControl n req)
  obtain r c where c: "handle_send_control_async E n req a = (r, c)" by fastforce
  then have "sim c v" using sim_send_control [OF assms(1), of E n req] by simp
  then have "sim (emit_fx (ReplyControl n r) c) v" by (rule sim_fx_quiet) simp
  then show ?thesis using InControl assms(4) c by (auto simp: run_step_def accepted_def refines_same)
next
  case (InPermission n rid r)
  have "sim (reply_with n (handle_respond_permission E rid r a)) v"
    unfolding handle_respond_permission_def
    by (intro sim_reply_with sim_interactive_response sim_clear_pending assms)
  then show ?thesis using InPermission assms(4) by (auto simp: run_step_def accepted_def refines_same)
next
  case (InCancelControl n rid)
  have "sim (reply_with n (handle_cancel_control_request E rid (clear_pending_interactive_request rid a))) v"
    unfolding handle_cancel_control_request_def
    by (intro sim_reply_with sim_write sim_clear_pending assms)
  then show ?thesis using InCancelControl assms(4) by (auto simp: run_step_def accepted_def refines_same)
next
  case (InHook n rid r)
  have "sim (reply_with n (write_control_response E rid r (clear_pending_interactive_request rid a))) v"
    by (intro sim_reply_with sim_write sim_clear_pending assms)
  then show ?thesis using InHook assms(4) by (auto simp: run_step_def accepted_def refines_same)
next
  case (InElicitation n rid r)
  have "sim (reply_with n (write_interactive_response E KElicitation rid r
      (clear_pending_interactive_request rid a))) v"
    by (intro sim_reply_with sim_interactive_response sim_clear_pending assms)
  then show ?thesis using InElicitation assms(4) by (auto simp: run_step_def accepted_def refines_same)
next
  case (InUserInput n rid r)
  have "sim (reply_with n (write_interactive_response E KUserInput rid r
      (clear_pending_interactive_request rid a))) v"
    by (intro sim_reply_with sim_interactive_response sim_clear_pending assms)
  then show ?thesis using InUserInput assms(4) by (auto simp: run_step_def accepted_def refines_same)
next
  case (InStartRalph n p m c)
  then show ?thesis using assms ralph_start_refines [OF assms(1,3)]
    by (auto simp: run_step_def accepted_def)
next
  case (InCancelRalph n)
  then show ?thesis using assms ralph_cancel_refines [OF assms(1,3)]
    by (auto simp: run_step_def accepted_def)
next
  case InClosed
  then show ?thesis using assms(1,4) close_refl by (auto simp: run_step_def accepted_def)
next
  case (InLine line)
  then show ?thesis using assms stdout_refines [OF assms(1-3)] by (auto simp: run_step_def accepted_def)
next
  case InEof
  then show ?thesis using assms(4) eof_closes [OF assms(1), of E] by (auto simp: run_step_def accepted_def)
next
  case (InErrLine line)
  then show ?thesis using assms(4) sim_stderr [OF assms(1)]
    by (auto simp: run_step_def accepted_def refines_same)
next
  case InTick
  then show ?thesis using assms sim_handle_tick [OF assms(1-3)] by (auto simp: run_step_def accepted_def)
next
  case InCancelled
  have "spec_close v (v\<lparr>e_open := False\<rparr>)" by (intro close_stdin close_refl)
  then show ?thesis using InCancelled assms(4) sim_stop [OF assms(1)]
    by (auto simp: run_step_def accepted_def)
qed

text \<open>What holds of a task after an execution from an engine state \<open>v0\<close>.\<close>

definition task_refines :: "'c env \<Rightarrow> engine \<Rightarrow> nat list \<Rightarrow> 'c task \<Rightarrow> bool" where
  "task_refines E v0 ns t \<longleftrightarrow>
     (case t of
        Looping a \<Rightarrow> (\<exists>v. sim a v \<and> spec_run (allowed E v0) (driver_evs E) v0 ns v \<and> \<not> e_panicked v)
      | Ended a \<Rightarrow>
          (\<exists>v w. spec_run (allowed E v0) (driver_evs E) v0 ns v \<and> \<not> e_panicked v \<and> spec_close v w
             \<and> sim a (sp_fail_all ''Session cleanup'' (w\<lparr>e_open := False\<rparr>)))
      | Aborted a \<Rightarrow> ac_panicked a)"

lemma task_step_refines:
  assumes "task_step E t l t'" "task_refines E v0 ns t" "gate_ok v0"
  shows "task_refines E v0 (ns @ accepted l) t'"
  using assms(1,2)
proof (induction rule: task_step.induct)
  case (step_input a now E i ts)
  then obtain v where v: "sim a v" "spec_run (allowed E v0) (driver_evs E) v0 ns v" "\<not> e_panicked v"
    by (auto simp: task_refines_def)
  let ?a = "at_time now ts a" and ?v = "v\<lparr>e_now := now\<rparr>"
  have "eng ?a = (eng a)\<lparr>e_now := now\<rparr>" by (simp add: at_time_def eng_def del: eng_seen)
  then have "eng ?a = ?v" using v(1) by (simp add: sim_def)
  then have s: "sim ?a ?v" using v(1) by (simp add: at_time_def sim_def)
  have le: "e_now v \<le> now" using step_input(2) v(1) by (auto simp: sim_def)
  have r: "spec_run (allowed E v0) (driver_evs E) v0 ns ?v" using v(2,3) sp_time [OF le] by (rule spec_run_tau)
  have g: "gate_ok ?v" using run_gate_ok [OF r assms(3)] .
  have al: "allowed E ?v = allowed E v0" using spec_run_open [OF r] by (intro allowed_cong) simp
  obtain b brk where b: "run_step E i ?a = (b, brk)" by fastforce
  note st = step_refines [OF s g _ b]
  show ?case
  proof (cases "ac_panicked b")
    case True
    then show ?thesis by (simp add: after_step_def b task_refines_def)
  next
    case False
    show ?thesis
    proof (cases brk)
      case T: True
      with st v(3) obtain w where w: "accepted (LInput i) = []" "sim b w" "spec_close ?v w" by auto
      from sim_cleanup [OF w(2)] w r v(3) show ?thesis
        using T False by (auto simp: after_step_def b task_refines_def)
    next
      case N: False
      with st v(3) obtain w where w: "sim b w" "spec_run (allowed E v0) (driver_evs E) ?v (accepted (LInput i)) w"
        unfolding al [symmetric] by (auto simp: refines_def)
      have "\<not> e_panicked w" using False sim_fields(12) [OF w(1)] by simp
      with spec_run_trans [OF r w(2)] w(1) show ?thesis
        using N False by (auto simp: after_step_def b task_refines_def)
    qed
  qed
next
  case (step_terminate a E)
  then obtain v where v: "sim a v" "spec_run (allowed E v0) (driver_evs E) v0 ns v" "\<not> e_panicked v"
    by (auto simp: task_refines_def)
  from sim_cleanup [OF v(1)] v close_refl show ?case
    by (auto simp: task_refines_def accepted_def)
next
  case (step_cancel E a)
  then show ?case by (auto simp: task_refines_def accepted_def)
next
  case (step_store E a st)
  have "quiet a (a\<lparr>ac_w := (ac_w a)\<lparr>w_store := st\<rparr>\<rparr>)"
    by (auto simp: quiet_def quiet_w_def intro!: exI)
  with step_store show ?case by (auto simp: task_refines_def accepted_def intro: sim_quiet)
next
  case (step_sessions E a ss)
  have "quiet a (a\<lparr>ac_w := (ac_w a)\<lparr>w_sessions := ss\<rparr>\<rparr>)"
    by (auto simp: quiet_def quiet_w_def intro!: exI)
  with step_sessions show ?case by (auto simp: task_refines_def accepted_def intro: sim_quiet)
qed

lemma sim_start:
  assumes "sim a v"
  shows "sim (run_start E a) v"
proof -
  have "sim (write_startup E ms b) v" if "sim b v" for ms b
    using that by (induction ms arbitrary: b) (simp_all add: sim_write)
  then show ?thesis using assms by (simp add: run_start_def)
qed

lemma executes_refines:
  assumes "executes E a0 ls t" "sim a0 v0" "gate_ok v0" "\<not> e_panicked v0"
  shows "task_refines E v0 (concat (map accepted ls)) t"
  using assms(1)
proof (induction rule: executes.induct)
  case exec_start
  then show ?case using sim_start [OF assms(2), of E] spec_run_nil assms(4)
    by (auto simp: task_refines_def)
next
  case (exec_step ls t l t')
  from task_step_refines [OF exec_step(2,3) assms(3)] show ?case by simp
qed

end
