(* ===== verification/CodexItems.thy ===== *)
theory CodexItems
  imports ActorState "HOL-Library.AList"
begin

text \<open>
  The events of the Codex app server (\<open>agent/codex_appserver.rs\<close>, from \<open>approval_prompt\<close> on) and
  the classification of Codex items that both Codex transports share (\<open>agent/codex_parser.rs\<close>):
  pure functions from JSON to bus events.
\<close>

section \<open>Classification of items\<close>

datatype CodexToolKind = CkCommand | CkFileChange | CkWebSearch | CkMcpToolCall | CkCollabToolCall

definition from_item_type :: "string \<Rightarrow> CodexToolKind option" where
  "from_item_type t =
     (if t = ''command_execution'' \<or> t = ''commandExecution'' then Some CkCommand
      else if t = ''file_change'' \<or> t = ''fileChange'' then Some CkFileChange
      else if t = ''web_search'' \<or> t = ''webSearch'' then Some CkWebSearch
      else if t = ''mcp_tool_call'' \<or> t = ''mcpToolCall'' then Some CkMcpToolCall
      else if t = ''collab_tool_call'' \<or> t = ''collabToolCall'' then Some CkCollabToolCall
      else None)"

fun fixed_tool_name :: "CodexToolKind \<Rightarrow> string option" where
  "fixed_tool_name CkCommand = Some ''Bash''"
| "fixed_tool_name CkFileChange = Some ''Edit''"
| "fixed_tool_name CkWebSearch = Some ''WebSearch''"
| "fixed_tool_name CkCollabToolCall = Some ''Agent''"
| "fixed_tool_name CkMcpToolCall = None"

definition codex_normalize_status :: "string \<Rightarrow> string" where
  "codex_normalize_status raw =
     (if raw = ''failed'' \<or> raw = ''declined'' then ''error'' else ''success'')"

text \<open>
  \<open>extract_codex_delta\<close>: the text of an item, else the direct delta, else the output text, else
  the nested data.  The first branch falls through when it yields nothing to return.
\<close>

definition item_completed_delta :: "json \<Rightarrow> string option option" where
  "item_completed_delta payload =
     (case j_get payload ''item'' of
        None \<Rightarrow> None
      | Some item \<Rightarrow>
          (let item_type = str_field item ''type'' in
           if item_type = ''agent_message'' then Some (get_str item ''text'')
           else if item_type = ''command_execution'' then
             (let cmd = str_field item ''command'';
                  output = unwrap_or (Option.bind
                    (or_else (j_get item ''aggregated_output'') (j_get item ''output'')) as_str) []
              in if cmd \<noteq> [] then Some (Some (''$ '' @ cmd @ [CHR 0x0A] @ output)) else None)
           else None))"

definition nested_delta :: "string \<Rightarrow> json \<Rightarrow> string option" where
  "nested_delta type_str data =
     or_else (get_str data ''delta'')
       (or_else (if str_contains type_str ''delta'' then get_str data ''text'' else None)
          (opt_filter (\<lambda>t. t \<noteq> []) (get_str data ''output_text'')))"

definition extract_codex_delta :: "json \<Rightarrow> string option" where
  "extract_codex_delta payload =
     (let type_str = str_field payload ''type'' in
      case (if type_str = ''item.completed'' then item_completed_delta payload else None) of
        Some r \<Rightarrow> r
      | None \<Rightarrow>
          or_else
            (if str_contains type_str ''delta''
             then or_else (get_str payload ''delta'') (get_str payload ''text'') else None)
            (or_else (opt_filter (\<lambda>t. t \<noteq> []) (get_str payload ''output_text''))
               (Option.bind (j_get payload ''data'') (nested_delta type_str))))"

section \<open>Requests of the server\<close>

text \<open>An optional field of a JSON map.\<close>

definition opt_field :: "string \<Rightarrow> json option \<Rightarrow> (string \<times> json) list" where
  "opt_field k v = (case v of None \<Rightarrow> [] | Some j \<Rightarrow> [(k, j)])"

definition approval_prompt :: "string \<Rightarrow> string \<Rightarrow> string \<Rightarrow> json \<Rightarrow> BusEvent" where
  "approval_prompt run_id request_id tool_name params =
     PermissionPrompt run_id request_id tool_name
       (unwrap_or (get_str params ''itemId'') request_id)
       (JObj (opt_field ''command'' (map_option JStr (get_str params ''command''))
              @ opt_field ''cwd'' (j_get params ''cwd'')
              @ opt_field ''changes'' (j_get params ''changes'')))
       (str_field params ''reason'') None []"

definition question_option :: "json \<Rightarrow> json" where
  "question_option v =
     JObj [(''label'', JStr (str_field v ''label'')),
           (''description'', JStr (str_field v ''description''))]"

definition question_json :: "json \<Rightarrow> json" where
  "question_json q =
     JObj [(''id'', JStr (str_field q ''id'')), (''header'', JStr (str_field q ''header'')),
           (''question'', JStr (str_field q ''question'')),
           (''options'', JArr (map question_option (unwrap_or (get_array q ''options'') []))),
           (''multiSelect'', JBool False)]"

definition ask_user_question_events :: "string \<Rightarrow> string \<Rightarrow> json \<Rightarrow> BusEvent list" where
  "ask_user_question_events run_id request_id params =
     (let input = JObj [(''questions'',
            JArr (map question_json (unwrap_or (get_array params ''questions'') [])))]
      in [ToolStart run_id request_id ''AskUserQuestion'' input None,
          ToolEnd run_id request_id ''AskUserQuestion'' input ''error'' None None None])"

definition elicitation_prompt :: "string \<Rightarrow> string \<Rightarrow> json \<Rightarrow> BusEvent" where
  "elicitation_prompt run_id request_id params =
     ElicitationPrompt run_id request_id (str_field params ''serverName'')
       (str_field params ''message'') (get_str params ''elicitationId'') (get_str params ''mode'')
       (get_str params ''url'') (j_get params ''requestedSchema'')"

section \<open>Items\<close>

definition item_tool_name :: "json \<Rightarrow> string option" where
  "item_tool_name item =
     Option.bind (get_str item ''type'')
       (\<lambda>t. Option.bind (from_item_type t)
          (\<lambda>kind. case kind of
             CkMcpToolCall \<Rightarrow>
               Some (unwrap_or (get_str item ''server'') ''mcp'' @ '':''
                     @ unwrap_or (get_str item ''tool'') ''tool'')
           | CkCollabToolCall \<Rightarrow> None
           | _ \<Rightarrow> fixed_tool_name kind))"

text \<open>The entries of an object in the order of its \<open>BTreeMap\<close>.\<close>

definition obj_entries :: "(string \<times> json) list \<Rightarrow> (string \<times> json) list" where
  "obj_entries kvs = sort_key fst (AList.clearjunk kvs)"

definition collab_agent :: "string \<times> json \<Rightarrow> json" where
  "collab_agent e =
     (case e of (tid, st) \<Rightarrow>
        JObj [(''thread_id'', JStr tid), (''status'', opt_json (get_str st ''status'')),
              (''message'', opt_json (get_str st ''message''))])"

definition collab_input :: "json \<Rightarrow> json" where
  "collab_input item =
     JObj [(''codexCollab'', JBool True),
           (''operation'', JStr (unwrap_or (get_str item ''tool'') ''collab'')),
           (''prompt'', JStr (str_field item ''prompt'')),
           (''model'', opt_json (get_str item ''model'')),
           (''reasoningEffort'', opt_json (get_str item ''reasoningEffort'')),
           (''status'', opt_json (get_str item ''status'')),
           (''receiverThreadIds'', unwrap_or (j_get item ''receiverThreadIds'') (JArr [])),
           (''agents'', JArr (case Option.bind (j_get item ''agentsStates'') as_object of
                                None \<Rightarrow> [] | Some m \<Rightarrow> map collab_agent (obj_entries m)))]"
definition item_started_event :: "string \<Rightarrow> json \<Rightarrow> BusEvent option" where
  "item_started_event run_id item =
     (let i = str_field item ''id'' in
      if get_str item ''type'' = Some ''collabAgentToolCall''
      then Some (ToolStart run_id i ''Agent'' (collab_input item) None)
      else
        map_option
          (\<lambda>tool_name. ToolStart run_id i tool_name
             (JObj (opt_field ''command'' (map_option JStr (get_str item ''command'')))) None)
          (item_tool_name item))"

definition item_output :: "json \<Rightarrow> json" where
  "item_output item =
     unwrap_or (or_else (j_get item ''aggregatedOutput'')
       (or_else (j_get item ''aggregated_output'')
          (or_else (j_get item ''output'') (j_get item ''changes'')))) JNull"

definition item_completed_events :: "string \<Rightarrow> json \<Rightarrow> BusEvent list" where
  "item_completed_events run_id item =
     (let item_type = str_field item ''type''; i = str_field item ''id'' in
      if item_type = ''agentMessage'' then
        [MessageComplete run_id i (str_field item ''text'') None None None None]
      else if item_type = ''userMessage'' \<or> item_type = ''reasoning'' then []
      else if item_type = ''contextCompaction'' then
        [CommandOutput run_id ''[notice] context compacted'']
      else if item_type = ''collabAgentToolCall'' then
        (let status = (if get_str item ''status'' = Some ''failed'' then ''error'' else ''success'');
             payload = collab_input item
         in [ToolEnd run_id i ''Agent'' (JObj [(''content'', payload)]) status None None
               (Some payload)])
      else
        (case item_tool_name item of
           None \<Rightarrow> []
         | Some tool_name \<Rightarrow>
             [ToolEnd run_id i tool_name (JObj [(''content'', item_output item)])
                (codex_normalize_status (str_field item ''status'')) None None None]))"

section \<open>Usage, hooks, reviews, plans and limits\<close>

definition token_usage_event :: "float_ops \<Rightarrow> string \<Rightarrow> json \<Rightarrow> BusEvent option" where
  "token_usage_event F run_id params =
     map_option
       (\<lambda>total. UsageUpdate run_id
          \<lparr> uu_input_tokens = unwrap_or (get_u64 total ''inputTokens'') 0,
            uu_output_tokens = unwrap_or (get_u64 total ''outputTokens'') 0,
            uu_cache_read_tokens = get_u64 total ''cachedInputTokens'',
            uu_cache_write_tokens = None, uu_total_cost_usd = f_of_rat F 0,
            uu_turn_index = None, uu_model_usage = None, uu_duration_api_ms = None,
            uu_duration_ms = None, uu_num_turns = None, uu_stop_reason = None,
            uu_service_tier = None, uu_speed = None, uu_web_fetch_requests = None,
            uu_cache_creation_5m = None, uu_cache_creation_1h = None \<rparr>)
       (Option.bind (j_get params ''tokenUsage'') (\<lambda>t. j_get t ''total''))"

definition hook_run_event :: "string \<Rightarrow> string \<Rightarrow> json \<Rightarrow> BusEvent option" where
  "hook_run_event run_id method params =
     Option.bind (j_get params ''run'')
       (\<lambda>run. map_option
          (\<lambda>hook_id. CodexHookRun run_id hook_id (str_field run ''eventName'')
             (if method = ''hook/started'' then ''running''
              else unwrap_or (get_str run ''status'') ''completed'')
             (get_str run ''statusMessage'') (get_u64 run ''durationMs''))
          (get_str run ''id''))"

text \<open>An em dash and an arrow in UTF-8, and a backquoted word.\<close>

definition EM_DASH :: string where "EM_DASH = [CHR 0xE2, CHR 0x80, CHR 0x94]"

definition ARROW :: string where "ARROW = [CHR 0xE2, CHR 0x86, CHR 0x92]"

definition quoted :: "string \<Rightarrow> string" where
  "quoted s = [CHR 0x60] @ s @ [CHR 0x60]"

definition guardian_what :: "json option \<Rightarrow> string" where
  "guardian_what action =
     (case Option.bind action (\<lambda>a. get_str a ''type'') of
        None \<Rightarrow> ''action''
      | Some t \<Rightarrow>
          if t = ''command'' \<or> t = ''execve'' then
            ''command '' @ quoted (unwrap_or (Option.bind
              (Option.bind action (\<lambda>a. or_else (j_get a ''command'') (j_get a ''program''))) as_str)
              ''command'')
          else if t = ''applyPatch'' then ''file edit''
          else if t = ''mcpToolCall'' then
            ''MCP tool ''
              @ quoted (unwrap_or (Option.bind action (\<lambda>a. get_str a ''toolName'')) ''tool'')
          else if t = ''networkAccess'' then
            ''network access to ''
              @ unwrap_or (Option.bind action (\<lambda>a. get_str a ''host'')) ''network''
          else t)"

definition guardian_notice :: "json \<Rightarrow> string" where
  "guardian_notice params =
     (let what = guardian_what (j_get params ''action'');
          review = j_get params ''review'';
          head = (case Option.bind review (\<lambda>r. get_str r ''status'') of
                    Some s \<Rightarrow> ''[guardian] auto-review '' @ s @ '': '' @ what
                  | None \<Rightarrow> ''[guardian] auto-review: '' @ what)
      in case opt_filter (\<lambda>s. s \<noteq> []) (Option.bind review (\<lambda>r. get_str r ''rationale'')) of
           Some r \<Rightarrow> head @ '' '' @ EM_DASH @ '' '' @ r
         | None \<Rightarrow> head)"

definition plan_step :: "json \<Rightarrow> json" where
  "plan_step step =
     (let content = str_field step ''step'';
          st = get_str step ''status'';
          status = (if st = Some ''inProgress'' then ''in_progress''
                    else if st = Some ''completed'' then ''completed'' else ''pending'')
      in JObj [(''content'', JStr content), (''status'', JStr status), (''activeForm'', JStr content)])"

definition plan_updated_events :: "string \<Rightarrow> json \<Rightarrow> BusEvent list" where
  "plan_updated_events run_id params =
     (let i = ''codex-plan-'' @ unwrap_or (get_str params ''turnId'') ''turn'';
          new_todos = JArr (map plan_step (unwrap_or (get_array params ''plan'') []))
      in [ToolStart run_id i ''TodoWrite'' (JObj [(''todos'', new_todos)]) None,
          ToolEnd run_id i ''TodoWrite'' (JObj []) ''success'' None None
            (Some (JObj [(''newTodos'', new_todos)]))])"

text \<open>
  The comparison \<open>>=\<close> of IEEE doubles on their bit patterns: never with a NaN, and by sign and
  magnitude otherwise (both zeros are equal).
\<close>

definition f64_nan :: "f64 \<Rightarrow> bool" where
  "f64_nan x \<longleftrightarrow> 0x7FF0000000000000 < unat x mod 2 ^ 63"

definition f64_key :: "f64 \<Rightarrow> int" where
  "f64_key x =
     (if unat x < 2 ^ 63 then int (unat x) else - int (unat x - 2 ^ 63))"

definition f64_ge :: "f64 \<Rightarrow> f64 \<Rightarrow> bool" where
  "f64_ge x y \<longleftrightarrow> \<not> f64_nan x \<and> \<not> f64_nan y \<and> f64_key y \<le> f64_key x"

definition limit_status :: "float_ops \<Rightarrow> f64 option \<Rightarrow> string" where
  "limit_status F utilization =
     (case utilization of
        None \<Rightarrow> ''allowed''
      | Some u \<Rightarrow>
          if f64_ge u (f_of_rat F 1) then ''rejected''
          else if f64_ge u (f_of_rat F (4 / 5)) then ''allowed_warning'' else ''allowed'')"

definition limit_window :: "json \<Rightarrow> json option" where
  "limit_window limits =
     or_else (opt_filter (\<lambda>v. v \<noteq> JNull) (j_get limits ''primary''))
       (opt_filter (\<lambda>v. v \<noteq> JNull) (j_get limits ''secondary''))"

definition codex_rate_limit_event :: "float_ops \<Rightarrow> string \<Rightarrow> json \<Rightarrow> BusEvent option" where
  "codex_rate_limit_event F run_id params =
     Option.bind (j_get params ''rateLimits'')
       (\<lambda>limits. map_option
          (\<lambda>window.
             (let utilization = map_option (\<lambda>p. f_div F p (f_of_rat F 100))
                    (Option.bind (j_get window ''usedPercent'') (as_f64 F))
              in RateLimitEvent run_id (limit_status F utilization)
                   (Option.bind (j_get window ''resetsAt'') (as_f64 F))
                   (map_option (\<lambda>m. show_nat (unat m) @ ''_min'')
                      (get_u64 window ''windowDurationMins''))
                   utilization limits))
          (limit_window limits))"

section \<open>Notifications that only show something\<close>

text \<open>The notices of one line (\<open>CommandOutput\<close>).\<close>

definition rerouted_notice :: "json \<Rightarrow> string" where
  "rerouted_notice params =
     (let from = unwrap_or (get_str params ''fromModel'') ''?'';
          to = unwrap_or (get_str params ''toModel'') ''?'';
          reason = str_field params ''reason'';
          line = ''[notice] model rerouted: '' @ from @ '' '' @ ARROW @ '' '' @ to
      in if reason = [] then line else line @ '' ('' @ reason @ '')'')"

definition verification_notice :: "json \<Rightarrow> string option" where
  "verification_notice params =
     (let names = List.map_filter as_str (unwrap_or (get_array params ''verifications'') [])
      in if names = [] then None
         else Some (''[notice] model verification: '' @ str_join '', '' names))"

definition summary_notice :: "json \<Rightarrow> string option" where
  "summary_notice params =
     map_option
       (\<lambda>summary. case opt_filter (\<lambda>d. d \<noteq> []) (get_str params ''details'') of
          Some d \<Rightarrow> ''[notice] '' @ summary @ '': '' @ d
        | None \<Rightarrow> ''[notice] '' @ summary)
       (get_str params ''summary'')"

definition notice_events :: "string \<Rightarrow> string option \<Rightarrow> BusEvent list" where
  "notice_events run_id n = (case n of None \<Rightarrow> [] | Some s \<Rightarrow> [CommandOutput run_id s])"

definition opt_event :: "BusEvent option \<Rightarrow> BusEvent list" where
  "opt_event ev = (case ev of None \<Rightarrow> [] | Some e \<Rightarrow> [e])"

text \<open>A piece of output for the card of an open tool, when both the item and the text are there.\<close>

definition output_delta_events :: "string \<Rightarrow> string option \<Rightarrow> string option \<Rightarrow> string \<Rightarrow> BusEvent list" where
  "output_delta_events run_id item_id delta suffix =
     (case (item_id, delta) of
        (Some i, Some d) \<Rightarrow>
          if i \<noteq> [] \<and> d \<noteq> [] then [ToolOutputDelta run_id i (d @ suffix) None] else []
      | _ \<Rightarrow> [])"

text \<open>
  The branches of \<open>handle_notification\<close> from \<open>item/agentMessage/delta\<close> on, in their order: they
  leave the state of the driver alone.
\<close>

definition item_notification_events ::
  "float_ops \<Rightarrow> string \<Rightarrow> string \<Rightarrow> json \<Rightarrow> BusEvent list option" where
  "item_notification_events F run_id method params =
     (if method = ''item/agentMessage/delta'' then
        Some (opt_event (map_option (\<lambda>d. MessageDelta run_id d None) (get_str params ''delta'')))
      else if method = ''item/reasoning/textDelta'' \<or> method = ''item/reasoning/summaryTextDelta'' then
        Some (opt_event (map_option (\<lambda>d. ThinkingDelta run_id d None) (get_str params ''delta'')))
      else if method = ''item/started'' then
        Some (opt_event (Option.bind (j_get params ''item'') (item_started_event run_id)))
      else if method = ''item/completed'' then
        Some (case j_get params ''item'' of
                None \<Rightarrow> [] | Some item \<Rightarrow> item_completed_events run_id item)
      else if method = ''thread/tokenUsage/updated'' then
        Some (opt_event (token_usage_event F run_id params))
      else if method = ''thread/goal/updated'' then
        Some (opt_event (map_option (GoalUpdate run_id) (j_get params ''goal'')))
      else if method = ''thread/goal/cleared'' then Some [GoalUpdate run_id JNull]
      else if method = ''turn/plan/updated'' then Some (plan_updated_events run_id params)
      else if method = ''item/commandExecution/outputDelta'' then
        Some (output_delta_events run_id (get_str params ''itemId'') (get_str params ''delta'') [])
      else if method = ''account/rateLimits/updated'' then
        Some (opt_event (codex_rate_limit_event F run_id params))
      else None)"

definition notice_notification_events :: "string \<Rightarrow> string \<Rightarrow> json \<Rightarrow> BusEvent list" where
  "notice_notification_events run_id method params =
     (if method = ''model/rerouted'' then [CommandOutput run_id (rerouted_notice params)]
      else if method = ''warning'' then
        notice_events run_id (map_option (\<lambda>m. ''[notice] '' @ m) (get_str params ''message''))
      else if method = ''guardianWarning'' then
        notice_events run_id (map_option (\<lambda>m. ''[guardian] '' @ m) (get_str params ''message''))
      else if method = ''model/verification'' then
        notice_events run_id (verification_notice params)
      else if method = ''deprecationNotice'' \<or> method = ''configWarning'' then
        notice_events run_id (summary_notice params)
      else if method = ''turn/diff/updated'' then
        opt_event (map_option (CodexTurnDiff run_id (str_field params ''turnId''))
          (get_str params ''diff''))
      else if method = ''hook/started'' \<or> method = ''hook/completed'' then
        opt_event (hook_run_event run_id method params)
      else if method = ''item/mcpToolCall/progress'' then
        output_delta_events run_id (get_str params ''itemId'') (get_str params ''message'')
          [CHR 0x0A]
      else if method = ''item/autoApprovalReview/completed'' then
        [CommandOutput run_id (guardian_notice params)]
      else if method = ''mcpServer/startupStatus/updated'' then
        opt_event (map_option
          (\<lambda>name. CodexMcpStatus run_id name (unwrap_or (get_str params ''status'') ''starting'')
             (get_str params ''error'')) (get_str params ''name''))
      else if method = ''skills/changed'' then [CommandOutput run_id ''[notice] skills changed'']
      else [])"

definition notification_events ::
  "float_ops \<Rightarrow> string \<Rightarrow> string \<Rightarrow> json \<Rightarrow> BusEvent list" where
  "notification_events F run_id method params =
     (case item_notification_events F run_id method params of
        Some evs \<Rightarrow> evs
      | None \<Rightarrow> notice_notification_events run_id method params)"

section \<open>What these events are\<close>

text \<open>
  They belong to the run, and none of them is an event that only the session actor emits.
\<close>

definition driver_event :: "string \<Rightarrow> BusEvent \<Rightarrow> bool" where
  "driver_event run_id ev \<longleftrightarrow> event_run_id ev = run_id \<and> \<not> loud_event ev"

lemma quiet_events [simp]:
  "\<not> loud_event (MessageDelta r x y)" "\<not> loud_event (ThinkingDelta r x y)"
  "\<not> loud_event (ToolOutputDelta r i d q)" "\<not> loud_event (CommandOutput r s)"
  "\<not> loud_event (ToolStart r i n j q)" "\<not> loud_event (ToolEnd r i n out st dms q res)"
  "\<not> loud_event (MessageComplete r i x q m sr us)" "\<not> loud_event (UsageUpdate r u)"
  "\<not> loud_event (GoalUpdate r j)" "\<not> loud_event (RateLimitEvent r st a b c j)"
  "\<not> loud_event (CodexTurnDiff r i d)" "\<not> loud_event (CodexHookRun r i n st sm du)"
  "\<not> loud_event (CodexMcpStatus r n st er)"
  "\<not> loud_event (PermissionPrompt r i n ti j re q su)"
  "\<not> loud_event (ElicitationPrompt r i n tx el md url sc)"
  by (simp_all add: loud_event_def)

definition driver_events :: "string \<Rightarrow> BusEvent list \<Rightarrow> bool" where
  "driver_events run_id evs \<longleftrightarrow> list_all (driver_event run_id) evs"

lemma driver_events_simps [simp]:
  "driver_events r []" "driver_events r (e # es) \<longleftrightarrow> driver_event r e \<and> driver_events r es"
  "driver_events r (opt_event x) \<longleftrightarrow> (\<forall>e. x = Some e \<longrightarrow> driver_event r e)"
  "driver_events r (notice_events r n)"
  "driver_events r (output_delta_events r i d sf)"
  by (auto simp: driver_events_def opt_event_def notice_events_def output_delta_events_def
      driver_event_def split: option.split)

lemma driver_events_item:
  "driver_events r (item_completed_events r item)"
  "item_started_event r item = Some e \<Longrightarrow> driver_event r e"
  by (auto simp: item_completed_events_def item_started_event_def driver_event_def Let_def
      split: option.split if_splits)

lemma driver_events_other:
  "driver_events r (plan_updated_events r params)"
  "token_usage_event F r params = Some e \<Longrightarrow> driver_event r e"
  "hook_run_event r method params = Some e \<Longrightarrow> driver_event r e"
  "codex_rate_limit_event F r params = Some e \<Longrightarrow> driver_event r e"
  by (auto simp: plan_updated_events_def token_usage_event_def hook_run_event_def
      codex_rate_limit_event_def driver_event_def Let_def bind_eq_Some_conv)

lemma driver_event_plain [simp]:
  "driver_event r (MessageDelta r x y)" "driver_event r (ThinkingDelta r x y)"
  "driver_event r (CommandOutput r s)" "driver_event r (GoalUpdate r j)"
  "driver_event r (CodexTurnDiff r t d)" "driver_event r (CodexMcpStatus r n st er)"
  by (simp_all add: driver_event_def)

definition driver_events_opt :: "string \<Rightarrow> BusEvent list option \<Rightarrow> bool" where
  "driver_events_opt r x \<longleftrightarrow> (\<forall>evs. x = Some evs \<longrightarrow> driver_events r evs)"

lemma driver_events_opt_simps [simp]:
  "driver_events_opt r None" "driver_events_opt r (Some evs) \<longleftrightarrow> driver_events r evs"
  by (simp_all add: driver_events_opt_def)

lemma driver_events_if:
  "driver_events_opt r x \<Longrightarrow> driver_events_opt r y \<Longrightarrow> driver_events_opt r (if c then x else y)"
  "driver_events r es \<Longrightarrow> driver_events r fs \<Longrightarrow> driver_events r (if c then es else fs)"
  by simp_all

lemma driver_events_item_notification:
  "driver_events_opt r (item_notification_events F r method params)"
  unfolding item_notification_events_def
  by (intro driver_events_if)
    (auto simp: driver_events_item driver_events_other bind_eq_Some_conv split: option.split)

lemma driver_events_notice_notification: "driver_events r (notice_notification_events r method params)"
  unfolding notice_notification_events_def
  by (intro driver_events_if) (auto simp: driver_events_other)

lemma driver_events_notification: "driver_events r (notification_events F r m params)"
  using driver_events_item_notification [of r F m params]
    driver_events_notice_notification [of r m params]
  by (simp add: notification_events_def driver_events_opt_def split: option.split)

end
