(* ===== verification/CodexAppServer.thy ===== *)
theory CodexAppServer
  imports CodexItems
begin

text \<open>
  The driver of the Codex app server (\<open>agent/codex_appserver.rs\<close>): its state, the frames it
  writes, and the parser of its JSON-RPC lines.  The JSON parser \<open>serde_json::from_str\<close>, the
  printer of a \<open>Value\<close> and the arithmetic of doubles are arguments; log statements are left out.
\<close>

section \<open>State\<close>

type_synonym i64 = "64 word"

datatype Phase = PhOpening | PhReady

record PendingServerReq =
  ps_raw_id :: json
  ps_method :: string

record CodexAppServer =
  ca_phase :: Phase
  ca_thread_id :: "string option"
  ca_active_turn_id :: "string option"
  ca_next_client_id :: i64
  ca_pending :: "(string \<times> PendingServerReq) list"
  ca_client_waiters :: "(i64 \<times> string) list"
  ca_add_dirs :: "string list"
  ca_startup_overrides :: CodexTurnOverrides
  ca_pending_startup_replay :: bool

definition codex_new :: CodexAppServer where
  "codex_new =
     \<lparr> ca_phase = PhOpening, ca_thread_id = None, ca_active_turn_id = None, ca_next_client_id = 3,
       ca_pending = [], ca_client_waiters = [], ca_add_dirs = [],
       ca_startup_overrides = default_overrides, ca_pending_startup_replay = True \<rparr>"

definition next_id :: "CodexAppServer \<Rightarrow> i64 \<times> CodexAppServer" where
  "next_id c = (ca_next_client_id c, c\<lparr>ca_next_client_id := ca_next_client_id c + 1\<rparr>)"

definition is_ready :: "CodexAppServer \<Rightarrow> bool" where
  "is_ready c \<longleftrightarrow> ca_phase c = PhReady"

section \<open>Frames\<close>

text \<open>\<open>json!(id)\<close> of an \<open>i64\<close>.\<close>

definition json_i64 :: "i64 \<Rightarrow> json" where
  "json_i64 n = JNum (if 0 \<le> sint n then JPos n else JNeg n)"

definition rpc_request :: "i64 \<Rightarrow> string \<Rightarrow> json \<Rightarrow> json" where
  "rpc_request i method params =
     JObj [(''jsonrpc'', JStr ''2.0''), (''id'', json_i64 i), (''method'', JStr method),
           (''params'', params)]"

text \<open>
  A request whose reply goes back to the caller.  The extra parameters are added to the map after
  \<open>threadId\<close>, so that one of that name would replace it.
\<close>

definition frame_tracked ::
  "string \<Rightarrow> string \<Rightarrow> json \<Rightarrow> CodexAppServer \<Rightarrow> json list \<times> CodexAppServer" where
  "frame_tracked request_id method extra c =
     (case ca_thread_id c of
        None \<Rightarrow> ([], c)
      | Some thread_id \<Rightarrow>
          (case next_id c of
             (i, c1) \<Rightarrow>
               ([rpc_request i method
                   (JObj (unwrap_or (as_object extra) [] @ [(''threadId'', JStr thread_id)]))],
                c1\<lparr>ca_client_waiters := hm_insert i request_id (ca_client_waiters c1)\<rparr>)))"

definition json_u64 :: "u64 \<Rightarrow> json" where
  "json_u64 n = JNum (JPos n)"

definition frame_compact :: "string \<Rightarrow> CodexAppServer \<Rightarrow> json list \<times> CodexAppServer" where
  "frame_compact rid = frame_tracked rid ''thread/compact/start'' (JObj [])"

definition frame_rollback :: "string \<Rightarrow> u64 \<Rightarrow> CodexAppServer \<Rightarrow> json list \<times> CodexAppServer" where
  "frame_rollback rid num_turns =
     frame_tracked rid ''thread/rollback''
       (JObj [(''numTurns'', json_u64 (if num_turns < 1 then 1 else num_turns))])"

definition frame_fork :: "string \<Rightarrow> CodexAppServer \<Rightarrow> json list \<times> CodexAppServer" where
  "frame_fork rid = frame_tracked rid ''thread/fork'' (JObj [])"

definition frame_goal_set ::
  "string \<Rightarrow> string option \<Rightarrow> string option \<Rightarrow> u64 option \<Rightarrow> CodexAppServer
     \<Rightarrow> json list \<times> CodexAppServer" where
  "frame_goal_set rid objective status token_budget =
     frame_tracked rid ''thread/goal/set''
       (JObj (opt_field ''objective'' (map_option JStr objective)
              @ opt_field ''status'' (map_option JStr status)
              @ opt_field ''tokenBudget'' (map_option json_u64 token_budget)))"

definition frame_goal_get :: "string \<Rightarrow> CodexAppServer \<Rightarrow> json list \<times> CodexAppServer" where
  "frame_goal_get rid = frame_tracked rid ''thread/goal/get'' (JObj [])"

definition frame_goal_clear :: "string \<Rightarrow> CodexAppServer \<Rightarrow> json list \<times> CodexAppServer" where
  "frame_goal_clear rid = frame_tracked rid ''thread/goal/clear'' (JObj [])"

definition frame_mcp_status :: "string \<Rightarrow> CodexAppServer \<Rightarrow> json list \<times> CodexAppServer" where
  "frame_mcp_status rid = frame_tracked rid ''mcpServerStatus/list'' (JObj [])"

definition frame_skills_list :: "string \<Rightarrow> CodexAppServer \<Rightarrow> json list \<times> CodexAppServer" where
  "frame_skills_list rid = frame_tracked rid ''skills/list'' (JObj [])"

definition frame_experimental_feature_list ::
  "string \<Rightarrow> CodexAppServer \<Rightarrow> json list \<times> CodexAppServer" where
  "frame_experimental_feature_list rid = frame_tracked rid ''experimentalFeature/list'' (JObj [])"

definition frame_model_list :: "string \<Rightarrow> CodexAppServer \<Rightarrow> json list \<times> CodexAppServer" where
  "frame_model_list rid = frame_tracked rid ''model/list'' (JObj [])"

definition sandbox_policy_value :: "string \<Rightarrow> string list \<Rightarrow> json" where
  "sandbox_policy_value mode writable_roots =
     (if mode = ''read-only'' then
        JObj [(''type'', JStr ''readOnly''), (''networkAccess'', JBool False)]
      else if mode = ''danger-full-access'' then JObj [(''type'', JStr ''dangerFullAccess'')]
      else
        JObj [(''type'', JStr ''workspaceWrite''),
              (''writableRoots'', JArr (map JStr writable_roots)),
              (''networkAccess'', JBool False), (''excludeTmpdirEnvVar'', JBool False),
              (''excludeSlashTmp'', JBool False)])"

section \<open>Opening a thread and starting turns\<close>

text \<open>\<open>version\<close> is the version of the package.\<close>

definition initialize_message :: "string \<Rightarrow> json" where
  "initialize_message version =
     rpc_request 1 ''initialize''
       (JObj [(''clientInfo'',
          JObj [(''name'', JStr ''opencovibe''), (''version'', JStr version),
                (''title'', JStr ''OpenCovibe'')])])"

definition thread_start_params :: "StartupCtx \<Rightarrow> json" where
  "thread_start_params ctx =
     JObj ([(''cwd'', JStr (sc_cwd ctx))]
       @ opt_field ''approvalPolicy'' (map_option JStr (sc_approval_policy ctx))
       @ opt_field ''sandbox'' (map_option JStr (sc_sandbox ctx))
       @ opt_field ''model'' (map_option JStr (sc_model ctx))
       @ opt_field ''modelProvider'' (map_option JStr (sc_model_provider ctx)))"

definition startup_messages ::
  "string \<Rightarrow> StartupCtx \<Rightarrow> CodexAppServer \<Rightarrow> json list \<times> CodexAppServer" where
  "startup_messages version ctx c =
     (let c1 = c\<lparr>ca_add_dirs := sc_add_dirs ctx,
                 ca_startup_overrides :=
                   \<lparr> ov_approval_policy = sc_approval_policy ctx, ov_sandbox = sc_sandbox ctx,
                     ov_model = sc_model ctx, ov_effort = sc_effort ctx \<rparr>,
                 ca_pending_startup_replay := True\<rparr>
      in case sc_resume_thread_id ctx of
           Some tid \<Rightarrow>
             ([initialize_message version,
               rpc_request 2 ''thread/resume'' (JObj [(''threadId'', JStr tid)])],
              c1\<lparr>ca_thread_id := Some tid\<rparr>)
         | None \<Rightarrow>
             ([initialize_message version, rpc_request 2 ''thread/start'' (thread_start_params ctx)],
              c1))"

definition text_item :: "string \<Rightarrow> json" where
  "text_item t =
     JObj [(''type'', JStr ''text''), (''text'', JStr t), (''text_elements'', JArr [])]"

definition turn_input :: "string \<Rightarrow> string list \<Rightarrow> CodexSkillRef list \<Rightarrow> json list" where
  "turn_input text image_paths skills =
     map (\<lambda>s. JObj [(''type'', JStr ''skill''), (''name'', JStr (sk_name s)),
                     (''path'', JStr (sk_path s))]) skills
       @ [text_item text]
       @ map (\<lambda>p. JObj [(''type'', JStr ''localImage''), (''path'', JStr p)]) image_paths"

text \<open>The closure \<open>pick\<close>: the actor's value, or on the first turn the one from the start.\<close>

definition pick_override :: "bool \<Rightarrow> string option \<Rightarrow> string option \<Rightarrow> string option" where
  "pick_override first_turn act startup = or_else act (if first_turn then startup else None)"

definition turn_sandbox :: "bool \<Rightarrow> string option \<Rightarrow> string list \<Rightarrow> json option" where
  "turn_sandbox first_turn sandbox add_dirs =
     (case sandbox of
        Some s \<Rightarrow> Some (sandbox_policy_value s add_dirs)
      | None \<Rightarrow>
          if first_turn \<and> add_dirs \<noteq> []
          then Some (sandbox_policy_value ''workspace-write'' add_dirs) else None)"

definition turn_params ::
  "CodexAppServer \<Rightarrow> string \<Rightarrow> json list \<Rightarrow> CodexTurnOverrides \<Rightarrow> json" where
  "turn_params c thread_id input ov =
     (let first = ca_pending_startup_replay c; st = ca_startup_overrides c;
          pick = (\<lambda>f. pick_override first (f ov) (f st))
      in JObj ([(''threadId'', JStr thread_id), (''input'', JArr input)]
           @ opt_field ''approvalPolicy'' (map_option JStr (pick ov_approval_policy))
           @ opt_field ''sandboxPolicy'' (turn_sandbox first (pick ov_sandbox) (ca_add_dirs c))
           @ opt_field ''model'' (map_option JStr (pick ov_model))
           @ opt_field ''effort'' (map_option JStr (pick ov_effort))))"

definition frame_user_turn ::
  "string \<Rightarrow> string list \<Rightarrow> CodexSkillRef list \<Rightarrow> CodexTurnOverrides \<Rightarrow> CodexAppServer
     \<Rightarrow> json list \<times> CodexAppServer" where
  "frame_user_turn text image_paths skills ov c =
     (case ca_thread_id c of
        None \<Rightarrow> ([], c)
      | Some thread_id \<Rightarrow>
          (case next_id c of
             (i, c1) \<Rightarrow>
               ([rpc_request i ''turn/start''
                   (turn_params c thread_id (turn_input text image_paths skills) ov)],
                c1\<lparr>ca_pending_startup_replay := False\<rparr>)))"

definition frame_interrupt :: "CodexAppServer \<Rightarrow> json list \<times> CodexAppServer" where
  "frame_interrupt c =
     (case ca_thread_id c of
        None \<Rightarrow> ([], c)
      | Some thread_id \<Rightarrow>
          (case next_id c of
             (i, c1) \<Rightarrow>
               ([rpc_request i ''turn/interrupt'' (JObj [(''threadId'', JStr thread_id)])], c1)))"

definition frame_steer :: "string \<Rightarrow> CodexAppServer \<Rightarrow> json list \<times> CodexAppServer" where
  "frame_steer text c =
     (case (ca_thread_id c, ca_active_turn_id c) of
        (Some thread_id, Some expected) \<Rightarrow>
          (case next_id c of
             (i, c1) \<Rightarrow>
               ([rpc_request i ''turn/steer''
                   (JObj [(''threadId'', JStr thread_id), (''input'', JArr [text_item text]),
                          (''expectedTurnId'', JStr expected)])], c1))
      | _ \<Rightarrow> ([], c))"

section \<open>Lines of the server\<close>

text \<open>The library functions that the driver calls.\<close>

record codex_lib =
  cl_parse :: "string \<Rightarrow> json option"
  cl_show :: "json \<Rightarrow> string"
  cl_float :: float_ops

definition empty_line :: ParsedLine where
  "empty_line =
     \<lparr> pl_events = [], pl_interactive = None, pl_lifecycle = None, pl_thread_id = None,
       pl_control_response = None \<rparr>"

definition req_id_str :: "codex_lib \<Rightarrow> json \<Rightarrow> string" where
  "req_id_str L raw_id = (case raw_id of JStr s \<Rightarrow> s | other \<Rightarrow> cl_show L other)"

definition M_CMD_APPROVAL :: string where
  "M_CMD_APPROVAL = ''item/commandExecution/requestApproval''"

definition M_CMD_APPROVAL_LEGACY :: string where
  "M_CMD_APPROVAL_LEGACY = ''execCommandApproval''"

definition M_FILE_APPROVAL :: string where
  "M_FILE_APPROVAL = ''item/fileChange/requestApproval''"

definition M_FILE_APPROVAL_LEGACY :: string where
  "M_FILE_APPROVAL_LEGACY = ''applyPatchApproval''"

definition M_PERM_APPROVAL :: string where
  "M_PERM_APPROVAL = ''item/permissions/requestApproval''"

definition M_REQUEST_USER_INPUT :: string where
  "M_REQUEST_USER_INPUT = ''item/tool/requestUserInput''"

definition M_ELICITATION :: string where
  "M_ELICITATION = ''mcpServer/elicitation/request''"

lemmas method_names = M_CMD_APPROVAL_def M_CMD_APPROVAL_LEGACY_def M_FILE_APPROVAL_def
  M_FILE_APPROVAL_LEGACY_def M_PERM_APPROVAL_def M_REQUEST_USER_INPUT_def M_ELICITATION_def

definition is_interactive_method :: "string \<Rightarrow> bool" where
  "is_interactive_method method \<longleftrightarrow>
     method \<in> {M_CMD_APPROVAL, M_CMD_APPROVAL_LEGACY, M_FILE_APPROVAL, M_FILE_APPROVAL_LEGACY,
       M_PERM_APPROVAL, M_REQUEST_USER_INPUT, M_ELICITATION}"

text \<open>The kind and the events of an interactive request; other methods have none.\<close>

definition server_request_events ::
  "string \<Rightarrow> string \<Rightarrow> string \<Rightarrow> json \<Rightarrow> (PendingKind \<times> BusEvent list) option" where
  "server_request_events run_id method request_id params =
     (if method = M_CMD_APPROVAL \<or> method = M_CMD_APPROVAL_LEGACY then
        Some (KPermission, [approval_prompt run_id request_id ''Bash'' params])
      else if method = M_FILE_APPROVAL \<or> method = M_FILE_APPROVAL_LEGACY then
        Some (KPermission, [approval_prompt run_id request_id ''Edit'' params])
      else if method = M_PERM_APPROVAL then
        Some (KPermission, [approval_prompt run_id request_id ''Bash'' params])
      else if method = M_REQUEST_USER_INPUT then
        Some (KUserInput, ask_user_question_events run_id request_id params)
      else if method = M_ELICITATION then
        Some (KElicitation, [elicitation_prompt run_id request_id params])
      else None)"

definition handle_server_request ::
  "codex_lib \<Rightarrow> string \<Rightarrow> string \<Rightarrow> json \<Rightarrow> CodexAppServer \<Rightarrow> ParsedLine \<times> CodexAppServer" where
  "handle_server_request L run_id method msg c =
     (let raw_id = unwrap_or (j_get msg ''id'') JNull;
          request_id = req_id_str L raw_id;
          params = unwrap_or (j_get msg ''params'') JNull
      in case server_request_events run_id method request_id params of
           None \<Rightarrow> (empty_line, c)
         | Some (kind, events) \<Rightarrow>
             (empty_line\<lparr>pl_events := events,
                pl_interactive := Some \<lparr> pi_request_id = request_id, pi_kind = kind \<rparr>\<rparr>,
              c\<lparr>ca_pending := hm_insert request_id \<lparr> ps_raw_id = raw_id, ps_method = method \<rparr>
                   (ca_pending c)\<rparr>))"

text \<open>\<open>params.get(k)\<dots>.get("id").and_then(as_str)\<close> of the thread or the turn.\<close>

definition nested_id :: "json \<Rightarrow> string \<Rightarrow> string option" where
  "nested_id v k = Option.bind (j_get v k) (\<lambda>t. get_str t ''id'')"

definition error_message_of :: "json \<Rightarrow> string" where
  "error_message_of params =
     unwrap_or (or_else (Option.bind (j_get params ''error'') (\<lambda>e. get_str e ''message''))
       (get_str params ''message'')) ''unknown error''"

definition handle_notification ::
  "codex_lib \<Rightarrow> string \<Rightarrow> string \<Rightarrow> json \<Rightarrow> CodexAppServer \<Rightarrow> ParsedLine \<times> CodexAppServer" where
  "handle_notification L run_id method params c =
     (if method = ''thread/started'' then
        (case nested_id params ''thread'' of
           Some i \<Rightarrow>
             (empty_line\<lparr>pl_thread_id := Some i\<rparr>,
              c\<lparr>ca_thread_id := Some i, ca_phase := PhReady\<rparr>)
         | None \<Rightarrow> (empty_line, c\<lparr>ca_phase := PhReady\<rparr>))
      else if method = ''turn/started'' then
        (empty_line\<lparr>pl_lifecycle := Some TurnStarted\<rparr>,
         (case nested_id params ''turn'' of
            Some i \<Rightarrow> c\<lparr>ca_active_turn_id := Some i\<rparr> | None \<Rightarrow> c))
      else if method = ''turn/completed'' then
        (empty_line\<lparr>pl_lifecycle := Some TurnCompleted\<rparr>, c\<lparr>ca_active_turn_id := None\<rparr>)
      else if method = ''turn/failed'' then
        (empty_line\<lparr>pl_lifecycle := Some (TurnFailed
            (Option.bind (j_get params ''error'') (\<lambda>e. get_str e ''message'')))\<rparr>,
         c\<lparr>ca_active_turn_id := None\<rparr>)
      else if method = ''error'' then
        (if unwrap_or (get_bool params ''willRetry'') False then (empty_line, c)
         else
           (empty_line\<lparr>pl_events := [CommandOutput run_id (''[error] '' @ error_message_of params)]\<rparr>,
            c\<lparr>ca_active_turn_id := None\<rparr>))
      else
        (empty_line\<lparr>pl_events := notification_events (cl_float L) run_id method params\<rparr>, c))"

text \<open>A reply to a tracked request: its result, or its error.\<close>

definition reply_value :: "json \<Rightarrow> json" where
  "reply_value msg = unwrap_or (or_else (j_get msg ''result'') (j_get msg ''error'')) JNull"

text \<open>The acknowledgement of \<open>thread/start\<close> or \<open>thread/resume\<close>, the reply with the id 2.\<close>

definition handle_ack :: "json \<Rightarrow> CodexAppServer \<Rightarrow> ParsedLine \<times> CodexAppServer" where
  "handle_ack msg c =
     (if Option.bind (j_get msg ''id'') as_i64 = Some 2 \<and> j_get msg ''error'' = None then
        (if ca_thread_id c = None then
           (case Option.bind (j_get msg ''result'') (\<lambda>r. nested_id r ''thread'') of
              Some i \<Rightarrow>
                (empty_line\<lparr>pl_thread_id := Some i\<rparr>,
                 c\<lparr>ca_thread_id := Some i, ca_phase := PhReady\<rparr>)
            | None \<Rightarrow> (empty_line, c\<lparr>ca_phase := PhReady\<rparr>))
         else (empty_line, c\<lparr>ca_phase := PhReady\<rparr>))
      else (empty_line, c))"

definition handle_reply :: "json \<Rightarrow> CodexAppServer \<Rightarrow> ParsedLine \<times> CodexAppServer" where
  "handle_reply msg c =
     (case Option.bind (j_get msg ''id'') as_i64 of
        None \<Rightarrow> handle_ack msg c
      | Some i \<Rightarrow>
          (case map_of (ca_client_waiters c) i of
             Some request_id \<Rightarrow>
               (empty_line\<lparr>pl_control_response := Some (request_id, reply_value msg)\<rparr>,
                c\<lparr>ca_client_waiters := hm_remove i (ca_client_waiters c)\<rparr>)
           | None \<Rightarrow> handle_ack msg c))"

definition handle_message ::
  "codex_lib \<Rightarrow> string \<Rightarrow> json \<Rightarrow> CodexAppServer \<Rightarrow> ParsedLine \<times> CodexAppServer" where
  "handle_message L run_id msg c =
     (case get_str msg ''method'' of
        Some method \<Rightarrow>
          if j_get msg ''id'' \<noteq> None then
            (if is_interactive_method method then handle_server_request L run_id method msg c
             else (empty_line, c))
          else handle_notification L run_id method (unwrap_or (j_get msg ''params'') JNull) c
      | None \<Rightarrow> handle_reply msg c)"

definition parse_line ::
  "codex_lib \<Rightarrow> string \<Rightarrow> string \<Rightarrow> CodexAppServer \<Rightarrow> ParsedLine \<times> CodexAppServer" where
  "parse_line L run_id line c =
     (let l = str_trim line in
      if l = [] then (empty_line, c)
      else (case cl_parse L l of
              None \<Rightarrow> (empty_line, c)
            | Some msg \<Rightarrow> handle_message L run_id msg c))"

section \<open>Answers to the server\<close>

definition wrap_answer :: "json \<Rightarrow> json" where
  "wrap_answer v =
     JObj [(''answers'',
       (case j_get v ''answers'' of
          Some inner \<Rightarrow> inner
        | None \<Rightarrow> (case v of JArr xs \<Rightarrow> v | _ \<Rightarrow> JArr [v])))]"

definition build_user_input_result :: "json \<Rightarrow> json" where
  "build_user_input_result response =
     JObj [(''answers'',
       JObj (case Option.bind (j_get response ''answers'') as_object of
               None \<Rightarrow> [] | Some m \<Rightarrow> map (\<lambda>(qid, v). (qid, wrap_answer v)) m))]"

definition permission_result :: "json \<Rightarrow> json" where
  "permission_result response =
     JObj [(''decision'',
       JStr (if unwrap_or (get_str response ''behavior'') ''deny'' = ''allow''
             then ''accept'' else ''decline''))]"

definition elicitation_result :: "json \<Rightarrow> json" where
  "elicitation_result response =
     JObj ([(''action'', JStr (unwrap_or (get_str response ''action'') ''decline''))]
       @ opt_field ''content'' (j_get response ''content''))"

definition response_result :: "PendingKind \<Rightarrow> json \<Rightarrow> json" where
  "response_result kind response =
     (case kind of
        KPermission \<Rightarrow> permission_result response
      | KElicitation \<Rightarrow> elicitation_result response
      | KUserInput \<Rightarrow> build_user_input_result response)"

definition frame_response ::
  "PendingKind \<Rightarrow> string \<Rightarrow> json \<Rightarrow> CodexAppServer \<Rightarrow> json list \<times> CodexAppServer" where
  "frame_response kind request_id response c =
     (case map_of (ca_pending c) request_id of
        None \<Rightarrow> ([], c)
      | Some p \<Rightarrow>
          ([JObj [(''jsonrpc'', JStr ''2.0''), (''id'', ps_raw_id p),
                  (''result'', response_result kind response)]],
           c\<lparr>ca_pending := hm_remove request_id (ca_pending c)\<rparr>))"

text \<open>The driver that the session actor is given for a Codex session.\<close>

definition codex_driver :: "codex_lib \<Rightarrow> CodexAppServer driver" where
  "codex_driver L =
     \<lparr> dr_frame_user_turn = frame_user_turn, dr_frame_interrupt = frame_interrupt,
       dr_frame_steer = frame_steer, dr_parse_line = parse_line L,
       dr_frame_response = frame_response, dr_is_ready = is_ready,
       dr_frame_compact = frame_compact, dr_frame_rollback = frame_rollback,
       dr_frame_fork = frame_fork, dr_frame_goal_set = frame_goal_set,
       dr_frame_goal_get = frame_goal_get, dr_frame_goal_clear = frame_goal_clear,
       dr_frame_mcp_status = frame_mcp_status, dr_frame_skills_list = frame_skills_list,
       dr_frame_experimental_feature_list = frame_experimental_feature_list,
       dr_frame_model_list = frame_model_list \<rparr>"

end
