(* ===== verification/SessionProperties.thy ===== *)
theory SessionProperties
  imports TurnRefinement CodexAppServer
begin

text \<open>
  What holds in every execution of a session actor: the invariants of the abstract engine,
  carried over by the refinement, and the behaviour of single operations.
\<close>

section \<open>The engine at the start, and what the trace records\<close>

lemma map_filter_filter:
  "(\<And>x. \<not> P x \<Longrightarrow> f x = None) \<Longrightarrow> List.map_filter f (filter P xs) = List.map_filter f xs"
  by (induction xs) (auto simp: List.map_filter_def)

lemma answered_marks: "answered (marks w) = answered (w_trace w)"
  unfolding answered_def marks_def
  by (rule map_filter_filter) (simp add: send_id_def loud_def split: effect.splits)

lemma quiet_mark_state: "\<not> loud e \<Longrightarrow> mark_state e = None"
proof (cases e)
  case (Persisted ev)
  then show "\<not> loud e \<Longrightarrow> mark_state e = None"
    by (cases ev) (simp_all add: mark_state_def run_state_of_def)
qed (simp_all add: mark_state_def)

lemma mark_states_marks: "mark_states (marks w) = mark_states (w_trace w)"
  unfolding mark_states_def marks_def by (rule map_filter_filter) (rule quiet_mark_state)

text \<open>A session that starts in a world whose trace is empty.\<close>

definition session ::
  "string \<Rightarrow> nat \<Rightarrow> bool \<Rightarrow> u32 \<Rightarrow> u32 \<Rightarrow> 'c option \<Rightarrow> json list \<Rightarrow> World \<Rightarrow> 'c SessionActor" where
  "session run_id tag resume ti ci codex startup w =
     spawn_actor run_id tag resume ti ci codex startup (w\<lparr>w_trace := []\<rparr>)"

lemma session_sim:
  "sim (session i tag res ti ci cx ms w) (eng (session i tag res ti ci cx ms w))"
  by (simp add: sim_def no_internal_def session_def spawn_actor_def)

lemma session_fields [simp]:
  "ac_active_turn (session i tag res ti ci cx ms w) = None"
  "ac_queued_user (session i tag res ti ci cx ms w) = []"
  "ac_quarantine_until_result (session i tag res ti ci cx ms w) = False"
  "ac_terminated (session i tag res ti ci cx ms w) = False"
  "ac_ralph_loop (session i tag res ti ci cx ms w) = None"
  "ac_panicked (session i tag res ti ci cx ms w) = False"
  "ac_stdin (session i tag res ti ci cx ms w) = True"
  "marks (ac_w (session i tag res ti ci cx ms w)) = []"
  "ac_codex (session i tag res ti ci cx ms w) = cx"
  by (simp_all add: session_def spawn_actor_def)

lemma session_inv:
  "gate_ok (eng (session i tag res ti ci cx ms w))"
  "ralph_ok (eng (session i tag res ti ci cx ms w))"
  "states_ok Q (eng (session i tag res ti ci cx ms w))"
  "no_promise Q (eng (session i tag res ti ci cx ms w))"
  "work_ok (eng (session i tag res ti ci cx ms w))"
  "owed (eng (session i tag res ti ci cx ms w)) = []"
  by (simp_all add: gate_ok_def ralph_ok_def states_ok_def no_promise_def work_ok_def owed_def)

lemma session_run_inv:
  assumes "spec_run P Q (eng (session i tag res ti ci cx ms w)) ns v" "\<not> e_panicked v"
  shows "gate_ok v" "ralph_ok v" "states_ok Q v" "no_promise Q v" "owed v = ns"
proof -
  show "gate_ok v" using messages.run [OF assms(1) session_inv(1) assms(2)] .
  have "no_promise Q v \<and> ralph_ok v"
    using promise.run [OF assms(1) conjI [OF session_inv(4,2)] assms(2)] .
  then show "ralph_ok v" "no_promise Q v" by simp_all
  show "states_ok Q v" using states.run [OF assms(1) session_inv(3) assms(2)] .
  show "owed v = ns" using messages.balance [OF assms(1) session_inv(1) assms(2)] session_inv(6) by simp
qed

lemma session_refines:
  assumes "executes E (session i tag res ti ci cx ms w) ls t"
  shows "task_refines E (eng (session i tag res ti ci cx ms w)) (concat (map accepted ls)) t"
  using executes_refines [OF assms session_sim session_inv(1)] by simp

lemma session_looping:
  assumes "executes E (session i tag res ti ci cx ms w) ls (Looping a)"
  obtains v where "sim a v" "\<not> e_panicked v"
    "spec_run (allowed E (eng (session i tag res ti ci cx ms w))) (driver_evs E)
       (eng (session i tag res ti ci cx ms w)) (concat (map accepted ls)) v"
  using session_refines [OF assms] by (auto simp: task_refines_def)

lemma session_ended:
  assumes "executes E (session i tag res ti ci cx ms w) ls (Ended a)"
  obtains v u where "\<not> e_panicked v" "spec_close v u"
    "sim a (sp_fail_all ''Session cleanup'' (u\<lparr>e_open := False\<rparr>))"
    "spec_run (allowed E (eng (session i tag res ti ci cx ms w))) (driver_evs E)
       (eng (session i tag res ti ci cx ms w)) (concat (map accepted ls)) v"
  using session_refines [OF assms] by (auto simp: task_refines_def)

lemma spec_close_cleanup:
  assumes "spec_close v u"
  shows "spec_close v (sp_fail_all ''Session cleanup'' (u\<lparr>e_open := False\<rparr>))"
  using assms by (intro close_fail close_stdin)

section \<open>Messages\<close>

text \<open>
  C1: every message that the actor takes is answered exactly once and in the order in which
  they came.  While the loop runs, the answers so far followed by the waiting messages are the
  messages taken; when the session has ended, however it ended, every one has been answered.
  (A panic ends the process; then nothing more is answered.)
\<close>

theorem messages_answered_once:
  assumes "executes E (session i tag res ti ci cx ms w) ls t"
  shows "case t of
      Looping a \<Rightarrow>
        answered (w_trace (ac_w a)) @ map tk_reply (ac_queued_user a) = concat (map accepted ls)
    | Ended a \<Rightarrow>
        ac_queued_user a = [] \<and> answered (w_trace (ac_w a)) = concat (map accepted ls)
    | Aborted a \<Rightarrow> ac_panicked a"
proof (cases t)
  case (Looping a)
  with assms obtain v where v: "sim a v" "\<not> e_panicked v"
    "spec_run (allowed E (eng (session i tag res ti ci cx ms w))) (driver_evs E)
       (eng (session i tag res ti ci cx ms w)) (concat (map accepted ls)) v"
    by (auto elim: session_looping)
  from session_run_inv(5) [OF v(3,2)] show ?thesis
    using sim_fields(6,14) [OF v(1)] Looping by (simp add: owed_def answered_marks [symmetric])
next
  case (Ended a)
  with assms obtain v u where v: "\<not> e_panicked v" "spec_close v u"
    "sim a (sp_fail_all ''Session cleanup'' (u\<lparr>e_open := False\<rparr>))"
    "spec_run (allowed E (eng (session i tag res ti ci cx ms w))) (driver_evs E)
       (eng (session i tag res ti ci cx ms w)) (concat (map accepted ls)) v"
    by (auto elim: session_ended)
  note inv = session_run_inv [OF v(4,1)]
  from spec_close_inv [OF spec_close_cleanup [OF v(2)] inv(1,3,4)] inv(5) show ?thesis
    using sim_fields(6,14) [OF v(3)] Ended by (simp add: owed_def answered_marks [symmetric])
next
  case (Aborted a)
  then show ?thesis using session_refines [OF assms] by (simp add: task_refines_def)
qed


section \<open>A sample session\<close>

text \<open>
  A child that takes every line, the driver of the app server with a parser that knows the one
  line \<open>ready\<close> (the notification that opens the thread), and a world whose store holds the run.
\<close>

definition ready_message :: json where
  "ready_message =
     JObj [(''method'', JStr ''thread/started''),
           (''params'', JObj [(''thread'', JObj [(''id'', JStr ''t'')])])]"

definition sample_lib :: codex_lib where
  "sample_lib =
     \<lparr> cl_parse = (\<lambda>s. if s = ''ready'' then Some ready_message else None),
       cl_show = (\<lambda>j. []), cl_float = sample_floats \<rparr>"

definition sample_att :: att_io where
  "sample_att =
     \<lparr> ai_dir = ''/d'', ai_mkdir_ok = True, ai_decode = (\<lambda>s. Some s), ai_now_ms = 0,
       ai_uuid = ''uuuuuuuu'', ai_write_ok = True, ai_file_len = 1, ai_alnum = (\<lambda>c. False) \<rparr>"

definition sample_env :: "CodexAppServer env" where
  "sample_env =
     \<lparr> en_float = sample_floats, en_parse = (\<lambda>s. None), en_uuid = (\<lambda>n. ''u''),
       en_write = (\<lambda>n. WOk), en_fs = (\<lambda>n. fs_ok), en_att = (\<lambda>n. sample_att),
       en_wait = Exited (Some 0), en_driver = codex_driver sample_lib \<rparr>"

definition sample_world :: World where
  "sample_world =
     \<lparr> w_trace = [], w_now = 0, w_iso = ''t0'', w_store = sample_store,
       w_sessions = [''a'' \<mapsto> 1], w_uuids = 0, w_writes = 0, w_saves = 0, w_atts = 0 \<rparr>"

definition sample_session :: "CodexAppServer option \<Rightarrow> CodexAppServer SessionActor" where
  "sample_session cx = session ''a'' 1 False 0 0 cx [] sample_world"

text \<open>The inputs of the sample, each at its time, and what they lead to.\<close>

fun feed :: "(instant \<times> input) list \<Rightarrow> CodexAppServer SessionActor \<Rightarrow> CodexAppServer SessionActor" where
  "feed [] a = a"
| "feed ((now, i) # is) a = feed is (fst (run_step sample_env i (at_time now ''t'' a)))"

definition sane :: "CodexAppServer SessionActor \<Rightarrow> bool" where
  "sane a \<longleftrightarrow> \<not> ac_panicked a \<and> \<not> ac_terminated a"

lemma feed_executes:
  assumes "executes sample_env a0 ls (Looping a)" "sane a" "w_now (ac_w a) \<le> now"
    and "\<not> snd (run_step sample_env i (at_time now ''t'' a))"
    and "\<not> ac_panicked (fst (run_step sample_env i (at_time now ''t'' a)))"
  shows "executes sample_env a0 (ls @ [LInput i]) (Looping (feed [(now, i)] a))"
proof -
  have "task_step sample_env (Looping a) (LInput i) (after_step (run_step sample_env i (at_time now ''t'' a)))"
    using assms(2,3) by (intro step_input) (simp_all add: sane_def)
  moreover have "after_step (run_step sample_env i (at_time now ''t'' a)) = Looping (feed [(now, i)] a)"
    using assms(4,5) by (simp add: after_step_def prod.case_eq_if)
  ultimately show ?thesis using assms(1) exec_step by metis
qed

lemma sample_start: "executes sample_env (sample_session cx) [] (Looping (sample_session cx))"
proof -
  have "run_start sample_env (sample_session cx) = sample_session cx"
    by (simp add: run_start_def sample_session_def session_def spawn_actor_def)
  then show ?thesis using exec_start [of sample_env "sample_session cx"] by simp
qed

lemma sample_env_fields:
  "en_float sample_env = sample_floats" "en_parse sample_env s = None" "en_uuid sample_env n = ''u''"
  "en_write sample_env n = WOk" "en_fs sample_env n = fs_ok" "en_att sample_env n = sample_att"
  "en_wait sample_env = Exited (Some 0)" "en_driver sample_env = codex_driver sample_lib"
  by (simp_all add: sample_env_def)

lemma sample_driver_fields:
  "dr_frame_user_turn (codex_driver L) = frame_user_turn"
  "dr_frame_interrupt (codex_driver L) = frame_interrupt"
  "dr_parse_line (codex_driver L) = parse_line L" "dr_is_ready (codex_driver L) = is_ready"
  by (simp_all add: codex_driver_def)

lemmas sample_defs = sample_env_fields sample_driver_fields sample_world_def sample_session_def
  session_def spawn_actor_def sample_store_def sample_meta_def fs_ok_def at_time_def sane_def

lemmas send_eval = run_step_def handle_send_message_def try_dispatch_def dispatch_user_def
  dispatch_ralph_def dispatch_internal_def start_user_turn_def write_user_to_stdin_def new_uuid_def
  build_user_payload_def set_pending_slash_def persist_and_emit_def emit_fx_def
  emit_state_quiet_meta persist_idle_running_def get_run_def get_run_raw_def store_op_def
  update_status_def with_meta_def save_meta_def now_of_def set_pending_slash_command_def Let_def

definition hello :: "(instant \<times> input) list" where
  "hello = [(5, InSend 7 ''hello'' [] [])]"

lemma str_trim_hello: "str_trim ''hello'' = ''hello''"
  by code_simp

lemma sample_hello:
  "ac_active_turn (feed hello (sample_session None)) =
     Some (user_turn 5 \<lparr> tk_seq = 0, tk_text = ''hello'', tk_attachments = [], tk_skills = [],
       tk_kind = NormalTurn 0, tk_turn_index = 0, tk_reply = 7 \<rparr>)
   \<and> sane (feed hello (sample_session None)) \<and> ac_queued_user (feed hello (sample_session None)) = []"
  by (simp add: hello_def sample_defs send_eval str_trim_hello)

lemma feed_one:
  assumes "executes sample_env a0 ls (Looping a)" "sane a" "w_now (ac_w a) \<le> now"
    and "\<not> snd (run_step sample_env i (at_time now ''t'' a))" "sane (feed [(now, i)] a)"
  shows "executes sample_env a0 (ls @ [LInput i]) (Looping (feed [(now, i)] a))"
  using feed_executes [OF assms(1-4)] assms(5) by (simp add: sane_def)

text \<open>A message is sent and the turn starts.\<close>

lemma hello_execution:
  "executes sample_env (sample_session None) [LInput (InSend 7 ''hello'' [] [])]
     (Looping (feed hello (sample_session None)))"
proof -
  have "sane (feed [(5, InSend 7 ''hello'' [] [])] (sample_session None))"
    using sample_hello by (simp only: hello_def)
  then show ?thesis
    using feed_one [OF sample_start, of None 5 "InSend 7 ''hello'' [] []"]
    by (simp add: hello_def sane_def) (simp add: sample_defs run_step_def)
qed

text \<open>The session ends: the mailbox is closed, or the child exits.\<close>

lemma hello_ended:
  "executes sample_env (sample_session None) [LInput (InSend 7 ''hello'' [] []), LInput InClosed]
     (Ended (cleanup (at_time 6 ''t'' (feed hello (sample_session None)))))"
proof -
  let ?a = "feed hello (sample_session None)"
  have s: "\<not> ac_terminated ?a" "\<not> ac_panicked ?a" using sample_hello by (simp_all add: sane_def)
  have "w_now (ac_w ?a) = 5" by (simp add: hello_def sample_defs send_eval str_trim_hello)
  then have "task_step sample_env (Looping ?a) (LInput InClosed)
      (after_step (run_step sample_env InClosed (at_time 6 ''t'' ?a)))"
    using s by (intro step_input) simp_all
  moreover have "after_step (run_step sample_env InClosed (at_time 6 ''t'' ?a))
      = Ended (cleanup (at_time 6 ''t'' ?a))"
    using s by (simp add: after_step_def run_step_def at_time_def)
  ultimately show ?thesis using exec_step [OF hello_execution] by fastforce
qed

text \<open>With the sample the first theorem says that the one message has been answered.\<close>

theorem messages_answered_once_witness:
  "answered (w_trace (ac_w (cleanup (at_time 6 ''t'' (feed hello (sample_session None)))))) = [7]"
  using messages_answered_once [OF hello_ended [unfolded sample_session_def]]
  by (simp add: accepted_def sample_session_def)


section \<open>One turn at a time\<close>

text \<open>
  C3: in every reachable state of a session, quarantine excludes an active turn, a terminated
  session has no waiting message, and the machinery of internal turns is never in use; the active
  turn is a turn of the user or of the Ralph loop, and a Ralph turn has its loop, which is running
  or about to be cancelled.
\<close>

theorem turn_gate_invariant:
  assumes "executes E (session i tag res ti ci cx ms w) ls (Looping a)"
  shows "(ac_quarantine_until_result a \<longrightarrow> ac_active_turn a = None)
    \<and> (ac_terminated a \<longrightarrow> ac_queued_user a = [])
    \<and> ac_queued_internal a = [] \<and> ac_must_run_internal_for_turn a = None
    \<and> ac_active_extractor a = None
    \<and> (\<forall>t. ac_active_turn a = Some t \<longrightarrow>
         (case at_origin t of
            OUser k \<Rightarrow> True
          | OInternal k \<Rightarrow> False
          | ORalph \<Rightarrow> is_some_and (ac_ralph_loop a)
              (\<lambda>r. rl_phase r = RalphRunning \<or> rl_phase r = CancelPending)))"
proof -
  from assms obtain v where v: "sim a v" "\<not> e_panicked v"
    "spec_run (allowed E (eng (session i tag res ti ci cx ms w))) (driver_evs E)
       (eng (session i tag res ti ci cx ms w)) (concat (map accepted ls)) v"
    by (rule session_looping)
  note inv = session_run_inv(1,2) [OF v(3,2)]
  have o: "case at_origin t of
            OUser k \<Rightarrow> True
          | OInternal k \<Rightarrow> False
          | ORalph \<Rightarrow> is_some_and (e_ralph v) (\<lambda>r. rl_phase r = RalphRunning \<or> rl_phase r = CancelPending)"
    if "e_turn v = Some t" for t
  proof (cases "at_origin t")
    case (OInternal k)
    with inv(1) that show ?thesis by (simp add: gate_ok_def is_internal_origin_def)
  next
    case ORalph
    with inv(2) that show ?thesis by (auto simp: ralph_ok_def)
  qed simp
  show ?thesis
    unfolding sim_fields(5,6,9,10,11) [OF v(1)]
    using sim_fields(15) [OF v(1)] inv(1) o by (simp add: gate_ok_def no_internal_def)
qed

theorem turn_gate_invariant_witness:
  "ac_active_extractor (feed hello (sample_session None)) = None"
  using turn_gate_invariant [OF hello_execution [unfolded sample_session_def]]
  by (simp add: sample_session_def)

section \<open>No work is forgotten\<close>

text \<open>
  C4: as long as the writes to the child succeed, the actor is never idle beside work that it
  could start: when no turn is active, the session is neither in quarantine nor terminated and
  the thread of a Codex session is open, no message waits and the Ralph loop is not running.
\<close>

theorem queue_never_stalls:
  assumes "executes E (session i tag res ti ci cx ms w) ls (Looping a)"
    and "\<forall>k. en_write E k = WOk"
    and "ac_active_turn a = None" "\<not> ac_quarantine_until_result a" "\<not> ac_terminated a"
    and "ac_codex a = None \<or> ac_codex_ready a"
  shows "ac_queued_user a = [] \<and> (\<forall>r. ac_ralph_loop a = Some r \<longrightarrow> rl_phase r \<noteq> RalphRunning)"
proof -
  from assms(1) obtain v where v: "sim a v" "\<not> e_panicked v"
    "spec_run (allowed E (eng (session i tag res ti ci cx ms w))) (driver_evs E)
       (eng (session i tag res ti ci cx ms w)) (concat (map accepted ls)) v"
    by (rule session_looping)
  have "allowed E (eng (session i tag res ti ci cx ms w)) = accepting"
    using assms(2) by (intro ext) (simp add: allowed_def writes_ok_def)
  with v(3) have "work_ok v" using work.run [OF _ session_inv(5) v(2)] by simp
  then show ?thesis
    using sim_fields(2,3,5,6,9,10,11) [OF v(1)] assms(3-6) by (auto simp: work_ok_def sp_gate_def)
qed

theorem queue_never_stalls_witness:
  "ac_queued_user (sample_session None) = []"
proof -
  have "\<forall>k. en_write sample_env k = WOk" by (simp add: sample_env_def)
  then show ?thesis
    using queue_never_stalls [OF sample_start [of None, unfolded sample_session_def]]
    by (simp add: sample_session_def)
qed

section \<open>Run states\<close>

text \<open>What the engine keeps until the session has ended.\<close>

lemma session_keeps:
  assumes "executes E (session i tag res ti ci cx ms w) ls t" "t = Looping a \<or> t = Ended a"
  shows "\<exists>v. sim a v \<and> states_ok (driver_evs E) v \<and> no_promise (driver_evs E) v
    \<and> (e_claude v \<longleftrightarrow> cx = None)"
  using assms(2)
proof
  assume "t = Looping a"
  with assms(1) obtain v where v: "sim a v" "\<not> e_panicked v"
    "spec_run (allowed E (eng (session i tag res ti ci cx ms w))) (driver_evs E)
       (eng (session i tag res ti ci cx ms w)) (concat (map accepted ls)) v"
    by (auto elim: session_looping)
  from v(1) session_run_inv(3,4) [OF v(3,2)] spec_run_open [OF v(3)] show ?thesis by auto
next
  assume "t = Ended a"
  with assms(1) obtain v u where v: "\<not> e_panicked v" "spec_close v u"
    "sim a (sp_fail_all ''Session cleanup'' (u\<lparr>e_open := False\<rparr>))"
    "spec_run (allowed E (eng (session i tag res ti ci cx ms w))) (driver_evs E)
       (eng (session i tag res ti ci cx ms w)) (concat (map accepted ls)) v"
    by (auto elim: session_ended)
  note inv = session_run_inv [OF v(4,1)]
  from spec_close_inv [OF spec_close_cleanup [OF v(2)] inv(1,3,4)] spec_run_open [OF v(4)] v(3)
  show ?thesis by (intro exI [of _ "sp_fail_all ''Session cleanup'' (u\<lparr>e_open := False\<rparr>)"]) simp
qed

text \<open>
  The contract of a protocol driver: its events belong to the run, and it leaves the run states,
  the user messages and the events of the Ralph loop to the actor.
\<close>

locale session_protocol =
  fixes D :: "'c driver"
  assumes events: "ev \<in> set (pl_events (fst (dr_parse_line D r l c))) \<Longrightarrow> driver_event r ev"
begin

lemma quiet_driver: "en_driver E = D \<Longrightarrow> quiet_events (driver_evs E)"
  using events by (auto simp: quiet_events_def driver_evs_def driver_event_def)

lemma reports_alternate:
  assumes "en_driver E = D" "executes E (session i tag res ti ci cx ms w) ls t"
    and "t = Looping a \<or> t = Ended a"
  shows "distinct_adj (mark_states (w_trace (ac_w a)))
    \<and> (mark_states (w_trace (ac_w a)) \<noteq> [] \<longrightarrow> last (mark_states (w_trace (ac_w a))) = ac_state a)"
proof -
  from session_keeps [OF assms(2,3)] obtain v where v: "sim a v" "states_ok (driver_evs E) v" by auto
  have "mark_states (e_marks v) = mark_states (w_trace (ac_w a))"
    using sim_fields(14) [OF v(1)] by (simp add: mark_states_marks [symmetric])
  with v(2) quiet_driver [OF assms(1)] sim_fields(13) [OF v(1)] show ?thesis by (simp add: states_ok_def)
qed

lemma promise_never_kept:
  assumes "en_driver E = D" "executes E (session i tag res ti ci cx ms w) ls t"
    and "t = Looping a \<or> t = Ended a"
  shows "Persisted (RalphComplete r CompletionPromise k) \<notin> set (w_trace (ac_w a))"
proof -
  from session_keeps [OF assms(2,3)] obtain v where v: "sim a v" "no_promise (driver_evs E) v" by auto
  then have "Persisted (RalphComplete r CompletionPromise k) \<notin> set (marks (ac_w a))"
    using sim_fields(14) [OF v(1)] quiet_driver [OF assms(1)] by (simp add: no_promise_def)
  then show ?thesis by (simp add: marks_def del: filter_loud_trace)
qed

end

text \<open>The driver of the Codex app server keeps the contract.\<close>

lemma codex_driver_events:
  assumes "ev \<in> set (pl_events (fst (dr_parse_line (codex_driver L) r l c)))"
  shows "driver_event r ev"
proof -
  have q: "driver_events r evs" if "server_request_events r m rid params = Some (k, evs)" for m rid params k evs
    using that
    by (auto simp: server_request_events_def approval_prompt_def ask_user_question_events_def
        elicitation_prompt_def driver_event_def Let_def split: if_splits)
  have n: "driver_events r (pl_events (fst (handle_notification L r m params c)))" for m params
    unfolding handle_notification_def
    by (simp add: empty_line_def driver_events_notification split: option.split)
  have "driver_events r (pl_events (fst (handle_message L r msg c)))" for msg
    using n q
    by (auto simp: handle_message_def handle_server_request_def handle_reply_def handle_ack_def
        empty_line_def Let_def split: option.split)
  then have "driver_events r (pl_events (fst (parse_line L r l c)))"
    by (simp add: parse_line_def empty_line_def Let_def split: option.split)
  with assms show ?thesis by (simp add: codex_driver_def driver_events_def list_all_iff)
qed

interpretation codex: session_protocol "codex_driver L" for L
  by unfold_locales (rule codex_driver_events)

text \<open>
  C7: a session, of the Claude CLI or of the Codex app server, never reports the same run state
  twice in a row, whatever the child prints and however the session ends, and the last reported
  state is the current one.
\<close>

theorem states_alternate:
  assumes "en_driver E = codex_driver L"
    and "executes E (session i tag res ti ci cx ms w) ls t"
    and "t = Looping a \<or> t = Ended a"
  shows "distinct_adj (mark_states (w_trace (ac_w a)))
    \<and> (mark_states (w_trace (ac_w a)) \<noteq> [] \<longrightarrow> last (mark_states (w_trace (ac_w a))) = ac_state a)"
  using assms by (rule codex.reports_alternate)

theorem states_alternate_witness:
  "distinct_adj (mark_states (w_trace (ac_w (cleanup (at_time 6 ''t'' (feed hello (sample_session None)))))))"
  using states_alternate [OF sample_env_fields(8) hello_ended [unfolded sample_session_def]]
  by (simp add: sample_session_def)

section \<open>Ralph loops\<close>

text \<open>
  C8: a Ralph loop that is still there stays below its bounds: fewer than three failures in a
  row, and fewer iterations than its maximum when it has one; a loop that waits for a retry has a
  time for it, and a paused loop was running or waiting.
\<close>

theorem ralph_bounds:
  assumes "executes E (session i tag res ti ci cx ms w) ls (Looping a)"
  shows "case ac_ralph_loop a of
      None \<Rightarrow> True
    | Some r \<Rightarrow>
        rl_consecutive_failures r < 3
        \<and> (rl_max_iterations r = 0 \<or> rl_iteration r < rl_max_iterations r)
        \<and> (case rl_phase r of
             WaitingRetry \<Rightarrow> rl_retry_after r \<noteq> None
           | PausedByUser p \<Rightarrow> p = RalphRunning \<or> p = WaitingRetry \<and> rl_retry_after r \<noteq> None
           | _ \<Rightarrow> True)"
proof -
  from assms obtain v where v: "sim a v" "\<not> e_panicked v"
    "spec_run (allowed E (eng (session i tag res ti ci cx ms w))) (driver_evs E)
       (eng (session i tag res ti ci cx ms w)) (concat (map accepted ls)) v"
    by (rule session_looping)
  have "loop_ok r" if "ac_ralph_loop a = Some r" for r
    using session_run_inv(2) [OF v(3,2)] sim_fields(11) [OF v(1)] that by (simp add: ralph_ok_def)
  then show ?thesis
    by (cases "ac_ralph_loop a")
      (auto simp: loop_ok_def phase_ok_def word_gt_0 split: RalphPhase.splits)
qed

text \<open>A sample: a Ralph loop of at most four iterations is started, and its first turn begins.\<close>

definition loop_input :: "(instant \<times> input) list" where
  "loop_input = [(5, InStartRalph 3 ''go'' 4 (Some ''DONE''))]"

lemmas ralph_eval = start_ralph_loop_def start_ralph_turn_def send_eval

lemma sample_loop:
  "sane (feed loop_input (sample_session cx))
   \<and> is_some_and (ac_ralph_loop (feed loop_input (sample_session cx)))
       (\<lambda>r. rl_max_iterations r = 4 \<and> rl_phase r = RalphRunning)"
  by (cases cx) (simp_all add: loop_input_def sample_defs ralph_eval)

lemma loop_execution:
  "executes sample_env (sample_session cx) [LInput (InStartRalph 3 ''go'' 4 (Some ''DONE''))]
     (Looping (feed loop_input (sample_session cx)))"
proof -
  have "sane (feed [(5, InStartRalph 3 ''go'' 4 (Some ''DONE''))] (sample_session cx))"
    using sample_loop by (simp only: loop_input_def)
  then show ?thesis
    using feed_one [OF sample_start, of cx 5 "InStartRalph 3 ''go'' 4 (Some ''DONE'')"]
    by (simp add: loop_input_def sane_def) (simp add: sample_defs run_step_def)
qed

theorem ralph_bounds_witness:
  "is_some_and (ac_ralph_loop (feed loop_input (sample_session None)))
     (\<lambda>r. rl_iteration r < rl_max_iterations r)"
  using ralph_bounds [OF loop_execution [of None, unfolded sample_session_def]] sample_loop [of None]
  by (auto simp: sample_session_def is_some_and_def split: option.splits)

text \<open>
  C18: a Ralph loop never ends by its completion promise, with either CLI: the texts in which the
  promise is searched are collected only in the branch for internal turns, so the reason
  \<open>completion_promise\<close> is never reported.
\<close>

theorem completion_promise_unreachable:
  assumes "en_driver E = codex_driver L"
    and "executes E (session i tag res ti ci cx ms w) ls t"
    and "t = Looping a \<or> t = Ended a"
  shows "Persisted (RalphComplete r CompletionPromise k) \<notin> set (w_trace (ac_w a))"
  using assms by (rule codex.promise_never_kept)

theorem completion_promise_unreachable_witness:
  "Persisted (RalphComplete ''a'' CompletionPromise 1)
     \<notin> set (w_trace (ac_w (feed loop_input (sample_session None))))"
  using completion_promise_unreachable [OF sample_env_fields(8) loop_execution [of None, unfolded sample_session_def]]
  by (simp add: sample_session_def)

text \<open>
  In a Codex session the Ralph loop never counts an iteration: the end of a turn does not
  reach \<open>ralph_on_turn_end\<close>, so the bound on the iterations has no effect.
\<close>

theorem codex_ralph_never_counts:
  assumes "executes E (session i tag res ti ci (Some c) ms w) ls (Looping a)"
  shows "case ac_ralph_loop a of None \<Rightarrow> True | Some r \<Rightarrow> rl_iteration r = 0"
proof -
  from assms obtain v where v: "sim a v" "\<not> e_panicked v"
    "spec_run (allowed E (eng (session i tag res ti ci (Some c) ms w))) (driver_evs E)
       (eng (session i tag res ti ci (Some c) ms w)) (concat (map accepted ls)) v"
    by (rule session_looping)
  have "\<not> e_claude v" using spec_run_open [OF v(3)] by simp
  with session_run_inv(2) [OF v(3,2)] sim_fields(11) [OF v(1)] show ?thesis
    by (simp add: ralph_ok_def split: option.split)
qed

theorem codex_ralph_never_counts_witness:
  "is_some_and (ac_ralph_loop (feed loop_input (sample_session (Some codex_new)))) (\<lambda>r. rl_iteration r = 0)"
  using codex_ralph_never_counts [OF loop_execution [of "Some codex_new", unfolded sample_session_def]]
    sample_loop [of "Some codex_new"]
  by (auto simp: sample_session_def is_some_and_def split: option.splits)

section \<open>Refinement and quarantine\<close>

text \<open>
  C2: the session actor refines the abstract engine of \<open>TurnSpec\<close>: every execution of the task is
  an execution of the engine that accepts the same messages in the same order and ends in the
  abstraction of the actor's state.
\<close>

theorem session_refines_engine:
  assumes "executes E (session i tag res ti ci cx ms w) ls (Looping a)"
  shows "spec_run (\<lambda>oc. writes_ok E \<longrightarrow> accepting oc) (driver_evs E)
    (eng (session i tag res ti ci cx ms w)) (concat (map accepted ls)) (eng a)"
proof -
  have "allowed E (eng (session i tag res ti ci cx ms w)) = (\<lambda>oc. writes_ok E \<longrightarrow> accepting oc)"
    by (intro ext) (simp add: allowed_def)
  with assms show ?thesis by (auto elim!: session_looping simp: sim_def)
qed

theorem session_refines_engine_witness:
  "spec_run (\<lambda>oc. writes_ok sample_env \<longrightarrow> accepting oc) (driver_evs sample_env)
     (eng (sample_session None)) [7] (eng (feed hello (sample_session None)))"
  using session_refines_engine [OF hello_execution [unfolded sample_session_def]]
  by (simp add: accepted_def sample_session_def)

text \<open>
  The quarantine of a Codex session is final: from the first timeout on, no step of the task
  leaves it and no turn is started, whatever the app server answers; only the end of the session
  is left.  (A Claude session leaves quarantine at the next turn boundary.)
\<close>

theorem codex_quarantine_final:
  assumes "executes E (session i tag res ti ci (Some c) ms w) ls (Looping a)"
    and "ac_quarantine_until_result a" "task_step E (Looping a) l (Looping b)"
  shows "ac_quarantine_until_result b \<and> ac_active_turn b = None"
proof -
  from assms(1) obtain v where v: "sim a v" "\<not> e_panicked v"
    "spec_run (allowed E (eng (session i tag res ti ci (Some c) ms w))) (driver_evs E)
       (eng (session i tag res ti ci (Some c) ms w)) (concat (map accepted ls)) v"
    by (rule session_looping)
  have c: "\<not> e_claude v" using spec_run_open [OF v(3)] by simp
  have g: "gate_ok v" using session_run_inv(1) [OF v(3,2)] .
  have "task_refines E v [] (Looping a)"
    using v(1,2) spec_run_nil by (auto simp: task_refines_def)
  from task_step_refines [OF assms(3) this g] obtain u where u: "sim b u" "\<not> e_panicked u"
    "spec_run (allowed E v) (driver_evs E) v (accepted l) u"
    by (auto simp: task_refines_def)
  have "e_quarantine u"
    using frozen.run [OF u(3) _ u(2)] c sim_fields(9) [OF v(1)] assms(2) by simp
  with messages.run [OF u(3) g u(2)] sim_fields(5,9) [OF u(1)] show ?thesis
    by (simp add: gate_ok_def)
qed

text \<open>A sample: a Codex turn starts and then shows no activity until its deadline.\<close>

definition codex_input :: "(instant \<times> input) list" where
  "codex_input = [(5, InSend 7 ''go'' [] []), (6, InLine ''ready'')]"

lemma str_trim_codex: "str_trim ''go'' = ''go''" "str_trim ''ready'' = ''ready''"
  by code_simp+

lemma sample_parse:
  "fst (run_step E (InLine l) a) = handle_stdout_line E l a"
  "ac_codex a = Some c \<Longrightarrow> handle_stdout_line E ''ready'' a = handle_codex_line E c ''ready'' a"
  "handle_codex_line sample_env k ''ready'' a =
     codex_open_gate sample_env (persist_thread_id sample_env ''t''
       (a\<lparr>ac_active_turn := fst (apply_activity_reset (now_of a) (ac_quarantine_until_result a)
            (ac_active_turn a)),
          ac_codex := Some (k\<lparr>ca_thread_id := Some ''t'', ca_phase := PhReady\<rparr>)\<rparr>))"
  by (simp_all add: run_step_def handle_stdout_line_def handle_codex_line_def sample_env_fields
      sample_driver_fields parse_line_def sample_lib_def ready_message_def handle_message_def
      handle_notification_def nested_id_def empty_line_def Let_def str_trim_codex)

lemma rename_first: "rename_loop (\<lambda>_. RenOk) 0 3 = Inr ()"
  by (simp add: eval_nat_numeral)

lemmas codex_eval = rename_first codex_open_gate_def apply_activity_reset_def codex_augmented_def
  user_turn_def write_json_line_def persist_thread_id_def is_ready_def frame_user_turn_def
  next_id_def codex_new_def is_some_and_def

definition waiting :: "CodexAppServer SessionActor \<Rightarrow> bool" where
  "waiting a \<longleftrightarrow>
     is_some_and (ac_active_turn a)
       (\<lambda>t. at_origin t = OUser (NormalTurn 0) \<and> at_hard_deadline t = 6 + USER_HARD_TIMEOUT)
     \<and> sane a \<and> \<not> ac_quarantine_until_result a \<and> \<not> ac_ralph_needs_dispatch a \<and> w_now (ac_w a) = 6"

lemma sample_codex: "waiting (feed codex_input (sample_session (Some codex_new)))"
proof -
  let ?a = "fst (run_step sample_env (InSend 7 ''go'' [] []) (at_time 5 ''t'' (sample_session (Some codex_new))))"
  have "waiting (handle_codex_line sample_env codex_new ''ready'' (at_time 6 ''t'' ?a))"
    apply (simp add: sample_defs send_eval str_trim_codex sample_parse)
    apply (simp add: waiting_def sample_defs send_eval codex_eval)
    done
  moreover have "ac_codex ?a = Some codex_new"
    by (simp add: sample_defs send_eval str_trim_codex)
  ultimately show ?thesis by (simp add: codex_input_def sample_parse at_time_def)
qed

lemma tick_quarantines:
  assumes "ac_active_turn a = Some t" "\<not> is_internal_origin (at_origin t)"
    "at_hard_deadline t \<le> now" "\<not> ac_quarantine_until_result a" "\<not> ac_ralph_needs_dispatch a"
  shows "ac_quarantine_until_result (fst (run_step E InTick (at_time now ts a)))
    \<and> \<not> snd (run_step E InTick (at_time now ts a)) \<and> ac_panicked (fst (run_step E InTick (at_time now ts a))) = ac_panicked a"
  using assms
  by (simp add: run_step_def handle_tick_def on_tick_timeout_def tick_turn_def at_time_def now_of_def enter_quarantine_def Let_def set_pending_slash_def)



lemma codex_execution:
  "executes sample_env (sample_session (Some codex_new)) [LInput (InSend 7 ''go'' [] []), LInput (InLine ''ready'')]
     (Looping (feed codex_input (sample_session (Some codex_new))))"
proof -
  let ?b = "feed [(5, InSend 7 ''go'' [] [])] (sample_session (Some codex_new))"
  have b: "sane ?b" "w_now (ac_w ?b) = 5"
    by (simp_all add: sample_defs send_eval str_trim_codex)
  have "executes sample_env (sample_session (Some codex_new)) [LInput (InSend 7 ''go'' [] [])] (Looping ?b)"
    using feed_one [OF sample_start, of "Some codex_new" 5 "InSend 7 ''go'' [] []"] b(1)
    by (simp add: sane_def) (simp add: sample_defs run_step_def)
  from feed_one [OF this b(1), of 6 "InLine ''ready''"] show ?thesis
    using sample_codex b(2) by (simp add: codex_input_def waiting_def) (simp add: run_step_def)
qed

text \<open>The tick after the deadline.\<close>

definition timed_out :: "CodexAppServer SessionActor" where
  "timed_out = fst (run_step sample_env InTick
     (at_time (6 + USER_HARD_TIMEOUT) ''t'' (feed codex_input (sample_session (Some codex_new)))))"

lemma timed_out:
  "executes sample_env (sample_session (Some codex_new))
     [LInput (InSend 7 ''go'' [] []), LInput (InLine ''ready''), LInput InTick] (Looping timed_out)
   \<and> ac_quarantine_until_result timed_out"
proof -
  let ?a = "feed codex_input (sample_session (Some codex_new))"
  obtain t where t: "ac_active_turn ?a = Some t" "at_origin t = OUser (NormalTurn 0)"
    "at_hard_deadline t = 6 + USER_HARD_TIMEOUT"
    using sample_codex by (auto simp: waiting_def is_some_and_def split: option.splits)
  have "\<not> is_internal_origin (at_origin t)" using t(2) by simp
  note q = tick_quarantines [OF t(1) this, of "6 + USER_HARD_TIMEOUT" sample_env "''t''"]
  have s: "sane ?a" "w_now (ac_w ?a) = 6" "\<not> ac_quarantine_until_result ?a" "\<not> ac_ralph_needs_dispatch ?a"
    using sample_codex by (simp_all add: waiting_def)
  have f: "feed [(6 + USER_HARD_TIMEOUT, InTick)] ?a = timed_out" by (simp add: timed_out_def)
  show ?thesis
    using q t(3) s feed_executes [OF codex_execution s(1), of "6 + USER_HARD_TIMEOUT" InTick] f
    by (simp add: timed_out_def sane_def)
qed

theorem codex_quarantine_final_witness:
  "ac_active_turn (timed_out\<lparr>ac_cancelled := True\<rparr>) = None"
  using codex_quarantine_final [OF timed_out [THEN conjunct1, unfolded sample_session_def]
      timed_out [THEN conjunct2] step_cancel]
  by simp

end
