(* ===== verification/SessionBehaviour.thy ===== *)
theory SessionBehaviour
  imports SessionProperties
begin

text \<open>
  What single operations of the session actor promise: the timeout clock ends a silent turn, an
  active turn is not disturbed by commands, a control request of the CLI is always shown or
  answered, and the cleanup leaves nothing behind.
\<close>

section \<open>The timeout clock\<close>

lemma fail_tickets_fields [simp]:
  "ac_state (fail_tickets r ts a) = ac_state a" "ac_queued_user (fail_tickets r ts a) = ac_queued_user a"
  "ac_control_waiters (fail_tickets r ts a) = ac_control_waiters a"
  "ac_shutdown_tx (fail_tickets r ts a) = ac_shutdown_tx a" "ac_run_id (fail_tickets r ts a) = ac_run_id a"
  "ac_tag (fail_tickets r ts a) = ac_tag a" "ac_stdin (fail_tickets r ts a) = ac_stdin a"
  "w_sessions (ac_w (fail_tickets r ts a)) = w_sessions (ac_w a)"
  "w_trace (ac_w (fail_tickets r ts a))
     = w_trace (ac_w a) @ map (\<lambda>t. SendReply (tk_reply t) (Inl r)) ts"
  by (induction ts arbitrary: a) (simp_all add: emit_fx_def)

lemma fail_all_fields [simp]:
  "ac_state (fail_all_pending_replies r a) = ac_state a"
  "ac_queued_user (fail_all_pending_replies r a) = []"
  "ac_control_waiters (fail_all_pending_replies r a) = ac_control_waiters a"
  "ac_shutdown_tx (fail_all_pending_replies r a) = ac_shutdown_tx a"
  "ac_run_id (fail_all_pending_replies r a) = ac_run_id a"
  "ac_tag (fail_all_pending_replies r a) = ac_tag a"
  "ac_stdin (fail_all_pending_replies r a) = ac_stdin a"
  "w_sessions (ac_w (fail_all_pending_replies r a)) = w_sessions (ac_w a)"
  "w_trace (ac_w (fail_all_pending_replies r a))
     = w_trace (ac_w a) @ map (\<lambda>t. SendReply (tk_reply t) (Inl r)) (ac_queued_user a)"
  by (simp_all add: fail_all_pending_replies_def)

lemma emit_state_fields [simp]:
  "ac_state (emit_state E s x e um a) = s"
  "ac_queued_user (emit_state E s x e um a) = ac_queued_user a"
  using emit_state_frame [of s a x e E um] by (auto elim!: statedE)

lemma tick_enters:
  assumes "ac_active_turn a = Some t" "\<not> is_internal_origin (at_origin t)"
    "at_hard_deadline t \<le> now_of a" "\<not> ac_quarantine_until_result a"
  shows "on_tick_timeout E a = enter_quarantine False a"
  using assms by (simp add: on_tick_timeout_def tick_turn_def Let_def)

lemma dispatch_in_quarantine:
  "ac_quarantine_until_result a \<Longrightarrow> try_dispatch E a = a"
  by (simp add: try_dispatch_def)

text \<open>A tick in quarantine: the interrupt, and after its deadline the end.\<close>

lemma tick_interrupts:
  assumes "ac_quarantine_until_result a" "ac_quarantine_deadline a = None"
    "\<not> ac_interrupt_sent_for_quarantine a"
  shows "ac_quarantine_until_result (on_tick_timeout E a)
    \<and> ac_quarantine_deadline (on_tick_timeout E a) = Some (now_of a + QUARANTINE_DEADLINE)
    \<and> ac_queued_user (on_tick_timeout E a) = ac_queued_user a"
proof -
  obtain w where w: "send_interrupt_to_cli E a = a\<lparr>ac_w := w\<rparr>" "quiet_w (ac_w a) w"
    using quiet_send_interrupt [of a E] by (rule quietE)
  then show ?thesis
    using assms by (simp add: on_tick_timeout_def tick_quarantine_def Let_def now_of_def quiet_w_def)
qed

lemma tick_kills:
  assumes "ac_quarantine_until_result a" "ac_quarantine_deadline a = Some d" "d \<le> now_of a"
  shows "ac_terminated (on_tick_timeout E a) \<and> ac_state (on_tick_timeout E a) = ''failed''
    \<and> ac_queued_user (on_tick_timeout E a) = []"
  using assms
  by (simp add: on_tick_timeout_def tick_quarantine_def quarantine_kill_def Let_def)

lemma handle_tick_quarantine:
  assumes "ac_quarantine_until_result (on_tick_timeout E a)"
  shows "handle_tick E a = (on_tick_timeout E a)\<lparr>ac_ralph_needs_dispatch := False\<rparr>
    \<or> handle_tick E a = on_tick_timeout E a"
  using assms by (auto simp: handle_tick_def Let_def dispatch_in_quarantine)

lemma tick_step:
  assumes "ac_quarantine_until_result (on_tick_timeout E (at_time n ts a))"
  obtains b where "fst (run_step E InTick (at_time n ts a)) = (on_tick_timeout E (at_time n ts a))\<lparr>ac_ralph_needs_dispatch := b\<rparr>"
proof -
  from handle_tick_quarantine [OF assms] show thesis
  proof
    assume "handle_tick E (at_time n ts a) = on_tick_timeout E (at_time n ts a)"
    then show thesis
      by (intro that [of "ac_ralph_needs_dispatch (on_tick_timeout E (at_time n ts a))"])
        (simp add: run_step_def)
  qed (auto intro: that simp: run_step_def)
qed
definition tick :: "'c env \<Rightarrow> instant \<Rightarrow> string \<Rightarrow> 'c SessionActor \<Rightarrow> 'c SessionActor" where
  "tick E n ts a = fst (run_step E InTick (at_time n ts a))"

fun ticks :: "'c env \<Rightarrow> (instant \<times> string) list \<Rightarrow> 'c SessionActor \<Rightarrow> 'c SessionActor" where
  "ticks E [] a = a"
| "ticks E ((n, ts) # ns) a = ticks E ns (tick E n ts a)"

text \<open>A tick that finds the interrupt sent and the deadline of the quarantine ahead does nothing.\<close>

lemma tick_waits:
  assumes "ac_quarantine_until_result a" "ac_interrupt_sent_for_quarantine a"
    "ac_quarantine_deadline a = Some d" "n < d"
  obtains x where "tick E n ts a = (at_time n ts a)\<lparr>ac_ralph_needs_dispatch := x\<rparr>"
proof -
  have "on_tick_timeout E (at_time n ts a) = at_time n ts a"
    using assms by (simp add: on_tick_timeout_def tick_quarantine_def at_time_def now_of_def)
  then show thesis using that tick_step [of E n ts a] assms(1) by (auto simp: tick_def at_time_def)
qed

lemma at_time_same: "at_time (w_now (ac_w a)) (w_iso (ac_w a)) a = a" "a\<lparr>ac_ralph_needs_dispatch := ac_ralph_needs_dispatch a\<rparr> = a"
proof -
  have "w\<lparr>w_now := w_now w, w_iso := w_iso w\<rparr> = w" for w :: World by (cases w) simp
  moreover have "b\<lparr>ac_w := ac_w b\<rparr> = b" for b :: "'c SessionActor" by (cases b) simp
  ultimately show "at_time (w_now (ac_w a)) (w_iso (ac_w a)) a = a" by (simp add: at_time_def)
  show "a\<lparr>ac_ralph_needs_dispatch := ac_ralph_needs_dispatch a\<rparr> = a" by (cases a) simp
qed

lemma ticks_wait:
  assumes "ac_quarantine_until_result a" "ac_interrupt_sent_for_quarantine a"
    "ac_quarantine_deadline a = Some d" "\<forall>(n, ts) \<in> set ns. n < d"
  obtains x n' ts' where "ticks E ns a = (at_time n' ts' a)\<lparr>ac_ralph_needs_dispatch := x\<rparr>"
  using assms
proof (induction ns arbitrary: a thesis)
  case Nil
  then show ?case
    by (intro Nil(1) [where n' = "w_now (ac_w a)" and ts' = "w_iso (ac_w a)" and x = "ac_ralph_needs_dispatch a"])
      (simp only: ticks.simps at_time_same)
next
  case (Cons m ns)
  obtain n ts where m: "m = (n, ts)" by (metis prod.collapse)
  have "n < d" using Cons.prems(5) m by simp
  from tick_waits [OF Cons.prems(2,3,4) this, where E = E and ts = ts] obtain x where
    x: "tick E n ts a = (at_time n ts a)\<lparr>ac_ralph_needs_dispatch := x\<rparr>" .
  obtain y n' ts' where "ticks E ns (tick E n ts a) = (at_time n' ts' (tick E n ts a))\<lparr>ac_ralph_needs_dispatch := y\<rparr>"
    by (rule Cons.IH [of "tick E n ts a"]) (use Cons.prems x in \<open>simp_all add: at_time_def\<close>)
  then show ?case using m x by (intro Cons.prems(1) [where n' = n' and ts' = ts' and x = y]) (simp add: at_time_def)
qed

text \<open>Whether the next line to the child is written, and the frame of the interrupt.\<close>

definition next_write_ok :: "'c env \<Rightarrow> 'c SessionActor \<Rightarrow> bool" where
  "next_write_ok E a \<longleftrightarrow>
     ac_stdin a \<and> (case en_write E (w_writes (ac_w a)) of WFail e \<Rightarrow> False | _ \<Rightarrow> True)"

definition interrupt_frame :: "'c env \<Rightarrow> 'c SessionActor \<Rightarrow> json" where
  "interrupt_frame E a =
     JObj [(''type'', JStr ''control_request''),
           (''request_id'', JStr (''ocv_qint_'' @ en_uuid E (w_uuids (ac_w a)))),
           (''request'', JObj [(''subtype'', JStr ''interrupt'')])]"

lemma interrupt_shape:
  obtains w where "send_interrupt_to_cli E a = a\<lparr>ac_w := w\<rparr>" "w_now w = w_now (ac_w a)"
    "w_trace w = w_trace (ac_w a) @ (if next_write_ok E a then [Wire (interrupt_frame E a)] else [])"
proof
  show "send_interrupt_to_cli E a = a\<lparr>ac_w := ac_w (send_interrupt_to_cli E a)\<rparr>"
    by (auto simp: send_interrupt_to_cli_def new_uuid_def write_json_line_def Let_def split: write_outcome.split)
  show "w_now (ac_w (send_interrupt_to_cli E a)) = w_now (ac_w a)"
    by (auto simp: send_interrupt_to_cli_def new_uuid_def write_json_line_def Let_def split: write_outcome.split)
  show "w_trace (ac_w (send_interrupt_to_cli E a))
      = w_trace (ac_w a) @ (if next_write_ok E a then [Wire (interrupt_frame E a)] else [])"
    by (auto simp: send_interrupt_to_cli_def new_uuid_def write_json_line_def Let_def next_write_ok_def
        interrupt_frame_def split: write_outcome.split)
qed

lemma store_op_trace [simp]:
  "w_trace (ac_w (snd (store_op E f a))) = w_trace (ac_w a)" "ac_queued_user (snd (store_op E f a)) = ac_queued_user a"
  by (simp_all add: store_op_def case_prod_beta)

lemma emit_failed_trace:
  "w_trace (ac_w (emit_state E ''failed'' x e um a)) = w_trace (ac_w a)
     @ (if ac_state a = ''failed'' then [] else [Persisted (RunState (ac_run_id a) ''failed'' x e)])"
  by (simp add: emit_state_def map_state_to_run_status_def persist_and_emit_def emit_fx_def Let_def)

lemma kill_trace:
  "w_trace (ac_w (quarantine_kill E a)) = w_trace (ac_w a)
     @ (if ac_child a then [Killed] else [])
     @ (if ac_state a = ''failed'' then []
        else [Persisted (RunState (ac_run_id a) ''failed'' None (Some (quarantine_error_msg a)))])
     @ map (\<lambda>t. SendReply (tk_reply t) (Inl ''Session hard timeout'')) (ac_queued_user a)"
proof -
  define a2 where "a2 = (if ac_child a then emit_fx Killed (set_pending_slash None a) else set_pending_slash None a)"
  have f: "w_trace (ac_w a2) = w_trace (ac_w a) @ (if ac_child a then [Killed] else [])" "ac_state a2 = ac_state a"
    "ac_run_id a2 = ac_run_id a" "ac_queued_user a2 = ac_queued_user a"
    "quarantine_error_msg a2 = quarantine_error_msg a"
    by (auto simp: a2_def set_pending_slash_def emit_fx_def quarantine_error_msg_def now_of_def
        intro!: option.case_cong)
  have "ac_child (set_pending_slash None a) = ac_child a" by (simp add: set_pending_slash_def)
  then have "quarantine_kill E a = (fail_all_pending_replies ''Session hard timeout''
      (emit_state E ''failed'' None (Some (quarantine_error_msg a2)) True a2))\<lparr>ac_terminated := True\<rparr>"
    by (simp add: quarantine_kill_def Let_def a2_def)
  then show ?thesis by (simp add: emit_failed_trace f)
qed

text \<open>
  C6: a turn of the user or of the Ralph loop on which nothing is heard until its hard deadline
  ends the session.  The first tick after the deadline ends the turn and puts the session into
  quarantine, without a word to anyone.  The next tick writes the interrupt to the child, if the child
  takes it.  The ticks before the deadline of the quarantine do nothing; the first one after it kills the
  child, reports the state \<open>failed\<close> once, and answers every waiting message, in order, with an error; the
  session is then terminated and the loop ends with the clean-up.
\<close>

theorem silent_turn_is_killed:
  assumes "ac_active_turn a = Some t" "\<not> is_internal_origin (at_origin t)"
    and "\<not> ac_quarantine_until_result a"
    and "at_hard_deadline t \<le> n1" "\<forall>(n, ts) \<in> set ns. n < n2 + QUARANTINE_DEADLINE" "n2 + QUARANTINE_DEADLINE \<le> n3"
    and "b1 = tick E n1 ts1 a" and "b2 = tick E n2 ts2 b1" and "b3 = tick E n3 ts3 (ticks E ns b2)"
  shows "ac_active_turn b1 = None \<and> ac_quarantine_until_result b1
    \<and> ac_queued_user b1 = ac_queued_user a \<and> w_trace (ac_w b1) = w_trace (ac_w a)
    \<and> ac_quarantine_until_result b2
    \<and> w_trace (ac_w b2) = w_trace (ac_w a) @ (if next_write_ok E a then [Wire (interrupt_frame E a)] else [])
    \<and> (\<exists>msg. w_trace (ac_w b3) = w_trace (ac_w b2)
         @ (if ac_child a then [Killed] else [])
         @ (if ac_state a = ''failed'' then [] else [Persisted (RunState (ac_run_id a) ''failed'' None (Some msg))])
         @ map (\<lambda>t. SendReply (tk_reply t) (Inl ''Session hard timeout'')) (ac_queued_user a))
    \<and> ac_terminated b3 \<and> ac_state b3 = ''failed'' \<and> ac_queued_user b3 = []
    \<and> task_step E (Looping b3) LTerminate (Ended (cleanup b3))"
proof -
  have e: "on_tick_timeout E (at_time n1 ts1 a) = enter_quarantine False (at_time n1 ts1 a)"
    using assms(1-4) by (intro tick_enters [of _ t]) (simp_all add: at_time_def now_of_def)
  obtain x where b1: "b1 = (enter_quarantine False (at_time n1 ts1 a))\<lparr>ac_ralph_needs_dispatch := x\<rparr>"
    using tick_step [of E n1 ts1 a] e assms(7) by (auto simp: enter_quarantine_def tick_def)
  let ?b = "at_time n2 ts2 b1"
  have q1: "ac_quarantine_until_result ?b" "ac_quarantine_deadline ?b = None" "\<not> ac_interrupt_sent_for_quarantine ?b"
    "ac_queued_user ?b = ac_queued_user a" "w_trace (ac_w ?b) = w_trace (ac_w a)" "w_now (ac_w ?b) = n2"
    "next_write_ok E ?b = next_write_ok E a" "interrupt_frame E ?b = interrupt_frame E a"
    "ac_child ?b = ac_child a" "ac_state ?b = ac_state a" "ac_run_id ?b = ac_run_id a"
    by (simp_all add: b1 enter_quarantine_def at_time_def set_pending_slash_def next_write_ok_def interrupt_frame_def)
  obtain w where w: "send_interrupt_to_cli E ?b = ?b\<lparr>ac_w := w\<rparr>" "w_now w = n2"
    "w_trace w = w_trace (ac_w a) @ (if next_write_ok E a then [Wire (interrupt_frame E a)] else [])"
    by (rule interrupt_shape [of E ?b]) (rule that; simp only: q1)
  have t2: "on_tick_timeout E ?b = ?b\<lparr>ac_w := w, ac_quarantine_deadline := Some (n2 + QUARANTINE_DEADLINE),
      ac_interrupt_sent_for_quarantine := True\<rparr>"
    using q1 w by (simp add: on_tick_timeout_def tick_quarantine_def now_of_def)
  then obtain y where b2: "b2 = ?b\<lparr>ac_w := w, ac_quarantine_deadline := Some (n2 + QUARANTINE_DEADLINE),
      ac_interrupt_sent_for_quarantine := True, ac_ralph_needs_dispatch := y\<rparr>"
    using tick_step [of E n2 ts2 b1] q1(1) assms(8) by (auto simp: tick_def)
  have b2_fields: "ac_quarantine_until_result b2" "ac_interrupt_sent_for_quarantine b2"
    "ac_quarantine_deadline b2 = Some (n2 + QUARANTINE_DEADLINE)" "ac_queued_user b2 = ac_queued_user a"
    "ac_child b2 = ac_child a" "ac_state b2 = ac_state a" "ac_run_id b2 = ac_run_id a" using b2 q1 by simp_all
  from ticks_wait [OF b2_fields(1-3) assms(5), where E = E] obtain z n' ts' where
    c: "ticks E ns b2 = (at_time n' ts' b2)\<lparr>ac_ralph_needs_dispatch := z\<rparr>" .
  let ?c = "at_time n3 ts3 (ticks E ns b2)"
  have qc: "ac_quarantine_until_result ?c" "ac_quarantine_deadline ?c = Some (n2 + QUARANTINE_DEADLINE)"
    "w_now (ac_w ?c) = n3" "w_trace (ac_w ?c) = w_trace (ac_w b2)" "ac_queued_user ?c = ac_queued_user a"
    "ac_child ?c = ac_child a" "ac_state ?c = ac_state a" "ac_run_id ?c = ac_run_id a"
    using b2_fields by (simp_all add: c at_time_def)
  have k: "on_tick_timeout E ?c = quarantine_kill E ?c"
    using qc(1-3) assms(6) by (simp add: on_tick_timeout_def tick_quarantine_def now_of_def)
  have k': "ac_terminated (quarantine_kill E ?c)" "ac_state (quarantine_kill E ?c) = ''failed''"
    "ac_queued_user (quarantine_kill E ?c) = []"
    using tick_kills [OF qc(1,2), of E] assms(6) qc(3) k by (simp_all add: now_of_def)
  have "b3 = quarantine_kill E ?c \<or> b3 = (quarantine_kill E ?c)\<lparr>ac_ralph_needs_dispatch := False\<rparr>"
    using assms(9) k'(1) by (auto simp: tick_def run_step_def handle_tick_def k Let_def try_dispatch_def)
  then have b3: "ac_terminated b3" "ac_state b3 = ''failed''" "ac_queued_user b3 = []"
    "w_trace (ac_w b3) = w_trace (ac_w (quarantine_kill E ?c))" using k' by auto
  have tr: "w_trace (ac_w b3) = w_trace (ac_w b2) @ (if ac_child a then [Killed] else [])
      @ (if ac_state a = ''failed'' then []
         else [Persisted (RunState (ac_run_id a) ''failed'' None (Some (quarantine_error_msg ?c)))])
      @ map (\<lambda>t. SendReply (tk_reply t) (Inl ''Session hard timeout'')) (ac_queued_user a)"
    unfolding b3(4) kill_trace qc(4-8) ..
  have "ac_active_turn b1 = None" "ac_quarantine_until_result b1" "ac_queued_user b1 = ac_queued_user a"
    "w_trace (ac_w b1) = w_trace (ac_w a)"
    by (simp_all add: b1 enter_quarantine_def at_time_def set_pending_slash_def)
  moreover have "ac_quarantine_until_result b2" "w_trace (ac_w b2) = w_trace (ac_w a)
      @ (if next_write_ok E a then [Wire (interrupt_frame E a)] else [])" using b2 q1(1) w(3) by simp_all
  ultimately show ?thesis using tr b3(1-3) task_step.step_terminate [OF b3(1)] by (intro conjI exI) assumption+
qed

definition sample_waiting :: "CodexAppServer SessionActor" where
  "sample_waiting = feed codex_input (sample_session (Some codex_new))"

theorem silent_turn_is_killed_witness:
  "ac_state (tick sample_env (8 + USER_HARD_TIMEOUT + QUARANTINE_DEADLINE) ''t''
     (ticks sample_env [(8 + USER_HARD_TIMEOUT, ''t'')] (tick sample_env (7 + USER_HARD_TIMEOUT) ''t''
       (tick sample_env (6 + USER_HARD_TIMEOUT) ''t'' sample_waiting)))) = ''failed''"
proof -
  obtain t where t: "ac_active_turn sample_waiting = Some t"
    "\<not> is_internal_origin (at_origin t)" "at_hard_deadline t = 6 + USER_HARD_TIMEOUT"
    "\<not> ac_quarantine_until_result sample_waiting"
    using sample_codex by (auto simp: sample_waiting_def waiting_def is_some_and_def split: option.splits)
  have "at_hard_deadline t \<le> 6 + USER_HARD_TIMEOUT" using t(3) by simp
  moreover have "\<forall>(n, ts) \<in> set [(8 + USER_HARD_TIMEOUT, ''t'')]. n < 7 + USER_HARD_TIMEOUT + QUARANTINE_DEADLINE"
    by (simp add: QUARANTINE_DEADLINE_def)
  moreover have "7 + USER_HARD_TIMEOUT + QUARANTINE_DEADLINE \<le> 8 + USER_HARD_TIMEOUT + QUARANTINE_DEADLINE"
    by simp
  ultimately show ?thesis
    using silent_turn_is_killed [OF t(1,2,4) _ _ _ refl refl refl, of "6 + USER_HARD_TIMEOUT"
        "[(8 + USER_HARD_TIMEOUT, ''t'')]" "7 + USER_HARD_TIMEOUT" "8 + USER_HARD_TIMEOUT + QUARANTINE_DEADLINE"
        sample_env "''t''" "''t''" "''t''"] by blast
qed

section \<open>Commands do not disturb a turn\<close>

lemma turn_kept:
  assumes "ac_active_turn a = Some t" "sim a (eng a)"
    and "case i of InLine l \<Rightarrow> False | InEof \<Rightarrow> False | InTick \<Rightarrow> False | _ \<Rightarrow> True"
  shows "ac_active_turn (fst (run_step E i a)) = Some t \<and> ac_panicked (fst (run_step E i a)) = ac_panicked a"
proof -
  note s = assms(2)
  have keep: "ac_active_turn b = Some t \<and> ac_panicked b = ac_panicked a" if "sim b (eng a)" for b
    using sim_fields(5,12) [OF that] assms(1) by simp
  show ?thesis
  proof (cases i)
    case (InSend n tx atts sk)
    then show ?thesis using assms(1)
      by (auto simp: run_step_def handle_send_message_def try_dispatch_def emit_fx_def Let_def)
  next
    case (InStartRalph n p m c)
    then show ?thesis using assms(1)
      by (auto simp: run_step_def start_ralph_loop_def try_dispatch_def emit_fx_def persist_and_emit_def Let_def)
  next
    case (InCancelRalph n)
    then show ?thesis using assms(1)
      by (auto simp: run_step_def cancel_ralph_loop_def emit_ralph_complete_def emit_fx_def
          persist_and_emit_def Let_def split: option.split)
  next
    case (InStop n)
    then show ?thesis using assms(1) by (simp add: run_step_def handle_stop_def emit_fx_def Let_def)
  next
    case InCancelled
    then show ?thesis using assms(1) by (simp add: run_step_def handle_stop_def emit_fx_def Let_def)
  next
    case (InControl n req)
    obtain r c where c: "handle_send_control_async E n req a = (r, c)" by fastforce
    then have "sim (emit_fx (ReplyControl n r) c) (eng a)"
      using sim_send_control [OF s, of E n req] by (intro sim_fx_quiet) simp_all
    then show ?thesis using InControl c keep by (simp add: run_step_def)
  next
    case (InPermission n rid r)
    have "sim (reply_with n (handle_respond_permission E rid r a)) (eng a)"
      unfolding handle_respond_permission_def
      by (intro sim_reply_with sim_interactive_response sim_clear_pending s)
    then show ?thesis using InPermission keep by (simp add: run_step_def)
  next
    case (InCancelControl n rid)
    have "sim (reply_with n (handle_cancel_control_request E rid (clear_pending_interactive_request rid a))) (eng a)"
      unfolding handle_cancel_control_request_def
      by (intro sim_reply_with sim_write sim_clear_pending s)
    then show ?thesis using InCancelControl keep by (simp add: run_step_def)
  next
    case (InHook n rid r)
    have "sim (reply_with n (write_control_response E rid r (clear_pending_interactive_request rid a))) (eng a)"
      by (intro sim_reply_with sim_write sim_clear_pending s)
    then show ?thesis using InHook keep by (simp add: run_step_def)
  next
    case (InElicitation n rid r)
    have "sim (reply_with n (write_interactive_response E KElicitation rid r
        (clear_pending_interactive_request rid a))) (eng a)"
      by (intro sim_reply_with sim_interactive_response sim_clear_pending s)
    then show ?thesis using InElicitation keep by (simp add: run_step_def)
  next
    case (InUserInput n rid r)
    have "sim (reply_with n (write_interactive_response E KUserInput rid r
        (clear_pending_interactive_request rid a))) (eng a)"
      by (intro sim_reply_with sim_interactive_response sim_clear_pending s)
    then show ?thesis using InUserInput keep by (simp add: run_step_def)
  next
    case (InErrLine line)
    then show ?thesis using keep [OF sim_stderr [OF s]] by (simp add: run_step_def)
  qed (use assms in \<open>simp_all add: run_step_def\<close>)
qed

lemma sim_at_time: "sim a (eng a) \<Longrightarrow> sim (at_time n ts a) (eng (at_time n ts a))"
  by (simp add: sim_def at_time_def no_internal_def)

text \<open>The steps that end the session, and those by which the child or the clock may end a turn.\<close>

definition ends_session :: "label \<Rightarrow> bool" where
  "ends_session l \<longleftrightarrow>
     (case l of
        LInput i \<Rightarrow> (case i of InStop n \<Rightarrow> True | InCancelled \<Rightarrow> True | InClosed \<Rightarrow> True | _ \<Rightarrow> False)
      | LTerminate \<Rightarrow> True
      | _ \<Rightarrow> False)"

definition from_child_or_clock :: "label \<Rightarrow> bool" where
  "from_child_or_clock l \<longleftrightarrow>
     (case l of
        LInput i \<Rightarrow> (case i of InLine x \<Rightarrow> True | InEof \<Rightarrow> True | InTick \<Rightarrow> True | _ \<Rightarrow> False)
      | _ \<Rightarrow> False)"

text \<open>
  C20: in every execution of a session, a step that is not a line or the end of the child's output
  nor a tick of the clock leaves an active turn exactly as it is, with its origin and its
  deadlines: no message, control request, answer, Ralph command or line of stderr ends it or
  puts another in its place.  The exceptions are the steps that end the whole session: stopping it,
  the cancelled token, the closed mailbox and the end of a terminated session; these always end it.
\<close>

theorem turn_undisturbed:
  assumes "executes E (session i tag res ti ci cx ms w) ls (Looping a)"
    and "ac_active_turn a = Some t" "task_step E (Looping a) l t'" "\<not> from_child_or_clock l"
  shows "if ends_session l then \<exists>b. t' = Ended b else \<exists>b. t' = Looping b \<and> ac_active_turn b = Some t"
proof -
  from assms(1) obtain v where v: "sim a v" "\<not> e_panicked v" by (rule session_looping)
  have s: "sim a (eng a)" using v(1) by (simp add: sim_def)
  have p: "\<not> ac_panicked a" using sim_fields(12) [OF v(1)] v(2) by simp
  have "(\<exists>x now ts. l = LInput x \<and> t' = after_step (run_step E x (at_time now ts a)))
      \<or> l = LTerminate \<and> t' = Ended (cleanup a)
      \<or> l \<noteq> LTerminate \<and> (\<forall>x. l \<noteq> LInput x) \<and> (\<exists>b. t' = Looping b \<and> ac_active_turn b = ac_active_turn a)"
    using assms(3) by (rule task_step_LoopingE) (simp_all, blast)
  then consider
      (input) x now ts where "l = LInput x" "t' = after_step (run_step E x (at_time now ts a))"
    | (terminate) "l = LTerminate" "t' = Ended (cleanup a)"
    | (other) b where "l \<noteq> LTerminate" "\<forall>x. l \<noteq> LInput x" "t' = Looping b" "ac_active_turn b = ac_active_turn a"
    by blast
  then show ?thesis
  proof cases
    case input
    have c: "case x of InLine l \<Rightarrow> False | InEof \<Rightarrow> False | InTick \<Rightarrow> False | _ \<Rightarrow> True"
      using assms(4) input(1) by (cases x) (simp_all add: from_child_or_clock_def)
    have "ac_active_turn (at_time now ts a) = Some t" using assms(2) by (simp add: at_time_def)
    note k = turn_kept [OF this sim_at_time [OF s] c, of E]
    have "snd (run_step E x (at_time now ts a)) = ends_session l"
      using c input(1) by (cases x) (simp_all add: run_step_def ends_session_def case_prod_beta)
    then show ?thesis using k p input(2) by (auto simp: after_step_def case_prod_beta at_time_def)
  next
    case other
    then show ?thesis using assms(2) by (cases l) (simp_all add: ends_session_def)
  qed (simp add: ends_session_def)
qed

theorem turn_undisturbed_witness:
  "\<exists>t. ac_active_turn sample_waiting = Some t
     \<and> (\<exists>b. after_step (run_step sample_env (InCancelRalph 9) (at_time 6 ''t'' sample_waiting)) = Looping b
          \<and> ac_active_turn b = Some t)
     \<and> (\<exists>b. after_step (run_step sample_env (InStop 9) (at_time 6 ''t'' sample_waiting)) = Ended b)"
proof -
  obtain t where t: "ac_active_turn sample_waiting = Some t" and now: "w_now (ac_w sample_waiting) = 6"
    and s: "sane sample_waiting"
    using sample_codex by (auto simp: sample_waiting_def waiting_def is_some_and_def split: option.splits)
  have "\<not> ac_terminated sample_waiting" "w_now (ac_w sample_waiting) \<le> 6" using s now by (simp_all add: sane_def)
  from step_input [OF this] have step: "task_step sample_env (Looping sample_waiting) (LInput x)
      (after_step (run_step sample_env x (at_time 6 ''t'' sample_waiting)))" for x .
  note u = turn_undisturbed [OF codex_execution [unfolded sample_session_def, folded sample_session_def [of "Some codex_new"],
        folded sample_waiting_def, unfolded sample_session_def] t step]
  show ?thesis using t u [of "InCancelRalph 9"] u [of "InStop 9"]
    by (simp add: ends_session_def from_child_or_clock_def)
qed

section \<open>Control requests of the CLI\<close>







definition wires :: "effect list \<Rightarrow> json list" where
  "wires es = List.map_filter (\<lambda>e. case e of Wire j \<Rightarrow> Some j | _ \<Rightarrow> None) es"

lemma wires_simps [simp]:
  "wires [] = []" "wires (es @ fs) = wires es @ wires fs" "wires (Wire j # es) = j # wires es"
  "wires (Persisted ev # es) = wires es" "wires (RealtimeEvent s ev # es) = wires es"
  by (simp_all add: wires_def List.map_filter_def)


lemma emit_write_ok [simp]: "next_write_ok E (persist_and_emit ev a) = next_write_ok E a"
  by (simp add: next_write_ok_def persist_and_emit_def emit_fx_def)

lemma persist_fields [simp]:
  "w_trace (ac_w (persist_and_emit ev a)) = w_trace (ac_w a) @ [Persisted ev]"
  "ac_pending_interactive_request (persist_and_emit ev a) = ac_pending_interactive_request a"
  by (simp_all add: persist_and_emit_def emit_fx_def)

lemma set_pending_fields [simp]:
  "w_trace (ac_w (set_pending_interactive rid k d a)) = w_trace (ac_w a)"
  "map_option pr_request_id (ac_pending_interactive_request (set_pending_interactive rid k d a)) = Some rid"
  by (simp_all add: set_pending_interactive_def)







section \<open>The end of a session\<close>

lemma drop_waiters_fields [simp]:
  "w_trace (ac_w (drop_waiters ns a)) = w_trace (ac_w a) @ map DropWaiter ns"
  "w_sessions (ac_w (drop_waiters ns a)) = w_sessions (ac_w a)"
  "ac_control_waiters (drop_waiters ns a) = ac_control_waiters a"
  "ac_run_id (drop_waiters ns a) = ac_run_id a" "ac_tag (drop_waiters ns a) = ac_tag a"
  "ac_stdin (drop_waiters ns a) = ac_stdin a" "ac_queued_user (drop_waiters ns a) = ac_queued_user a"
  "ac_shutdown_tx (drop_waiters ns a) = ac_shutdown_tx a"
  by (induction ns arbitrary: a) (simp_all add: emit_fx_def)

text \<open>
  The cleanup leaves nothing behind: it fails the waiting messages, drops every control
  waiter, fires the shutdown signal once, in this order and nothing else; the input of the child is
  closed, and the entry in the session map is removed exactly when it is this actor's.
\<close>

theorem cleanup_complete:
  "w_trace (ac_w (cleanup a)) =
     w_trace (ac_w a)
       @ map (\<lambda>t. SendReply (tk_reply t) (Inl ''Session cleanup'')) (ac_queued_user a)
       @ map (\<lambda>w. DropWaiter (snd w)) (ac_control_waiters a)
       @ (if ac_shutdown_tx a then [Shutdown] else [])
   \<and> w_sessions (ac_w (cleanup a)) =
       (if w_sessions (ac_w a) (ac_run_id a) = Some (ac_tag a)
        then (w_sessions (ac_w a))(ac_run_id a := None) else w_sessions (ac_w a))
   \<and> ac_queued_user (cleanup a) = [] \<and> ac_control_waiters (cleanup a) = []
   \<and> \<not> ac_stdin (cleanup a) \<and> \<not> ac_shutdown_tx (cleanup a)"
  by (simp add: cleanup_def remove_session_def emit_fx_def Let_def comp_def)

section \<open>A stale error\<close>

text \<open>
  The state in which a turn has ended with an error result: the protocol remembers the subtype,
  and the run is in the store.
\<close>

definition erred :: "string \<Rightarrow> 'c SessionActor \<Rightarrow> bool" where
  "erred s a \<longleftrightarrow>
     ac_codex a = None \<and> ac_child a \<and> \<not> ac_pending_interrupt a
     \<and> ps_got_result_event (ac_protocol a) \<and> ps_result_subtype (ac_protocol a) = Some s
     \<and> is_some_and (w_store (ac_w a) (ac_run_id a)) (\<lambda>m. rm_id m = ac_run_id a \<and> rm_deleted_at m = None)"

text \<open>A file system on which every write succeeds.\<close>

definition fs_good :: "'c env \<Rightarrow> bool" where
  "fs_good E \<longleftrightarrow> (\<forall>k. en_fs E k = fs_ok)"

lemma with_meta_good:
  assumes "fs_good E" "is_some_and (st i) (\<lambda>m. rm_id m = i \<and> rm_deleted_at m = None)"
    and "\<forall>m. \<exists>m'. f m = Inr m' \<and> rm_id m' = rm_id m \<and> rm_deleted_at m' = rm_deleted_at m"
  shows "\<exists>m m'. st i = Some m \<and> f m = Inr m' \<and> rm_id m' = i \<and> rm_deleted_at m' = None
    \<and> with_meta (en_fs E k) i f st = (Inr (), st(i \<mapsto> m'))"
proof -
  obtain m where m: "st i = Some m" "rm_id m = i" "rm_deleted_at m = None"
    using assms(2) by (auto simp: is_some_and_def split: option.splits)
  obtain m' where m': "f m = Inr m'" "rm_id m' = rm_id m" "rm_deleted_at m' = rm_deleted_at m"
    using assms(3) by blast
  from rename_first have "with_meta (en_fs E k) i f st = (Inr (), st(i \<mapsto> m'))"
    using m m' assms(1)
    by (simp add: with_meta_def get_run_def get_run_raw_def save_meta_def fs_good_def fs_ok_def)
  with m m' show ?thesis by (intro exI conjI) simp_all
qed

text \<open>An update of the store keeps the run in it.\<close>

lemma erred_store:
  assumes "fs_good E" "erred s a"
    and "\<forall>m. \<exists>m'. f m = Inr m' \<and> rm_id m' = rm_id m \<and> rm_deleted_at m' = rm_deleted_at m"
  shows "\<exists>w m m'. store_op E (\<lambda>io. with_meta io (ac_run_id a) f) a = (Inr (), a\<lparr>ac_w := w\<rparr>)
    \<and> erred s (a\<lparr>ac_w := w\<rparr>) \<and> f m = Inr m' \<and> w_store w (ac_run_id a) = Some m'"
proof -
  have "is_some_and (w_store (ac_w a) (ac_run_id a)) (\<lambda>m. rm_id m = ac_run_id a \<and> rm_deleted_at m = None)"
    using assms(2) by (simp add: erred_def)
  from with_meta_good [where st = "w_store (ac_w a)" and i = "ac_run_id a" and f = f
      and k = "w_saves (ac_w a)", OF assms(1) this assms(3)]
  obtain m m' where
    m: "f m = Inr m'" "rm_id m' = ac_run_id a" "rm_deleted_at m' = None"
    "with_meta (en_fs E (w_saves (ac_w a))) (ac_run_id a) f (w_store (ac_w a))
       = (Inr (), (w_store (ac_w a))(ac_run_id a \<mapsto> m'))"
    by (elim exE conjE)
  show ?thesis
    by (intro exI [of _ "(ac_w a)\<lparr>w_store := (w_store (ac_w a))(ac_run_id a \<mapsto> m'),
        w_saves := Suc (w_saves (ac_w a))\<rparr>"] exI [of _ m] exI [of _ m'] conjI)
      (use m assms(2) in \<open>simp_all add: store_op_def erred_def\<close>)
qed

lemma erred_emit: "erred s (emit_fx e a) = erred s a" "erred s (persist_and_emit ev a) = erred s a"
  by (simp_all add: erred_def emit_fx_def persist_and_emit_def)

lemma erred_idle_running:
  assumes "fs_good E" "erred s a"
  shows "erred s (persist_idle_running E target a)"
proof -
  let ?f = "\<lambda>m. Inr (status_update (w_iso (ac_w a)) target None None m)"
  have "\<forall>m. \<exists>m'. ?f m = (Inr m' :: string + RunMeta) \<and> rm_id m' = rm_id m
      \<and> rm_deleted_at m' = rm_deleted_at m"
    by (simp add: status_update_def)
  from erred_store [OF assms this] obtain w where
    w: "store_op E (\<lambda>io. with_meta io (ac_run_id a) ?f) a = (Inr (), a\<lparr>ac_w := w\<rparr>)"
    "erred s (a\<lparr>ac_w := w\<rparr>)" by (elim exE conjE)
  have u: "update_status io t i target None None
      = with_meta io i (\<lambda>m. Inr (status_update t target None None m))" for io t i
    by (intro ext) (simp add: update_status_def)
  show ?thesis
  proof (cases "get_run (w_store (ac_w a)) (ac_run_id a)")
    case (Some m)
    have "erred s (case store_op E (\<lambda>io. update_status io (w_iso (ac_w a)) (ac_run_id a) target None None) a of
        (Inl e, a') \<Rightarrow> a' | (Inr u, a') \<Rightarrow> emit_fx (RealtimeJson x y) a')" for x y
      unfolding u w(1) by (simp add: erred_emit w(2))
    then show ?thesis using assms(2) by (simp only: persist_idle_running_def Some option.case split: if_split) simp
  qed (use assms(2) in \<open>simp add: persist_idle_running_def\<close>)
qed

lemma erred_write:
  assumes "erred s a"
  shows "erred s (snd (write_user_to_stdin E tx atts skills a))"
  using assms
  by (auto simp: write_user_to_stdin_def erred_def new_uuid_def Let_def
      split: option.split write_outcome.split)

lemma erred_start:
  assumes "fs_good E" "erred s a"
  shows "erred s (start_user_turn E tk a)"
proof -
  define a1 where "a1 = (case tk_kind tk of
      SlashTurn command \<Rightarrow> set_pending_slash (Some command) a | NormalTurn i \<Rightarrow> set_pending_slash None a)"
  obtain r b where w: "write_user_to_stdin E (tk_text tk) (tk_attachments tk) (tk_skills tk) a1 = (r, b)"
    by fastforce
  have "erred s a1"
    using assms(2)
    by (simp add: a1_def erred_def set_pending_slash_def set_pending_slash_command_def
        split: UserTurnKind.split)
  from erred_write [OF this, of E "tk_text tk" "tk_attachments tk" "tk_skills tk"] w have b: "erred s b"
    by simp
  have e: "erred s (emit_state E ''running'' None None False c)" if "erred s c" for c
    using that by (auto simp: emit_state_quiet_meta erred_emit) (simp add: erred_def)
  have p: "erred s (c\<lparr>ac_panicked := True\<rparr>) = erred s c"
    "erred s (c\<lparr>ac_active_turn := t\<rparr>) = erred s c" for c t
    by (simp_all add: erred_def)
  have "erred s (persist_idle_running E Running (emit_state E ''running'' None None False (persist_and_emit ev b)))" for ev
    using b by (intro erred_idle_running assms(1) e) (simp add: erred_emit)
  with b show ?thesis
    by (simp add: start_user_turn_def a1_def [symmetric] w Let_def erred_emit p
        split: option.split sum.split)
qed

lemma finish_idle:
  assumes "ac_queued_user a = []" "no_internal a" "ac_ralph_loop a = None"
  shows "ac_w (finish_turn E st er t a) = ac_w a \<and> (erred s (finish_turn E st er t a) \<longleftrightarrow> erred s a)
    \<and> ac_queued_user (finish_turn E st er t a) = []
    \<and> ac_run_id (finish_turn E st er t a) = ac_run_id a"
proof -
  have "try_dispatch E b = b" if "ac_queued_user b = []" "ac_queued_internal b = []"
    "ac_must_run_internal_for_turn b = None" "ac_ralph_loop b = None" for b
    using that
    by (simp add: try_dispatch_def dispatch_user_def dispatch_ralph_def dispatch_internal_def)
  then show ?thesis using assms
    by (simp add: finish_turn_def Let_def on_user_turn_finished_def set_pending_slash_def
        ralph_on_turn_end_def no_internal_def erred_def set_pending_slash_command_def
        split: TurnOrigin.split UserTurnKind.split)
qed

lemma idle_running_world: "\<exists>w. persist_idle_running E target a = a\<lparr>ac_w := w\<rparr>"
  using quiet_persist_idle_running [of a E target] by (auto simp: quiet_def)

text \<open>The idle state of a turn that succeeds persists the error of an earlier one.\<close>

lemma stale_idle:
  assumes "fs_good E" "erred s a" "starts_with s ''error''"
    and "ac_queued_user a = []" "no_internal a" "ac_ralph_loop a = None"
  shows "erred s (route_run_state E ''idle'' None None a)
    \<and> ac_queued_user (route_run_state E ''idle'' None None a) = []
    \<and> is_some_and (w_store (ac_w (route_run_state E ''idle'' None None a))
         (ac_run_id (route_run_state E ''idle'' None None a))) (\<lambda>m. rm_result_subtype m = Some s)"
proof -
  define b where "b = persist_idle_running E Idle (emit_state E ''idle'' None None False a)"
  have "erred s (emit_state E ''idle'' None None False a)"
    using assms(2) by (auto simp: emit_state_quiet_meta erred_emit) (simp add: erred_def)
  then have b: "erred s b" unfolding b_def by (intro erred_idle_running assms)
  obtain w0 where w0: "b = (emit_state E ''idle'' None None False a)\<lparr>ac_w := w0\<rparr>"
    using idle_running_world b_def by metis
  then have q: "ac_queued_user b = []" "no_internal b" "ac_ralph_loop b = None"
    using assms(4-6)
    by (auto simp: emit_state_quiet_meta persist_and_emit_def emit_fx_def)
  let ?f = "\<lambda>m. Inr (m\<lparr>rm_error_message := None,
      rm_result_subtype := ps_result_subtype (ac_protocol b)\<rparr>) :: string + RunMeta"
  have "\<forall>m. \<exists>m'. ?f m = (Inr m' :: string + RunMeta) \<and> rm_id m' = rm_id m
      \<and> rm_deleted_at m' = rm_deleted_at m" by simp
  from erred_store [OF assms(1) b this] obtain w m m' where
    w: "store_op E (\<lambda>io. with_meta io (ac_run_id b) ?f) b = (Inr (), b\<lparr>ac_w := w\<rparr>)"
    "erred s (b\<lparr>ac_w := w\<rparr>)" "?f m = Inr m'" "w_store w (ac_run_id b) = Some m'"
    by (elim exE conjE)
  have sub: "ps_result_subtype (ac_protocol b) = Some s" using b by (simp add: erred_def)
  have "persist_result_error io i er st
      = with_meta io i (\<lambda>m. Inr (m\<lparr>rm_error_message := er, rm_result_subtype := st\<rparr>))" for io i er st
    by (intro ext) (simp add: persist_result_error_def)
  then have p: "persist_error E None b = b\<lparr>ac_w := w\<rparr>"
    unfolding persist_error_def using w(1) by simp
  have m': "rm_result_subtype m' = Some s" using w(3) sub by auto
  have ni: "\<not> ac_pending_interrupt a" using assms(2) by (simp add: erred_def)
  have r: "route_run_state E ''idle'' None None a =
      (case ac_active_turn (b\<lparr>ac_w := w\<rparr>) of None \<Rightarrow> b\<lparr>ac_w := w\<rparr>
       | Some t \<Rightarrow> finish_turn E ''idle'' None t (b\<lparr>ac_w := w\<rparr>))"
    using ni sub assms(3)
    by (simp add: route_run_state_def is_boundary_state_def b_def [symmetric] p Let_def
        split: option.split)
  have "ac_queued_user (b\<lparr>ac_w := w\<rparr>) = []" "no_internal (b\<lparr>ac_w := w\<rparr>)" "ac_ralph_loop (b\<lparr>ac_w := w\<rparr>) = None"
    using q by simp_all
  note f = finish_idle [OF this]
  show ?thesis using r f w(2,4) m' q by (auto split: option.split)
qed

text \<open>
  C16: an error result is never forgotten without an interrupt.  The start of a new turn keeps
  the error subtype of the earlier turn, so that the idle state of a new, successful turn writes it
  to the metadata again; when the child then exits with code 0, the run is marked as failed.
\<close>

theorem stale_error_fails_run:
  assumes "fs_good E" "erred s a" "starts_with s ''error''" "en_wait E = Exited (Some 0)"
    and "ac_queued_user a = []" "no_internal a" "ac_ralph_loop a = None"
    and "b = handle_eof E (route_run_state E ''idle'' None None a)"
  shows "erred s (start_user_turn E tk a)
    \<and> is_some_and (w_store (ac_w b) (ac_run_id b))
         (\<lambda>m. rm_status m = Failed \<and> rm_exit_code m = Some 0)"
proof (intro conjI)
  show "erred s (start_user_turn E tk a)" using assms(1,2) by (rule erred_start)
  define c where "c = route_run_state E ''idle'' None None a"
  from stale_idle [OF assms(1-3,5-7)] have c: "erred s c" "ac_queued_user c = []"
    "is_some_and (w_store (ac_w c) (ac_run_id c)) (\<lambda>m. rm_result_subtype m = Some s)"
    by (simp_all add: c_def)
  define d where "d = (fail_all_pending_replies ''Session ended'' c)
    \<lparr>ac_active_turn := None, ac_active_extractor := None, ac_quarantine_until_result := False\<rparr>"
  have d: "erred s d" "w_store (ac_w d) = w_store (ac_w c)" "ac_run_id d = ac_run_id c"
    using c by (simp_all add: d_def fail_all_pending_replies_def erred_def)
  have "wait_exit_code E c = Some 0" using c(1) assms(4) by (simp add: wait_exit_code_def erred_def)
  then have b: "b = finalize_meta E (Some 0) d"
    using d(1) assms(8) by (simp add: handle_eof_def c_def [symmetric] d_def [symmetric] Let_def erred_def)
  let ?f = "\<lambda>m. Inr (finalized_meta (w_iso (ac_w d)) (Some 0) m) :: string + RunMeta"
  have f: "\<forall>m. \<exists>m'. ?f m = (Inr m' :: string + RunMeta) \<and> rm_id m' = rm_id m
      \<and> rm_deleted_at m' = rm_deleted_at m"
    by (simp add: finalized_meta_def Let_def)
  have i: "is_some_and (w_store (ac_w d) (ac_run_id d)) (\<lambda>m. rm_id m = ac_run_id d \<and> rm_deleted_at m = None)"
    using d(1) by (simp add: erred_def)
  from with_meta_good [where st = "w_store (ac_w d)" and i = "ac_run_id d" and f = ?f
      and k = "w_saves (ac_w d)", OF assms(1) i f]
  obtain m m' where m: "w_store (ac_w d) (ac_run_id d) = Some m" "?f m = Inr m'"
    "with_meta (en_fs E (w_saves (ac_w d))) (ac_run_id d) ?f (w_store (ac_w d))
       = (Inr (), (w_store (ac_w d))(ac_run_id d \<mapsto> m'))"
    by (elim exE conjE)
  have "rm_result_subtype m = Some s" using c(3) d(2,3) m(1) by simp
  then have "rm_status m' = Failed" "rm_exit_code m' = Some 0"
    using m(2) assms(3) by (auto simp: finalized_meta_def Let_def)
  then show "is_some_and (w_store (ac_w b) (ac_run_id b))
      (\<lambda>m. rm_status m = Failed \<and> rm_exit_code m = Some 0)"
    using m(3) by (simp add: b finalize_meta_def store_op_def)
qed

definition sample_erred :: "CodexAppServer SessionActor" where
  "sample_erred =
     (sample_session None)\<lparr>ac_protocol := (protocol_new False)
        \<lparr>ps_got_result_event := True, ps_result_subtype := Some ''error_during_execution''\<rparr>\<rparr>"

theorem stale_error_fails_run_witness:
  "is_some_and (w_store (ac_w (handle_eof sample_env (route_run_state sample_env ''idle'' None None sample_erred)))
     (ac_run_id (handle_eof sample_env (route_run_state sample_env ''idle'' None None sample_erred))))
     (\<lambda>m. rm_status m = Failed \<and> rm_exit_code m = Some 0)"
proof -
  have "erred ''error_during_execution'' sample_erred"
    by (simp add: erred_def sample_erred_def sample_session_def session_def spawn_actor_def
        sample_world_def sample_store_def sample_meta_def)
  moreover have "fs_good sample_env" "en_wait sample_env = Exited (Some 0)"
    by (simp_all add: fs_good_def sample_env_fields)
  moreover have "starts_with ''error_during_execution'' ''error''" by (simp add: starts_with_def)
  moreover have "ac_queued_user sample_erred = []" "no_internal sample_erred" "ac_ralph_loop sample_erred = None"
    by (simp_all add: sample_erred_def sample_session_def no_internal_def session_def spawn_actor_def)
  ultimately show ?thesis using stale_error_fails_run [where tk = undefined] by blast
qed

end
