(* ===== verification/CodexRequests.thy ===== *)
theory CodexRequests
  imports CodexAppServer
begin

text \<open>
  What the driver of the Codex app server guarantees over a whole session: the ids of its requests
  are fresh, a reply reaches the caller that waits for it and only that one, a question of the
  server is answered once and with its own id, and the defaults of the start are sent with the
  first turn only.  A session of the driver is a list of calls, in the order the actor makes them.
\<close>

section \<open>Calls of the driver\<close>

text \<open>The operations whose caller waits for the reply.\<close>

datatype tracked =
    TrCompact
  | TrRollback u64
  | TrFork
  | TrGoalSet "string option" "string option" "u64 option"
  | TrGoalGet
  | TrGoalClear
  | TrMcpStatus
  | TrSkills
  | TrFeatures
  | TrModels

fun tracked_frame :: "tracked \<Rightarrow> string \<Rightarrow> CodexAppServer \<Rightarrow> json list \<times> CodexAppServer" where
  "tracked_frame TrCompact rid = frame_compact rid"
| "tracked_frame (TrRollback n) rid = frame_rollback rid n"
| "tracked_frame TrFork rid = frame_fork rid"
| "tracked_frame (TrGoalSet objective status budget) rid = frame_goal_set rid objective status budget"
| "tracked_frame TrGoalGet rid = frame_goal_get rid"
| "tracked_frame TrGoalClear rid = frame_goal_clear rid"
| "tracked_frame TrMcpStatus rid = frame_mcp_status rid"
| "tracked_frame TrSkills rid = frame_skills_list rid"
| "tracked_frame TrFeatures rid = frame_experimental_feature_list rid"
| "tracked_frame TrModels rid = frame_model_list rid"

lemma tracked_frame_eq:
  obtains m x where "tracked_frame t rid = frame_tracked rid m x"
  by (cases t) (auto simp: fun_eq_iff frame_compact_def frame_rollback_def frame_fork_def
      frame_goal_set_def frame_goal_get_def frame_goal_clear_def frame_mcp_status_def
      frame_skills_list_def frame_experimental_feature_list_def frame_model_list_def)

datatype codex_op =
    CTurn string "string list" "CodexSkillRef list" CodexTurnOverrides
  | CInterrupt
  | CSteer string
  | CTracked tracked string
  | CAnswer PendingKind string json
  | CLine string

text \<open>The frames a call writes, what it tells the actor, and the state it leaves.\<close>

fun codex_call :: "codex_lib \<Rightarrow> string \<Rightarrow> codex_op \<Rightarrow> CodexAppServer
    \<Rightarrow> (json list \<times> ParsedLine) \<times> CodexAppServer" where
  "codex_call L r (CTurn t ps sks ov) c = (case frame_user_turn t ps sks ov c of (fs, c') \<Rightarrow> ((fs, empty_line), c'))"
| "codex_call L r CInterrupt c = (case frame_interrupt c of (fs, c') \<Rightarrow> ((fs, empty_line), c'))"
| "codex_call L r (CSteer t) c = (case frame_steer t c of (fs, c') \<Rightarrow> ((fs, empty_line), c'))"
| "codex_call L r (CTracked t rid) c = (case tracked_frame t rid c of (fs, c') \<Rightarrow> ((fs, empty_line), c'))"
| "codex_call L r (CAnswer k rid v) c = (case frame_response k rid v c of (fs, c') \<Rightarrow> ((fs, empty_line), c'))"
| "codex_call L r (CLine l) c = (case parse_line L r l c of (p, c') \<Rightarrow> (([], p), c'))"

fun codex_calls :: "codex_lib \<Rightarrow> string \<Rightarrow> codex_op list \<Rightarrow> CodexAppServer
    \<Rightarrow> (json list \<times> ParsedLine) list \<times> CodexAppServer" where
  "codex_calls L r [] c = ([], c)"
| "codex_calls L r (k # ks) c =
     (case codex_call L r k c of
        (o1, c1) \<Rightarrow> (case codex_calls L r ks c1 of (os, c2) \<Rightarrow> (o1 # os, c2)))"

lemma codex_calls_append:
  "codex_calls L r (ks @ ls) c =
     (case codex_calls L r ks c of
        (os, c1) \<Rightarrow> (case codex_calls L r ls c1 of (os', c2) \<Rightarrow> (os @ os', c2)))"
  by (induction ks arbitrary: c) (simp_all split: prod.split)

text \<open>The message on a line, and whether it is a reply and with which id.\<close>

definition line_message :: "codex_lib \<Rightarrow> string \<Rightarrow> json option" where
  "line_message L line = (if str_trim line = [] then None else cl_parse L (str_trim line))"

definition reply_of :: "codex_lib \<Rightarrow> string \<Rightarrow> (json \<times> i64) option" where
  "reply_of L line =
     Option.bind (line_message L line)
       (\<lambda>msg. if get_str msg ''method'' = None
              then map_option (Pair msg) (Option.bind (j_get msg ''id'') as_i64) else None)"

text \<open>The ids of the requests among the frames written.\<close>

definition frame_id :: "json \<Rightarrow> i64 option" where
  "frame_id f = (if j_get f ''method'' = None then None else Option.bind (j_get f ''id'') as_i64)"

definition request_ids :: "(json list \<times> ParsedLine) list \<Rightarrow> i64 list" where
  "request_ids os = List.map_filter frame_id (concat (map fst os))"

section \<open>One call\<close>

lemma as_i64_json_i64 [simp]: "as_i64 (json_i64 n) = Some n"
proof -
  have s: "sint n = (uint n + 2 ^ 63) mod 2 ^ 64 - 2 ^ 63"
    by (simp add: sint_uint signed_take_bit_eq_take_bit_shift take_bit_eq_mod)
  have "unat n < 2 ^ 63" if "0 \<le> sint n"
  proof (rule ccontr)
    assume "\<not> unat n < 2 ^ 63"
    then have "int (2 ^ 63) \<le> int (unat n)" by (simp only: of_nat_le_iff not_less)
    then have l: "2 ^ 63 \<le> uint n" by (simp only: uint_nat [symmetric] of_nat_power of_nat_numeral)
    moreover have "uint n < 2 ^ 64" using uint_bounded [of n] by simp
    ultimately have "(uint n + 2 ^ 63) mod 2 ^ 64 = uint n - 2 ^ 63"
      by (simp add: mod_pos_geq)
    with s that l \<open>uint n < 2 ^ 64\<close> show False by simp
  qed
  then show ?thesis by (simp add: json_i64_def)
qed

lemma frame_id_request [simp]: "frame_id (rpc_request i m params) = Some i"
  by (simp add: frame_id_def rpc_request_def)

text \<open>
  A call that writes a request uses the next id and moves on by one; any other call leaves the
  counter alone.
\<close>

definition takes_ids :: "CodexAppServer \<Rightarrow> json list \<Rightarrow> CodexAppServer \<Rightarrow> bool" where
  "takes_ids c fs c' \<longleftrightarrow>
     List.map_filter frame_id fs = [] \<and> ca_next_client_id c' = ca_next_client_id c
     \<or> List.map_filter frame_id fs = [ca_next_client_id c]
       \<and> ca_next_client_id c' = ca_next_client_id c + 1"

lemma takes_ids_request:
  "takes_ids c [rpc_request (ca_next_client_id c) m ps] c'
     \<longleftrightarrow> ca_next_client_id c' = ca_next_client_id c + 1"
  "takes_ids c [] c' \<longleftrightarrow> ca_next_client_id c' = ca_next_client_id c"
  "takes_ids c [JObj [(''jsonrpc'', v), (''id'', w), (''result'', x)]] c'
     \<longleftrightarrow> ca_next_client_id c' = ca_next_client_id c"
  by (simp_all add: takes_ids_def List.map_filter_simps frame_id_def [of "JObj _"] get_str_def)

lemma takes_ids_frames:
  "frame_user_turn t ps sks ov c = (fs, c') \<Longrightarrow> takes_ids c fs c'"
  "frame_interrupt c = (fs, c') \<Longrightarrow> takes_ids c fs c'"
  "frame_steer t c = (fs, c') \<Longrightarrow> takes_ids c fs c'"
  "frame_tracked rid m x c = (fs, c') \<Longrightarrow> takes_ids c fs c'"
  "frame_response k rid v c = (fs, c') \<Longrightarrow> takes_ids c fs c'"
  by (auto simp: takes_ids_request frame_user_turn_def frame_interrupt_def frame_steer_def
      frame_tracked_def frame_response_def next_id_def split: option.splits)

lemma parse_line_message:
  "parse_line L r l c =
     (case line_message L l of None \<Rightarrow> (empty_line, c) | Some msg \<Rightarrow> handle_message L r msg c)"
  by (simp add: parse_line_def line_message_def Let_def)

text \<open>The tables, the counter and the defaults of the start are not touched by a notification.\<close>

definition keeps_requests :: "CodexAppServer \<Rightarrow> CodexAppServer \<Rightarrow> bool" where
  "keeps_requests c c' \<longleftrightarrow>
     ca_next_client_id c' = ca_next_client_id c \<and> ca_add_dirs c' = ca_add_dirs c
     \<and> ca_startup_overrides c' = ca_startup_overrides c
     \<and> ca_pending_startup_replay c' = ca_pending_startup_replay c"

lemma notification_keeps:
  "keeps_requests c (snd (handle_notification L r m ps c))"
  "ca_pending (snd (handle_notification L r m ps c)) = ca_pending c"
  "ca_client_waiters (snd (handle_notification L r m ps c)) = ca_client_waiters c"
  "pl_control_response (fst (handle_notification L r m ps c)) = None"
  "pl_interactive (fst (handle_notification L r m ps c)) = None"
  by (auto simp: handle_notification_def keeps_requests_def empty_line_def split: option.split)

lemma request_keeps:
  "keeps_requests c (snd (handle_server_request L r m msg c))"
  "ca_client_waiters (snd (handle_server_request L r m msg c)) = ca_client_waiters c"
  "pl_control_response (fst (handle_server_request L r m msg c)) = None"
  by (auto simp: handle_server_request_def keeps_requests_def empty_line_def Let_def
      split: option.split)

lemma ack_keeps:
  "keeps_requests c (snd (handle_ack msg c))"
  "ca_pending (snd (handle_ack msg c)) = ca_pending c"
  "ca_client_waiters (snd (handle_ack msg c)) = ca_client_waiters c"
  "pl_control_response (fst (handle_ack msg c)) = None"
  "pl_interactive (fst (handle_ack msg c)) = None"
  by (auto simp: handle_ack_def keeps_requests_def empty_line_def split: option.split)

lemma hm_remove_absent: "map_of m k = None \<Longrightarrow> hm_remove k m = m"
  by (induction m) (auto simp: hm_remove_def split: if_splits)

text \<open>A reply removes the waiter with its id, if there is one, and answers it.\<close>

lemma reply_keeps:
  "keeps_requests c (snd (handle_reply msg c))"
  "ca_pending (snd (handle_reply msg c)) = ca_pending c"
  "pl_interactive (fst (handle_reply msg c)) = None"
  by (auto simp: handle_reply_def ack_keeps split: option.split)
    (auto simp: keeps_requests_def empty_line_def)

lemma reply_waiters:
  "ca_client_waiters (snd (handle_reply msg c)) =
     (case Option.bind (j_get msg ''id'') as_i64 of
        None \<Rightarrow> ca_client_waiters c | Some i \<Rightarrow> hm_remove i (ca_client_waiters c))"
  "pl_control_response (fst (handle_reply msg c)) =
     (case Option.bind (j_get msg ''id'') as_i64 of
        None \<Rightarrow> None
      | Some i \<Rightarrow> map_option (\<lambda>rid. (rid, reply_value msg)) (map_of (ca_client_waiters c) i))"
  by (auto simp: handle_reply_def ack_keeps hm_remove_absent split: option.split)

lemma line_keeps: "keeps_requests c (snd (parse_line L r l c))"
proof -
  have "keeps_requests c c" by (simp add: keeps_requests_def)
  then show ?thesis
    by (auto simp: parse_line_message handle_message_def notification_keeps request_keeps reply_keeps
        split: option.split)
qed

lemma line_waiters:
  "ca_client_waiters (snd (parse_line L r l c)) =
     (case reply_of L l of
        None \<Rightarrow> ca_client_waiters c | Some (msg, i) \<Rightarrow> hm_remove i (ca_client_waiters c))"
  "pl_control_response (fst (parse_line L r l c)) =
     (case reply_of L l of
        None \<Rightarrow> None
      | Some (msg, i) \<Rightarrow> map_option (\<lambda>rid. (rid, reply_value msg)) (map_of (ca_client_waiters c) i))"
  by (auto simp: parse_line_message handle_message_def reply_of_def notification_keeps request_keeps
      reply_waiters empty_line_def split: option.split)

lemma takes_ids_call:
  assumes "codex_call L r k c = ((fs, p), c')"
  shows "takes_ids c fs c'"
proof (cases k)
  case (CTracked t rid)
  obtain m x where "tracked_frame t rid = frame_tracked rid m x" by (rule tracked_frame_eq)
  with CTracked assms show ?thesis by (auto intro: takes_ids_frames split: prod.splits)
next
  case (CLine l)
  with assms line_keeps [of c L r l] show ?thesis
    by (auto simp: takes_ids_request keeps_requests_def split: prod.splits)
qed (use assms in \<open>auto intro: takes_ids_frames split: prod.splits\<close>)

section \<open>Fresh ids\<close>

lemma request_ids_simps [simp]:
  "request_ids [] = []"
  "request_ids (((fs, p)) # os) = List.map_filter frame_id fs @ request_ids os"
  by (simp_all add: request_ids_def List.map_filter_def)

lemma request_ids_from:
  assumes "codex_calls L r ks c = (os, c')" and "ca_next_client_id c = of_nat n"
  shows "request_ids os = map of_nat [n..<n + length (request_ids os)]
    \<and> ca_next_client_id c' = of_nat (n + length (request_ids os))
    \<and> length (request_ids os) \<le> length ks"
  using assms
proof (induction ks arbitrary: c os n)
  case (Cons k ks)
  obtain fs p c1 where k: "codex_call L r k c = ((fs, p), c1)" by (metis surj_pair)
  obtain os1 where ks: "codex_calls L r ks c1 = (os1, c')" and os: "os = (fs, p) # os1"
    using Cons.prems(1) k by (auto split: prod.splits)
  from takes_ids_call [OF k] show ?case
    unfolding takes_ids_def
  proof
    assume f: "List.map_filter frame_id fs = [] \<and> ca_next_client_id c1 = ca_next_client_id c"
    with Cons.IH [OF ks, of n] Cons.prems(2) show ?thesis by (simp add: os)
  next
    assume f: "List.map_filter frame_id fs = [ca_next_client_id c]
      \<and> ca_next_client_id c1 = ca_next_client_id c + 1"
    have n: "ca_next_client_id c1 = of_nat (Suc n)" using f Cons.prems(2) by simp
    let ?m = "length (request_ids os1)"
    have "map of_nat [n..<n + Suc ?m] = of_nat n # map (of_nat :: nat \<Rightarrow> i64) [Suc n..<Suc n + ?m]"
      by (simp add: upt_conv_Cons del: upt_Suc)
    with Cons.IH [OF ks n] f Cons.prems(2) show ?thesis by (simp add: os del: upt_Suc)
  qed
qed simp

lemma of_nat_i64_inj: "inj_on (of_nat :: nat \<Rightarrow> i64) {..<2 ^ 64}"
proof (rule inj_onI)
  fix m n :: nat
  assume b: "m \<in> {..<2 ^ 64}" "n \<in> {..<2 ^ 64}" and e: "(of_nat m :: i64) = of_nat n"
  have "unat (of_nat m :: i64) = unat (of_nat n :: i64)" using e by simp
  then show "m = n" using b by (simp add: unat_of_nat)
qed

text \<open>
  Over a whole session of the driver the requests it writes carry the consecutive ids 3, 4, 5,
  and so on, in the order they are written.  Up to 2 to the 64 minus 3 of them no id is used twice
  and none is that of the handshake (1 and 2), so a reply determines its request.
\<close>

theorem request_ids_fresh:
  assumes "codex_calls L r ks codex_new = (os, c)"
  shows "request_ids os = map of_nat [3..<3 + length (request_ids os)]
    \<and> (length ks \<le> 2 ^ 64 - 3 \<longrightarrow> distinct (1 # 2 # request_ids os))"
proof -
  let ?m = "length (request_ids os)"
  from request_ids_from [OF assms, of 3] have
    ids: "request_ids os = map of_nat [3..<3 + ?m]" and m: "?m \<le> length ks"
    by (simp_all add: codex_new_def)
  have "distinct (1 # 2 # request_ids os)" if "length ks \<le> 2 ^ 64 - 3"
  proof -
    have "set [1, 2] \<union> {3..<3 + ?m} \<subseteq> {..<2 ^ 64 :: nat}" using m that by auto
    moreover have "distinct ([1, 2] @ [3..<3 + ?m])" by simp
    moreover have "set ([1, 2] @ [3..<3 + ?m]) = set [1, 2] \<union> {3..<3 + ?m}" by auto
    ultimately have "distinct (map (of_nat :: nat \<Rightarrow> i64) ([1, 2] @ [3..<3 + ?m]))"
      by (metis distinct_map inj_on_subset of_nat_i64_inj)
    also have "map of_nat ([1, 2] @ [3..<3 + ?m]) = 1 # 2 # request_ids os"
      by (subst ids) simp
    finally show ?thesis .
  qed
  with ids show ?thesis by blast
qed

section \<open>Replies\<close>

text \<open>Whether one of the calls is the reply with the id \<open>i\<close>.\<close>

fun is_reply :: "codex_lib \<Rightarrow> i64 \<Rightarrow> codex_op \<Rightarrow> bool" where
  "is_reply L i (CLine l) = (case reply_of L l of None \<Rightarrow> False | Some (msg, j) \<Rightarrow> j = i)"
| "is_reply L i _ = False"

lemma call_waiters:
  assumes "codex_call L r k c = ((fs, p), c')" "i \<noteq> ca_next_client_id c"
  shows "map_of (ca_client_waiters c') i =
    (if is_reply L i k then None else map_of (ca_client_waiters c) i)"
proof (cases k)
  case (CTracked t rid)
  obtain m x where "tracked_frame t rid = frame_tracked rid m x" by (rule tracked_frame_eq)
  with CTracked assms show ?thesis
    by (auto simp: frame_tracked_def next_id_def split: option.splits)
next
  case (CLine l)
  then have "c' = snd (parse_line L r l c)" using assms by (auto split: prod.splits)
  then show ?thesis by (auto simp: CLine line_waiters split: option.split)
qed (use assms in \<open>auto simp: frame_user_turn_def frame_interrupt_def frame_steer_def next_id_def
    frame_response_def split: option.splits\<close>)

lemma calls_waiters:
  assumes "codex_calls L r ks c = (os, c')" "ca_next_client_id c = of_nat n"
    and "j < n" "n + length ks \<le> 2 ^ 64"
  shows "map_of (ca_client_waiters c') (of_nat j) =
    (if list_ex (is_reply L (of_nat j)) ks then None else map_of (ca_client_waiters c) (of_nat j))"
  using assms
proof (induction ks arbitrary: c os n)
  case (Cons k ks)
  obtain fs p c1 where k: "codex_call L r k c = ((fs, p), c1)" by (metis surj_pair)
  obtain os1 where ks: "codex_calls L r ks c1 = (os1, c')"
    using Cons.prems(1) k by (auto split: prod.splits)
  have "(of_nat j :: i64) \<noteq> of_nat n"
    using inj_onD [OF of_nat_i64_inj, of j n] Cons.prems(3,4) by auto
  note w = call_waiters [OF k, of "of_nat j", folded Cons.prems(2), OF this [folded Cons.prems(2)]]
  obtain n1 where "ca_next_client_id c1 = of_nat n1" "n \<le> n1" "n1 \<le> Suc n"
    using takes_ids_call [OF k] Cons.prems(2) unfolding takes_ids_def
    by (metis Suc_n_not_le_n le_cases of_nat_Suc add.commute)
  with Cons.IH [OF ks, of n1] Cons.prems(3,4) w show ?case by simp
qed simp

lemma tracked_call:
  assumes "codex_call L r (CTracked t rid) c = (([f], p), c')" "frame_id f = Some i"
  shows "i = ca_next_client_id c" "ca_next_client_id c' = i + 1"
    "map_of (ca_client_waiters c') i = Some rid"
proof -
  obtain m x where "tracked_frame t rid = frame_tracked rid m x" by (rule tracked_frame_eq)
  with assms show "i = ca_next_client_id c" "ca_next_client_id c' = i + 1"
    "map_of (ca_client_waiters c') i = Some rid"
    by (auto simp: frame_tracked_def next_id_def split: option.splits prod.splits)
qed

text \<open>
  C21: request and reply.  A caller that sends a tracked request (compact, rollback, fork, goals,
  status lists) gets the reply with the id of its frame, whatever calls and lines come in between,
  as its own: the result of the reply, else its error, else null.  No later reply with that id
  reaches anybody.
\<close>

theorem reply_reaches_caller:
  assumes "codex_calls L r ks codex_new = (os, c)"
    and "codex_call L r (CTracked t rid) c = (([f], p), c1)" "frame_id f = Some i"
    and "codex_calls L r ls c1 = (os1, c2)" "\<not> list_ex (is_reply L i) ls"
    and "reply_of L line = Some (msg, i)" "parse_line L r line c2 = (q, c3)"
    and "codex_calls L r ms c3 = (os2, c4)" "reply_of L line2 = Some (msg2, i)"
    and "length ks + length ls + length ms < 2 ^ 64 - 4"
  shows "pl_control_response q = Some (rid, reply_value msg)
    \<and> pl_control_response (fst (parse_line L r line2 c4)) = None"
proof -
  let ?n = "3 + length (request_ids os)"
  have n: "ca_next_client_id c = of_nat ?n" and le: "?n \<le> 3 + length ks"
    using request_ids_from [OF assms(1), of 3] by (simp_all add: codex_new_def)
  note t = tracked_call [OF assms(2,3)]
  have i: "i = of_nat ?n" using t(1) n by simp
  have n1: "ca_next_client_id c1 = of_nat (Suc ?n)" using t(2) i by (simp only: of_nat_Suc add.commute)
  have w: "map_of (ca_client_waiters c2) i = Some rid"
    using calls_waiters [OF assms(4) n1, of ?n] assms(5,10) le t(3) by (simp add: i del: of_nat_add)
  let ?m = "Suc ?n + length (request_ids os1)"
  have n3: "ca_next_client_id c3 = of_nat ?m"
    using request_ids_from [OF assms(4) n1] line_keeps [of c2 L r line] assms(7)
    by (simp add: keeps_requests_def)
  have m: "?m \<le> Suc ?n + length ls" using request_ids_from [OF assms(4) n1] by simp
  have w3: "map_of (ca_client_waiters c3) i = None"
    using line_waiters(1) [of L r line c2] assms(6,7) by simp
  have "map_of (ca_client_waiters c4) i = None"
    using calls_waiters [OF assms(8) n3, of ?n] assms(10) le m w3
    by (simp add: i del: of_nat_add split: if_splits)
  then show ?thesis
    using line_waiters(2) [of L r line c2] line_waiters(2) [of L r line2 c4] assms(6,7,9) w by simp
qed

section \<open>Questions of the server\<close>

text \<open>A line that asks the user: the method and the id of the request.\<close>

definition question_of :: "codex_lib \<Rightarrow> string \<Rightarrow> (string \<times> json) option" where
  "question_of L line =
     (case line_message L line of
        None \<Rightarrow> None
      | Some msg \<Rightarrow>
          (case (get_str msg ''method'', j_get msg ''id'') of
             (Some method, Some v) \<Rightarrow> if is_interactive_method method then Some (method, v) else None
           | _ \<Rightarrow> None))"

definition question_kind :: "string \<Rightarrow> PendingKind" where
  "question_kind method =
     (if method = M_REQUEST_USER_INPUT then KUserInput
      else if method = M_ELICITATION then KElicitation else KPermission)"

text \<open>What is shown of a question: with its identifier and what it is about.\<close>

definition question_params :: "codex_lib \<Rightarrow> string \<Rightarrow> json" where
  "question_params L line =
     unwrap_or (Option.bind (line_message L line) (\<lambda>msg. j_get msg ''params'')) JNull"

definition shows_question :: "string \<Rightarrow> string \<Rightarrow> string \<Rightarrow> json \<Rightarrow> BusEvent list \<Rightarrow> bool" where
  "shows_question r method rid ps evs \<longleftrightarrow>
     (case question_kind method of
        KPermission \<Rightarrow>
          (\<exists>use input. evs = [PermissionPrompt r rid
               (if method = M_FILE_APPROVAL \<or> method = M_FILE_APPROVAL_LEGACY then ''Edit'' else ''Bash'')
               use input (str_field ps ''reason'') None []]
             \<and> get_str input ''command'' = get_str ps ''command'' \<and> j_get input ''cwd'' = j_get ps ''cwd''
             \<and> j_get input ''changes'' = j_get ps ''changes'')
      | KElicitation \<Rightarrow>
          evs = [ElicitationPrompt r rid (str_field ps ''serverName'') (str_field ps ''message'')
                   (get_str ps ''elicitationId'') (get_str ps ''mode'') (get_str ps ''url'')
                   (j_get ps ''requestedSchema'')]
      | KUserInput \<Rightarrow>
          (\<exists>input. evs = [ToolStart r rid ''AskUserQuestion'' input None,
                        ToolEnd r rid ''AskUserQuestion'' input ''error'' None None None]
             \<and> map (\<lambda>q. str_field q ''question'') (unwrap_or (get_array input ''questions'') [])
                 = map (\<lambda>q. str_field q ''question'') (unwrap_or (get_array ps ''questions'') [])))"

lemma shows_server_request:
  assumes "server_request_events r method rid ps = Some (k, evs)"
  shows "shows_question r method rid ps evs \<and> (rid \<noteq> [] \<longrightarrow> list_all (\<lambda>ev. \<not> event_invalid ev) evs)"
proof -
  have strs: "get_str (JObj kvs) k = Option.bind (map_of kvs k) as_str" for kvs k
    by (simp add: get_str_def)
  have f: "map_of (opt_field k x) k' = (if k = k' then x else None)" for k k' :: string and x :: "json option"
    by (simp add: opt_field_def split: option.split)
  have perm: "shows_question r method rid ps [approval_prompt r rid
      (if method = M_FILE_APPROVAL \<or> method = M_FILE_APPROVAL_LEGACY then ''Edit'' else ''Bash'') ps]"
    if "question_kind method = KPermission"
    using that by (simp add: shows_question_def approval_prompt_def strs f map_add_def split: option.split)
  have user: "M_REQUEST_USER_INPUT \<notin> {M_CMD_APPROVAL, M_CMD_APPROVAL_LEGACY, M_FILE_APPROVAL, M_FILE_APPROVAL_LEGACY, M_PERM_APPROVAL}"
    and elic: "M_ELICITATION \<notin> {M_CMD_APPROVAL, M_CMD_APPROVAL_LEGACY, M_FILE_APPROVAL, M_FILE_APPROVAL_LEGACY, M_PERM_APPROVAL}"
    and edits: "{M_FILE_APPROVAL, M_FILE_APPROVAL_LEGACY} \<inter> {M_CMD_APPROVAL, M_CMD_APPROVAL_LEGACY, M_PERM_APPROVAL} = {}"
    by (simp_all add: method_names)
  consider "method = M_REQUEST_USER_INPUT" | "method = M_ELICITATION" "method \<noteq> M_REQUEST_USER_INPUT"
    | "question_kind method = KPermission"
    by (cases "method = M_REQUEST_USER_INPUT"; cases "method = M_ELICITATION") (simp_all add: question_kind_def)
  then show ?thesis
  proof cases
    case 1
    then have "evs = ask_user_question_events r rid ps" "question_kind method = KUserInput"
      using assms user by (simp_all add: server_request_events_def question_kind_def)
    then show ?thesis
      by (simp add: shows_question_def ask_user_question_events_def event_invalid_def question_json_def get_array_def
          str_field_def strs comp_def Let_def)
  next
    case 2
    then have "evs = [elicitation_prompt r rid ps]" "question_kind method = KElicitation"
      using assms elic by (simp_all add: server_request_events_def question_kind_def)
    then show ?thesis by (simp add: shows_question_def elicitation_prompt_def event_invalid_def)
  next
    case 3
    then have "method \<noteq> M_REQUEST_USER_INPUT" "method \<noteq> M_ELICITATION" by (auto simp: question_kind_def split: if_splits)
    then have "evs = [approval_prompt r rid
        (if method = M_FILE_APPROVAL \<or> method = M_FILE_APPROVAL_LEGACY then ''Edit'' else ''Bash'') ps]"
      using assms edits by (auto simp: server_request_events_def split: if_splits)
    then show ?thesis using perm [OF 3] by (simp add: approval_prompt_def event_invalid_def)
  qed
qed

lemma question_events:
  assumes "is_interactive_method method"
  obtains evs where "server_request_events r method rid ps = Some (question_kind method, evs)"
  using assms
  by (auto simp: is_interactive_method_def server_request_events_def question_kind_def method_names)

lemma line_question:
  assumes "question_of L l = Some (method, v)"
  shows "pl_interactive (fst (parse_line L r l c)) =
      Some \<lparr> pi_request_id = req_id_str L v, pi_kind = question_kind method \<rparr>"
    and "ca_pending (snd (parse_line L r l c)) =
      hm_insert (req_id_str L v) \<lparr> ps_raw_id = v, ps_method = method \<rparr> (ca_pending c)"
    and "shows_question r method (req_id_str L v) (question_params L l) (pl_events (fst (parse_line L r l c)))
      \<and> (req_id_str L v \<noteq> [] \<longrightarrow> list_all (\<lambda>ev. \<not> event_invalid ev) (pl_events (fst (parse_line L r l c))))"
proof -
  obtain msg where m: "line_message L l = Some msg" "get_str msg ''method'' = Some method"
    "j_get msg ''id'' = Some v" "is_interactive_method method"
    using assms by (auto simp: question_of_def split: option.splits if_splits)
  obtain evs where e: "server_request_events r method (req_id_str L v)
      (unwrap_or (j_get msg ''params'') JNull) = Some (question_kind method, evs)"
    by (rule question_events [OF m(4)])
  have "question_params L l = unwrap_or (j_get msg ''params'') JNull" using m(1) by (simp add: question_params_def)
  with shows_server_request [OF e] m e
  show "shows_question r method (req_id_str L v) (question_params L l) (pl_events (fst (parse_line L r l c)))
      \<and> (req_id_str L v \<noteq> [] \<longrightarrow> list_all (\<lambda>ev. \<not> event_invalid ev) (pl_events (fst (parse_line L r l c))))"
    by (simp add: parse_line_message handle_message_def handle_server_request_def Let_def)
  from m e show "pl_interactive (fst (parse_line L r l c)) =
      Some \<lparr> pi_request_id = req_id_str L v, pi_kind = question_kind method \<rparr>"
    and "ca_pending (snd (parse_line L r l c)) =
      hm_insert (req_id_str L v) \<lparr> ps_raw_id = v, ps_method = method \<rparr> (ca_pending c)"
    by (simp_all add: parse_line_message handle_message_def handle_server_request_def Let_def)
qed

lemma line_no_question:
  assumes "question_of L l = None"
  shows "ca_pending (snd (parse_line L r l c)) = ca_pending c"
  using assms
  by (auto simp: question_of_def parse_line_message handle_message_def notification_keeps reply_keeps
      split: option.splits if_splits)

text \<open>Whether a call concerns the question shown as \<open>rid\<close>: an answer to it, or a new one of that id.\<close>

fun touches :: "codex_lib \<Rightarrow> string \<Rightarrow> codex_op \<Rightarrow> bool" where
  "touches L rid (CAnswer k rid' v) = (rid' = rid)"
| "touches L rid (CLine l) =
     (case question_of L l of None \<Rightarrow> False | Some (m, v) \<Rightarrow> req_id_str L v = rid)"
| "touches L rid _ = False"

lemma call_pending:
  assumes "codex_call L r k c = (q, c')" "\<not> touches L rid k"
  shows "map_of (ca_pending c') rid = map_of (ca_pending c) rid"
proof (cases k)
  case (CTracked t rid')
  obtain m x where "tracked_frame t rid' = frame_tracked rid' m x" by (rule tracked_frame_eq)
  with CTracked assms show ?thesis
    by (auto simp: frame_tracked_def next_id_def split: option.splits)
next
  case (CLine l)
  then have c': "c' = snd (parse_line L r l c)" using assms by (auto split: prod.splits)
  show ?thesis
  proof (cases "question_of L l")
    case None
    then show ?thesis by (simp add: c' line_no_question)
  next
    case (Some a)
    then obtain m v where "question_of L l = Some (m, v)" by (cases a) auto
    with assms(2) CLine line_question(2) [of L l m v r c] show ?thesis by (simp add: c')
  qed
qed (use assms in \<open>auto simp: frame_user_turn_def frame_interrupt_def frame_steer_def next_id_def
    frame_response_def split: option.splits\<close>)

lemma calls_pending:
  "codex_calls L r ks c = (os, c') \<Longrightarrow> \<not> list_ex (touches L rid) ks \<Longrightarrow>
    map_of (ca_pending c') rid = map_of (ca_pending c) rid"
  by (induction ks arbitrary: c os) (auto simp: call_pending split: prod.splits)

lemma permission_accepts:
  "get_str (permission_result answer) ''decision'' = Some ''accept''
     \<longleftrightarrow> get_str answer ''behavior'' = Some ''allow''"
  by (cases "get_str answer ''behavior''") (simp_all add: permission_result_def get_str_def [of "JObj _"])

text \<open>
  C22: an approval, a question or an elicitation of the server is turned into the events that show it,
  under its id and with the command, the changes, the message or the questions it is about (events
  that are valid, so that they are kept, unless the id is the empty text), and waits under that id.  The answer,
  whenever it comes, is written once, to exactly that request, and a second answer writes nothing.
  A request for permission is accepted by an explicit allow and by nothing else.
\<close>

theorem question_answered_once:
  assumes "question_of L line = Some (method, v)" "parse_line L r line c = (q, c1)"
    and "codex_calls L r ks c1 = (os, c2)" "\<not> list_ex (touches L (req_id_str L v)) ks"
    and "frame_response kind (req_id_str L v) answer c2 = (fs, c3)"
  shows "pl_interactive q =
      Some \<lparr> pi_request_id = req_id_str L v, pi_kind = question_kind method \<rparr>
    \<and> shows_question r method (req_id_str L v) (question_params L line) (pl_events q)
    \<and> (req_id_str L v \<noteq> [] \<longrightarrow> list_all (\<lambda>ev. \<not> event_invalid ev) (pl_events q))
    \<and> fs = [JObj [(''jsonrpc'', JStr ''2.0''), (''id'', v), (''result'', response_result kind answer)]]
    \<and> frame_response kind' (req_id_str L v) answer' c3 = ([], c3)
    \<and> (kind = KPermission \<longrightarrow>
        (get_str (response_result kind answer) ''decision'' = Some ''accept''
           \<longleftrightarrow> get_str answer ''behavior'' = Some ''allow''))"
proof -
  note q = line_question [OF assms(1), of r c]
  have p: "map_of (ca_pending c2) (req_id_str L v) = Some \<lparr> ps_raw_id = v, ps_method = method \<rparr>"
    using calls_pending [OF assms(3,4)] q(2) assms(2) by simp
  then have f: "fs = [JObj [(''jsonrpc'', JStr ''2.0''), (''id'', v), (''result'', response_result kind answer)]]"
    "c3 = c2\<lparr>ca_pending := hm_remove (req_id_str L v) (ca_pending c2)\<rparr>"
    using assms(5) by (auto simp: frame_response_def)
  have "frame_response kind' (req_id_str L v) answer' c3 = ([], c3)"
    by (simp add: frame_response_def f(2))
  then show ?thesis
    using q(1,3) assms(2) f(1) by (simp add: response_result_def permission_accepts)
qed

section \<open>Opening the thread, and the defaults of the start\<close>

text \<open>Whether a turn has been written.\<close>

definition turn_frame :: "json \<Rightarrow> bool" where
  "turn_frame f \<longleftrightarrow> get_str f ''method'' = Some ''turn/start''"

definition turn_written :: "(json list \<times> ParsedLine) list \<Rightarrow> bool" where
  "turn_written os \<longleftrightarrow> list_ex (\<lambda>(fs, p). list_ex turn_frame fs) os"

definition keeps_start :: "CodexAppServer \<Rightarrow> json list \<Rightarrow> CodexAppServer \<Rightarrow> bool" where
  "keeps_start c fs c' \<longleftrightarrow>
     ca_startup_overrides c' = ca_startup_overrides c \<and> ca_add_dirs c' = ca_add_dirs c
     \<and> ca_pending_startup_replay c' = (ca_pending_startup_replay c \<and> \<not> list_ex turn_frame fs)"

lemma turn_frame_request [simp]: "turn_frame (rpc_request i m ps) \<longleftrightarrow> m = ''turn/start''"
  by (simp add: turn_frame_def rpc_request_def get_str_def)

lemma tracked_method:
  obtains m x where "tracked_frame t rid = frame_tracked rid m x"
    "m \<noteq> ''turn/start''"
  by (cases t) (auto simp: fun_eq_iff frame_compact_def frame_rollback_def frame_fork_def
      frame_goal_set_def frame_goal_get_def frame_goal_clear_def frame_mcp_status_def
      frame_skills_list_def frame_experimental_feature_list_def frame_model_list_def)

lemma call_start:
  assumes "codex_call L r k c = ((fs, p), c')"
  shows "keeps_start c fs c'"
proof (cases k)
  case (CTracked t rid)
  obtain m x where "tracked_frame t rid = frame_tracked rid m x" "m \<noteq> ''turn/start''"
    by (rule tracked_method)
  with CTracked assms show ?thesis
    by (auto simp: keeps_start_def frame_tracked_def next_id_def split: option.splits)
next
  case (CLine l)
  with assms line_keeps [of c L r l] show ?thesis
    by (auto simp: keeps_start_def keeps_requests_def split: prod.splits)
next
  case (CAnswer k rid v)
  have "\<not> turn_frame (JObj [(''jsonrpc'', a), (''id'', b), (''result'', x)])" for a b x
    by (simp add: turn_frame_def get_str_def)
  with CAnswer assms show ?thesis
    by (auto simp: keeps_start_def frame_response_def split: option.splits)
qed (use assms in \<open>auto simp: keeps_start_def frame_user_turn_def frame_interrupt_def
    frame_steer_def next_id_def split: option.splits\<close>)

lemma calls_start:
  "codex_calls L r ks c = (os, c') \<Longrightarrow>
     ca_startup_overrides c' = ca_startup_overrides c \<and> ca_add_dirs c' = ca_add_dirs c
     \<and> ca_pending_startup_replay c' = (ca_pending_startup_replay c \<and> \<not> turn_written os)"
proof (induction ks arbitrary: c os)
  case (Cons k ks)
  obtain fs p c1 where k: "codex_call L r k c = ((fs, p), c1)" by (metis surj_pair)
  obtain os1 where "codex_calls L r ks c1 = (os1, c')" "os = (fs, p) # os1"
    using Cons.prems(1) k by (auto split: prod.splits)
  with Cons.IH call_start [OF k] show ?case by (auto simp: keeps_start_def turn_written_def)
qed (simp add: turn_written_def)

lemma started:
  assumes "startup_messages version ctx codex_new = (fs, c)"
  shows "ca_pending_startup_replay c" "ca_add_dirs c = sc_add_dirs ctx"
    "ca_startup_overrides c = \<lparr> ov_approval_policy = sc_approval_policy ctx,
       ov_sandbox = sc_sandbox ctx, ov_model = sc_model ctx, ov_effort = sc_effort ctx \<rparr>"
    "ca_thread_id c = sc_resume_thread_id ctx" "\<not> is_ready c" "ca_next_client_id c = 3"
    "ca_client_waiters c = []"
  using assms
  by (auto simp: startup_messages_def Let_def codex_new_def is_ready_def split: option.splits)

text \<open>What a turn sends for a setting: the override of the actor, else the default once.\<close>

definition setting :: "bool \<Rightarrow> string option \<Rightarrow> string option \<Rightarrow> json option" where
  "setting first act startup =
     map_option JStr (case act of Some a \<Rightarrow> Some a | None \<Rightarrow> if first then startup else None)"

lemma opt_field_lookup: "map_of (opt_field k v) k' = (if k' = k then v else None)"
  by (cases v) (simp_all add: opt_field_def)

lemma setting_pick: "setting first act startup = map_option JStr (pick_override first act startup)"
  by (cases act) (simp_all add: setting_def pick_override_def)

lemma turn_params_fields:
  "j_get (turn_params c tid input ov) ''model'' =
     setting (ca_pending_startup_replay c) (ov_model ov) (ov_model (ca_startup_overrides c))"
  "j_get (turn_params c tid input ov) ''effort'' =
     setting (ca_pending_startup_replay c) (ov_effort ov) (ov_effort (ca_startup_overrides c))"
  "j_get (turn_params c tid input ov) ''approvalPolicy'' =
     setting (ca_pending_startup_replay c) (ov_approval_policy ov)
       (ov_approval_policy (ca_startup_overrides c))"
  "j_get (turn_params c tid input ov) ''sandboxPolicy'' =
     turn_sandbox (ca_pending_startup_replay c)
       (pick_override (ca_pending_startup_replay c) (ov_sandbox ov)
          (ov_sandbox (ca_startup_overrides c))) (ca_add_dirs c)"
  by (simp_all add: turn_params_def setting_pick opt_field_lookup map_add_def Let_def
      split: option.split)

text \<open>
  The first turn that is written carries the model, the effort, the approval policy and the
  sandbox the session was started with, and later turns carry none of them; what the actor has
  overridden goes with every turn.  The writable directories of the settings go with the first turn
  even when no sandbox was chosen.
\<close>

theorem startup_defaults_once:
  assumes "startup_messages version ctx codex_new = (fs0, c0)"
    and "codex_calls L r ks c0 = (os, c)" "frame_user_turn msg ps sks ov c = ([f], c')"
    and "first = (\<not> turn_written os)" "j_get f ''params'' = Some params"
  shows "j_get params ''model'' = setting first (ov_model ov) (sc_model ctx)
    \<and> j_get params ''effort'' = setting first (ov_effort ov) (sc_effort ctx)
    \<and> j_get params ''approvalPolicy'' =
        setting first (ov_approval_policy ov) (sc_approval_policy ctx)
    \<and> j_get params ''sandboxPolicy'' =
        (case ov_sandbox ov of
           Some s \<Rightarrow> Some (sandbox_policy_value s (sc_add_dirs ctx))
         | None \<Rightarrow>
             if \<not> first then None
             else (case sc_sandbox ctx of
                     Some s \<Rightarrow> Some (sandbox_policy_value s (sc_add_dirs ctx))
                   | None \<Rightarrow>
                       if sc_add_dirs ctx = [] then None
                       else Some (sandbox_policy_value ''workspace-write'' (sc_add_dirs ctx))))"
proof -
  note s = started [OF assms(1)]
  have c: "ca_startup_overrides c = ca_startup_overrides c0" "ca_add_dirs c = sc_add_dirs ctx"
    "ca_pending_startup_replay c = first"
    using calls_start [OF assms(2)] s(1,2) assms(4) by simp_all
  obtain tid where "params = turn_params c tid (turn_input msg ps sks) ov"
    using assms(3,5) by (auto simp: frame_user_turn_def next_id_def rpc_request_def split: option.splits)
  then show ?thesis
    by (auto simp: turn_params_fields c s(3) turn_sandbox_def pick_override_def split: option.split)
qed

text \<open>
  The lines that open the thread: its notification, or the reply to \<open>thread/start\<close> or
  \<open>thread/resume\<close> when it is no error.
\<close>

definition open_reply :: "json \<Rightarrow> json option" where
  "open_reply msg =
     (case get_str msg ''method'' of
        Some m \<Rightarrow>
          if m = ''thread/started'' \<and> j_get msg ''id'' = None
          then Some (unwrap_or (j_get msg ''params'') JNull) else None
      | None \<Rightarrow>
          if Option.bind (j_get msg ''id'') as_i64 = Some 2 \<and> j_get msg ''error'' = None
          then Some (unwrap_or (j_get msg ''result'') JNull) else None)"

fun opens :: "codex_lib \<Rightarrow> codex_op \<Rightarrow> bool" where
  "opens L (CLine l) = (Option.bind (line_message L l) open_reply \<noteq> None)"
| "opens L _ = False"

text \<open>Whether it names the thread.\<close>

fun names_thread :: "codex_lib \<Rightarrow> codex_op \<Rightarrow> bool" where
  "names_thread L (CLine l) =
     (case Option.bind (line_message L l) open_reply of
        None \<Rightarrow> False | Some v \<Rightarrow> nested_id v ''thread'' \<noteq> None)"
| "names_thread L _ = False"

definition has_thread :: "CodexAppServer \<Rightarrow> bool" where
  "has_thread c \<longleftrightarrow> ca_thread_id c \<noteq> None"

lemma j_get_null [simp]: "nested_id JNull k = None"
  by (simp add: nested_id_def)

lemma notification_opens:
  "is_ready (snd (handle_notification L r m ps c)) \<longleftrightarrow> is_ready c \<or> m = ''thread/started''"
  "has_thread (snd (handle_notification L r m ps c))
     \<longleftrightarrow> has_thread c \<or> m = ''thread/started'' \<and> nested_id ps ''thread'' \<noteq> None"
  by (auto simp: handle_notification_def is_ready_def has_thread_def split: option.split)

lemma request_opens:
  "is_ready (snd (handle_server_request L r m msg c)) = is_ready c"
  "has_thread (snd (handle_server_request L r m msg c)) = has_thread c"
  by (auto simp: handle_server_request_def is_ready_def has_thread_def Let_def split: option.split)

lemma interactive_started: "\<not> is_interactive_method ''thread/started''"
  by (simp add: is_interactive_method_def method_names)

lemma nested_result:
  "(\<exists>i. Option.bind (j_get msg ''result'') (\<lambda>r. nested_id r k) = Some i)
     \<longleftrightarrow> (\<exists>i. nested_id (unwrap_or (j_get msg ''result'') JNull) k = Some i)"
  by (cases "j_get msg ''result''") simp_all

lemma ack_opens:
  "is_ready (snd (handle_ack msg c)) \<longleftrightarrow>
     is_ready c \<or> Option.bind (j_get msg ''id'') as_i64 = Some 2 \<and> j_get msg ''error'' = None"
  "has_thread (snd (handle_ack msg c)) \<longleftrightarrow>
     has_thread c \<or> Option.bind (j_get msg ''id'') as_i64 = Some 2 \<and> j_get msg ''error'' = None
       \<and> nested_id (unwrap_or (j_get msg ''result'') JNull) ''thread'' \<noteq> None"
  using nested_result [of msg "''thread''"]
  by (auto simp: handle_ack_def is_ready_def has_thread_def split: option.split)

lemma reply_opens:
  assumes "map_of (ca_client_waiters c) 2 = None"
  shows "is_ready (snd (handle_reply msg c)) \<longleftrightarrow>
     is_ready c \<or> Option.bind (j_get msg ''id'') as_i64 = Some 2 \<and> j_get msg ''error'' = None"
    and "has_thread (snd (handle_reply msg c)) \<longleftrightarrow>
     has_thread c \<or> Option.bind (j_get msg ''id'') as_i64 = Some 2 \<and> j_get msg ''error'' = None
       \<and> nested_id (unwrap_or (j_get msg ''result'') JNull) ''thread'' \<noteq> None"
  using assms
  by (auto simp: handle_reply_def ack_opens split: option.splits)
    (auto simp: is_ready_def has_thread_def)

lemma line_opens:
  assumes "map_of (ca_client_waiters c) 2 = None"
  shows "is_ready (snd (parse_line L r l c)) \<longleftrightarrow> is_ready c \<or> opens L (CLine l)"
    and "has_thread (snd (parse_line L r l c)) \<longleftrightarrow> has_thread c \<or> names_thread L (CLine l)"
  using assms
  by (auto simp: parse_line_message handle_message_def notification_opens request_opens reply_opens
      open_reply_def interactive_started split: option.splits if_splits)

lemma call_opens:
  assumes "codex_call L r k c = (q, c')" "map_of (ca_client_waiters c) 2 = None"
  shows "is_ready c' \<longleftrightarrow> is_ready c \<or> opens L k" "has_thread c' \<longleftrightarrow> has_thread c \<or> names_thread L k"
proof -
  have "(is_ready c' \<longleftrightarrow> is_ready c \<or> opens L k) \<and> (has_thread c' \<longleftrightarrow> has_thread c \<or> names_thread L k)"
  proof (cases k)
    case (CTracked t rid)
    obtain m x where "tracked_frame t rid = frame_tracked rid m x" by (rule tracked_frame_eq)
    with CTracked assms show ?thesis
      by (auto simp: frame_tracked_def next_id_def is_ready_def has_thread_def split: option.splits)
  next
    case (CLine l)
    with assms line_opens [OF assms(2), of L r l] show ?thesis by (auto split: prod.splits)
  qed (use assms in \<open>auto simp: frame_user_turn_def frame_interrupt_def frame_steer_def next_id_def
      frame_response_def is_ready_def has_thread_def split: option.splits\<close>)
  then show "is_ready c' \<longleftrightarrow> is_ready c \<or> opens L k"
    "has_thread c' \<longleftrightarrow> has_thread c \<or> names_thread L k" by blast+
qed

lemma calls_open:
  assumes "codex_calls L r ks c = (os, c')" "map_of (ca_client_waiters c) 2 = None"
    and "ca_next_client_id c = of_nat n" "2 < n" "n + length ks \<le> 2 ^ 64"
  shows "is_ready c' \<longleftrightarrow> is_ready c \<or> list_ex (opens L) ks"
    and "has_thread c' \<longleftrightarrow> has_thread c \<or> list_ex (names_thread L) ks"
proof -
  have "(is_ready c' \<longleftrightarrow> is_ready c \<or> list_ex (opens L) ks)
    \<and> (has_thread c' \<longleftrightarrow> has_thread c \<or> list_ex (names_thread L) ks)"
    using assms
  proof (induction ks arbitrary: c os n)
    case (Cons k ks)
    obtain fs p c1 where k: "codex_call L r k c = ((fs, p), c1)" by (metis surj_pair)
    have one: "codex_calls L r [k] c = ([(fs, p)], c1)" by (simp add: k)
    obtain os1 where ks: "codex_calls L r ks c1 = (os1, c')"
      using Cons.prems(1) k by (auto split: prod.splits)
    have w: "map_of (ca_client_waiters c1) 2 = None"
      using calls_waiters [OF one Cons.prems(3), of 2] Cons.prems(2,4,5) by (simp split: if_splits)
    note len = request_ids_from [OF one Cons.prems(3)]
    let ?n = "n + length (request_ids [(fs, p)])"
    have "ca_next_client_id c1 = of_nat ?n" "?n + length ks \<le> 2 ^ 64" "2 < ?n"
      using len Cons.prems(4,5) by auto
    from Cons.IH [OF ks w this(1,3,2)] call_opens [OF k Cons.prems(2)] show ?case by auto
  qed simp
  then show "is_ready c' \<longleftrightarrow> is_ready c \<or> list_ex (opens L) ks"
    "has_thread c' \<longleftrightarrow> has_thread c \<or> list_ex (names_thread L) ks" by blast+
qed

text \<open>
  C23: the driver becomes ready exactly with the first line that opens the thread, and a turn is
  written exactly when the session was resumed by id or some opening line named the thread.  The
  two differ: an acknowledgement without a thread id makes the driver ready to send turns, which
  it then drops; and the error reply to the opening request has no effect at all.
\<close>

theorem session_opens:
  assumes "startup_messages version ctx codex_new = (fs0, c0)"
    and "codex_calls L r ks c0 = (os, c)" "length ks < 2 ^ 64 - 3"
  shows "(is_ready c \<longleftrightarrow> list_ex (opens L) ks)
    \<and> (fst (frame_user_turn msg ps sks ov c) \<noteq> []
        \<longleftrightarrow> sc_resume_thread_id ctx \<noteq> None \<or> list_ex (names_thread L) ks)"
proof -
  note s = started [OF assms(1)]
  have w: "map_of (ca_client_waiters c0) 2 = None" "ca_next_client_id c0 = of_nat 3"
    using s(6,7) by simp_all
  note o = calls_open [OF assms(2) w]
  have "fst (frame_user_turn msg ps sks ov c) \<noteq> [] \<longleftrightarrow> has_thread c"
    by (simp add: frame_user_turn_def next_id_def has_thread_def split: option.split)
  moreover have "has_thread c0 \<longleftrightarrow> sc_resume_thread_id ctx \<noteq> None"
    using s(4) by (simp add: has_thread_def)
  ultimately show ?thesis using o s(5) assms(3) by simp
qed

section \<open>Cards of tools\<close>

text \<open>
  The card of a tool is closed as it was opened.  An item of the app server that starts a tool
  card ends, when it completes, with exactly one tool end that has the same id and the same name,
  and an item that starts no card ends none; the other kinds of item never touch a card.
\<close>

theorem tool_cards_paired:
  assumes "get_str item' ''id'' = get_str item ''id''" "get_str item' ''type'' = get_str item ''type''"
    and "get_str item' ''server'' = get_str item ''server''"
    and "get_str item' ''tool'' = get_str item ''tool''"
  shows "case item_started_event r item of
      Some ev \<Rightarrow> (\<exists>i n inp q out st res.
        ev = ToolStart r i n inp q
        \<and> item_completed_events r item' = [ToolEnd r i n out st None None res])
    | None \<Rightarrow> \<not> list_ex (\<lambda>e. \<exists>i n out st d q res. e = ToolEnd r i n out st d q res)
        (item_completed_events r item')"
proof -
  have n: "item_tool_name item' = item_tool_name item"
    unfolding item_tool_name_def assms ..
  show ?thesis
  proof (cases "get_str item ''type''")
    case None
    then have "item_tool_name item = None" by (simp add: item_tool_name_def)
    with None n assms show ?thesis
      by (simp add: item_started_event_def item_completed_events_def str_field_def Let_def)
  next
    case (Some ty)
    have "item_tool_name item = None"
      if "ty \<in> {''agentMessage'', ''userMessage'', ''reasoning'', ''contextCompaction''}"
      using that by (elim insertE emptyE) (simp_all add: Some item_tool_name_def from_item_type_def)
    then have plain: "ty \<noteq> ''agentMessage'' \<and> ty \<noteq> ''userMessage'' \<and> ty \<noteq> ''reasoning''
        \<and> ty \<noteq> ''contextCompaction''" if "item_tool_name item = Some m" for m
      using that by (metis insertI1 insertI2 option.distinct(1))
    show ?thesis
    proof (cases "ty = ''collabAgentToolCall''")
      case True
      with Some n assms show ?thesis
        by (simp add: item_started_event_def item_completed_events_def str_field_def Let_def)
    next
      case False
      show ?thesis
      proof (cases "item_tool_name item")
        case None
        with False Some n assms show ?thesis
          by (simp add: item_started_event_def item_completed_events_def str_field_def Let_def)
      next
        case (Some m)
        with False plain [OF Some] \<open>get_str item ''type'' = Some ty\<close> n assms show ?thesis
          by (simp add: item_started_event_def item_completed_events_def str_field_def Let_def
              split del: if_split)
      qed
    qed
  qed
qed

theorem tool_cards_paired_witness:
  "let item = JObj [(''type'', JStr ''mcpToolCall''), (''id'', JStr ''1''), (''server'', JStr ''s'')];
       done = JObj [(''type'', JStr ''mcpToolCall''), (''id'', JStr ''1''), (''server'', JStr ''s''),
                    (''status'', JStr ''failed'')]
   in item_started_event ''r'' item = Some (ToolStart ''r'' ''1'' ''s:tool'' (JObj []) None)
     \<and> (\<exists>out st res. item_completed_events ''r'' done = [ToolEnd ''r'' ''1'' ''s:tool'' out st None None res])"
proof -
  let ?item = "JObj [(''type'', JStr ''mcpToolCall''), (''id'', JStr ''1''), (''server'', JStr ''s'')]"
  let ?done = "JObj [(''type'', JStr ''mcpToolCall''), (''id'', JStr ''1''), (''server'', JStr ''s''),
    (''status'', JStr ''failed'')]"
  have s: "item_started_event ''r'' ?item = Some (ToolStart ''r'' ''1'' ''s:tool'' (JObj []) None)"
    by (simp add: item_started_event_def item_tool_name_def from_item_type_def get_str_def
        str_field_def opt_field_def Let_def)
  have "get_str ?done k = get_str ?item k" if "k \<in> {''id'', ''type'', ''server'', ''tool''}" for k
    using that by (auto simp: get_str_def)
  then have "case item_started_event ''r'' ?item of
      Some ev \<Rightarrow> (\<exists>i n inp q out st res. ev = ToolStart ''r'' i n inp q
        \<and> item_completed_events ''r'' ?done = [ToolEnd ''r'' i n out st None None res])
    | None \<Rightarrow> \<not> list_ex (\<lambda>e. \<exists>i n out st d q res. e = ToolEnd ''r'' i n out st d q res)
        (item_completed_events ''r'' ?done)"
    by (intro tool_cards_paired) simp_all
  with s show ?thesis by (simp add: Let_def)
qed

section \<open>A session of the driver\<close>

text \<open>
  The JSON of a few lines of the app server: the two acknowledgements, a reply to the request 3 and
  a question.
\<close>

definition demo_lib :: codex_lib where
  "demo_lib =
     \<lparr> cl_parse = (\<lambda>s.
         if s = ''ack'' then
           Some (JObj [(''id'', JNum (JPos 2)),
                  (''result'', JObj [(''thread'', JObj [(''id'', JStr ''t'')])])])
         else if s = ''bare'' then Some (JObj [(''id'', JNum (JPos 2)), (''result'', JObj [])])
         else if s = ''reply'' then Some (JObj [(''id'', JNum (JPos 3)), (''result'', JBool True)])
         else if s = ''ask'' then
           Some (JObj [(''id'', JStr ''q''), (''method'', JStr M_CMD_APPROVAL),
                  (''params'', JObj [(''command'', JStr ''ls'')])])
         else None),
       cl_show = (\<lambda>v. ''?''),
       cl_float = \<lparr> f_of_rat = \<lambda>q. 0, f_of_u64 = \<lambda>n. n, f_of_i64 = \<lambda>n. n,
                    f_add = \<lambda>x y. x, f_mul = \<lambda>x y. x, f_div = \<lambda>x y. x \<rparr> \<rparr>"

definition demo_ctx :: "string option \<Rightarrow> StartupCtx" where
  "demo_ctx resume =
     \<lparr> sc_cwd = ''/w'', sc_resume_thread_id = resume, sc_model = Some ''m'',
       sc_model_provider = None, sc_approval_policy = Some ''never'', sc_sandbox = None,
       sc_effort = None, sc_add_dirs = [''/d''] \<rparr>"

lemma demo_lines:
  "line_message demo_lib ''ack'' = Some (JObj [(''id'', JNum (JPos 2)),
     (''result'', JObj [(''thread'', JObj [(''id'', JStr ''t'')])])])"
  "line_message demo_lib ''bare'' = Some (JObj [(''id'', JNum (JPos 2)), (''result'', JObj [])])"
  "line_message demo_lib ''reply'' = Some (JObj [(''id'', JNum (JPos 3)), (''result'', JBool True)])"
  "line_message demo_lib ''ask'' = Some (JObj [(''id'', JStr ''q''), (''method'', JStr M_CMD_APPROVAL),
     (''params'', JObj [(''command'', JStr ''ls'')])])"
proof -
  have "str_trim ''ack'' = ''ack''" "str_trim ''bare'' = ''bare''" "str_trim ''reply'' = ''reply''"
    "str_trim ''ask'' = ''ask''"
    by code_simp+
  then show
    "line_message demo_lib ''ack'' = Some (JObj [(''id'', JNum (JPos 2)),
       (''result'', JObj [(''thread'', JObj [(''id'', JStr ''t'')])])])"
    "line_message demo_lib ''bare'' = Some (JObj [(''id'', JNum (JPos 2)), (''result'', JObj [])])"
    "line_message demo_lib ''reply'' = Some (JObj [(''id'', JNum (JPos 3)), (''result'', JBool True)])"
    "line_message demo_lib ''ask'' = Some (JObj [(''id'', JStr ''q''), (''method'', JStr M_CMD_APPROVAL),
       (''params'', JObj [(''command'', JStr ''ls'')])])"
    by (simp_all add: line_message_def demo_lib_def)
qed

lemmas demo = demo_lines parse_line_message handle_message_def handle_reply_def handle_ack_def
  nested_id_def get_str_def codex_new_def frame_tracked_def frame_compact_def next_id_def
  rpc_request_def reply_of_def Let_def

theorem request_ids_fresh_witness:
  "request_ids (fst (codex_calls demo_lib ''r'' [CLine ''ack'', CTracked TrCompact ''a''] codex_new)) = [3]"
proof -
  have "length (request_ids (fst (codex_calls demo_lib ''r'' [CLine ''ack'', CTracked TrCompact ''a''] codex_new))) = 1"
    by (simp add: demo List.map_filter_simps frame_id_def)
  with request_ids_fresh [OF prod.collapse [symmetric], of demo_lib "''r''" "[CLine ''ack'', CTracked TrCompact ''a'']"]
  show ?thesis by simp
qed

text \<open>The state after the acknowledgement and one tracked request.\<close>

definition demo_ready :: CodexAppServer where
  "demo_ready = snd (codex_calls demo_lib ''r'' [CLine ''ack''] codex_new)"

theorem reply_reaches_caller_witness:
  "pl_control_response (fst (parse_line demo_lib ''r'' ''reply''
      (snd (codex_call demo_lib ''r'' (CTracked TrCompact ''a'') demo_ready))))
    = Some (''a'', JBool True)"
proof -
  let ?c = "codex_call demo_lib ''r'' (CTracked TrCompact ''a'') demo_ready"
  obtain f where f: "?c = (([f], empty_line), snd ?c)" "frame_id f = Some 3"
    by (simp add: demo_ready_def demo frame_id_def)
  have r: "reply_of demo_lib ''reply'' = Some (JObj [(''id'', JNum (JPos 3)), (''result'', JBool True)], 3)"
    by (simp add: demo)
  have k: "codex_calls demo_lib ''r'' [CLine ''ack''] codex_new
      = (fst (codex_calls demo_lib ''r'' [CLine ''ack''] codex_new), demo_ready)"
    by (simp add: demo_ready_def)
  from reply_reaches_caller [OF k f codex_calls.simps(1) _ r prod.collapse [symmetric] codex_calls.simps(1) r]
  show ?thesis by (simp add: reply_value_def)
qed

theorem question_answered_once_witness:
  "fst (frame_response KPermission ''q'' (JObj [(''behavior'', JStr ''allow'')])
      (snd (parse_line demo_lib ''r'' ''ask'' demo_ready)))
    = [JObj [(''jsonrpc'', JStr ''2.0''), (''id'', JStr ''q''),
             (''result'', response_result KPermission (JObj [(''behavior'', JStr ''allow'')]))]]"
proof -
  have "question_of demo_lib ''ask'' = Some (M_CMD_APPROVAL, JStr ''q'')"
    by (simp add: question_of_def demo_lines get_str_def is_interactive_method_def)
  from question_answered_once [OF this prod.collapse [symmetric] codex_calls.simps(1) _ prod.collapse [symmetric]]
  show ?thesis by (simp add: req_id_str_def)
qed

theorem startup_defaults_once_witness:
  "let c0 = snd (startup_messages ''1'' (demo_ctx (Some ''t'')) codex_new);
       turn = hd (fst (frame_user_turn ''hi'' [] [] default_overrides c0))
   in map_option (\<lambda>ps. j_get ps ''model'') (j_get turn ''params'') = Some (Some (JStr ''m''))"
proof -
  let ?s = "startup_messages ''1'' (demo_ctx (Some ''t'')) codex_new"
  let ?t = "frame_user_turn ''hi'' [] [] default_overrides (snd ?s)"
  obtain ps where "?t = ([hd (fst ?t)], snd ?t)" "j_get (hd (fst ?t)) ''params'' = Some ps"
    by (simp add: startup_messages_def demo_ctx_def demo frame_user_turn_def)
  from startup_defaults_once [OF prod.collapse [symmetric] codex_calls.simps(1) this(1) refl this(2)] this(2)
  show ?thesis by (simp add: turn_written_def setting_def default_overrides_def demo_ctx_def)
qed

text \<open>An acknowledgement without the id: ready, and the message is dropped.\<close>

theorem session_opens_witness:
  "let c0 = snd (startup_messages ''1'' (demo_ctx None) codex_new);
       c = snd (codex_calls demo_lib ''r'' [CLine ''bare''] c0)
   in is_ready c \<and> fst (frame_user_turn ''hi'' [] [] default_overrides c) = []"
  using session_opens [where version = "''1''" and ctx = "demo_ctx None" and ks = "[CLine ''bare'']"
      and L = demo_lib and r = "''r''" and msg = "''hi''" and ps = "[]" and sks = "[]"
      and ov = default_overrides, OF prod.collapse [symmetric] prod.collapse [symmetric]]
  by (simp add: demo_lines open_reply_def nested_id_def get_str_def demo_ctx_def Let_def)

end
