(* ===== verification/CodexSession.thy ===== *)
theory CodexSession
  imports SessionProperties CodexRequests
begin

text \<open>
  The session actor together with the driver of the Codex app server: the round trip of a control
  request from the caller through both to the reply, and what becomes of a session whose thread
  the server refuses to open.
\<close>

section \<open>Control requests\<close>









lemma reply_nonempty: "reply_of L (str_trim line) \<noteq> None \<Longrightarrow> str_trim line \<noteq> []"
proof -
  have "str_trim [] = []" by code_simp
  then show "reply_of L (str_trim line) \<noteq> None \<Longrightarrow> str_trim line \<noteq> []"
    by (auto simp: reply_of_def line_message_def)
qed


text \<open>What the caller \<open>n\<close> has been told.\<close>

definition resolved :: "nat \<Rightarrow> effect list \<Rightarrow> json list" where
  "resolved n es = List.map_filter (\<lambda>e. case e of Resolve m v \<Rightarrow> if m = n then Some v else None | _ \<Rightarrow> None) es"

lemma resolved_simps [simp]:
  "resolved n [] = []" "resolved n (es @ fs) = resolved n es @ resolved n fs" "resolved n [Wire j] = []"
  "resolved n [DropWaiter m] = []" "resolved n [Resolve m v] = (if m = n then [v] else [])"
  by (simp_all add: resolved_def List.map_filter_def)







section \<open>A thread that is not opened\<close>

text \<open>
  When the server refuses to open the thread (an error reply to the request with the id 2), the
  session takes no notice: the actor is exactly as before.  Nothing is reported, the session stays
  unready, and the messages in its queue wait for a turn that never starts.
\<close>

theorem refused_thread_ignored:
  assumes "en_driver E = codex_driver L" "ac_codex a = Some c" "\<not> is_ready c"
    and "ac_active_turn a = None" "map_of (ca_client_waiters c) 2 = None"
    and "reply_of L (str_trim line) = Some (msg, 2)" "j_get msg ''error'' = Some err"
  shows "handle_stdout_line E line a = a"
proof -
  have p: "parse_line L r (str_trim line) c = (empty_line, c)" for r
    using assms(5-7)
    by (auto simp: reply_of_def parse_line_message handle_message_def handle_reply_def handle_ack_def
        split: bind_splits if_splits)
  have "a\<lparr>ac_active_turn := None, ac_codex := Some c\<rparr> = a"
    using assms(2,4) by (cases a) simp
  then show ?thesis
    using assms p reply_nonempty [of L line]
    by (auto simp: handle_stdout_line_def handle_codex_line_def codex_driver_def empty_line_def
        codex_open_gate_def apply_activity_reset_def Let_def)
qed

section \<open>Samples\<close>



lemma demo_trim: "str_trim ''reply'' = ''reply''" "str_trim ''refused'' = ''refused''"
  by code_simp+



text \<open>The refusal of a resumed thread.\<close>

definition refusing_lib :: codex_lib where
  "refusing_lib = demo_lib\<lparr>cl_parse := (\<lambda>s.
     Some (JObj [(''id'', JNum (JPos 2)), (''error'', JObj [(''message'', JStr ''no such thread'')])]))\<rparr>"

theorem refused_thread_ignored_witness:
  "let E = sample_env\<lparr>en_driver := codex_driver refusing_lib\<rparr>; a = sample_session (Some codex_new)
   in handle_stdout_line E ''refused'' a = a"
proof -
  have r: "reply_of refusing_lib (str_trim ''refused'') =
      Some (JObj [(''id'', JNum (JPos 2)), (''error'', JObj [(''message'', JStr ''no such thread'')])], 2)"
    by (simp add: demo_trim reply_of_def line_message_def refusing_lib_def get_str_def)
  have "handle_stdout_line (sample_env\<lparr>en_driver := codex_driver refusing_lib\<rparr>) ''refused''
      (sample_session (Some codex_new)) = sample_session (Some codex_new)"
    by (rule refused_thread_ignored [where c = codex_new, OF _ _ _ _ _ r])
      (simp_all add: sample_defs codex_new_def is_ready_def)
  then show ?thesis by (simp add: Let_def)
qed

end
