(* ===== verification/PipeParser.thy ===== *)
theory PipeParser
  imports CodexItems
begin

text \<open>
  The parser of the output of a one-shot Codex process (\<open>agent/pipe_parser.rs\<close>): a small state (the
  sequence number of the process and the counter of its turns) and one function from a JSON line
  to bus events.
\<close>

section \<open>State and names\<close>

record CodexStdoutParser =
  cp_process_seq :: u32
  cp_turn_counter :: u32

definition parser_new :: "u32 \<Rightarrow> CodexStdoutParser" where
  "parser_new process_seq = \<lparr> cp_process_seq = process_seq, cp_turn_counter = 0 \<rparr>"

definition scoped_id :: "CodexStdoutParser \<Rightarrow> string \<Rightarrow> string" where
  "scoped_id p item_id =
     ''codex-'' @ show_nat (unat (cp_process_seq p)) @ ''-''
       @ show_nat (unat (cp_turn_counter p)) @ ''-'' @ item_id"

definition mcp_tool_name :: "json \<Rightarrow> string" where
  "mcp_tool_name item =
     unwrap_or (get_str item ''server'') ''mcp'' @ '':''
       @ unwrap_or (get_str item ''tool'') ''unknown''"

text \<open>The path and the kind of the first change, from a list or from a map keyed by path.\<close>

definition first_change :: "json \<Rightarrow> string option \<times> string option" where
  "first_change changes =
     (case changes of
        JArr (c # cs) \<Rightarrow> (get_str c ''path'', get_str c ''kind'')
      | JObj kvs \<Rightarrow>
          ((case obj_entries kvs of [] \<Rightarrow> None | (k, v) # es \<Rightarrow> Some k), None)
      | _ \<Rightarrow> (None, None))"

definition file_change_input :: "json \<Rightarrow> json" where
  "file_change_input item =
     (let changes = unwrap_or (j_get item ''changes'') (JArr [])
      in case first_change changes of
           (Some path, kind) \<Rightarrow>
             JObj [(''file_path'', JStr path), (''kind'', opt_json kind),
                   (''changes'', changes)]
         | (None, kind) \<Rightarrow> JObj [(''changes'', changes)])"

definition todo_status :: "json \<Rightarrow> string" where
  "todo_status item =
     (let st = get_str item ''status'' in
      if st = Some ''in_progress'' \<or> st = Some ''in-progress'' then ''in_progress''
      else if st = Some ''completed'' \<or> st = Some ''complete'' \<or> st = Some ''done'' then ''completed''
      else if st = Some ''pending'' then ''pending''
      else if get_bool item ''completed'' = Some True then ''completed'' else ''pending'')"

definition todo_item_to_new_todo :: "json \<Rightarrow> json" where
  "todo_item_to_new_todo item =
     (let content = unwrap_or (or_else (get_str item ''text'')
            (or_else (get_str item ''content'') (get_str item ''title''))) []
      in JObj [(''content'', JStr content), (''status'', JStr (todo_status item)),
               (''activeForm'', JStr content)])"

text \<open>
  \<open>human_error_message\<close>: at most three layers of JSON are taken off; \<open>parse\<close> is
  \<open>serde_json::from_str\<close>.
\<close>

definition inner_message :: "json \<Rightarrow> string option" where
  "inner_message v =
     or_else (Option.bind (j_get v ''error'') (\<lambda>e. get_str e ''message'')) (get_str v ''message'')"

primrec unwrap_message :: "(string \<Rightarrow> json option) \<Rightarrow> nat \<Rightarrow> string \<Rightarrow> string" where
  "unwrap_message parse 0 current = current"
| "unwrap_message parse (Suc n) current =
     (case Option.bind (parse current) inner_message of
        None \<Rightarrow> current
      | Some s \<Rightarrow> if s \<noteq> current then unwrap_message parse n s else current)"

definition human_error_message :: "(string \<Rightarrow> json option) \<Rightarrow> string \<Rightarrow> string" where
  "human_error_message parse raw = unwrap_message parse 3 raw"

section \<open>Items\<close>

definition pipe_item_id :: "json \<Rightarrow> string" where
  "pipe_item_id item = unwrap_or (get_str item ''id'') ''unknown''"

definition started_input :: "CodexToolKind \<Rightarrow> json \<Rightarrow> string \<times> json" where
  "started_input kind item =
     (case kind of
        CkCommand \<Rightarrow> (''Bash'', JObj [(''command'', JStr (str_field item ''command''))])
      | CkFileChange \<Rightarrow> (''Edit'', file_change_input item)
      | CkMcpToolCall \<Rightarrow> (mcp_tool_name item, unwrap_or (j_get item ''arguments'') (JObj []))
      | CkWebSearch \<Rightarrow>
          (''WebSearch'',
           JObj ([(''query'', JStr (str_field item ''query''))]
             @ opt_field ''action'' (j_get item ''action'')))
      | CkCollabToolCall \<Rightarrow>
          (''Agent'',
           JObj [(''codexCollab'', JBool True),
                 (''operation'', JStr (unwrap_or (get_str item ''tool'') ''unknown'')),
                 (''prompt'', JStr (str_field item ''prompt''))]))"

definition map_item_started :: "CodexStdoutParser \<Rightarrow> string \<Rightarrow> json \<Rightarrow> BusEvent list" where
  "map_item_started p run_id raw =
     (case j_get raw ''item'' of
        None \<Rightarrow> []
      | Some item \<Rightarrow>
          (case from_item_type (str_field item ''type'') of
             None \<Rightarrow> []
           | Some kind \<Rightarrow>
               (case started_input kind item of
                  (tool_name, input) \<Rightarrow>
                    [ToolStart run_id (scoped_id p (pipe_item_id item)) tool_name input None])))"

definition map_todo_list :: "CodexStdoutParser \<Rightarrow> string \<Rightarrow> json \<Rightarrow> BusEvent list" where
  "map_todo_list p run_id item =
     (let i = scoped_id p (unwrap_or (get_str item ''id'') ''todo'');
          new_todos = JArr (map todo_item_to_new_todo (unwrap_or (get_array item ''items'') []))
      in [ToolStart run_id i ''TodoWrite'' (JObj [(''todos'', new_todos)]) None,
          ToolEnd run_id i ''TodoWrite'' (JObj []) ''success'' None None
            (Some (JObj [(''newTodos'', new_todos)]))])"

text \<open>The end of a tool: its name, its output and the extra result of the collaboration tool.\<close>

definition collab_payload :: "json \<Rightarrow> json" where
  "collab_payload item =
     JObj [(''codexCollab'', JBool True),
           (''operation'', JStr (unwrap_or (get_str item ''tool'') ''collab'')),
           (''status'', opt_json (get_str item ''status'')),
           (''agents_states'', unwrap_or (j_get item ''agents_states'') (JObj []))]"

definition completed_tool :: "string \<Rightarrow> json \<Rightarrow> (string \<times> json \<times> json option) option" where
  "completed_tool item_type item =
     (if item_type = ''command_execution'' then
        Some (''Bash'', JObj [(''content'', JStr (str_field item ''aggregated_output''))], None)
      else if item_type = ''file_change'' then
        Some (''Edit'', unwrap_or (j_get item ''changes'') (JObj []), None)
      else if item_type = ''mcp_tool_call'' then
        Some (mcp_tool_name item, unwrap_or (j_get item ''result'') (JObj []), None)
      else if item_type = ''web_search'' then
        Some (''WebSearch'', unwrap_or (j_get item ''action'') (JObj []), None)
      else if item_type = ''collab_tool_call'' then
        Some (''Agent'', JObj [(''content'', collab_payload item)], Some (collab_payload item))
      else None)"

definition map_item_completed :: "CodexStdoutParser \<Rightarrow> string \<Rightarrow> json \<Rightarrow> BusEvent list" where
  "map_item_completed p run_id raw =
     (case j_get raw ''item'' of
        None \<Rightarrow> []
      | Some item \<Rightarrow>
          (let item_type = str_field item ''type'';
               i = scoped_id p (pipe_item_id item);
               status = codex_normalize_status (unwrap_or (get_str item ''status'') ''completed'')
           in case completed_tool item_type item of
                Some (tool_name, output, result) \<Rightarrow>
                  [ToolEnd run_id i tool_name output status None None result]
              | None \<Rightarrow>
                  if item_type = ''agent_message'' then
                    [MessageComplete run_id i (str_field item ''text'') None None None None]
                  else if item_type = ''todo_list'' then map_todo_list p run_id item
                  else if item_type = ''error'' then
                    [CommandOutput run_id
                       (''[error] '' @ unwrap_or (get_str item ''message'') ''unknown error'')]
                  else if item_type = ''reasoning'' then
                    (let t = str_field item ''text'' in
                     if t = [] then [] else [ThinkingDelta run_id t None])
                  else []))"

section \<open>Turns and errors\<close>

definition saturating_add :: "u64 \<Rightarrow> u64 \<Rightarrow> u64" where
  "saturating_add a b = of_nat (min (unat a + unat b) (2 ^ 64 - 1))"

definition map_turn_completed ::
  "float_ops \<Rightarrow> CodexStdoutParser \<Rightarrow> string \<Rightarrow> json \<Rightarrow> BusEvent list" where
  "map_turn_completed F p run_id raw =
     (case j_get raw ''usage'' of
        None \<Rightarrow> []
      | Some usage \<Rightarrow>
          (let num = (\<lambda>k. unwrap_or (get_u64 usage k) 0);
               cached = num ''cached_input_tokens''
           in [UsageUpdate run_id
                 \<lparr> uu_input_tokens = num ''input_tokens'',
                   uu_output_tokens =
                     saturating_add (num ''output_tokens'') (num ''reasoning_output_tokens''),
                   uu_cache_read_tokens = (if 0 < cached then Some cached else None),
                   uu_cache_write_tokens = None, uu_total_cost_usd = f_of_rat F 0,
                   uu_turn_index = Some (cp_turn_counter p), uu_model_usage = None,
                   uu_duration_api_ms = None, uu_duration_ms = None, uu_num_turns = None,
                   uu_stop_reason = None, uu_service_tier = None, uu_speed = None,
                   uu_web_fetch_requests = None, uu_cache_creation_5m = None,
                   uu_cache_creation_1h = None \<rparr>]))"

definition map_turn_failed :: "(string \<Rightarrow> json option) \<Rightarrow> string \<Rightarrow> json \<Rightarrow> BusEvent list" where
  "map_turn_failed parse run_id raw =
     [RunState run_id ''failed'' None
        (Some (human_error_message parse
           (unwrap_or (Option.bind (j_get raw ''error'') (\<lambda>e. get_str e ''message''))
              ''turn failed'')))]"

definition map_error :: "(string \<Rightarrow> json option) \<Rightarrow> string \<Rightarrow> json \<Rightarrow> BusEvent list" where
  "map_error parse run_id raw =
     [CommandOutput run_id (''[codex error] '' @ human_error_message parse
        (unwrap_or (or_else (get_str raw ''message'') (get_str raw ''error'')) ''unknown error''))]"

definition map_item_updated :: "CodexStdoutParser \<Rightarrow> string \<Rightarrow> json \<Rightarrow> BusEvent list" where
  "map_item_updated p run_id raw =
     (case j_get raw ''item'' of
        None \<Rightarrow> []
      | Some item \<Rightarrow>
          if str_field item ''type'' = ''todo_list'' then map_todo_list p run_id item
          else [Raw run_id ''codex_item_updated_unknown'' item])"

definition pipe_parse_line ::
  "float_ops \<Rightarrow> (string \<Rightarrow> json option) \<Rightarrow> string \<Rightarrow> json \<Rightarrow> CodexStdoutParser
     \<Rightarrow> BusEvent list \<times> CodexStdoutParser" where
  "pipe_parse_line F parse run_id raw p =
     (let type_str = str_field raw ''type'' in
      if type_str = ''turn.started'' then
        ([], p\<lparr>cp_turn_counter := cp_turn_counter p + 1\<rparr>)
      else if type_str = ''item.started'' then (map_item_started p run_id raw, p)
      else if type_str = ''item.completed'' then (map_item_completed p run_id raw, p)
      else if type_str = ''item.updated'' then (map_item_updated p run_id raw, p)
      else if type_str = ''turn.completed'' then (map_turn_completed F p run_id raw, p)
      else if type_str = ''turn.failed'' then (map_turn_failed parse run_id raw, p)
      else if type_str = ''error'' then (map_error parse run_id raw, p)
      else ([], p))"

section \<open>Ids of cards\<close>

text \<open>
  The ids that a one-shot process gives its cards and messages are unique over the run: two of
  them are equal exactly when the process, the turn and the id of the item are.  A resumed process
  numbers its items from the start again, and does not overwrite the cards of an earlier one.
\<close>

theorem scoped_id_unique:
  "scoped_id p i = scoped_id q j \<longleftrightarrow>
     cp_process_seq p = cp_process_seq q \<and> cp_turn_counter p = cp_turn_counter q \<and> i = j"
proof
  assume "scoped_id p i = scoped_id q j"
  then have e: "show_nat (unat (cp_process_seq p)) @ CHR ''-'' # (show_nat (unat (cp_turn_counter p)) @ CHR ''-'' # i)
      = show_nat (unat (cp_process_seq q)) @ CHR ''-'' # (show_nat (unat (cp_turn_counter q)) @ CHR ''-'' # j)"
    by (simp add: scoped_id_def)
  note s1 = split_unique [OF e dash_not_digit dash_not_digit]
  note s2 = split_unique [OF conjunct2 [OF s1] dash_not_digit dash_not_digit]
  have "cp_process_seq p = cp_process_seq q" "cp_turn_counter p = cp_turn_counter q"
    using s1 s2 show_nat_inj word_unat_eq_iff by blast+
  with s2 show "cp_process_seq p = cp_process_seq q \<and> cp_turn_counter p = cp_turn_counter q \<and> i = j"
    by simp
qed (auto simp: scoped_id_def)

section \<open>Cards of tools\<close>

definition exec_tool_types :: "string list" where
  "exec_tool_types = [''command_execution'', ''file_change'', ''mcp_tool_call'', ''web_search'',
     ''collab_tool_call'']"

lemma exec_tool_end:
  assumes "from_item_type t = Some kind" "mcp_tool_name item' = mcp_tool_name item"
  shows "t \<in> set exec_tool_types \<Longrightarrow>
      \<exists>out res. completed_tool t item' = Some (fst (started_input kind item), out, res)"
    and "t \<notin> set exec_tool_types \<Longrightarrow> completed_tool t item' = None
      \<and> t \<notin> {''agent_message'', ''todo_list'', ''error'', ''reasoning''}"
  using assms
  by (auto simp: from_item_type_def completed_tool_def exec_tool_types_def started_input_def
      split: if_splits)

text \<open>
  Which cards of a one-shot process are closed.  Every item that the shared classification
  takes for a tool opens a card; its completion closes that card, under the same id and name and
  with the normalised status, exactly when the type is spelt in snake case.  For the camel-case
  spellings that the classification also takes, the card stays open.
\<close>

theorem exec_cards_closed:
  assumes "j_get raw ''item'' = Some item" "j_get raw' ''item'' = Some item'"
    and "get_str item ''type'' = Some t" "from_item_type t = Some kind"
    and "get_str item' ''type'' = get_str item ''type''" "get_str item' ''id'' = get_str item ''id''"
    and "mcp_tool_name item' = mcp_tool_name item"
    and "get_str item' ''status'' = Some st"
  shows "\<exists>n inp. map_item_started p r raw = [ToolStart r (scoped_id p (pipe_item_id item)) n inp None]
    \<and> (if t \<in> set exec_tool_types
       then (\<exists>out res. map_item_completed p r raw' =
         [ToolEnd r (scoped_id p (pipe_item_id item)) n out
            (if st \<in> {''failed'', ''declined''} then ''error'' else ''success'') None None res])
       else map_item_completed p r raw' = [])"
proof -
  obtain n inp where s: "started_input kind item = (n, inp)" by (metis surj_pair)
  have t: "str_field item ''type'' = t" "str_field item' ''type'' = t"
    "pipe_item_id item' = pipe_item_id item"
    using assms(3,5,6) by (simp_all add: str_field_def pipe_item_id_def)
  have "map_item_started p r raw = [ToolStart r (scoped_id p (pipe_item_id item)) n inp None]"
    using assms(1,4) s t(1) by (simp add: map_item_started_def)
  moreover have "\<exists>out res. map_item_completed p r raw' =
      [ToolEnd r (scoped_id p (pipe_item_id item)) n out
         (if st \<in> {''failed'', ''declined''} then ''error'' else ''success'') None None res]"
    if "t \<in> set exec_tool_types"
    using exec_tool_end(1) [OF assms(4,7) that] assms(2,8) s t
    by (auto simp: map_item_completed_def codex_normalize_status_def Let_def)
  moreover have "map_item_completed p r raw' = []" if "t \<notin> set exec_tool_types"
    using exec_tool_end(2) [OF assms(4,7) that] assms(2) t(2)
    by (simp add: map_item_completed_def Let_def)
  ultimately show ?thesis by auto
qed

theorem exec_cards_closed_witness:
  "map_item_completed (parser_new 1) ''r''
     (JObj [(''item'', JObj [(''type'', JStr ''commandExecution''), (''id'', JStr ''1''),
                           (''status'', JStr ''completed'')])]) = []"
proof -
  let ?i = "JObj [(''type'', JStr ''commandExecution''), (''id'', JStr ''1''), (''status'', JStr ''completed'')]"
  have "get_str ?i ''type'' = Some ''commandExecution''" "get_str ?i ''status'' = Some ''completed''"
    "from_item_type ''commandExecution'' = Some CkCommand" "''commandExecution'' \<notin> set exec_tool_types"
    by (simp_all add: get_str_def from_item_type_def exec_tool_types_def)
  with exec_cards_closed [of "JObj [(''item'', ?i)]" ?i "JObj [(''item'', ?i)]" ?i "''commandExecution''"
      CkCommand "''completed''" "parser_new 1" "''r''"]
  show ?thesis by simp
qed

section \<open>Error messages\<close>

text \<open>
  \<open>m\<close> is what the text \<open>s\<close> wraps: \<open>s\<close> is JSON with the text \<open>m\<close> as the message of its error or, when there is no
  such text, as its own message.
\<close>

definition wraps :: "(string \<Rightarrow> json option) \<Rightarrow> string \<Rightarrow> string \<Rightarrow> bool" where
  "wraps parse s m \<longleftrightarrow>
     s \<noteq> m \<and>
     (\<exists>v. parse s = Some v \<and>
        (if \<exists>e x. j_get v ''error'' = Some e \<and> get_str e ''message'' = Some x
         then \<exists>e. j_get v ''error'' = Some e \<and> get_str e ''message'' = Some m
         else get_str v ''message'' = Some m))"

lemma wraps_inner: "wraps parse s m \<longleftrightarrow> s \<noteq> m \<and> Option.bind (parse s) inner_message = Some m"
proof (cases "parse s")
  case (Some v)
  show ?thesis
  proof (cases "j_get v ''error''")
    case None
    then show ?thesis using Some by (simp add: wraps_def inner_message_def)
  next
    case e: (Some e)
    then show ?thesis using Some by (cases "get_str e ''message''") (auto simp: wraps_def inner_message_def)
  qed
qed (simp add: wraps_def)

lemma unwrap_steps:
  assumes "\<forall>i < k. wraps parse (ms i) (ms (Suc i))" "\<forall>m. \<not> wraps parse (ms k) m" "j \<le> k"
  shows "unwrap_message parse n (ms j) = ms (min k (j + n))"
  using assms(3)
proof (induction n arbitrary: j)
  case (Suc n)
  show ?case
  proof (cases "j < k")
    case True
    then have "Option.bind (parse (ms j)) inner_message = Some (ms (Suc j))" "ms (Suc j) \<noteq> ms j"
      using assms(1) by (auto simp: wraps_inner)
    then show ?thesis using Suc.IH [of "Suc j"] True by simp
  next
    case False
    then have j: "j = k" using Suc.prems by simp
    then have "Option.bind (parse (ms j)) inner_message = None
        \<or> Option.bind (parse (ms j)) inner_message = Some (ms j)"
      using assms(2) [unfolded wraps_inner] unfolding j by (cases "Option.bind (parse (ms k)) inner_message") metis+
    then show ?thesis using j by auto
  qed
qed simp

text \<open>
  C33: a message that the server has wrapped in JSON, in an error object or an object with a message,
  layer upon layer in any mixture, is shown without its layers when there are at most three of them.
  The loop stops after three: of more layers exactly three are removed, and what is shown is still
  wrapped.
\<close>

theorem error_layers_removed:
  assumes "\<forall>i < k. wraps parse (ms i) (ms (Suc i))" "\<forall>m. \<not> wraps parse (ms k) m"
  shows "human_error_message parse (ms 0) = ms (min k 3)
    \<and> ((\<exists>m. wraps parse (human_error_message parse (ms 0)) m) \<longleftrightarrow> 3 < k)"
proof -
  have "human_error_message parse (ms 0) = ms (min k 3)"
    using unwrap_steps [OF assms, of 0 3] by (simp add: human_error_message_def)
  moreover have "wraps parse (ms 3) (ms (Suc 3))" if "3 < k" using assms(1) that by blast
  ultimately show ?thesis using assms(2) by (cases "3 < k") auto
qed

definition letter_parse :: "string \<Rightarrow> json option" where
  "letter_parse s =
     (case s of
        [] \<Rightarrow> None
      | c # m \<Rightarrow>
          if c = CHR ''e'' then Some (JObj [(''error'', JObj [(''message'', JStr m)])])
          else if c = CHR ''m'' then Some (JObj [(''message'', JStr m)]) else None)"

theorem error_layers_removed_witness:
  "human_error_message letter_parse ''emmefull'' = ''efull'' \<and> human_error_message letter_parse ''mefull'' = ''full''"
proof -
  have w: "wraps letter_parse (c # m) m" if "c = CHR ''e'' \<or> c = CHR ''m''" for c m
    using that by (auto simp: wraps_inner letter_parse_def inner_message_def get_str_def)
  have n: "\<forall>m. \<not> wraps letter_parse ''full'' m" by (simp add: wraps_inner letter_parse_def)
  have "\<forall>i < 4. wraps letter_parse (drop i ''emmefull'') (drop (Suc i) ''emmefull'')"
    using w by (auto simp: less_Suc_eq numeral_eq_Suc)
  from error_layers_removed [where ms = "\<lambda>i. drop i ''emmefull''", OF this] n
  have a: "human_error_message letter_parse ''emmefull'' = ''efull''" by simp
  have "\<forall>i < 2. wraps letter_parse (drop i ''mefull'') (drop (Suc i) ''mefull'')"
    using w by (auto simp: less_Suc_eq numeral_eq_Suc)
  from error_layers_removed [where ms = "\<lambda>i. drop i ''mefull''", OF this] n
  have "human_error_message letter_parse ''mefull'' = ''full''" by simp
  with a show ?thesis by simp
qed

end
