(* ===== verification/CodexExec.thy ===== *)
theory CodexExec
  imports PipeParser RunStore
begin

text \<open>
  One-shot Codex processes (\<open>agent/stream.rs\<close>): the task that reads the output line by line, the
  filter of the error output, and how the run ends.  What the process does is an argument: its
  lines, how its output ends, what is left of it in the process map, and its exit status.  The two
  reading tasks only share the event log, so each is a function of its own lines.
\<close>

section \<open>Error output\<close>

definition is_benign_codex_stderr :: "string \<Rightarrow> bool" where
  "is_benign_codex_stderr line \<longleftrightarrow>
     str_trim line = [] \<or> str_trim line = ''Reading additional input from stdin...''"

definition summarize_stderr :: "string \<Rightarrow> string option" where
  "summarize_stderr stderr =
     (let summary = str_join [CHR 0x0A]
            (filter (\<lambda>l. \<not> is_benign_codex_stderr l) (str_lines stderr))
      in if summary = [] then None else Some (concat (take 1000 (utf8_chars summary))))"

section \<open>Reading the output\<close>

datatype exec_effect = ExLog RunEventType json | ExEmit BusEvent

datatype read_end = EndEof | EndError | EndTimeout

record exec_task =
  xt_parser :: CodexStdoutParser
  xt_assistant :: string
  xt_fallback :: string
  xt_effects :: "exec_effect list"
  xt_store :: store
  xt_saves :: nat

definition exec_emit :: "exec_effect list \<Rightarrow> exec_task \<Rightarrow> exec_task" where
  "exec_emit es t = t\<lparr>xt_effects := xt_effects t @ es\<rparr>"

definition web_chat :: "string \<Rightarrow> json" where
  "web_chat s = JObj [(''text'', JStr s), (''source'', JStr ''web_chat'')]"

text \<open>The text that goes to the answer because nothing structured carries it.\<close>

definition exec_fallback :: "string \<Rightarrow> string \<Rightarrow> exec_task \<Rightarrow> exec_task" where
  "exec_fallback run_id s t =
     exec_emit [ExEmit (MessageDelta run_id s None)] (t\<lparr>xt_fallback := xt_fallback t @ s\<rparr>)"

fun message_text :: "BusEvent \<Rightarrow> string" where
  "message_text (MessageComplete r i s q m sr us) = s"
| "message_text _ = []"

definition exec_thread :: "(nat \<Rightarrow> fs_io) \<Rightarrow> string \<Rightarrow> json \<Rightarrow> exec_task \<Rightarrow> exec_task" where
  "exec_thread io run_id payload t =
     (if str_field payload ''type'' = ''thread.started'' then
        (case get_str payload ''thread_id'' of
           None \<Rightarrow> t
         | Some tid \<Rightarrow>
             t\<lparr>xt_store := snd (with_meta (io (xt_saves t)) run_id
                   (\<lambda>m. Inr (m\<lparr>rm_conversation_ref := Some (CodexThread tid)\<rparr>)) (xt_store t)),
               xt_saves := Suc (xt_saves t)\<rparr>)
      else t)"

definition exec_payload ::
  "float_ops \<Rightarrow> (string \<Rightarrow> json option) \<Rightarrow> string \<Rightarrow> json \<Rightarrow> exec_task \<Rightarrow> exec_task" where
  "exec_payload F parse run_id payload t =
     (case pipe_parse_line F parse run_id payload (xt_parser t) of
        (events, p) \<Rightarrow>
          (let t1 = exec_emit (map ExEmit events)
                 (t\<lparr>xt_parser := p,
                    xt_assistant := xt_assistant t @ concat (map message_text events)\<rparr>)
           in if events = [] then
                (case extract_codex_delta payload of
                   None \<Rightarrow> t1 | Some s \<Rightarrow> exec_fallback run_id s t1)
              else t1))"

definition exec_line ::
  "float_ops \<Rightarrow> (string \<Rightarrow> json option) \<Rightarrow> (nat \<Rightarrow> fs_io) \<Rightarrow> string \<Rightarrow> string \<Rightarrow> exec_task \<Rightarrow> exec_task" where
  "exec_line F parse io run_id line t =
     (let t1 = exec_emit [ExLog EvStdout (web_chat line)] t;
          trimmed = str_trim line
      in if trimmed = [] then t1
         else (case parse trimmed of
                 Some payload \<Rightarrow>
                   exec_payload F parse run_id payload (exec_thread io run_id payload t1)
               | None \<Rightarrow> exec_fallback run_id (trimmed @ [CHR 0x0A]) t1))"

definition exec_task_new :: "u32 \<Rightarrow> store \<Rightarrow> nat \<Rightarrow> exec_task" where
  "exec_task_new process_seq st k =
     \<lparr> xt_parser = parser_new process_seq, xt_assistant = [], xt_fallback = [], xt_effects = [],
       xt_store = st, xt_saves = k \<rparr>"

definition exec_flush :: "string \<Rightarrow> u32 \<Rightarrow> exec_task \<Rightarrow> exec_task" where
  "exec_flush run_id process_seq t =
     (if xt_fallback t = [] then t
      else
        exec_emit
          [ExEmit (MessageComplete run_id
             (''codex-'' @ show_nat (unat process_seq) @ ''-fallback'') (xt_fallback t)
             None None None None)]
          (t\<lparr>xt_assistant := xt_assistant t @ xt_fallback t\<rparr>))"

definition exec_stdout ::
  "float_ops \<Rightarrow> (string \<Rightarrow> json option) \<Rightarrow> (nat \<Rightarrow> fs_io) \<Rightarrow> string \<Rightarrow> u32 \<Rightarrow> string list
     \<Rightarrow> store \<Rightarrow> nat \<Rightarrow> exec_task" where
  "exec_stdout F parse io run_id process_seq lines st k =
     exec_flush run_id process_seq
       (foldl (\<lambda>t l. exec_line F parse io run_id l t) (exec_task_new process_seq st k) lines)"

definition exec_stderr :: "string \<Rightarrow> string list \<Rightarrow> string \<times> exec_effect list" where
  "exec_stderr run_id lines =
     (concat (map (\<lambda>l. l @ [CHR 0x0A]) lines),
      concat (map (\<lambda>l. ExLog EvStderr (web_chat l)
        # (if is_benign_codex_stderr l then []
           else [ExEmit (CommandOutput run_id (''[stderr] '' @ l))])) lines))"

section \<open>The end of the run\<close>

definition CODEX_IDLE_TIMEOUT :: nat where "CODEX_IDLE_TIMEOUT = 1800"

text \<open>
  The exit code: that of the child, when it is still in the process map (1 for a signal); after a
  timeout, and after a stop, the map is empty.
\<close>

definition exec_exit_code :: "i32 option option \<Rightarrow> bool \<Rightarrow> i32" where
  "exec_exit_code child timed_out =
     (case child of
        Some code \<Rightarrow> unwrap_or code 1
      | None \<Rightarrow> if timed_out then -2 else -1)"

definition exec_error :: "i32 \<Rightarrow> string \<Rightarrow> string option" where
  "exec_error exit_code stderr_text =
     (if exit_code = 0 \<or> exit_code = -1 then None
      else if exit_code = -2 then
        Some (''Codex timed out after '' @ show_nat CODEX_IDLE_TIMEOUT @ '' seconds without output'')
      else or_else (summarize_stderr stderr_text)
             (Some (''Codex exited with code '' @ show_i32 exit_code)))"

definition exec_status :: "i32 \<Rightarrow> bool \<Rightarrow> RunStatus \<times> string" where
  "exec_status exit_code has_thread =
     (if exit_code = 0 then (if has_thread then (Idle, ''idle'') else (Completed, ''completed''))
      else if exit_code = -1 then (Stopped, ''stopped'')
      else (Failed, ''failed''))"

definition exec_finish ::
  "fs_io \<Rightarrow> string \<Rightarrow> string \<Rightarrow> i32 \<Rightarrow> string \<Rightarrow> string \<Rightarrow> store
     \<Rightarrow> (string + unit) \<times> exec_effect list \<times> store" where
  "exec_finish io now run_id exit_code assistant_text stderr_text st =
     (let answer = (if str_trim assistant_text = [] then []
            else [ExLog EvAssistant (web_chat (str_trim assistant_text))]);
          has_thread = is_some_and (get_run st run_id) (\<lambda>m. rm_conversation_ref m \<noteq> None);
          error = exec_error exit_code stderr_text
      in case exec_status exit_code has_thread of
           (status, state) \<Rightarrow>
             (case update_status io now run_id status
                     (if 0 \<le> sint exit_code then Some exit_code else None) error st of
                (Inl e, st') \<Rightarrow> (Inl e, answer, st')
              | (Inr u, st') \<Rightarrow>
                  (Inr (), answer @ [ExEmit (RunState run_id state (Some exit_code) error)], st')))"

text \<open>
  The whole call.  \<open>running\<close> is the set of runs in the process map; \<open>spawned\<close> is the error of the
  spawn; \<open>child\<close> is what the map holds at the end, with the error of waiting for it or its exit
  status.  A timeout has taken the child out of the map.
\<close>

record exec_process =
  xp_spawned :: "string option"
  xp_stdout :: "string list"
  xp_end :: read_end
  xp_stderr :: "string list"
  xp_child :: "(string + i32 option) option"

definition run_codex_exec ::
  "float_ops \<Rightarrow> (string \<Rightarrow> json option) \<Rightarrow> (nat \<Rightarrow> fs_io) \<Rightarrow> string \<Rightarrow> exec_process \<Rightarrow> string set
     \<Rightarrow> string \<Rightarrow> store \<Rightarrow> (string + unit) \<times> (exec_effect list \<times> exec_effect list \<times> exec_effect list) \<times> store" where
  "run_codex_exec F parse io now P running run_id st =
     (if run_id \<in> running then (Inl ''A Codex turn is already running'', ([], [], []), st)
      else (case next_codex_process_seq (io 0) run_id st of
        (Inl e, st1) \<Rightarrow> (Inl e, ([], [], []), st1)
      | (Inr process_seq, st1) \<Rightarrow>
          (case xp_spawned P of
             Some e \<Rightarrow> (Inl e, ([], [], []), st1)
           | None \<Rightarrow>
               (let t = exec_stdout F parse io run_id process_seq (xp_stdout P) st1 1;
                    timed_out = (xp_end P = EndTimeout)
                in case exec_stderr run_id (xp_stderr P) of
                     (stderr_text, err_effects) \<Rightarrow>
                       (case (if timed_out then None else xp_child P) of
                          Some (Inl e) \<Rightarrow>
                            (Inl (''Failed waiting for Codex: '' @ e),
                             (xt_effects t, err_effects, []), xt_store t)
                        | c \<Rightarrow>
                            (let child = (case c of Some (Inr code) \<Rightarrow> Some code | _ \<Rightarrow> None)
                             in case exec_finish (io (xt_saves t)) now run_id
                                  (exec_exit_code child timed_out) (xt_assistant t) stderr_text
                                  (xt_store t) of
                                  (r, final, st') \<Rightarrow>
                                    (r, (xt_effects t, err_effects, final), st')))))))"

section \<open>The answer\<close>

fun emitted_event :: "exec_effect \<Rightarrow> BusEvent option" where
  "emitted_event (ExEmit ev) = Some ev"
| "emitted_event (ExLog k j) = None"

definition exec_events :: "exec_effect list \<Rightarrow> BusEvent list" where
  "exec_events es = List.map_filter emitted_event es"

fun delta_text :: "BusEvent \<Rightarrow> string" where
  "delta_text (MessageDelta r s q) = s"
| "delta_text _ = []"

lemma exec_events_simps [simp]:
  "exec_events [] = []" "exec_events (es @ fs) = exec_events es @ exec_events fs"
  "exec_events (ExEmit ev # es) = ev # exec_events es" "exec_events (ExLog k j # es) = exec_events es"
  "exec_events (map ExEmit evs) = evs"
  by (simp_all add: exec_events_def List.map_filter_def comp_def)

definition no_delta :: "BusEvent list \<Rightarrow> bool" where
  "no_delta evs \<longleftrightarrow> concat (map delta_text evs) = []"

lemma no_delta_if: "no_delta x \<Longrightarrow> no_delta y \<Longrightarrow> no_delta (if c then x else y)"
  by simp

lemma no_delta_items:
  "no_delta (map_item_started p r raw)" "no_delta (map_todo_list p r item)"
  "no_delta (map_turn_completed F p r raw)" "no_delta (map_turn_failed parse r raw)"
  "no_delta (map_error parse r raw)"
  by (auto simp: no_delta_def map_item_started_def map_todo_list_def map_turn_completed_def
      map_turn_failed_def map_error_def Let_def split: option.split prod.split)

lemma no_delta_completed:
  "no_delta (map_item_completed p r raw)" "no_delta (map_item_updated p r raw)"
proof -
  have s: "no_delta []" "no_delta [ThinkingDelta r t q]" "no_delta [CommandOutput r c]"
    "no_delta [MessageComplete r i t q m sr us]" "no_delta [ToolEnd r i n out st d q res]"
    "no_delta [Raw r src v]" for i t q c m sr us n out st d res src v
    by (simp_all add: no_delta_def)
  show "no_delta (map_item_completed p r raw)"
    unfolding map_item_completed_def Let_def
    by (auto intro!: no_delta_if simp: s no_delta_items simp del: if_split split: option.split prod.split)
  show "no_delta (map_item_updated p r raw)"
    unfolding map_item_updated_def by (auto simp: s no_delta_items split: option.split)
qed

lemma parser_no_delta: "no_delta (fst (pipe_parse_line F parse r raw p))"
proof -
  have "no_delta []" by (simp add: no_delta_def)
  then show ?thesis
    by (simp add: pipe_parse_line_def Let_def no_delta_items no_delta_completed)
qed

text \<open>The texts collected are the texts shown.\<close>

definition texts_shown :: "exec_task \<Rightarrow> bool" where
  "texts_shown t \<longleftrightarrow>
     xt_assistant t = concat (map message_text (exec_events (xt_effects t)))
     \<and> xt_fallback t = concat (map delta_text (exec_events (xt_effects t)))"

lemma texts_shown_fallback: "texts_shown t \<Longrightarrow> texts_shown (exec_fallback r s t)"
  by (simp add: texts_shown_def exec_fallback_def exec_emit_def)

lemma texts_shown_payload:
  assumes "texts_shown t"
  shows "texts_shown (exec_payload F parse r payload t)"
proof -
  obtain evs p where p: "pipe_parse_line F parse r payload (xt_parser t) = (evs, p)" by (metis surj_pair)
  have "concat (map delta_text evs) = []"
    using parser_no_delta [of F parse r payload "xt_parser t"] p by (simp add: no_delta_def)
  then have "texts_shown (exec_emit (map ExEmit evs)
      (t\<lparr>xt_parser := p, xt_assistant := xt_assistant t @ concat (map message_text evs)\<rparr>))"
    using assms by (simp add: texts_shown_def exec_emit_def)
  then show ?thesis
    by (auto simp: exec_payload_def p Let_def texts_shown_fallback split: option.split)
qed

lemma texts_shown_line:
  assumes "texts_shown t"
  shows "texts_shown (exec_line F parse io r l t)"
proof -
  have t: "texts_shown (exec_emit [ExLog EvStdout (web_chat l)] t)"
    using assms by (simp add: texts_shown_def exec_emit_def)
  then have "texts_shown (exec_thread io r payload (exec_emit [ExLog EvStdout (web_chat l)] t))" for payload
    by (auto simp: exec_thread_def texts_shown_def split: option.split)
  with t show ?thesis
    by (auto simp: exec_line_def Let_def texts_shown_fallback texts_shown_payload split: option.split)
qed

lemma texts_shown_lines:
  "texts_shown t \<Longrightarrow> texts_shown (foldl (\<lambda>t l. exec_line F parse io r l t) t ls)"
  by (induction ls arbitrary: t) (simp_all add: texts_shown_line)

lemma stdout_texts:
  fixes F parse io r seq ls st k
  defines "t \<equiv> exec_stdout F parse io r seq ls st k"
  shows "xt_assistant t = concat (map message_text (exec_events (xt_effects t)))
    \<and> (concat (map delta_text (exec_events (xt_effects t))) = []
       \<or> message_text (last (exec_events (xt_effects t))) = concat (map delta_text (exec_events (xt_effects t))))"
proof -
  let ?u = "foldl (\<lambda>t l. exec_line F parse io r l t) (exec_task_new seq st k) ls"
  have "texts_shown (exec_task_new seq st k)" by (simp add: texts_shown_def exec_task_new_def)
  then have "texts_shown ?u" by (rule texts_shown_lines)
  then show ?thesis
    by (auto simp: t_def exec_stdout_def exec_flush_def texts_shown_def exec_emit_def)
qed

text \<open>The answers that are written to the log.\<close>

definition logged_answers :: "exec_effect list \<Rightarrow> json list" where
  "logged_answers es = List.map_filter (\<lambda>e. case e of ExLog k j \<Rightarrow> if k = EvAssistant then Some j else None | _ \<Rightarrow> None) es"

lemma logged_simps [simp]:
  "logged_answers [] = []" "logged_answers (es @ fs) = logged_answers es @ logged_answers fs"
  "logged_answers (ExEmit ev # es) = logged_answers es"
  "logged_answers (ExLog k j # es) = (if k = EvAssistant then [j] else []) @ logged_answers es"
  "logged_answers (map ExEmit evs) = []"
  by (simp_all add: logged_answers_def List.map_filter_def comp_def)

lemma line_logs: "logged_answers (xt_effects (exec_line F parse io r l t)) = logged_answers (xt_effects t)"
proof -
  have f: "logged_answers (xt_effects (exec_fallback r s u)) = logged_answers (xt_effects u)" for s u
    by (simp add: exec_fallback_def exec_emit_def)
  have th: "logged_answers (xt_effects (exec_thread io r v u)) = logged_answers (xt_effects u)" for v u
    by (simp add: exec_thread_def split: option.split)
  have "logged_answers (xt_effects (exec_payload F parse r v u)) = logged_answers (xt_effects u)" for v u
  proof -
    obtain evs p where p: "pipe_parse_line F parse r v (xt_parser u) = (evs, p)" by (metis surj_pair)
    show ?thesis by (auto simp: exec_payload_def p Let_def f split: option.split) (auto simp: exec_emit_def)
  qed
  then show ?thesis
    by (auto simp: exec_line_def Let_def f th split: option.split) (auto simp: exec_emit_def)
qed

lemma stdout_logs: "logged_answers (xt_effects (exec_stdout F parse io r seq ls st k)) = []"
proof -
  have "logged_answers (xt_effects (foldl (\<lambda>t l. exec_line F parse io r l t) t ls)) = logged_answers (xt_effects t)" for t
    by (induction ls arbitrary: t) (simp_all add: line_logs)
  then show ?thesis by (auto simp: exec_stdout_def exec_flush_def exec_emit_def exec_task_new_def)
qed

lemma stderr_logs: "logged_answers (snd (exec_stderr r ls)) = []"
proof -
  have "logged_answers (concat (map f ls)) = []" if "\<And>l. logged_answers (f l) = []" for f :: "string \<Rightarrow> exec_effect list"
    using that by (induction ls) simp_all
  then show ?thesis by (simp add: exec_stderr_def)
qed

text \<open>
  C32: nothing of the answer is lost or invented.  When a one-shot run has ended, its log has gained one
  answer, or none when there is no text: the concatenation of the complete messages that were shown of its
  output, in their order, without the white space at both ends.  The error output is no part of it.
  The text that was shown piece by piece because no structured event carried it is shown again as one
  complete message, the last one, so it is in the answer too.
\<close>

theorem exec_answer_complete:
  assumes "run_codex_exec F parse io now P running r st = (Inr (), (out, err, final), st')"
    and "shown = concat (map message_text (exec_events out))"
    and "pieces = concat (map delta_text (exec_events out))"
  shows "logged_answers (out @ err @ final) = (if str_trim shown = [] then [] else [web_chat (str_trim shown)])
    \<and> (pieces = [] \<or> message_text (last (exec_events out)) = pieces)"
proof -
  obtain seq st1 where st1: "next_codex_process_seq (io 0) r st = (Inr seq, st1)"
    using assms(1) by (auto simp: run_codex_exec_def split: if_splits prod.splits sum.splits)
  let ?t = "exec_stdout F parse io r seq (xp_stdout P) st1 1"
  obtain e0 where e0: "exec_stderr r (xp_stderr P) = (e0, snd (exec_stderr r (xp_stderr P)))" by (metis prod.collapse)
  obtain fio code where f: "exec_finish fio now r code (xt_assistant ?t) e0 (xt_store ?t) = (Inr (), final, st')"
    and out: "out = xt_effects ?t" and err: "err = snd (exec_stderr r (xp_stderr P))"
    using assms(1) st1 e0
    by (auto simp: run_codex_exec_def Let_def split: if_splits prod.splits sum.splits option.splits)
  note texts = stdout_texts [of F parse io r seq "xp_stdout P" st1 1]
  have shown: "xt_assistant ?t = shown" using texts assms(2) out by simp
  have "logged_answers final = (if str_trim shown = [] then [] else [web_chat (str_trim shown)])"
    using f shown by (auto simp: exec_finish_def Let_def split: prod.splits sum.splits)
  moreover have "pieces = [] \<or> message_text (last (exec_events out)) = pieces" using texts assms(3) out by simp
  ultimately show ?thesis using stdout_logs [of F parse io r seq "xp_stdout P" st1 1] stderr_logs [of r "xp_stderr P"]
    by (simp add: out err)
qed

section \<open>How the run ends\<close>

lemma keeps_upd:
  "runs.keeps (\<lambda>m. Inr (m\<lparr>rm_conversation_ref := c\<rparr>))"
  "runs.keeps (\<lambda>m. Inr (m\<lparr>rm_codex_process_seq := g m\<rparr>))"
  "runs.keeps (\<lambda>m. Inr (status_update now s code e m))"
  by (simp_all add: runs.keeps_def status_update_def)

lemma exec_wf_line: "store_wf (xt_store t) \<Longrightarrow> store_wf (xt_store (exec_line F parse io r l t))"
  by (auto simp: exec_line_def exec_payload_def exec_thread_def exec_fallback_def exec_emit_def Let_def
      runs.modify_inv keeps_upd split: option.split prod.split)

lemma exec_wf_stdout: "store_wf st \<Longrightarrow> store_wf (xt_store (exec_stdout F parse io r seq ls st k))"
proof -
  assume "store_wf st"
  then have "store_wf (xt_store (exec_task_new seq st k))" by (simp add: exec_task_new_def)
  then have "store_wf (xt_store (foldl (\<lambda>t l. exec_line F parse io r l t) (exec_task_new seq st k) ls))"
    by (induction ls arbitrary: seq st k rule: rev_induct) (simp_all add: exec_wf_line)
  then show ?thesis by (simp add: exec_stdout_def exec_flush_def exec_emit_def)
qed

lemma exec_wf_start: "store_wf st \<Longrightarrow> store_wf (snd (next_codex_process_seq io r st))"
  using runs.modify_inv [OF _ keeps_upd(2), of st io r "\<lambda>m. Some (unwrap_or (rm_codex_process_seq m) 0 + 1)"]
  by (auto simp: next_codex_process_seq_def Let_def split: prod.split sum.split)

lemma exec_status_cases:
  assumes "exec_status code thread = (status, state)"
  shows "(status, state) \<in> {(Idle, ''idle''), (Completed, ''completed''), (Stopped, ''stopped''),
      (Failed, ''failed'')}"
    and "exec_error code e \<noteq> None \<longleftrightarrow> status = Failed" and "status = Idle \<Longrightarrow> thread"
proof -
  have "or_else x (Some y) \<noteq> None" for x and y :: string by (cases x) simp_all
  then show "(status, state) \<in> {(Idle, ''idle''), (Completed, ''completed''), (Stopped, ''stopped''),
      (Failed, ''failed'')}"
    and "exec_error code e \<noteq> None \<longleftrightarrow> status = Failed" and "status = Idle \<Longrightarrow> thread"
    using assms by (auto simp: exec_status_def exec_error_def split: if_splits)
qed

text \<open>
  C31: what is shown as the end of a one-shot run is what is stored.  When the call returns, the
  last event is the state of the run with its exit code and error; the metadata have the status of
  that name, the same error, and the exit code unless the run was stopped or timed out; an error is
  there exactly when the run failed, and a run that ended well is idle when it can be resumed.
\<close>

theorem exec_end_reported:
  assumes "run_codex_exec F parse io now P running r st = (Inr (), (out, err, final), st')"
    and "store_wf st"
  shows "\<exists>state code e m. last final = ExEmit (RunState r state (Some code) e)
    \<and> get_run st' r = Some m \<and> rm_error_message m = e
    \<and> rm_exit_code m = (if 0 \<le> sint code then Some code else None)
    \<and> (rm_status m, state) \<in> {(Idle, ''idle''), (Completed, ''completed''), (Stopped, ''stopped''),
         (Failed, ''failed'')}
    \<and> (e \<noteq> None \<longleftrightarrow> rm_status m = Failed)
    \<and> (rm_status m = Idle \<longrightarrow> rm_conversation_ref m \<noteq> None)"
proof -
  obtain seq st1 where st1: "next_codex_process_seq (io 0) r st = (Inr seq, st1)"
    using assms(1) by (auto simp: run_codex_exec_def split: if_splits prod.splits sum.splits)
  let ?t = "exec_stdout F parse io r seq (xp_stdout P) st1 1"
  have wf: "store_wf (xt_store ?t)"
    using exec_wf_stdout exec_wf_start [OF assms(2), of "io 0" r] st1 by simp
  obtain fio code a e0 where f: "exec_finish fio now r code a e0 (xt_store ?t) = (Inr (), final, st')"
    using assms(1) st1
    by (auto simp: run_codex_exec_def Let_def split: if_splits prod.splits sum.splits option.splits)
  define error where "error = exec_error code e0"
  define thread where
    "thread = is_some_and (get_run (xt_store ?t) r) (\<lambda>m. rm_conversation_ref m \<noteq> None)"
  obtain status state where s: "exec_status code thread = (status, state)" by (metis surj_pair)
  let ?code = "if 0 \<le> sint code then Some code else None"
  obtain u ans where w: "update_status fio now r status ?code error (xt_store ?t) = (Inr u, st')"
    "final = ans @ [ExEmit (RunState r state (Some code) error)]"
    using f s by (auto simp: exec_finish_def error_def thread_def Let_def split: prod.splits sum.splits)
  obtain m0 m where m: "get_run (xt_store ?t) r = Some m0" "m = status_update now status ?code error m0"
    "get_run st' r = Some m"
    using runs.modify_done [OF w(1) [unfolded update_status_def] wf] by (auto simp: status_update_def)
  have "thread \<longleftrightarrow> rm_conversation_ref m \<noteq> None" unfolding thread_def m(1,2) by (simp add: status_update_def)
  with exec_status_cases [OF s] m(2,3) w(2) show ?thesis
    by (intro exI [of _ state] exI [of _ code] exI [of _ error] exI [of _ m])
      (auto simp: status_update_def error_def)
qed

text \<open>A process that is stopped before it writes anything.\<close>

definition stopped_process :: exec_process where
  "stopped_process =
     \<lparr> xp_spawned = None, xp_stdout = [], xp_end = EndEof, xp_stderr = [], xp_child = None \<rparr>"

definition stopped_run ::
  "(string + unit) \<times> (exec_effect list \<times> exec_effect list \<times> exec_effect list) \<times> store" where
  "stopped_run = run_codex_exec
     \<lparr> f_of_rat = \<lambda>q. 0, f_of_u64 = \<lambda>n. n, f_of_i64 = \<lambda>n. n, f_add = \<lambda>x y. x,
       f_mul = \<lambda>x y. x, f_div = \<lambda>x y. x \<rparr>
     (\<lambda>s. None) (\<lambda>n. fs_ok) ''t'' stopped_process {} ''a'' sample_store"

theorem exec_end_reported_witness:
  "\<exists>m. get_run (snd (snd stopped_run)) ''a'' = Some m
     \<and> rm_status m \<in> {Idle, Completed, Stopped, Failed}"
proof -
  have "fst stopped_run = Inr ()"
    by (simp add: stopped_run_def run_codex_exec_def stopped_process_def next_codex_process_seq_def
        with_meta_def get_run_def get_run_raw_def sample_store_def sample_meta_def save_meta_saves_ok
        exec_stdout_def exec_flush_def exec_task_new_def exec_stderr_def exec_finish_def
        exec_exit_code_def exec_status_def exec_error_def update_status_def status_update_def
        Let_def)
  then obtain out err final st' where r: "stopped_run = (Inr (), (out, err, final), st')"
    by (metis prod.collapse)
  then have "snd (snd stopped_run) = st'" by (metis snd_conv)
  with exec_end_reported [OF r [unfolded stopped_run_def] sample_store_wf] show ?thesis by fastforce
qed

text \<open>A process that answers in plain text, and complains.\<close>

definition plain_process :: exec_process where
  "plain_process =
     \<lparr> xp_spawned = None, xp_stdout = [''done''], xp_end = EndEof, xp_stderr = [''oh''], xp_child = None \<rparr>"

definition plain_run ::
  "(string + unit) \<times> (exec_effect list \<times> exec_effect list \<times> exec_effect list) \<times> store" where
  "plain_run = run_codex_exec
     \<lparr> f_of_rat = \<lambda>q. 0, f_of_u64 = \<lambda>n. n, f_of_i64 = \<lambda>n. n, f_add = \<lambda>x y. x,
       f_mul = \<lambda>x y. x, f_div = \<lambda>x y. x \<rparr>
     (\<lambda>s. None) (\<lambda>n. fs_ok) ''t'' plain_process {} ''a'' sample_store"

lemma plain_trim: "str_trim ''done'' = ''done''" "str_trim (''done'' @ [CHR 0x0A]) = ''done''"
  by code_simp+

theorem exec_answer_complete_witness:
  "case plain_run of (r, (out, err, final), st) \<Rightarrow> logged_answers (out @ err @ final) = [web_chat ''done'']"
proof -
  have "fst plain_run = Inr () \<and> concat (map message_text (exec_events (fst (fst (snd plain_run))))) = ''done'' @ [CHR 0x0A]"
    by (simp add: plain_run_def run_codex_exec_def plain_process_def next_codex_process_seq_def
        with_meta_def get_run_def get_run_raw_def sample_store_def sample_meta_def save_meta_saves_ok
        exec_stdout_def exec_flush_def exec_task_new_def exec_stderr_def exec_finish_def exec_line_def plain_trim
        exec_fallback_def exec_emit_def exec_exit_code_def exec_status_def exec_error_def update_status_def
        status_update_def Let_def)
  then obtain out err final st' where r: "plain_run = (Inr (), (out, err, final), st')"
    and "concat (map message_text (exec_events out)) = ''done'' @ [CHR 0x0A]"
    by (metis prod.collapse)
  then show ?thesis
    using exec_answer_complete [OF r [unfolded plain_run_def] refl refl] plain_trim(2) unfolding r by simp
qed

end
