(* ===== verification/Settings.thy ===== *)
theory Settings
  imports CodexItems RunStore
begin

text \<open>
  The settings of the application (\<open>storage/settings.rs\<close> and the types in \<open>models.rs\<close>): loading with
  its one-time migration, the atomic save, and the two patch operations.  The file is its content;
  the JSON library, the outcome of the file operations and the clock are arguments.
\<close>

section \<open>Types\<close>

record PlatformCredential =
  pc_platform_id :: string
  pc_api_key :: "string option"
  pc_base_url :: "string option"
  pc_auth_env_var :: "string option"
  pc_name :: "string option"
  pc_models :: "string list option"
  pc_extra_env :: "(string \<times> string) list option"

record CodexProviderCredential =
  cx_id :: string
  cx_name :: string
  cx_base_url :: string
  cx_env_key :: string
  cx_wire_api :: string
  cx_model :: string
  cx_api_key :: "string option"

record KeyBindingOverride =
  kb_command :: string
  kb_key :: string

record UserSettings =
  us_default_agent :: string
  us_default_model :: "string option"
  us_allowed_tools :: "string list"
  us_working_directory :: "string option"
  us_provider_mode :: string
  us_auth_mode :: string
  us_anthropic_api_key :: "string option"
  us_anthropic_base_url :: "string option"
  us_auth_env_var :: "string option"
  us_permission_mode :: string
  us_max_budget_usd :: "f64 option"
  us_fallback_model :: "string option"
  us_keybinding_overrides :: "KeyBindingOverride list"
  us_remote_hosts :: "RemoteHost list"
  us_platform_credentials :: "PlatformCredential list"
  us_active_platform_id :: "string option"
  us_codex_provider :: "CodexProviderCredential option"
  us_codex_transport :: "string option"
  us_ui_zoom :: "f64 option"
  us_onboarding_completed :: bool
  us_web_server_enabled :: "bool option"
  us_web_server_token :: "string option"
  us_web_server_port :: "16 word option"
  us_web_server_bind :: "string option"
  us_web_server_allowed_origins :: "string list option"
  us_web_server_tunnel_url :: "string option"
  us_claude_path :: "string option"
  us_updated_at :: string

record AgentSettings =
  ag_agent :: string
  ag_model :: "string option"
  ag_allowed_tools :: "string list"
  ag_working_directory :: "string option"
  ag_plan_mode :: "bool option"
  ag_disallowed_tools :: "string list option"
  ag_append_system_prompt :: "string option"
  ag_max_budget_usd :: "f64 option"
  ag_fallback_model :: "string option"
  ag_system_prompt :: "string option"
  ag_tool_set :: "string option"
  ag_add_dirs :: "string list option"
  ag_json_schema :: "json option"
  ag_include_partial_messages :: "bool option"
  ag_cli_debug :: "string option"
  ag_no_session_persistence :: "bool option"
  ag_max_turns :: "u32 option"
  ag_effort :: "string option"
  ag_betas :: "string list option"
  ag_agents_json :: "string option"
  ag_permission_mode :: "string option"
  ag_ephemeral :: "bool option"
  ag_profile :: "string option"
  ag_ignore_user_config :: "bool option"
  ag_ignore_rules :: "bool option"
  ag_web_search :: "bool option"
  ag_updated_at :: string

record AllSettings =
  al_user :: UserSettings
  al_agents :: "(string \<times> AgentSettings) list"

definition user_default :: "string \<Rightarrow> UserSettings" where
  "user_default now =
     \<lparr> us_default_agent = ''claude'', us_default_model = None, us_allowed_tools = [],
       us_working_directory = None, us_provider_mode = ''local'', us_auth_mode = ''cli'',
       us_anthropic_api_key = None, us_anthropic_base_url = None, us_auth_env_var = None,
       us_permission_mode = ''auto_read'', us_max_budget_usd = None, us_fallback_model = None,
       us_keybinding_overrides = [], us_remote_hosts = [], us_platform_credentials = [],
       us_active_platform_id = None, us_codex_provider = None, us_codex_transport = None,
       us_ui_zoom = None, us_onboarding_completed = False, us_web_server_enabled = None,
       us_web_server_token = None, us_web_server_port = None, us_web_server_bind = None,
       us_web_server_allowed_origins = None, us_web_server_tunnel_url = None,
       us_claude_path = None, us_updated_at = now \<rparr>"

definition agent_default_for :: "string \<Rightarrow> string \<Rightarrow> AgentSettings" where
  "agent_default_for now agent =
     \<lparr> ag_agent = agent, ag_model = None, ag_allowed_tools = [], ag_working_directory = None,
       ag_plan_mode = None, ag_disallowed_tools = None, ag_append_system_prompt = None,
       ag_max_budget_usd = None, ag_fallback_model = None, ag_system_prompt = None,
       ag_tool_set = None, ag_add_dirs = None, ag_json_schema = None,
       ag_include_partial_messages = None, ag_cli_debug = None, ag_no_session_persistence = None,
       ag_max_turns = None, ag_effort = None, ag_betas = None, ag_agents_json = None,
       ag_permission_mode = None, ag_ephemeral = None, ag_profile = None,
       ag_ignore_user_config = None, ag_ignore_rules = None, ag_web_search = None,
       ag_updated_at = now \<rparr>"

definition all_default :: "string \<Rightarrow> AllSettings" where
  "all_default now =
     \<lparr> al_user = user_default now,
       al_agents = [(''claude'', agent_default_for now ''claude''), (''codex'', agent_default_for now ''codex'')] \<rparr>"

section \<open>Known providers\<close>

record ProviderDefaults =
  pd_base_url :: "string option"
  pd_models :: "string list option"
  pd_extra_env :: "(string \<times> string) list option"
  pd_key_optional :: bool
  pd_auth_env_var :: "string option"

definition provider ::
  "string option \<Rightarrow> string list option \<Rightarrow> (string \<times> string) list option \<Rightarrow> bool \<Rightarrow> string option
     \<Rightarrow> ProviderDefaults" where
  "provider url models extra key_optional auth =
     \<lparr> pd_base_url = url, pd_models = models, pd_extra_env = extra, pd_key_optional = key_optional,
       pd_auth_env_var = auth \<rparr>"

definition provider_table_1 :: "(string \<times> ProviderDefaults) list" where
  "provider_table_1 =
    [(''deepseek'', provider (Some ''https://api.deepseek.com/anthropic'') (Some [''deepseek-v4-pro[1m]'', ''deepseek-v4-flash'']) (Some [(''API_TIMEOUT_MS'', ''600000'')]) False None),
     (''kimi'', provider (Some ''https://api.moonshot.cn/anthropic'') (Some [''kimi-k2.5'', ''kimi-k2'']) None False None),
     (''kimi-coding'', provider (Some ''https://api.kimi.com/coding/'') None None False (Some ''ANTHROPIC_API_KEY'')),
     (''zhipu'', provider (Some ''https://open.bigmodel.cn/api/anthropic'') (Some [''glm-5.1'', ''glm-5-turbo'', ''glm-4.5-air'']) (Some [(''API_TIMEOUT_MS'', ''3000000'')]) False None),
     (''zhipu-intl'', provider (Some ''https://api.z.ai/api/anthropic'') (Some [''glm-5.1'', ''glm-5-turbo'', ''glm-4.5-air'']) (Some [(''API_TIMEOUT_MS'', ''3000000'')]) False None),
     (''bailian'', provider (Some ''https://coding.dashscope.aliyuncs.com/apps/anthropic'') (Some [''qwen3.5-plus'', ''qwen3-coder-next'']) None False None),
     (''bailian-api'', provider (Some ''https://dashscope.aliyuncs.com/apps/anthropic'') (Some [''qwen3.5-plus'', ''qwen3-coder-next'']) None False None),
     (''doubao'', provider (Some ''https://ark.cn-beijing.volces.com/api/coding'') (Some [''doubao-seed-code-preview-latest'']) None False None),
     (''minimax'', provider (Some ''https://api.minimax.io/anthropic'') (Some [''MiniMax-M3'']) (Some [(''API_TIMEOUT_MS'', ''3000000'')]) False None),
     (''minimax-cn'', provider (Some ''https://api.minimaxi.com/anthropic'') (Some [''MiniMax-M3'']) (Some [(''API_TIMEOUT_MS'', ''3000000'')]) False None),
     (''mimo'', provider (Some ''https://api.xiaomimimo.com/anthropic'') (Some [''mimo-v2.5-pro'']) None False None),
     (''mimo-tp'', provider (Some ''https://token-plan-cn.xiaomimimo.com/anthropic'') (Some [''mimo-v2.5-pro'']) None False None),
     (''siliconflow'', provider (Some ''https://api.siliconflow.com/'') None None False (Some ''ANTHROPIC_API_KEY'')),
     (''hunyuan'', provider (Some ''https://api.hunyuan.cloud.tencent.com/anthropic'') (Some [''hunyuan-2.0-thinking-20251109'', ''hunyuan-2.0-instruct-20251111'']) None False None)]"

definition provider_table_2 :: "(string \<times> ProviderDefaults) list" where
  "provider_table_2 =
    [(''stepfun'', provider (Some ''https://api.stepfun.ai/step_plan'') (Some [''step-3.7-flash'']) None False None),
     (''longcat'', provider (Some ''https://api.longcat.chat/anthropic'') (Some [''LongCat-2.0-Preview'']) None False None),
     (''iflytek'', provider (Some ''https://maas-coding-api.cn-huabei-1.xf-yun.com/anthropic'') (Some [''astron-code-latest'']) (Some [(''API_TIMEOUT_MS'', ''600000'')]) False None),
     (''tencent-coding'', provider (Some ''https://api.lkeap.cloud.tencent.com/coding/anthropic'') None None False None),
     (''openrouter'', provider (Some ''https://openrouter.ai/api'') None None False None),
     (''aihubmix'', provider (Some ''https://aihubmix.com'') None None False None),
     (''zenmux'', provider (Some ''https://zenmux.ai/api/anthropic'') None (Some [(''API_TIMEOUT_MS'', ''30000000'')]) False None),
     (''vercel'', provider (Some ''https://ai-gateway.vercel.sh'') None None False None),
     (''requesty'', provider (Some ''https://router.requesty.ai'') None None False None),
     (''fireworks'', provider (Some ''https://api.fireworks.ai/inference'') None None False None),
     (''deepinfra'', provider (Some ''https://api.deepinfra.com/anthropic'') None None False None),
     (''novita'', provider (Some ''https://api.novita.ai/anthropic'') None None False None),
     (''ccswitch'', provider (Some ''http://127.0.0.1:15721'') None None True (Some ''ANTHROPIC_AUTH_TOKEN'')),
     (''ccr'', provider (Some ''http://127.0.0.1:3456'') (Some [''claude-sonnet-4-6'']) None True (Some ''ANTHROPIC_AUTH_TOKEN'')),
     (''ollama'', provider (Some ''http://localhost:11434'') None None True (Some ''ANTHROPIC_AUTH_TOKEN''))]"

definition known_provider_defaults :: "string \<Rightarrow> ProviderDefaults option" where
  "known_provider_defaults pid = map_of (provider_table_1 @ provider_table_2) pid"

text \<open>\<open>ProviderInfo\<close> has the same fields with owned strings.\<close>

definition get_provider_info :: "string \<Rightarrow> ProviderDefaults option" where
  "get_provider_info pid = known_provider_defaults pid"

definition is_key_optional_platform :: "string \<Rightarrow> bool" where
  "is_key_optional_platform pid \<longleftrightarrow> is_some_and (known_provider_defaults pid) pd_key_optional"

section \<open>The migration of credentials\<close>

text \<open>Each function returns the new value and whether it changed anything.\<close>

definition auth_fixes :: "(string \<times> string) list" where
  "auth_fixes =
     [(''deepseek'', ''ANTHROPIC_AUTH_TOKEN''), (''zhipu'', ''ANTHROPIC_AUTH_TOKEN''),
      (''zhipu-intl'', ''ANTHROPIC_AUTH_TOKEN''), (''doubao'', ''ANTHROPIC_AUTH_TOKEN''),
      (''minimax'', ''ANTHROPIC_AUTH_TOKEN''), (''minimax-cn'', ''ANTHROPIC_AUTH_TOKEN''),
      (''mimo'', ''ANTHROPIC_AUTH_TOKEN''), (''bailian'', ''ANTHROPIC_AUTH_TOKEN''),
      (''aihubmix'', ''ANTHROPIC_AUTH_TOKEN''), (''kimi-coding'', ''ANTHROPIC_API_KEY''),
      (''siliconflow'', ''ANTHROPIC_API_KEY'')]"

definition fix_auth :: "string \<Rightarrow> string option \<Rightarrow> string option \<times> bool" where
  "fix_auth pid auth =
     foldl (\<lambda>(v, changed) (p, correct).
         if pid = p \<and> v \<noteq> Some correct then (Some correct, True) else (v, changed))
       (auth, False) auth_fixes"

definition fix_cred_auth :: "PlatformCredential \<Rightarrow> PlatformCredential \<times> bool" where
  "fix_cred_auth c =
     (case fix_auth (pc_platform_id c) (pc_auth_env_var c) of
        (v, changed) \<Rightarrow> (c\<lparr>pc_auth_env_var := v\<rparr>, changed))"

definition rename_minimax :: "PlatformCredential \<Rightarrow> PlatformCredential \<times> bool" where
  "rename_minimax c =
     (if pc_platform_id c = ''minimax''
           \<and> is_some_and (pc_base_url c) (\<lambda>u. str_contains u ''api.minimaxi.com'')
      then (c\<lparr>pc_platform_id := ''minimax-cn''\<rparr>, True) else (c, False))"

text \<open>A field that is missing and has a default gets it.\<close>

definition fill :: "('a option \<Rightarrow> bool) \<Rightarrow> 'a option \<Rightarrow> 'a option \<Rightarrow> 'a option \<times> bool" where
  "fill missing old dflt =
     (if missing old \<and> dflt \<noteq> None then (dflt, True) else (old, False))"

definition populate :: "PlatformCredential \<Rightarrow> PlatformCredential \<times> bool" where
  "populate c =
     (case known_provider_defaults (pc_platform_id c) of
        None \<Rightarrow> (c, False)
      | Some d \<Rightarrow>
          (case (fill (\<lambda>u. u = None \<or> u = Some []) (pc_base_url c) (pd_base_url d),
                 fill (\<lambda>m. m = None) (pc_models c) (pd_models d),
                 fill (\<lambda>e. e = None) (pc_extra_env c) (pd_extra_env d)) of
             ((u, b1), (m, b2), (e, b3)) \<Rightarrow>
               (c\<lparr>pc_base_url := u, pc_models := m, pc_extra_env := e\<rparr>, b1 \<or> b2 \<or> b3)))"

definition migrate_credential :: "PlatformCredential \<Rightarrow> PlatformCredential \<times> bool" where
  "migrate_credential c =
     (case fix_cred_auth c of
        (c1, b1) \<Rightarrow>
          (case rename_minimax c1 of
             (c2, b2) \<Rightarrow> (case populate c2 of (c3, b3) \<Rightarrow> (c3, b1 \<or> b2 \<or> b3))))"

definition migrate_active :: "UserSettings \<Rightarrow> UserSettings \<times> bool" where
  "migrate_active u =
     (if us_active_platform_id u = Some ''minimax''
           \<and> list_ex (\<lambda>c. pc_platform_id c = ''minimax-cn'') (us_platform_credentials u)
           \<and> \<not> list_ex (\<lambda>c. pc_platform_id c = ''minimax'') (us_platform_credentials u)
      then (u\<lparr>us_active_platform_id := Some ''minimax-cn''\<rparr>, True) else (u, False))"

definition migrate_global_auth :: "UserSettings \<Rightarrow> UserSettings \<times> bool" where
  "migrate_global_auth u =
     (case us_active_platform_id u of
        None \<Rightarrow> (u, False)
      | Some pid \<Rightarrow>
          (case fix_auth pid (us_auth_env_var u) of
             (v, changed) \<Rightarrow> (u\<lparr>us_auth_env_var := v\<rparr>, changed)))"

definition migrate_user :: "UserSettings \<Rightarrow> UserSettings \<times> bool" where
  "migrate_user u =
     (let creds = map migrate_credential (us_platform_credentials u) in
      case migrate_active (u\<lparr>us_platform_credentials := map fst creds\<rparr>) of
        (u2, b2) \<Rightarrow>
          (case migrate_global_auth u2 of
             (u3, b3) \<Rightarrow> (u3, list_ex snd creds \<or> b2 \<or> b3)))"

definition migrate_platform_credentials :: "AllSettings \<Rightarrow> AllSettings \<times> bool" where
  "migrate_platform_credentials s =
     (case migrate_user (al_user s) of (u, changed) \<Rightarrow> (s\<lparr>al_user := u\<rparr>, changed))"

section \<open>Loading and saving\<close>

record settings_codec =
  sc_parse :: "string \<Rightarrow> AllSettings option"
  sc_show :: "AllSettings \<Rightarrow> string"
  sc_keybindings :: "json \<Rightarrow> string + KeyBindingOverride list"
  sc_remote_hosts :: "json \<Rightarrow> string + RemoteHost list"
  sc_credentials :: "json \<Rightarrow> string + PlatformCredential list"
  sc_show_f64 :: "f64 \<Rightarrow> string"

type_synonym settings_file = "string option"

definition write_atomic_0600 ::
  "fs_io \<Rightarrow> string \<Rightarrow> settings_file \<Rightarrow> (string + unit) \<times> settings_file" where
  "write_atomic_0600 io content f =
     (case io_write_tmp io of
        Some e \<Rightarrow> (Inl (''write tmp: '' @ e), f)
      | None \<Rightarrow>
          (case rename_loop (io_rename io) 0 3 of
             Inl e \<Rightarrow> (Inl e, f)
           | Inr u \<Rightarrow> (Inr (), Some content)))"

definition save_settings ::
  "settings_codec \<Rightarrow> fs_io \<Rightarrow> AllSettings \<Rightarrow> settings_file \<Rightarrow> (string + unit) \<times> settings_file" where
  "save_settings C io s f =
     (case io_ensure_dir io of
        Some e \<Rightarrow> (Inl e, f)
      | None \<Rightarrow> write_atomic_0600 io (sc_show C s) f)"

text \<open>\<open>readable\<close> is whether the file can be read; \<open>io\<close> is for the save that a load may make.\<close>

definition load_settings ::
  "settings_codec \<Rightarrow> bool \<Rightarrow> fs_io \<Rightarrow> string \<Rightarrow> settings_file \<Rightarrow> AllSettings \<times> settings_file" where
  "load_settings C readable io now f =
     (case (if readable then Option.bind f (sc_parse C) else None) of
        Some s \<Rightarrow>
          (case migrate_platform_credentials s of
             (s', changed) \<Rightarrow> (s', if changed then snd (save_settings C io s' f) else f))
      | None \<Rightarrow> (let d = all_default now in (d, snd (save_settings C io d f))))"

section \<open>Patches\<close>

definition patch_key :: "json \<Rightarrow> string \<Rightarrow> (json \<Rightarrow> 's \<Rightarrow> 's) \<Rightarrow> 's \<Rightarrow> 's" where
  "patch_key p k f s = (case j_get p k of None \<Rightarrow> s | Some v \<Rightarrow> f v s)"

definition patch_str :: "json \<Rightarrow> string \<Rightarrow> (string \<Rightarrow> 's \<Rightarrow> 's) \<Rightarrow> 's \<Rightarrow> 's" where
  "patch_str p k f s = (case get_str p k of None \<Rightarrow> s | Some v \<Rightarrow> f v s)"

definition nonempty_str :: "json \<Rightarrow> string option" where
  "nonempty_str v = opt_filter (\<lambda>s. s \<noteq> []) (as_str v)"

definition str_list :: "json list \<Rightarrow> string list" where
  "str_list vs = List.map_filter as_str vs"

definition f64_le :: "f64 \<Rightarrow> f64 \<Rightarrow> bool" where
  "f64_le x y \<longleftrightarrow> \<not> f64_nan x \<and> \<not> f64_nan y \<and> f64_key x \<le> f64_key y"

definition validate_ui_zoom :: "float_ops \<Rightarrow> settings_codec \<Rightarrow> json \<Rightarrow> string + f64 option" where
  "validate_ui_zoom F C v =
     (if v = JNull then Inr None
      else (case as_f64 F v of
              None \<Rightarrow> Inl ''ui_zoom must be a number''
            | Some f \<Rightarrow>
                if f64_le (f_of_rat F (3 / 4)) f \<and> f64_le f (f_of_rat F (3 / 2)) then Inr (Some f)
                else Inl (''ui_zoom must be between 0.75 and 1.5, got '' @ sc_show_f64 C f)))"

text \<open>The fields before the first one that can fail.\<close>

definition patch_user_plain :: "float_ops \<Rightarrow> json \<Rightarrow> UserSettings \<Rightarrow> UserSettings" where
  "patch_user_plain F p u =
     (let u1 = patch_str p ''default_agent'' (\<lambda>s u. u\<lparr>us_default_agent := s\<rparr>) u;
          u2 = patch_key p ''default_model'' (\<lambda>v u. u\<lparr>us_default_model := as_str v\<rparr>) u1;
          u3 = (case get_array p ''allowed_tools'' of
                  None \<Rightarrow> u2 | Some vs \<Rightarrow> u2\<lparr>us_allowed_tools := str_list vs\<rparr>);
          u4 = patch_key p ''working_directory'' (\<lambda>v u. u\<lparr>us_working_directory := as_str v\<rparr>) u3;
          u5 = patch_str p ''provider_mode'' (\<lambda>s u. u\<lparr>us_provider_mode := s\<rparr>) u4;
          u6 = patch_str p ''auth_mode'' (\<lambda>s u. u\<lparr>us_auth_mode := s\<rparr>) u5;
          u7 = patch_key p ''anthropic_api_key'' (\<lambda>v u. u\<lparr>us_anthropic_api_key := nonempty_str v\<rparr>) u6;
          u8 = patch_key p ''anthropic_base_url'' (\<lambda>v u. u\<lparr>us_anthropic_base_url := nonempty_str v\<rparr>) u7;
          u9 = patch_key p ''auth_env_var'' (\<lambda>v u. u\<lparr>us_auth_env_var := nonempty_str v\<rparr>) u8;
          u10 = patch_str p ''permission_mode'' (\<lambda>s u. u\<lparr>us_permission_mode := s\<rparr>) u9;
          u11 = patch_key p ''max_budget_usd''
                  (\<lambda>v u. u\<lparr>us_max_budget_usd := (if v = JNull then None else as_f64 F v)\<rparr>) u10
      in patch_key p ''fallback_model''
           (\<lambda>v u. u\<lparr>us_fallback_model := (if v = JNull then None else nonempty_str v)\<rparr>) u11)"

text \<open>A field that is decoded: null empties it, and a value that does not decode is an error.\<close>

definition patch_decoded ::
  "json \<Rightarrow> string \<Rightarrow> string \<Rightarrow> (json \<Rightarrow> string + 'v list) \<Rightarrow> ('v list \<Rightarrow> 's \<Rightarrow> 's) \<Rightarrow> 's \<Rightarrow> string + 's" where
  "patch_decoded p k err dec f s =
     (case j_get p k of
        None \<Rightarrow> Inr s
      | Some v \<Rightarrow>
          if v = JNull then Inr (f [] s)
          else (case dec v of Inl e \<Rightarrow> Inl (err @ e) | Inr vs \<Rightarrow> Inr (f vs s)))"

definition sum_bind :: "string + 'a \<Rightarrow> ('a \<Rightarrow> string + 'b) \<Rightarrow> string + 'b" where
  "sum_bind r f = (case r of Inl e \<Rightarrow> Inl e | Inr x \<Rightarrow> f x)"

definition patch_user :: "float_ops \<Rightarrow> settings_codec \<Rightarrow> json \<Rightarrow> UserSettings \<Rightarrow> string + UserSettings" where
  "patch_user F C p u =
     sum_bind (patch_decoded p ''keybinding_overrides'' ''Invalid keybinding_overrides: ''
         (sc_keybindings C) (\<lambda>vs u. u\<lparr>us_keybinding_overrides := vs\<rparr>) (patch_user_plain F p u))
     (\<lambda>u1. sum_bind (patch_decoded p ''remote_hosts'' ''Invalid remote_hosts: ''
         (sc_remote_hosts C) (\<lambda>vs u. u\<lparr>us_remote_hosts := vs\<rparr>) u1)
     (\<lambda>u2. sum_bind (patch_decoded p ''platform_credentials'' ''Invalid platform_credentials: ''
         (sc_credentials C) (\<lambda>vs u. u\<lparr>us_platform_credentials := vs\<rparr>) u2)
     (\<lambda>u3.
        let u4 = patch_key p ''active_platform_id''
              (\<lambda>v u. u\<lparr>us_active_platform_id := (if v = JNull then None else nonempty_str v)\<rparr>) u3
        in sum_bind (case j_get p ''ui_zoom'' of
                       None \<Rightarrow> Inr u4
                     | Some v \<Rightarrow> sum_bind (validate_ui_zoom F C v) (\<lambda>z. Inr (u4\<lparr>us_ui_zoom := z\<rparr>)))
     (\<lambda>u5.
        let u6 = patch_key p ''onboarding_completed''
              (\<lambda>v u. u\<lparr>us_onboarding_completed := unwrap_or (as_bool v) False\<rparr>) u5
        in Inr (patch_key p ''claude_path''
             (\<lambda>v u. u\<lparr>us_claude_path := opt_filter (\<lambda>s. s \<noteq> []) (map_option str_trim (as_str v))\<rparr>)
             u6)))))"

text \<open>
  The two file operations of an update, the load and the save, have their own outcomes.
\<close>

record settings_io =
  sx_readable :: bool
  sx_load :: fs_io
  sx_save :: fs_io

definition update_user_settings ::
  "float_ops \<Rightarrow> settings_codec \<Rightarrow> settings_io \<Rightarrow> string \<Rightarrow> json \<Rightarrow> settings_file
     \<Rightarrow> (string + UserSettings) \<times> settings_file" where
  "update_user_settings F C X now p f =
     (case load_settings C (sx_readable X) (sx_load X) now f of
        (s, f1) \<Rightarrow>
          (case patch_user F C p (al_user s) of
             Inl e \<Rightarrow> (Inl e, f1)
           | Inr u \<Rightarrow>
               (let u' = u\<lparr>us_updated_at := now\<rparr> in
                case save_settings C (sx_save X) (s\<lparr>al_user := u'\<rparr>) f1 of
                  (Inl e, f2) \<Rightarrow> (Inl e, f2)
                | (Inr x, f2) \<Rightarrow> (Inr u', f2))))"

definition get_user_settings ::
  "settings_codec \<Rightarrow> bool \<Rightarrow> fs_io \<Rightarrow> string \<Rightarrow> settings_file \<Rightarrow> UserSettings \<times> settings_file" where
  "get_user_settings C readable io now f =
     (case load_settings C readable io now f of (s, f') \<Rightarrow> (al_user s, f'))"

text \<open>The common part of the three operations on the web server fields.\<close>

definition modify_user ::
  "settings_codec \<Rightarrow> settings_io \<Rightarrow> string \<Rightarrow> (UserSettings \<Rightarrow> UserSettings) \<Rightarrow> settings_file
     \<Rightarrow> (string + unit) \<times> settings_file" where
  "modify_user C X now g f =
     (case load_settings C (sx_readable X) (sx_load X) now f of
        (s, f1) \<Rightarrow>
          save_settings C (sx_save X) (s\<lparr>al_user := (g (al_user s))\<lparr>us_updated_at := now\<rparr>\<rparr>) f1)"

definition save_web_server_config ::
  "settings_codec \<Rightarrow> settings_io \<Rightarrow> string \<Rightarrow> bool \<Rightarrow> 16 word \<Rightarrow> string \<Rightarrow> string list option \<Rightarrow> string option
     \<Rightarrow> settings_file \<Rightarrow> (string + unit) \<times> settings_file" where
  "save_web_server_config C X now enabled port bind origins tunnel =
     modify_user C X now
       (\<lambda>u. u\<lparr>us_web_server_enabled := Some enabled, us_web_server_port := Some port,
              us_web_server_bind := Some bind, us_web_server_allowed_origins := origins,
              us_web_server_tunnel_url := tunnel\<rparr>)"

definition set_web_server_enabled ::
  "settings_codec \<Rightarrow> settings_io \<Rightarrow> string \<Rightarrow> bool \<Rightarrow> settings_file \<Rightarrow> (string + unit) \<times> settings_file" where
  "set_web_server_enabled C X now enabled =
     modify_user C X now (\<lambda>u. u\<lparr>us_web_server_enabled := Some enabled\<rparr>)"

definition save_web_server_partial_disable ::
  "settings_codec \<Rightarrow> settings_io \<Rightarrow> string \<Rightarrow> settings_file \<Rightarrow> (string + unit) \<times> settings_file" where
  "save_web_server_partial_disable C X now =
     modify_user C X now (\<lambda>u. u\<lparr>us_web_server_enabled := Some False\<rparr>)"

definition patch_opt_bool :: "json \<Rightarrow> string \<Rightarrow> (bool option \<Rightarrow> 's \<Rightarrow> 's) \<Rightarrow> 's \<Rightarrow> 's" where
  "patch_opt_bool p k f = patch_key p k (\<lambda>v. f (if v = JNull then None else as_bool v))"

definition patch_opt_str :: "json \<Rightarrow> string \<Rightarrow> (string option \<Rightarrow> 's \<Rightarrow> 's) \<Rightarrow> 's \<Rightarrow> 's" where
  "patch_opt_str p k f = patch_key p k (\<lambda>v. f (if v = JNull then None else nonempty_str v))"

definition patch_opt_list :: "json \<Rightarrow> string \<Rightarrow> (string list option \<Rightarrow> 's \<Rightarrow> 's) \<Rightarrow> 's \<Rightarrow> 's" where
  "patch_opt_list p k f =
     patch_key p k (\<lambda>v. f (if v = JNull then None else map_option str_list (as_array v)))"

definition apply_agent_patch :: "float_ops \<Rightarrow> json \<Rightarrow> AgentSettings \<Rightarrow> AgentSettings" where
  "apply_agent_patch F p s =
     (let s1 = patch_key p ''model'' (\<lambda>v s. s\<lparr>ag_model := as_str v\<rparr>) s;
          s2 = (case get_array p ''allowed_tools'' of
                  None \<Rightarrow> s1 | Some vs \<Rightarrow> s1\<lparr>ag_allowed_tools := str_list vs\<rparr>);
          s3 = patch_key p ''working_directory'' (\<lambda>v s. s\<lparr>ag_working_directory := as_str v\<rparr>) s2;
          s4 = patch_opt_bool p ''plan_mode'' (\<lambda>b s. s\<lparr>ag_plan_mode := b\<rparr>) s3;
          s5 = patch_opt_list p ''disallowed_tools'' (\<lambda>l s. s\<lparr>ag_disallowed_tools := l\<rparr>) s4;
          s6 = patch_opt_str p ''append_system_prompt'' (\<lambda>x s. s\<lparr>ag_append_system_prompt := x\<rparr>) s5;
          s7 = patch_key p ''max_budget_usd''
                 (\<lambda>v s. s\<lparr>ag_max_budget_usd := (if v = JNull then None else as_f64 F v)\<rparr>) s6;
          s8 = patch_opt_str p ''fallback_model'' (\<lambda>x s. s\<lparr>ag_fallback_model := x\<rparr>) s7;
          s9 = patch_opt_str p ''system_prompt'' (\<lambda>x s. s\<lparr>ag_system_prompt := x\<rparr>) s8;
          s10 = patch_opt_str p ''tool_set'' (\<lambda>x s. s\<lparr>ag_tool_set := x\<rparr>) s9;
          s11 = patch_opt_list p ''add_dirs'' (\<lambda>l s. s\<lparr>ag_add_dirs := l\<rparr>) s10;
          s12 = patch_key p ''json_schema''
                  (\<lambda>v s. s\<lparr>ag_json_schema := (if v = JNull then None else Some v)\<rparr>) s11;
          s13 = patch_opt_bool p ''include_partial_messages''
                  (\<lambda>b s. s\<lparr>ag_include_partial_messages := b\<rparr>) s12;
          s14 = patch_key p ''cli_debug''
                  (\<lambda>v s. s\<lparr>ag_cli_debug := (if v = JNull then None else as_str v)\<rparr>) s13;
          s15 = patch_opt_bool p ''no_session_persistence''
                  (\<lambda>b s. s\<lparr>ag_no_session_persistence := b\<rparr>) s14;
          s16 = patch_opt_str p ''effort'' (\<lambda>x s. s\<lparr>ag_effort := x\<rparr>) s15;
          s17 = patch_opt_str p ''permission_mode'' (\<lambda>x s. s\<lparr>ag_permission_mode := x\<rparr>) s16;
          s18 = patch_opt_bool p ''ephemeral'' (\<lambda>b s. s\<lparr>ag_ephemeral := b\<rparr>) s17;
          s19 = patch_opt_str p ''profile'' (\<lambda>x s. s\<lparr>ag_profile := x\<rparr>) s18;
          s20 = patch_opt_bool p ''ignore_user_config'' (\<lambda>b s. s\<lparr>ag_ignore_user_config := b\<rparr>) s19
      in patch_opt_bool p ''ignore_rules'' (\<lambda>b s. s\<lparr>ag_ignore_rules := b\<rparr>) s20)"

definition agent_of :: "string \<Rightarrow> AllSettings \<Rightarrow> string \<Rightarrow> AgentSettings" where
  "agent_of now s agent = unwrap_or (map_of (al_agents s) agent) (agent_default_for now agent)"

definition get_agent_settings ::
  "settings_codec \<Rightarrow> bool \<Rightarrow> fs_io \<Rightarrow> string \<Rightarrow> string \<Rightarrow> settings_file \<Rightarrow> AgentSettings \<times> settings_file" where
  "get_agent_settings C readable io now agent f =
     (case load_settings C readable io now f of (s, f') \<Rightarrow> (agent_of now s agent, f'))"

definition update_agent_settings ::
  "float_ops \<Rightarrow> settings_codec \<Rightarrow> settings_io \<Rightarrow> string \<Rightarrow> string \<Rightarrow> json \<Rightarrow> settings_file
     \<Rightarrow> (string + AgentSettings) \<times> settings_file" where
  "update_agent_settings F C X now agent p f =
     (case load_settings C (sx_readable X) (sx_load X) now f of
        (s, f1) \<Rightarrow>
          (let a = (apply_agent_patch F p (agent_of now s agent))\<lparr>ag_updated_at := now\<rparr> in
           case save_settings C (sx_save X) (s\<lparr>al_agents := hm_insert agent a (al_agents s)\<rparr>) f1 of
             (Inl e, f2) \<Rightarrow> (Inl e, f2)
           | (Inr x, f2) \<Rightarrow> (Inr a, f2)))"

section \<open>The migration runs once\<close>

lemma fix_auth_eq:
  "fix_auth pid v = (case map_of auth_fixes pid of None \<Rightarrow> (v, False) | Some c \<Rightarrow> (Some c, v \<noteq> Some c))"
proof -
  let ?f = "\<lambda>(v, changed) (p, correct).
      if pid = p \<and> v \<noteq> Some correct then (Some correct, True) else (v :: string option, changed)"
  have other: "foldl ?f a xs = a" if "pid \<notin> fst ` set xs" for a xs
    using that by (induction xs arbitrary: a) (auto split: prod.splits)
  have "foldl ?f (v, b) xs = (case map_of xs pid of None \<Rightarrow> (v, b) | Some c \<Rightarrow> (Some c, b \<or> v \<noteq> Some c))"
    if "distinct (map fst xs)" for v b xs
    using that
  proof (induction xs arbitrary: v b)
    case (Cons x xs)
    then show ?case using other [of xs] by (cases x) (auto split: option.split)
  qed simp
  moreover have "distinct (map fst auth_fixes)" by (simp add: auth_fixes_def)
  ultimately show ?thesis unfolding fix_auth_def by (simp split: option.split)
qed

lemma fix_auth_again: "fix_auth pid (fst (fix_auth pid v)) = (fst (fix_auth pid v), False)"
  by (auto simp: fix_auth_eq split: option.split)

lemma fill_again:
  "(\<And>x. d = Some x \<Longrightarrow> \<not> missing (Some x)) \<Longrightarrow> fill missing (fst (fill missing old d)) d = (fst (fill missing old d), False)"
  by (auto simp: fill_def)

lemma provider_urls: "known_provider_defaults pid = Some d \<Longrightarrow> pd_base_url d \<noteq> Some []"
proof -
  assume "known_provider_defaults pid = Some d"
  then have "d \<in> snd ` set (provider_table_1 @ provider_table_2)"
    unfolding known_provider_defaults_def by (metis map_of_SomeD image_eqI snd_conv)
  moreover have "\<forall>d\<in>snd ` set (provider_table_1 @ provider_table_2). pd_base_url d \<noteq> Some []"
    by (simp add: provider_table_1_def provider_table_2_def provider_def)
  ultimately show ?thesis by blast
qed

lemma minimax_url:
  "\<exists>d. known_provider_defaults ''minimax'' = Some d \<and> (\<exists>u. pd_base_url d = Some u \<and> \<not> str_contains u ''api.minimaxi.com'')"
proof -
  have "map_option pd_base_url (known_provider_defaults ''minimax'') = Some (Some ''https://api.minimax.io/anthropic'')"
    "\<not> str_contains ''https://api.minimax.io/anthropic'' ''api.minimaxi.com''"
    by code_simp+
  then show ?thesis by auto
qed

lemma populate_fields:
  "pc_platform_id (fst (populate c)) = pc_platform_id c"
  "pc_auth_env_var (fst (populate c)) = pc_auth_env_var c"
  by (simp_all add: populate_def split: option.split prod.split)

lemma populate_again: "populate (fst (populate c)) = (fst (populate c), False)"
proof (cases "known_provider_defaults (pc_platform_id c)")
  case (Some d)
  let ?url = "fill (\<lambda>u. u = None \<or> u = Some []) (pc_base_url c) (pd_base_url d)"
    and ?mod = "fill (\<lambda>m. m = None) (pc_models c) (pd_models d)"
    and ?env = "fill (\<lambda>e. e = None) (pc_extra_env c) (pd_extra_env d)"
  have "fill (\<lambda>u. u = None \<or> u = Some []) (fst ?url) (pd_base_url d) = (fst ?url, False)"
    using provider_urls [OF Some] by (intro fill_again) auto
  moreover have "fill (\<lambda>m. m = None) (fst ?mod) (pd_models d) = (fst ?mod, False)"
    "fill (\<lambda>e. e = None) (fst ?env) (pd_extra_env d) = (fst ?env, False)"
    by (intro fill_again; simp)+
  ultimately show ?thesis using Some
    by (cases ?url; cases ?mod; cases ?env) (simp add: populate_def)
qed (simp add: populate_def)

lemma populate_minimax:
  assumes "pc_platform_id c = ''minimax''"
    and "\<not> is_some_and (pc_base_url c) (\<lambda>u. str_contains u ''api.minimaxi.com'')"
  shows "\<not> is_some_and (pc_base_url (fst (populate c))) (\<lambda>u. str_contains u ''api.minimaxi.com'')"
proof -
  obtain d u where d: "known_provider_defaults ''minimax'' = Some d" "pd_base_url d = Some u"
    "\<not> str_contains u ''api.minimaxi.com''" using minimax_url by blast
  show ?thesis using assms d by (simp add: populate_def fill_def split: prod.split)
qed

lemma migrate_credential_again:
  "migrate_credential (fst (migrate_credential c)) = (fst (migrate_credential c), False)"
proof -
  define c1 where "c1 = fst (fix_cred_auth c)"
  define c2 where "c2 = fst (rename_minimax c1)"
  define c3 where "c3 = fst (populate c2)"
  have m: "fst (migrate_credential c) = c3"
    by (simp add: migrate_credential_def c1_def c2_def c3_def split: prod.split)
  have a1: "pc_auth_env_var c1 = fst (fix_auth (pc_platform_id c1) (pc_auth_env_var c))"
    by (simp add: c1_def fix_cred_auth_def split: prod.split)
  have "fix_auth ''minimax-cn'' v = fix_auth ''minimax'' v" for v
    by (simp add: fix_auth_eq auth_fixes_def)
  then have "pc_auth_env_var c3 = fst (fix_auth (pc_platform_id c3) (pc_auth_env_var c))"
    using a1 by (auto simp: c3_def c2_def populate_fields rename_minimax_def)
  then have f: "fix_cred_auth c3 = (c3, False)" using fix_auth_again by (simp add: fix_cred_auth_def)
  have r: "rename_minimax c3 = (c3, False)"
  proof (cases "pc_platform_id c3 = ''minimax''")
    case True
    then have p: "pc_platform_id c2 = ''minimax''" by (simp add: c3_def populate_fields)
    then have "\<not> is_some_and (pc_base_url c2) (\<lambda>u. str_contains u ''api.minimaxi.com'')"
      by (auto simp: c2_def rename_minimax_def split: if_splits)
    from populate_minimax [OF p this] show ?thesis by (simp add: rename_minimax_def c3_def)
  qed (simp add: rename_minimax_def)
  show ?thesis unfolding m using f r populate_again [of c2, folded c3_def]
    by (simp add: migrate_credential_def)
qed

lemma migrate_user_again: "migrate_user (fst (migrate_user u)) = (fst (migrate_user u), False)"
proof -
  let ?cs = "us_platform_credentials u"
  define u1 where "u1 = u\<lparr>us_platform_credentials := map (fst \<circ> migrate_credential) ?cs\<rparr>"
  define u2 where "u2 = fst (migrate_active u1)"
  define u3 where "u3 = fst (migrate_global_auth u2)"
  have m: "fst (migrate_user u) = u3"
    by (simp add: migrate_user_def Let_def u1_def u2_def u3_def comp_def split: prod.split)
  have cs: "us_platform_credentials u3 = map (fst \<circ> migrate_credential) ?cs"
    by (auto simp: u3_def u2_def u1_def migrate_global_auth_def migrate_active_def split: option.split prod.split)
  then have same: "map fst (map migrate_credential (us_platform_credentials u3)) = us_platform_credentials u3"
    "\<not> list_ex snd (map migrate_credential (us_platform_credentials u3))"
    by (simp_all add: migrate_credential_again comp_def list_ex_iff)
  have act: "migrate_active u3 = (u3, False)"
    by (auto simp: u3_def u2_def migrate_global_auth_def migrate_active_def split: option.split prod.split)
  have "migrate_global_auth u3 = (u3, False)"
  proof -
    have again: "fix_auth pid w = (w, False)" if "fix_auth pid v = (w, b)" for pid v w b
      using fix_auth_again [of pid v] that by simp
    then show ?thesis
      by (auto simp: u3_def migrate_global_auth_def split: option.split prod.split dest: again)
  qed
  moreover have "u3\<lparr>us_platform_credentials := us_platform_credentials u3\<rparr> = u3" by simp
  ultimately show ?thesis using same act unfolding m by (simp add: migrate_user_def Let_def)
qed

text \<open>
  C38: the migration of credentials is done once.  Migrated settings are not changed again, whatever
  mixture of old and new credentials they hold, so a start with migrated settings does not write
  the file.
\<close>

theorem migration_idempotent:
  "migrate_platform_credentials (fst (migrate_platform_credentials s)) =
     (fst (migrate_platform_credentials s), False)"
  using migrate_user_again [of "al_user s"]
  by (cases "migrate_user (al_user s)") (simp add: migrate_platform_credentials_def)

section \<open>Updates\<close>

text \<open>What the codec has to do for a state: what is printed parses to it.\<close>

definition prints :: "settings_codec \<Rightarrow> AllSettings \<Rightarrow> bool" where
  "prints C s \<longleftrightarrow> sc_parse C (sc_show C s) = Some s"

lemma save_settings_cases:
  assumes "save_settings C io s f = (r, f')"
  shows "(\<exists>e. r = Inl e \<and> f' = f) \<or> (r = Inr () \<and> f' = Some (sc_show C s))"
proof (cases "io_ensure_dir io = None \<and> io_write_tmp io = None")
  case True
  then show ?thesis
    using assms
    by (cases "rename_loop (io_rename io) 0 3") (simp_all add: save_settings_def write_atomic_0600_def, metis)
qed (use assms in \<open>auto simp: save_settings_def write_atomic_0600_def split: option.splits\<close>)

lemma load_again:
  assumes "load_settings C True io now f = (s, f')" "prints C s"
  shows "fst (load_settings C True io' now f') = s"
proof -
  have "f' = f \<or> f' = snd (save_settings C io s f)"
    using assms(1) by (auto simp: load_settings_def Let_def split: option.splits prod.splits if_splits)
  then consider (same) "f' = f" | (saved) "f' = Some (sc_show C s)"
    using save_settings_cases [of C io s f] by (metis prod.collapse)
  then show ?thesis
  proof cases
    case same
    then show ?thesis using assms(1)
      by (auto simp: load_settings_def Let_def split: option.splits prod.splits)
  next
    case saved
    have "migrate_platform_credentials s = (s, False)"
    proof (cases "Option.bind f (sc_parse C)")
      case None
      then have "s = all_default now" using assms(1) by (simp add: load_settings_def Let_def)
      then show ?thesis
        by (simp add: all_default_def user_default_def migrate_platform_credentials_def migrate_user_def
            migrate_active_def migrate_global_auth_def)
    next
      case (Some s0)
      then have "s = fst (migrate_platform_credentials s0)" using assms(1)
        by (auto simp: load_settings_def split: prod.splits)
      then show ?thesis using migrate_user_again [of "al_user s0"]
        by (cases "migrate_user (al_user s0)") (simp add: migrate_platform_credentials_def)
    qed
    then show ?thesis using saved assms(2) by (simp add: load_settings_def prints_def)
  qed
qed

text \<open>
  C37: an update is a transaction.  When it fails, on an invalid field or on any file operation, the
  settings that the next load gives are those from before; when it succeeds, they are exactly the
  patched ones with the new time stamp (and migrated, if the patch put in a credential that needs
  it), those of the agents untouched, and the caller is told the same.
\<close>

theorem settings_transaction:
  assumes "update_user_settings F C X now p f = (r, f')" "sx_readable X"
    and "load_settings C True (sx_load X) now f = (s, f1)" "prints C s"
    and "\<And>u. r = Inr u \<Longrightarrow> prints C (s\<lparr>al_user := u\<rparr>)"
  shows "case r of
      Inl e \<Rightarrow> fst (load_settings C True io now f') = s
    | Inr u \<Rightarrow> patch_user F C p (al_user s) \<in> {Inr v | v. u = v\<lparr>us_updated_at := now\<rparr>}
        \<and> fst (load_settings C True io now f') = s\<lparr>al_user := fst (migrate_user u)\<rparr>"
proof (cases "patch_user F C p (al_user s)")
  case (Inl e)
  then have "r = Inl e" "f' = f1" using assms(1,2,3) by (simp_all add: update_user_settings_def)
  then show ?thesis using load_again [OF assms(3,4)] by simp
next
  case (Inr v)
  let ?u = "v\<lparr>us_updated_at := now\<rparr>"
  obtain r2 f2 where w: "save_settings C (sx_save X) (s\<lparr>al_user := ?u\<rparr>) f1 = (r2, f2)" by (metis surj_pair)
  have rf: "r = (case r2 of Inl e \<Rightarrow> Inl e | Inr x \<Rightarrow> Inr ?u)" "f' = f2"
    using assms(1,2,3) Inr w by (auto simp: update_user_settings_def Let_def split: sum.splits)
  from save_settings_cases [OF w] show ?thesis
  proof (elim disjE exE conjE)
    fix e assume "r2 = Inl e" "f2 = f1"
    then show ?thesis using rf load_again [OF assms(3,4)] by simp
  next
    assume ok: "r2 = Inr ()" "f2 = Some (sc_show C (s\<lparr>al_user := ?u\<rparr>))"
    then have "prints C (s\<lparr>al_user := ?u\<rparr>)" using rf assms(5) by simp
    then show ?thesis using rf ok Inr
      by (simp add: load_settings_def prints_def migrate_platform_credentials_def split: prod.split)
  qed
qed

lemma sum_bind_Inr: "sum_bind r f = Inr y \<longleftrightarrow> (\<exists>x. r = Inr x \<and> f x = Inr y)"
  by (cases r) (simp_all add: sum_bind_def)

lemma patch_decoded_Inr:
  "patch_decoded p k err dec f s = Inr t \<Longrightarrow> t = s \<or> (\<exists>vs. t = f vs s)"
  by (auto simp: patch_decoded_def split: option.splits if_splits sum.splits)

definition fixed_fields :: "UserSettings \<Rightarrow> _" where
  "fixed_fields u =
     (us_codex_provider u, us_codex_transport u, us_web_server_enabled u, us_web_server_token u,
      us_web_server_port u, us_web_server_bind u, us_web_server_allowed_origins u,
      us_web_server_tunnel_url u)"

lemma patch_keeps:
  "(\<And>v s. g (f v s) = g s) \<Longrightarrow> g (patch_key p k f s) = g s"
  "(\<And>v s. g (f' v s) = g s) \<Longrightarrow> g (patch_str p k f' s) = g s"
  by (simp_all add: patch_key_def patch_str_def split: option.split)

lemma patch_decoded_keeps:
  assumes "patch_decoded p k err dec f s = Inr t" "\<And>vs s. g (f vs s) = g s"
  shows "g t = g s"
  using patch_decoded_Inr [OF assms(1)] assms(2) by auto

lemma fixed_updates:
  "fixed_fields (u\<lparr>us_default_agent := a\<rparr>) = fixed_fields u"
  "fixed_fields (u\<lparr>us_default_model := o1\<rparr>) = fixed_fields u"
  "fixed_fields (u\<lparr>us_allowed_tools := l\<rparr>) = fixed_fields u"
  "fixed_fields (u\<lparr>us_working_directory := o1\<rparr>) = fixed_fields u"
  "fixed_fields (u\<lparr>us_provider_mode := a\<rparr>) = fixed_fields u"
  "fixed_fields (u\<lparr>us_auth_mode := a\<rparr>) = fixed_fields u"
  "fixed_fields (u\<lparr>us_anthropic_api_key := o1\<rparr>) = fixed_fields u"
  "fixed_fields (u\<lparr>us_anthropic_base_url := o1\<rparr>) = fixed_fields u"
  "fixed_fields (u\<lparr>us_auth_env_var := o1\<rparr>) = fixed_fields u"
  "fixed_fields (u\<lparr>us_permission_mode := a\<rparr>) = fixed_fields u"
  "fixed_fields (u\<lparr>us_max_budget_usd := b\<rparr>) = fixed_fields u"
  "fixed_fields (u\<lparr>us_fallback_model := o1\<rparr>) = fixed_fields u"
  "fixed_fields (u\<lparr>us_keybinding_overrides := kb\<rparr>) = fixed_fields u"
  "fixed_fields (u\<lparr>us_remote_hosts := rh\<rparr>) = fixed_fields u"
  "fixed_fields (u\<lparr>us_platform_credentials := pcs\<rparr>) = fixed_fields u"
  "fixed_fields (u\<lparr>us_active_platform_id := o1\<rparr>) = fixed_fields u"
  "fixed_fields (u\<lparr>us_ui_zoom := b\<rparr>) = fixed_fields u"
  "fixed_fields (u\<lparr>us_onboarding_completed := c\<rparr>) = fixed_fields u"
  "fixed_fields (u\<lparr>us_claude_path := o1\<rparr>) = fixed_fields u"
  "fixed_fields (u\<lparr>us_updated_at := a\<rparr>) = fixed_fields u"
  by (simp_all add: fixed_fields_def)

lemma fixed_plain: "fixed_fields (patch_user_plain F p u) = fixed_fields u"
  by (simp add: patch_user_plain_def Let_def patch_keeps [where g = fixed_fields] fixed_updates
      split: option.split)

lemma fixed_patch:
  assumes "patch_user F C p u = Inr v"
  shows "fixed_fields v = fixed_fields u"
proof -
  obtain u1 u2 u3 u5 where
    d: "patch_decoded p ''keybinding_overrides'' ''Invalid keybinding_overrides: ''
         (sc_keybindings C) (\<lambda>vs u. u\<lparr>us_keybinding_overrides := vs\<rparr>) (patch_user_plain F p u) = Inr u1"
      "patch_decoded p ''remote_hosts'' ''Invalid remote_hosts: ''
         (sc_remote_hosts C) (\<lambda>vs u. u\<lparr>us_remote_hosts := vs\<rparr>) u1 = Inr u2"
      "patch_decoded p ''platform_credentials'' ''Invalid platform_credentials: ''
         (sc_credentials C) (\<lambda>vs u. u\<lparr>us_platform_credentials := vs\<rparr>) u2 = Inr u3"
    and u5: "fixed_fields u5 = fixed_fields u3" "fixed_fields v = fixed_fields u5"
  proof -
    from assms obtain u1 u2 u3 u5 where
      d: "patch_decoded p ''keybinding_overrides'' ''Invalid keybinding_overrides: ''
           (sc_keybindings C) (\<lambda>vs u. u\<lparr>us_keybinding_overrides := vs\<rparr>) (patch_user_plain F p u) = Inr u1"
        "patch_decoded p ''remote_hosts'' ''Invalid remote_hosts: ''
           (sc_remote_hosts C) (\<lambda>vs u. u\<lparr>us_remote_hosts := vs\<rparr>) u1 = Inr u2"
        "patch_decoded p ''platform_credentials'' ''Invalid platform_credentials: ''
           (sc_credentials C) (\<lambda>vs u. u\<lparr>us_platform_credentials := vs\<rparr>) u2 = Inr u3"
      and z: "(let u4 = patch_key p ''active_platform_id''
              (\<lambda>v u. u\<lparr>us_active_platform_id := (if v = JNull then None else nonempty_str v)\<rparr>) u3
          in case j_get p ''ui_zoom'' of
               None \<Rightarrow> Inr u4
             | Some v \<Rightarrow> sum_bind (validate_ui_zoom F C v) (\<lambda>z. Inr (u4\<lparr>us_ui_zoom := z\<rparr>))) = Inr u5"
      and v: "v = patch_key p ''claude_path''
             (\<lambda>v u. u\<lparr>us_claude_path := opt_filter (\<lambda>s. s \<noteq> []) (map_option str_trim (as_str v))\<rparr>)
             (patch_key p ''onboarding_completed''
              (\<lambda>v u. u\<lparr>us_onboarding_completed := unwrap_or (as_bool v) False\<rparr>) u5)"
      by (auto simp: patch_user_def sum_bind_Inr Let_def)
    have "fixed_fields u5 = fixed_fields u3"
      using z by (auto simp: Let_def sum_bind_Inr patch_keeps [where g = fixed_fields] fixed_updates
          split: option.splits)
    moreover have "fixed_fields v = fixed_fields u5"
      by (simp add: v patch_keeps [where g = fixed_fields] fixed_updates)
    ultimately show ?thesis using that d by blast
  qed
  from d have "fixed_fields u3 = fixed_fields (patch_user_plain F p u)"
    by (auto dest!: patch_decoded_keeps [where g = fixed_fields] simp: fixed_updates)
  then show ?thesis using u5 fixed_plain by simp
qed

definition fixed_agent_fields :: "AgentSettings \<Rightarrow> _" where
  "fixed_agent_fields a = (ag_agent a, ag_max_turns a, ag_betas a, ag_agents_json a, ag_web_search a)"

lemma fixed_agent_updates:
  "fixed_agent_fields (a\<lparr>ag_model := o1\<rparr>) = fixed_agent_fields a"
  "fixed_agent_fields (a\<lparr>ag_allowed_tools := l\<rparr>) = fixed_agent_fields a"
  "fixed_agent_fields (a\<lparr>ag_working_directory := o1\<rparr>) = fixed_agent_fields a"
  "fixed_agent_fields (a\<lparr>ag_plan_mode := b\<rparr>) = fixed_agent_fields a"
  "fixed_agent_fields (a\<lparr>ag_disallowed_tools := ol\<rparr>) = fixed_agent_fields a"
  "fixed_agent_fields (a\<lparr>ag_append_system_prompt := o1\<rparr>) = fixed_agent_fields a"
  "fixed_agent_fields (a\<lparr>ag_max_budget_usd := f\<rparr>) = fixed_agent_fields a"
  "fixed_agent_fields (a\<lparr>ag_fallback_model := o1\<rparr>) = fixed_agent_fields a"
  "fixed_agent_fields (a\<lparr>ag_system_prompt := o1\<rparr>) = fixed_agent_fields a"
  "fixed_agent_fields (a\<lparr>ag_tool_set := o1\<rparr>) = fixed_agent_fields a"
  "fixed_agent_fields (a\<lparr>ag_add_dirs := ol\<rparr>) = fixed_agent_fields a"
  "fixed_agent_fields (a\<lparr>ag_json_schema := j\<rparr>) = fixed_agent_fields a"
  "fixed_agent_fields (a\<lparr>ag_include_partial_messages := b\<rparr>) = fixed_agent_fields a"
  "fixed_agent_fields (a\<lparr>ag_cli_debug := o1\<rparr>) = fixed_agent_fields a"
  "fixed_agent_fields (a\<lparr>ag_no_session_persistence := b\<rparr>) = fixed_agent_fields a"
  "fixed_agent_fields (a\<lparr>ag_effort := o1\<rparr>) = fixed_agent_fields a"
  "fixed_agent_fields (a\<lparr>ag_permission_mode := o1\<rparr>) = fixed_agent_fields a"
  "fixed_agent_fields (a\<lparr>ag_ephemeral := b\<rparr>) = fixed_agent_fields a"
  "fixed_agent_fields (a\<lparr>ag_profile := o1\<rparr>) = fixed_agent_fields a"
  "fixed_agent_fields (a\<lparr>ag_ignore_user_config := b\<rparr>) = fixed_agent_fields a"
  "fixed_agent_fields (a\<lparr>ag_ignore_rules := b\<rparr>) = fixed_agent_fields a"
  by (simp_all add: fixed_agent_fields_def)

lemma fixed_agent_patch: "fixed_agent_fields (apply_agent_patch F p a) = fixed_agent_fields a"
  by (simp add: apply_agent_patch_def Let_def patch_opt_bool_def patch_opt_str_def patch_opt_list_def
      patch_keeps [where g = fixed_agent_fields] fixed_agent_updates split: option.split)

text \<open>
  Which settings the update operations cannot set.  No patch changes the provider or the
  transport of Codex, the fields of the web server or its token; and no patch of the settings of
  an agent changes the native web search, the number of turns, the betas or the agent definitions.
  The settings page sends patches for the transport, the provider and the web search.
\<close>

theorem unpatchable_settings:
  assumes "update_user_settings F C X now p f = (Inr u, f')"
    and "load_settings C (sx_readable X) (sx_load X) now f = (s, f1)"
    and "update_agent_settings F C Y now' agent q g = (Inr a, g')"
    and "load_settings C (sx_readable Y) (sx_load Y) now' g = (t, g1)"
  shows "us_codex_provider u = us_codex_provider (al_user s)
    \<and> us_codex_transport u = us_codex_transport (al_user s)
    \<and> us_web_server_token u = us_web_server_token (al_user s)
    \<and> us_web_server_enabled u = us_web_server_enabled (al_user s)
    \<and> ag_web_search a = ag_web_search (agent_of now' t agent)
    \<and> ag_max_turns a = ag_max_turns (agent_of now' t agent)
    \<and> ag_betas a = ag_betas (agent_of now' t agent)
    \<and> ag_agents_json a = ag_agents_json (agent_of now' t agent)"
proof -
  obtain v where v: "patch_user F C p (al_user s) = Inr v" "u = v\<lparr>us_updated_at := now\<rparr>"
    using assms(1,2) by (auto simp: update_user_settings_def Let_def split: sum.splits prod.splits)
  have "a = (apply_agent_patch F q (agent_of now' t agent))\<lparr>ag_updated_at := now'\<rparr>"
    using assms(3,4) by (auto simp: update_agent_settings_def Let_def split: sum.splits prod.splits)
  with fixed_agent_patch [of F q "agent_of now' t agent"] fixed_patch [OF v(1)] v(2) show ?thesis
    by (simp add: fixed_fields_def fixed_agent_fields_def)
qed

text \<open>
  C39: a settings file that cannot be read or does not parse is lost: the next load, even one that
  only wants to look, gives the defaults and writes them over the file.
\<close>

theorem unreadable_settings_lost:
  assumes "\<not> readable \<or> sc_parse C content = None"
    and "io_ensure_dir io = None" "io_write_tmp io = None" "io_rename io 0 = RenOk"
  shows "get_user_settings C readable io now (Some content) =
    (user_default now, Some (sc_show C (all_default now)))"
proof -
  have "rename_loop (io_rename io) 0 3 = Inr ()" using assms(4) by (simp add: numeral_3_eq_3)
  then show ?thesis using assms(1-3)
    by (auto simp: get_user_settings_def load_settings_def save_settings_def write_atomic_0600_def
        all_default_def Let_def)
qed

section \<open>Samples\<close>

text \<open>A codec that knows one state.\<close>

definition one_codec :: "AllSettings \<Rightarrow> settings_codec" where
  "one_codec s =
     \<lparr> sc_parse = (\<lambda>c. if c = ''s'' then Some s else None), sc_show = (\<lambda>_. ''s''),
       sc_keybindings = (\<lambda>_. Inl ''k''), sc_remote_hosts = (\<lambda>_. Inl ''h''),
       sc_credentials = (\<lambda>_. Inl ''c''), sc_show_f64 = (\<lambda>_. ''0'') \<rparr>"

definition zero_ops :: float_ops where
  "zero_ops = \<lparr> f_of_rat = \<lambda>q. 0, f_of_u64 = \<lambda>n. n, f_of_i64 = \<lambda>n. n, f_add = \<lambda>x y. x,
     f_mul = \<lambda>x y. x, f_div = \<lambda>x y. x \<rparr>"

definition good_io :: settings_io where
  "good_io = \<lparr> sx_readable = True, sx_load = fs_ok, sx_save = fs_ok \<rparr>"

lemma one_load: "load_settings (one_codec (all_default n)) True io now (Some ''s'') = (all_default n, Some ''s'')"
  by (simp add: load_settings_def one_codec_def all_default_def user_default_def
      migrate_platform_credentials_def migrate_user_def migrate_active_def migrate_global_auth_def)

lemma one_load_good:
  "load_settings (one_codec (all_default n)) (sx_readable good_io) (sx_load good_io) now (Some ''s'') =
     (all_default n, Some ''s'')"
  by (simp add: good_io_def one_load)

lemma prints_one: "prints (one_codec s) s" "sx_readable good_io"
  by (simp_all add: prints_def one_codec_def good_io_def)

lemma one_save: "save_settings (one_codec s) fs_ok t f = (Inr (), Some ''s'')"
  by (simp add: save_settings_def write_atomic_0600_def one_codec_def fs_ok_def numeral_3_eq_3)

lemma empty_patch: "patch_user F C (JObj []) u = Inr u" "apply_agent_patch F (JObj []) a = a"
  by (simp_all add: patch_user_def patch_user_plain_def apply_agent_patch_def patch_decoded_def
      patch_key_def patch_str_def patch_opt_bool_def patch_opt_str_def patch_opt_list_def get_str_def
      get_array_def sum_bind_def Let_def)

lemma one_update:
  "update_user_settings F (one_codec (all_default ''t'')) good_io ''t'' (JObj []) (Some ''s'') =
     (Inr (user_default ''t''), Some ''s'')"
  "update_agent_settings F (one_codec (all_default ''t'')) good_io ''t'' ''claude'' (JObj []) (Some ''s'') =
     (Inr (agent_default_for ''t'' ''claude''), Some ''s'')"
  by (simp_all add: update_user_settings_def update_agent_settings_def good_io_def one_load one_save
      empty_patch agent_of_def Let_def)
    (simp_all add: all_default_def user_default_def agent_default_for_def)

theorem settings_transaction_witness:
  "fst (load_settings (one_codec (all_default ''t'')) True fs_ok ''t''
     (snd (update_user_settings zero_ops (one_codec (all_default ''t'')) good_io ''t'' (JObj []) (Some ''s''))))
   = all_default ''t''"
proof -
  have "(all_default ''t'')\<lparr>al_user := user_default ''t''\<rparr> = all_default ''t''" by (simp add: all_default_def)
  moreover have "fst (migrate_user (user_default ''t'')) = user_default ''t''"
    by (simp add: user_default_def migrate_user_def migrate_active_def migrate_global_auth_def)
  ultimately show ?thesis
    using settings_transaction [where io = fs_ok, OF one_update(1) [of zero_ops] _ one_load]
    by (simp add: prints_one one_update)
qed

theorem unpatchable_settings_witness:
  "ag_web_search (agent_default_for ''t'' ''claude'') = None"
  using unpatchable_settings [OF one_update(1) [of zero_ops] one_load_good one_update(2) [of zero_ops] one_load_good]
  by (simp add: agent_of_def all_default_def agent_default_for_def)

theorem unreadable_settings_lost_witness:
  "get_user_settings (one_codec (all_default ''t'')) True fs_ok ''t'' (Some ''broken'') =
     (user_default ''t'', Some ''s'')"
  using unreadable_settings_lost [of True "one_codec (all_default ''t'')" "''broken''" fs_ok "''t''"]
  by (simp add: one_codec_def fs_ok_def)

end
