(* ===== verification/WebAuth.thy ===== *)
theory WebAuth
  imports Settings
begin

text \<open>
  Authentication of the web server (\<open>web_server/auth.rs\<close>, \<open>web_server/state.rs\<close>, the life of a
  connection in \<open>web_server/ws.rs\<close> and the rotation of the token in \<open>commands/web_server.rs\<close>).
  Times are nanoseconds since the epoch.  The text of the cookie header, the query and the random
  ids and tokens are arguments; so is the decoder of the query (axum's \<open>Query\<close>).
\<close>

section \<open>State\<close>

record SessionEntry =
  se_id :: string
  se_issued_at :: int
  se_expires_at :: int
  se_token_version :: u64

record AppState =
  as_token :: string
  as_token_version :: u64
  as_http_sessions :: "string \<Rightarrow> SessionEntry option"

definition SESSION_TTL_SECS :: int where "SESSION_TTL_SECS = 86400"

definition seconds :: "int \<Rightarrow> int" where "seconds n = n * 1000000000"

section \<open>Cookies\<close>

text \<open>\<open>str::split\<close> at a character.\<close>

fun str_split :: "char \<Rightarrow> string \<Rightarrow> string list" where
  "str_split d [] = [[]]"
| "str_split d (c # cs) =
     (case str_split d cs of
        [] \<Rightarrow> [[c]]
      | p # ps \<Rightarrow> if c = d then [] # p # ps else (c # p) # ps)"

definition cookie_values :: "string \<Rightarrow> string \<Rightarrow> string list" where
  "cookie_values name header =
     List.map_filter (\<lambda>part. strip_prefix (str_trim part) (name @ ''='')) (str_split CHR '';'' header)"

definition extract_cookie :: "string option \<Rightarrow> string \<Rightarrow> string option" where
  "extract_cookie header name =
     (case header of
        None \<Rightarrow> None
      | Some h \<Rightarrow> (case cookie_values name h of [] \<Rightarrow> None | v # vs \<Rightarrow> Some v))"

section \<open>The checks\<close>

datatype WsAuthSubject = WsSession string | QueryToken

definition entry_valid :: "AppState \<Rightarrow> int \<Rightarrow> SessionEntry \<Rightarrow> bool" where
  "entry_valid s now e \<longleftrightarrow> now < se_expires_at e \<and> se_token_version e = as_token_version s"

definition session_valid :: "AppState \<Rightarrow> int \<Rightarrow> string \<Rightarrow> bool" where
  "session_valid s now sid \<longleftrightarrow>
     (case as_http_sessions s sid of None \<Rightarrow> False | Some e \<Rightarrow> entry_valid s now e)"

definition authenticate_ws ::
  "AppState \<Rightarrow> int \<Rightarrow> string option \<Rightarrow> string option \<Rightarrow> WsAuthSubject option" where
  "authenticate_ws s now header query_token =
     (case (case header of
              None \<Rightarrow> None
            | Some h \<Rightarrow> find (session_valid s now) (cookie_values ''session'' h)) of
        Some sid \<Rightarrow> Some (WsSession sid)
      | None \<Rightarrow> if query_token = Some (as_token s) then Some QueryToken else None)"

text \<open>
  What the pairs \<open>token=\<close> of the query of a URL hold, as it is spelt there, and whether the token of
  the server is among them.
\<close>

definition raw_tokens :: "string \<Rightarrow> string list" where
  "raw_tokens query = List.map_filter (\<lambda>pair. strip_prefix pair ''token='') (str_split CHR ''&'' query)"

definition query_has_token :: "AppState \<Rightarrow> string \<Rightarrow> bool" where
  "query_has_token s query \<longleftrightarrow> as_token s \<in> set (raw_tokens query)"

definition validate_ws_auth :: "AppState \<Rightarrow> int \<Rightarrow> string option \<Rightarrow> string option \<Rightarrow> bool" where
  "validate_ws_auth s now header query \<longleftrightarrow>
     (case extract_cookie header ''session'' of None \<Rightarrow> False | Some sid \<Rightarrow> session_valid s now sid)
     \<or> (case query of None \<Rightarrow> False | Some q \<Rightarrow> query_has_token s q)"

definition validate_ws_auth_extracted ::
  "AppState \<Rightarrow> int \<Rightarrow> string option \<Rightarrow> string option \<Rightarrow> bool" where
  "validate_ws_auth_extracted s now header query_token \<longleftrightarrow>
     (case header of
        None \<Rightarrow> False
      | Some h \<Rightarrow> list_ex (session_valid s now) (cookie_values ''session'' h))
     \<or> query_token = Some (as_token s)"

text \<open>
  The upgrade of a connection.  \<open>extract\<close> decodes the query into the parameter \<open>token\<close>; none is a
  query that it refuses, which ends the request before the handler.
\<close>

definition ws_handler ::
  "(string \<Rightarrow> string option option) \<Rightarrow> AppState \<Rightarrow> int \<Rightarrow> string option \<Rightarrow> string option
     \<Rightarrow> WsAuthSubject option" where
  "ws_handler extract s now header query =
     (case extract (unwrap_or query []) of
        None \<Rightarrow> None
      | Some query_token \<Rightarrow> authenticate_ws s now header query_token)"

text \<open>The middleware of the protected routes: the request goes on, or back to the login page.\<close>

datatype gate = Proceed | RedirectToLogin

definition session_cookie_middleware ::
  "AppState \<Rightarrow> int \<Rightarrow> string option \<Rightarrow> gate \<times> AppState" where
  "session_cookie_middleware s now header =
     (case extract_cookie header ''session'' of
        None \<Rightarrow> (RedirectToLogin, s)
      | Some sid \<Rightarrow>
          (case as_http_sessions s sid of
             None \<Rightarrow> (RedirectToLogin, s)
           | Some e \<Rightarrow>
               if se_expires_at e \<le> now \<or> se_token_version e \<noteq> as_token_version s
               then (RedirectToLogin, s\<lparr>as_http_sessions := (as_http_sessions s)(sid := None)\<rparr>)
               else (Proceed, s)))"

section \<open>Logging in\<close>

definition cookie_text :: "string \<Rightarrow> string" where
  "cookie_text sid =
     ''session='' @ sid @ ''; HttpOnly; SameSite=Lax; Path=/; Max-Age='' @ show_nat (nat SESSION_TTL_SECS)"

definition create_session_cookie :: "string \<Rightarrow> int \<Rightarrow> AppState \<Rightarrow> string \<times> AppState" where
  "create_session_cookie sid now s =
     (cookie_text sid,
      s\<lparr>as_http_sessions := (as_http_sessions s)(sid \<mapsto>
          \<lparr> se_id = sid, se_issued_at = now, se_expires_at = now + seconds SESSION_TTL_SECS,
            se_token_version = as_token_version s \<rparr>)\<rparr>)"

text \<open>
  Both handlers check the token first and then, in a second step with locks of its own, create the
  session.  The states of the two steps are arguments: others may run in between.
\<close>

datatype web_response =
    AuthInvalid | AuthOk string | LoginRedirect string | LoginPage

definition token_ok :: "AppState \<Rightarrow> string \<Rightarrow> bool" where
  "token_ok s token \<longleftrightarrow> token = as_token s"

definition auth_handler ::
  "AppState \<Rightarrow> string \<Rightarrow> string \<Rightarrow> int \<Rightarrow> AppState \<Rightarrow> web_response \<times> AppState" where
  "auth_handler s_check token sid now s =
     (if \<not> token_ok s_check token then (AuthInvalid, s)
      else (case create_session_cookie sid now s of (c, s') \<Rightarrow> (AuthOk c, s')))"

definition login_page ::
  "AppState \<Rightarrow> string option \<Rightarrow> string \<Rightarrow> int \<Rightarrow> AppState \<Rightarrow> web_response \<times> AppState" where
  "login_page s_check token sid now s =
     (case opt_filter (token_ok s_check) token of
        None \<Rightarrow> (LoginPage, s)
      | Some t \<Rightarrow> (case create_session_cookie sid now s of (c, s') \<Rightarrow> (LoginRedirect c, s')))"

section \<open>Rotation and connections\<close>

text \<open>What a new token does to the state: its text is replaced and the version goes up.\<close>

definition rotate :: "string \<Rightarrow> AppState \<Rightarrow> AppState" where
  "rotate new_token s =
     s\<lparr>as_token := new_token, as_token_version := as_token_version s + 1\<rparr>"

text \<open>
  The settings are read once before the update and once in it; \<open>f2\<close> is the file at the second time.
\<close>

definition update_user_settings_with_rotation ::
  "float_ops \<Rightarrow> settings_codec \<Rightarrow> bool \<Rightarrow> fs_io \<Rightarrow> settings_io \<Rightarrow> string \<Rightarrow> json \<Rightarrow> settings_file \<Rightarrow> settings_file
     \<Rightarrow> AppState \<Rightarrow> (string + UserSettings) \<times> settings_file \<times> AppState" where
  "update_user_settings_with_rotation F C readable io X now p f f2 s =
     (let old = fst (get_user_settings C readable io now f) in
      case update_user_settings F C X now p f2 of
        (Inl e, f3) \<Rightarrow> (Inl e, f3, s)
      | (Inr u, f3) \<Rightarrow>
          (Inr u, f3,
           if us_web_server_token old \<noteq> us_web_server_token u
           then rotate (unwrap_or (us_web_server_token u) []) s else s))"

text \<open>
  The tasks of a connection.  The heartbeat reads the version, subscribes to the shutdown channel and
  then waits for its interval or for the channel; \<open>HbWatching v told\<close> has a message in the channel
  when \<open>told\<close>.  When it ends it has sent a Close frame with its reason.  The handler returns then,
  but the task that reads the client's messages was spawned on its own and nothing stops it: it goes
  on until the client closes or the stream breaks.
\<close>

datatype close_reason = TokenVersionMismatch | SessionExpired | TokenRotated

datatype heartbeat_task = HbNew | HbLoaded u64 | HbWatching u64 bool | HbEnded close_reason

record ws_conn =
  wc_subject :: WsAuthSubject
  wc_heartbeat :: heartbeat_task

definition conn_open :: "WsAuthSubject \<Rightarrow> ws_conn" where
  "conn_open subject = \<lparr> wc_subject = subject, wc_heartbeat = HbNew \<rparr>"

definition heartbeat_load :: "AppState \<Rightarrow> heartbeat_task \<Rightarrow> heartbeat_task" where
  "heartbeat_load s hb = (case hb of HbNew \<Rightarrow> HbLoaded (as_token_version s) | _ \<Rightarrow> hb)"

definition heartbeat_subscribe :: "heartbeat_task \<Rightarrow> heartbeat_task" where
  "heartbeat_subscribe hb = (case hb of HbLoaded v \<Rightarrow> HbWatching v False | _ \<Rightarrow> hb)"

text \<open>The interval: the reason why the connection is closed, or none when it only pings.\<close>

definition heartbeat :: "AppState \<Rightarrow> int \<Rightarrow> WsAuthSubject \<Rightarrow> u64 \<Rightarrow> close_reason option" where
  "heartbeat s now subject version =
     (if as_token_version s \<noteq> version then Some TokenVersionMismatch
      else (case subject of
              QueryToken \<Rightarrow> None
            | WsSession sid \<Rightarrow>
                if (case as_http_sessions s sid of None \<Rightarrow> True | Some e \<Rightarrow> se_expires_at e \<le> now)
                then Some SessionExpired else None))"

definition heartbeat_tick ::
  "AppState \<Rightarrow> int \<Rightarrow> WsAuthSubject \<Rightarrow> heartbeat_task \<Rightarrow> heartbeat_task" where
  "heartbeat_tick s now subject hb =
     (case hb of
        HbWatching v told \<Rightarrow>
          (case heartbeat s now subject v of None \<Rightarrow> hb | Some reason \<Rightarrow> HbEnded reason)
      | _ \<Rightarrow> hb)"

text \<open>The shutdown channel: a message reaches who has subscribed, and ends the heartbeat when it is read.\<close>

definition shutdown_sent :: "heartbeat_task \<Rightarrow> heartbeat_task" where
  "shutdown_sent hb = (case hb of HbWatching v told \<Rightarrow> HbWatching v True | _ \<Rightarrow> hb)"

definition shutdown_received :: "heartbeat_task \<Rightarrow> heartbeat_task" where
  "shutdown_received hb =
     (case hb of HbWatching v told \<Rightarrow> if told then HbEnded TokenRotated else hb | _ \<Rightarrow> hb)"

section \<open>The server\<close>

text \<open>
  Everything that happens to the state.  \<open>wb_logins\<close> are the logins whose token has been checked and
  \<open>wb_upgrades\<close> the connections that have been authenticated, both not yet in their second step.
  \<open>wb_conns\<close> are the connections whose messages are read, and \<open>wb_dispatched\<close> the messages that were
  read, with their connection.  The three effects of a rotation are one step.
\<close>

record web =
  wb_app :: AppState
  wb_logins :: "string set"
  wb_upgrades :: "nat \<Rightarrow> WsAuthSubject option"
  wb_conns :: "nat \<Rightarrow> ws_conn option"
  wb_dispatched :: "(nat \<times> string) list"

datatype web_op =
    LoginCheck string string
  | LoginIssue string int
  | PageRequest "string option" int
  | RotateToken string
  | WsAuthenticate nat "string option" "string option" int
  | WsOpen nat
  | WsVersion nat
  | WsSubscribe nat
  | WsShutdown nat
  | WsTick nat int
  | WsCommand nat string
  | WsGone nat

definition on_heartbeat ::
  "nat \<Rightarrow> (WsAuthSubject \<Rightarrow> heartbeat_task \<Rightarrow> heartbeat_task) \<Rightarrow> web \<Rightarrow> web" where
  "on_heartbeat c f w =
     w\<lparr>wb_conns := (wb_conns w)(c :=
         map_option (\<lambda>x. x\<lparr>wc_heartbeat := f (wc_subject x) (wc_heartbeat x)\<rparr>) (wb_conns w c))\<rparr>"

definition regenerate_web_server_token :: "string \<Rightarrow> web \<Rightarrow> string \<times> web" where
  "regenerate_web_server_token new_token w =
     (new_token,
      w\<lparr>wb_app := rotate new_token (wb_app w),
        wb_conns := (\<lambda>c. map_option (\<lambda>x. x\<lparr>wc_heartbeat := shutdown_sent (wc_heartbeat x)\<rparr>)
                          (wb_conns w c))\<rparr>)"

fun web_step :: "web_op \<Rightarrow> web \<Rightarrow> web" where
  "web_step (LoginCheck sid token) w =
     (if token_ok (wb_app w) token then w\<lparr>wb_logins := insert sid (wb_logins w)\<rparr> else w)"
| "web_step (LoginIssue sid now) w =
     (if sid \<in> wb_logins w
      then w\<lparr>wb_app := snd (create_session_cookie sid now (wb_app w)),
             wb_logins := wb_logins w - {sid}\<rparr>
      else w)"
| "web_step (PageRequest header now) w =
     w\<lparr>wb_app := snd (session_cookie_middleware (wb_app w) now header)\<rparr>"
| "web_step (RotateToken token) w = snd (regenerate_web_server_token token w)"
| "web_step (WsAuthenticate c header token now) w =
     (case authenticate_ws (wb_app w) now header token of
        None \<Rightarrow> w
      | Some subject \<Rightarrow> w\<lparr>wb_upgrades := (wb_upgrades w)(c \<mapsto> subject)\<rparr>)"
| "web_step (WsOpen c) w =
     (case wb_upgrades w c of
        None \<Rightarrow> w
      | Some subject \<Rightarrow>
          w\<lparr>wb_upgrades := (wb_upgrades w)(c := None),
            wb_conns := (wb_conns w)(c \<mapsto> conn_open subject)\<rparr>)"
| "web_step (WsVersion c) w = on_heartbeat c (\<lambda>subject. heartbeat_load (wb_app w)) w"
| "web_step (WsSubscribe c) w = on_heartbeat c (\<lambda>subject. heartbeat_subscribe) w"
| "web_step (WsShutdown c) w = on_heartbeat c (\<lambda>subject. shutdown_received) w"
| "web_step (WsTick c now) w = on_heartbeat c (heartbeat_tick (wb_app w) now) w"
| "web_step (WsCommand c message) w =
     (if wb_conns w c = None then w else w\<lparr>wb_dispatched := wb_dispatched w @ [(c, message)]\<rparr>)"
| "web_step (WsGone c) w = w\<lparr>wb_conns := (wb_conns w)(c := None)\<rparr>"

definition web_run :: "web_op list \<Rightarrow> web \<Rightarrow> web" where
  "web_run ops w = foldl (\<lambda>w op. web_step op w) w ops"

definition web_init :: "string \<Rightarrow> web" where
  "web_init token =
     \<lparr> wb_app = \<lparr> as_token = token, as_token_version = 0, as_http_sessions = Map.empty \<rparr>,
       wb_logins = {}, wb_upgrades = Map.empty, wb_conns = Map.empty, wb_dispatched = [] \<rparr>"

lemma on_heartbeat_sel [simp]:
  "wb_app (on_heartbeat c f w) = wb_app w" "wb_logins (on_heartbeat c f w) = wb_logins w"
  "wb_upgrades (on_heartbeat c f w) = wb_upgrades w" "wb_dispatched (on_heartbeat c f w) = wb_dispatched w"
  by (simp_all add: on_heartbeat_def)

lemma on_heartbeat_conns:
  "wb_conns (on_heartbeat c f w) d =
     (if d = c then map_option (\<lambda>x. x\<lparr>wc_heartbeat := f (wc_subject x) (wc_heartbeat x)\<rparr>) (wb_conns w c)
      else wb_conns w d)"
  by (simp add: on_heartbeat_def)

lemma regenerate_sel [simp]:
  "wb_app (snd (regenerate_web_server_token t w)) = rotate t (wb_app w)"
  "wb_logins (snd (regenerate_web_server_token t w)) = wb_logins w"
  "wb_upgrades (snd (regenerate_web_server_token t w)) = wb_upgrades w"
  "wb_dispatched (snd (regenerate_web_server_token t w)) = wb_dispatched w"
  by (simp_all add: regenerate_web_server_token_def)

lemma web_run_simps [simp]:
  "web_run [] w = w" "web_run (op # ops) w = web_run ops (web_step op w)"
  "web_run (xs @ ys) w = web_run ys (web_run xs w)"
  by (simp_all add: web_run_def)

section \<open>Who is let in\<close>

lemma session_valid_iff:
  "session_valid s now sid \<longleftrightarrow> (\<exists>e. as_http_sessions s sid = Some e \<and> entry_valid s now e)"
  by (auto simp: session_valid_def split: option.split)

text \<open>
  The contract of a check: who passes has a valid session, or offers the token of the server in the
  query.
\<close>

locale ws_check =
  fixes check :: "AppState \<Rightarrow> int \<Rightarrow> string option \<Rightarrow> string option \<Rightarrow> bool"
    and offers :: "string option \<Rightarrow> string \<Rightarrow> bool"
  assumes sound: "check s now h q \<Longrightarrow> (\<exists>sid. session_valid s now sid) \<or> offers q (as_token s)"
begin

lemma rejects:
  assumes "\<And>sid. \<not> session_valid s now sid" "\<not> offers q (as_token s)"
  shows "\<not> check s now h q"
  using sound assms by blast

end

interpretation ws: ws_check "\<lambda>s now h q. authenticate_ws s now h q \<noteq> None" "\<lambda>q t. q = Some t"
  by unfold_locales (auto simp: authenticate_ws_def find_Some_iff split: option.splits if_splits)

interpretation request: ws_check validate_ws_auth
  "\<lambda>q t. \<exists>s. as_token s = t \<and> is_some_and q (query_has_token s)"
  by unfold_locales (auto simp: validate_ws_auth_def is_some_and_def split: option.splits)

interpretation extracted: ws_check validate_ws_auth_extracted "\<lambda>q t. q = Some t"
  by unfold_locales (auto simp: validate_ws_auth_extracted_def list_ex_iff split: option.splits)

interpretation page: ws_check "\<lambda>s now h q. fst (session_cookie_middleware s now h) = Proceed" "\<lambda>q t. False"
  by unfold_locales
    (auto simp: session_cookie_middleware_def session_valid_def entry_valid_def split: option.splits if_splits)

lemma extract_cookie_values:
  "extract_cookie h name = Some v \<Longrightarrow> \<exists>t. h = Some t \<and> v \<in> set (cookie_values name t)"
  by (auto simp: extract_cookie_def split: option.splits list.splits)

lemma middleware_cookie:
  "(fst (session_cookie_middleware s now h) = Proceed)
   = (case extract_cookie h ''session'' of None \<Rightarrow> False | Some sid \<Rightarrow> session_valid s now sid)"
  by (auto simp: session_cookie_middleware_def session_valid_def entry_valid_def split: option.split)

lemma authenticate_extracted:
  "(authenticate_ws s now h q \<noteq> None) = validate_ws_auth_extracted s now h q"
  by (auto simp: authenticate_ws_def validate_ws_auth_extracted_def list_ex_iff find_Some_iff
      find_None_iff split: option.splits)

lemma middleware_any_cookie:
  "fst (session_cookie_middleware s now h) = Proceed \<Longrightarrow> authenticate_ws s now h q \<noteq> None"
  unfolding middleware_cookie authenticate_extracted
  by (auto simp: validate_ws_auth_extracted_def list_ex_iff dest!: extract_cookie_values split: option.splits)

text \<open>
  What is documented of the decoder of a query (\<open>application/x-www-form-urlencoded\<close> into a struct
  with one optional field): a query with two pairs \<open>token=\<close> has a duplicate field and is refused; in
  a plain query, where nothing is encoded and no pair is \<open>token\<close> without a value, the field is what
  the pair holds, or absent.
\<close>

definition plain_query :: "string \<Rightarrow> bool" where
  "plain_query query \<longleftrightarrow>
     list_all (\<lambda>c. c \<noteq> CHR ''%'' \<and> c \<noteq> CHR ''+'' \<and> (of_char c :: nat) < 128) query
     \<and> ''token'' \<notin> set (str_split CHR ''&'' query)"

definition decodes_query :: "(string \<Rightarrow> string option option) \<Rightarrow> bool" where
  "decodes_query extract \<longleftrightarrow>
     (\<forall>query. 1 < length (raw_tokens query) \<longrightarrow> extract query = None)
     \<and> (\<forall>query. plain_query query \<and> raw_tokens query = [] \<longrightarrow> extract query = Some None)
     \<and> (\<forall>query t. plain_query query \<and> raw_tokens query = [t] \<longrightarrow> extract query = Some (Some t))"

lemma str_split_notin: "d \<notin> set cs \<Longrightarrow> str_split d cs = [cs]"
  by (induction cs) auto

lemma raw_tokens_pair:
  assumes "CHR ''&'' \<notin> set e"
  shows "raw_tokens (''token='' @ e) = [e]"
proof -
  have "str_split CHR ''&'' (''token='' @ e) = [''token='' @ e]"
    using assms by (intro str_split_notin) simp
  then show ?thesis by (simp add: raw_tokens_def List.map_filter_def strip_prefix_def starts_with_def)
qed

text \<open>
  C36: how far the checks agree.  The check that a connection is upgraded with accepts what the
  check on the extracted headers accepts.  The check on the raw request accepts what the middleware
  of the pages accepts and, beyond that, a query with the token as it is spelt there.  For a plain
  query with at most one pair \<open>token=\<close> the upgrade accepts the same requests and those where a
  session cookie after the first is valid.  They part when the query has more pairs, where the
  upgrade is refused whatever the raw check says, and when the token is encoded, which only the
  upgrade understands.
\<close>

theorem checks_agree:
  assumes "decodes_query extract"
  shows "(authenticate_ws s now h q \<noteq> None) = validate_ws_auth_extracted s now h q
   \<and> validate_ws_auth s now h query
     = (fst (session_cookie_middleware s now h) = Proceed \<or> is_some_and query (query_has_token s))
   \<and> (plain_query (unwrap_or query []) \<and> length (raw_tokens (unwrap_or query [])) \<le> 1 \<longrightarrow>
        (ws_handler extract s now h query \<noteq> None)
        = (validate_ws_auth s now h query \<or> validate_ws_auth_extracted s now h None))
   \<and> (1 < length (raw_tokens (unwrap_or query [])) \<longrightarrow> ws_handler extract s now h query = None)
   \<and> (extract (''token='' @ e) = Some (Some (as_token s)) \<and> e \<noteq> as_token s \<and> CHR ''&'' \<notin> set e \<longrightarrow>
        ws_handler extract s now None (Some (''token='' @ e)) = Some QueryToken
        \<and> \<not> validate_ws_auth s now None (Some (''token='' @ e)))"
proof (intro conjI impI)
  show "(authenticate_ws s now h q \<noteq> None) = validate_ws_auth_extracted s now h q"
    by (rule authenticate_extracted)
  show raw: "validate_ws_auth s now h query
     = (fst (session_cookie_middleware s now h) = Proceed \<or> is_some_and query (query_has_token s))"
    unfolding middleware_cookie by (simp add: validate_ws_auth_def is_some_and_def split: option.split)
  show "ws_handler extract s now h query = None" if "1 < length (raw_tokens (unwrap_or query []))"
    using that assms by (simp add: ws_handler_def decodes_query_def)
  show "(ws_handler extract s now h query \<noteq> None)
        = (validate_ws_auth s now h query \<or> validate_ws_auth_extracted s now h None)"
    if "plain_query (unwrap_or query []) \<and> length (raw_tokens (unwrap_or query [])) \<le> 1"
  proof -
    let ?t = "raw_tokens (unwrap_or query [])"
    have "extract (unwrap_or query []) = Some (case ?t of [] \<Rightarrow> None | t # ts \<Rightarrow> Some t)"
      using that assms by (cases ?t) (auto simp: decodes_query_def)
    then have "(ws_handler extract s now h query \<noteq> None)
        = validate_ws_auth_extracted s now h (case ?t of [] \<Rightarrow> None | t # ts \<Rightarrow> Some t)"
      by (simp add: ws_handler_def flip: authenticate_extracted)
    also have "\<dots> = (validate_ws_auth_extracted s now h None \<or> as_token s \<in> set ?t)"
      using that by (cases ?t) (auto simp: validate_ws_auth_extracted_def)
    also have "as_token s \<in> set ?t \<longleftrightarrow> is_some_and query (query_has_token s)"
      by (cases query) (simp_all add: is_some_and_def query_has_token_def raw_tokens_def
          List.map_filter_def strip_prefix_def starts_with_def)
    finally show ?thesis
      using raw middleware_any_cookie [of s now h None] authenticate_extracted [of s now h None] by blast
  qed
  assume e: "extract (''token='' @ e) = Some (Some (as_token s)) \<and> e \<noteq> as_token s \<and> CHR ''&'' \<notin> set e"
  then show "ws_handler extract s now None (Some (''token='' @ e)) = Some QueryToken"
    by (simp add: ws_handler_def authenticate_ws_def)
  show "\<not> validate_ws_auth s now None (Some (''token='' @ e))"
    using e raw_tokens_pair [of e] by (auto simp: validate_ws_auth_def extract_cookie_def query_has_token_def)
qed

text \<open>A decoder for the witness, which knows one encoded query.\<close>

definition small_decoder :: "string \<Rightarrow> string option option" where
  "small_decoder query =
     (if query = ''token=%61'' then Some (Some ''a'')
      else case raw_tokens query of [] \<Rightarrow> Some None | [t] \<Rightarrow> Some (Some t) | _ \<Rightarrow> None)"

lemma small_decoder_decodes: "decodes_query small_decoder"
proof -
  have "raw_tokens ''token=%61'' = [''%61'']" "\<not> plain_query ''token=%61''" by code_simp+
  then show ?thesis by (auto simp: decodes_query_def small_decoder_def split: list.split)
qed

theorem checks_agree_witness:
  "ws_handler small_decoder (wb_app (web_init ''a'')) 1 None (Some ''token=a'') \<noteq> None
   \<and> ws_handler small_decoder (wb_app (web_init ''a'')) 1 None (Some ''token=b&token=a'') = None
   \<and> validate_ws_auth (wb_app (web_init ''a'')) 1 None (Some ''token=b&token=a'')
   \<and> ws_handler small_decoder (wb_app (web_init ''a'')) 1 None (Some ''token=%61'') = Some QueryToken
   \<and> \<not> validate_ws_auth (wb_app (web_init ''a'')) 1 None (Some ''token=%61'')"
proof -
  let ?s = "wb_app (web_init ''a'')"
  have t: "raw_tokens ''token=a'' = [''a'']" "raw_tokens ''token=b&token=a'' = [''b'', ''a'']"
    "plain_query ''token=a''" "small_decoder ''token=%61'' = Some (Some ''a'')" by code_simp+
  have "as_token ?s = ''a''" by (simp add: web_init_def)
  then have q: "query_has_token ?s ''token=a''" "query_has_token ?s ''token=b&token=a''"
    using t by (simp_all add: query_has_token_def)
  note agree = checks_agree [OF small_decoder_decodes, of ?s 1 None None]
  show ?thesis
    using agree [of "Some ''token=a''" "''%61''"] agree [of "Some ''token=b&token=a''" "''%61''"] t q
    by (simp add: web_init_def is_some_and_def)
qed

section \<open>Histories\<close>

definition is_rotation :: "web_op \<Rightarrow> bool" where
  "is_rotation op \<longleftrightarrow> (\<exists>t. op = RotateToken t)"

definition rotations :: "web_op list \<Rightarrow> nat" where
  "rotations ops = length (filter is_rotation ops)"

lemma rotations_simps [simp]:
  "rotations [] = 0" "rotations (xs @ ys) = rotations xs + rotations ys"
  "rotations (op # ops) = (if is_rotation op then 1 else 0) + rotations ops"
  by (simp_all add: rotations_def)

lemma rotations_le: "rotations ops \<le> length ops"
  by (simp add: rotations_def)

text \<open>A login whose token was right when it was checked, and a session that goes back to one.\<close>

definition checked :: "web \<Rightarrow> web_op list \<Rightarrow> string \<Rightarrow> bool" where
  "checked w0 ops sid \<longleftrightarrow>
     (\<exists>pre post. ops = pre @ LoginCheck sid (as_token (wb_app (web_run pre w0))) # post)"

definition issued :: "web \<Rightarrow> web_op list \<Rightarrow> string \<Rightarrow> SessionEntry \<Rightarrow> bool" where
  "issued w0 ops sid e \<longleftrightarrow>
     (\<exists>pre t post. ops = pre @ LoginIssue sid t # post \<and> checked w0 pre sid
        \<and> se_expires_at e = t + seconds SESSION_TTL_SECS \<and> se_token_version e = of_nat (rotations pre))"

lemma checked_snoc: "checked w0 ops sid \<Longrightarrow> checked w0 (ops @ [op]) sid"
  unfolding checked_def by (metis append_Cons append_assoc)

lemma issued_snoc: "issued w0 ops sid e \<Longrightarrow> issued w0 (ops @ [op]) sid e"
  unfolding issued_def by (metis append_Cons append_assoc)

lemma middleware_sessions:
  "as_http_sessions (snd (session_cookie_middleware s now h)) sid = Some e \<Longrightarrow> as_http_sessions s sid = Some e"
  "as_token (snd (session_cookie_middleware s now h)) = as_token s"
  "as_token_version (snd (session_cookie_middleware s now h)) = as_token_version s"
  by (auto simp: session_cookie_middleware_def split: option.splits if_splits)

lemma u64_of_nat_inj:
  assumes "(of_nat m :: u64) = of_nat n" "m < 2 ^ 64" "n < 2 ^ 64"
  shows "m = n"
proof -
  have "unat (of_nat m :: u64) = unat (of_nat n :: u64)" using assms(1) by simp
  then show ?thesis using assms(2,3) by (simp add: unat_of_nat del: of_nat_eq_iff)
qed

lemma connection_step:
  assumes "\<And>sid t. op \<noteq> LoginCheck sid t" "\<And>sid t. op \<noteq> LoginIssue sid t"
    "\<And>h t. op \<noteq> PageRequest h t" "\<And>t. op \<noteq> RotateToken t"
  shows "wb_app (web_step op w) = wb_app w \<and> wb_logins (web_step op w) = wb_logins w"
  using assms by (cases op) (auto split: option.split)

lemma history:
  fixes token :: string and ops :: "web_op list"
  defines "w0 \<equiv> web_init token"
  shows "as_token_version (wb_app (web_run ops w0)) = of_nat (rotations ops)
    \<and> (\<forall>sid\<in>wb_logins (web_run ops w0). checked w0 ops sid)
    \<and> (\<forall>sid e. as_http_sessions (wb_app (web_run ops w0)) sid = Some e \<longrightarrow> issued w0 ops sid e)"
proof (induction ops rule: rev_induct)
  case Nil
  then show ?case by (simp add: w0_def web_init_def)
next
  case (snoc op ops)
  let ?w = "web_run ops w0"
  have v: "as_token_version (wb_app ?w) = of_nat (rotations ops)" using snoc by blast
  have l: "checked w0 (ops @ [op]) sid" if "sid \<in> wb_logins ?w" for sid
    using snoc that checked_snoc by blast
  have i: "issued w0 (ops @ [op]) sid e" if "as_http_sessions (wb_app ?w) sid = Some e" for sid e
    using snoc that issued_snoc by blast
  show ?case
  proof (cases op)
    case (LoginCheck sid t)
    have "checked w0 (ops @ [op]) sid" if "token_ok (wb_app ?w) t"
      using that LoginCheck unfolding checked_def token_ok_def by blast
    then show ?thesis using LoginCheck v l i by (auto simp: is_rotation_def)
  next
    case (LoginIssue sid t)
    have "issued w0 (ops @ [op]) sid
        \<lparr> se_id = sid, se_issued_at = t, se_expires_at = t + seconds SESSION_TTL_SECS,
          se_token_version = as_token_version (wb_app ?w) \<rparr>" if "sid \<in> wb_logins ?w"
    proof -
      have "checked w0 ops sid" using snoc that by blast
      then show ?thesis using LoginIssue v unfolding issued_def
        by (intro exI [of _ ops] exI [of _ t] exI [of _ "[]"]) simp
    qed
    then show ?thesis using LoginIssue v l i
      by (auto simp: create_session_cookie_def is_rotation_def)
  next
    case (PageRequest h t)
    then show ?thesis using v l i
      by (auto simp: is_rotation_def middleware_sessions(2,3) dest: middleware_sessions(1))
  next
    case (RotateToken t)
    then show ?thesis using v l i by (auto simp: rotate_def is_rotation_def)
  next
    case (WsAuthenticate c h q t)
    then have "wb_app (web_step op ?w) = wb_app ?w \<and> wb_logins (web_step op ?w) = wb_logins ?w" "\<not> is_rotation op"
      using connection_step [of op ?w] by (simp_all add: is_rotation_def)
    then show ?thesis using v l i by simp
  next
    case (WsOpen c)
    then have "wb_app (web_step op ?w) = wb_app ?w \<and> wb_logins (web_step op ?w) = wb_logins ?w" "\<not> is_rotation op"
      using connection_step [of op ?w] by (simp_all add: is_rotation_def)
    then show ?thesis using v l i by simp
  next
    case (WsVersion c)
    then have "wb_app (web_step op ?w) = wb_app ?w \<and> wb_logins (web_step op ?w) = wb_logins ?w" "\<not> is_rotation op"
      using connection_step [of op ?w] by (simp_all add: is_rotation_def)
    then show ?thesis using v l i by simp
  next
    case (WsSubscribe c)
    then have "wb_app (web_step op ?w) = wb_app ?w \<and> wb_logins (web_step op ?w) = wb_logins ?w" "\<not> is_rotation op"
      using connection_step [of op ?w] by (simp_all add: is_rotation_def)
    then show ?thesis using v l i by simp
  next
    case (WsShutdown c)
    then have "wb_app (web_step op ?w) = wb_app ?w \<and> wb_logins (web_step op ?w) = wb_logins ?w" "\<not> is_rotation op"
      using connection_step [of op ?w] by (simp_all add: is_rotation_def)
    then show ?thesis using v l i by simp
  next
    case (WsTick c t)
    then have "wb_app (web_step op ?w) = wb_app ?w \<and> wb_logins (web_step op ?w) = wb_logins ?w" "\<not> is_rotation op"
      using connection_step [of op ?w] by (simp_all add: is_rotation_def)
    then show ?thesis using v l i by simp
  next
    case (WsCommand c m)
    then have "wb_app (web_step op ?w) = wb_app ?w \<and> wb_logins (web_step op ?w) = wb_logins ?w" "\<not> is_rotation op"
      using connection_step [of op ?w] by (simp_all add: is_rotation_def)
    then show ?thesis using v l i by simp
  next
    case (WsGone c)
    then have "wb_app (web_step op ?w) = wb_app ?w \<and> wb_logins (web_step op ?w) = wb_logins ?w" "\<not> is_rotation op"
      using connection_step [of op ?w] by (simp_all add: is_rotation_def)
    then show ?thesis using v l i by simp
qed
qed

text \<open>
  The two steps of a login are the two handlers: what the second one does to the state is what the
  handler does that checked its token in the first.
\<close>

lemma login_steps:
  assumes "sid \<notin> wb_logins w" "sid \<in> wb_logins (web_step (LoginCheck sid token) w)" "sid \<in> wb_logins w'"
  shows "wb_app (web_step (LoginIssue sid now) w')
      = snd (auth_handler (wb_app w) token sid now (wb_app w'))
    \<and> wb_app (web_step (LoginIssue sid now) w')
      = snd (login_page (wb_app w) (Some token) sid now (wb_app w'))"
  using assms by (auto simp: auth_handler_def login_page_def opt_filter_def split: if_splits prod.split)

text \<open>
  C34: a cookie lets in only after a login.  In any history of the server, a session that is valid
  was issued to a login whose token was right when it was checked, less than 24 hours before, and
  the token has not been changed since the session was issued.
\<close>

theorem session_gate:
  assumes "session_valid (wb_app (web_run ops (web_init token))) now sid" "length ops < 2 ^ 64"
  shows "\<exists>pre t post. ops = pre @ LoginIssue sid t # post \<and> checked (web_init token) pre sid
    \<and> now < t + seconds SESSION_TTL_SECS \<and> rotations post = 0"
proof -
  let ?w = "web_run ops (web_init token)"
  obtain e where e: "as_http_sessions (wb_app ?w) sid = Some e" "now < se_expires_at e"
    "se_token_version e = as_token_version (wb_app ?w)"
    using assms(1) by (auto simp: session_valid_iff entry_valid_def)
  then have h: "issued (web_init token) ops sid e" "as_token_version (wb_app ?w) = of_nat (rotations ops)"
    using history [of ops token] by blast+
  then obtain pre t post where p: "ops = pre @ LoginIssue sid t # post" "checked (web_init token) pre sid"
    "se_expires_at e = t + seconds SESSION_TTL_SECS" "se_token_version e = of_nat (rotations pre)"
    unfolding issued_def by blast
  have "of_nat (rotations pre) = (of_nat (rotations ops) :: u64)" using p(4) e(3) h(2) by simp
  moreover have "rotations ops < 2 ^ 64" "rotations pre < 2 ^ 64"
    using rotations_le [of ops] rotations_le [of pre] assms(2) p(1) by auto
  ultimately have "rotations pre = rotations ops"
    using u64_of_nat_inj [of "rotations pre" "rotations ops"] by blast
  then have "rotations post = 0" unfolding p(1) by simp
  then show ?thesis using p(1,2,3) e(2) by auto
qed

theorem session_gate_witness:
  "\<exists>pre t post. [LoginCheck ''i'' ''t'', LoginIssue ''i'' 5] = pre @ LoginIssue ''i'' t # post
     \<and> checked (web_init ''t'') pre ''i'' \<and> 6 < t + seconds SESSION_TTL_SECS \<and> rotations post = 0"
  by (rule session_gate)
    (simp_all add: session_valid_def entry_valid_def web_init_def token_ok_def create_session_cookie_def
      SESSION_TTL_SECS_def seconds_def)

text \<open>What an operation that does not know the new token looks like.\<close>

fun without_key :: "string \<Rightarrow> web_op \<Rightarrow> bool" where
  "without_key key (LoginCheck sid t) \<longleftrightarrow> t \<noteq> key"
| "without_key key (WsAuthenticate c h q now) \<longleftrightarrow> q \<noteq> Some key"
| "without_key key (RotateToken t) \<longleftrightarrow> False"
| "without_key key op \<longleftrightarrow> True"

definition watching :: "web \<Rightarrow> nat \<Rightarrow> bool" where
  "watching w c \<longleftrightarrow> (\<exists>x v told. wb_conns w c = Some x \<and> wc_heartbeat x = HbWatching v told)"

definition close_sent :: "web \<Rightarrow> nat \<Rightarrow> bool" where
  "close_sent w c \<longleftrightarrow> (\<exists>x reason. wb_conns w c = Some x \<and> wc_heartbeat x = HbEnded reason)"

definition hb_version :: "heartbeat_task \<Rightarrow> u64 option" where
  "hb_version hb = (case hb of HbLoaded v \<Rightarrow> Some v | HbWatching v told \<Rightarrow> Some v | _ \<Rightarrow> None)"

text \<open>
  A heartbeat that will close its connection: its version is an old one, and the message waits for it
  when it was subscribed.
\<close>

definition doomed :: "u64 \<Rightarrow> bool \<Rightarrow> heartbeat_task \<Rightarrow> bool" where
  "doomed current notified hb \<longleftrightarrow>
     (case hb of
        HbNew \<Rightarrow> False
      | HbLoaded v \<Rightarrow> v \<noteq> current \<and> \<not> notified
      | HbWatching v told \<Rightarrow> v \<noteq> current \<and> (notified \<longrightarrow> told)
      | HbEnded reason \<Rightarrow> True)"

lemma doomed_simps [simp]:
  "\<not> doomed current notified HbNew"
  "doomed current notified (HbLoaded v) \<longleftrightarrow> v \<noteq> current \<and> \<not> notified"
  "doomed current notified (HbWatching v told) \<longleftrightarrow> v \<noteq> current \<and> (notified \<longrightarrow> told)"
  "doomed current notified (HbEnded reason)"
  by (simp_all add: doomed_def)

lemma doomed_step:
  assumes "doomed current notified hb"
  shows "doomed current notified (heartbeat_load s hb)" "doomed current notified (heartbeat_subscribe hb)"
    "doomed current notified (shutdown_received hb)" "doomed current notified (heartbeat_tick s now subject hb)"
  using assms
  by (auto simp: doomed_def heartbeat_load_def heartbeat_subscribe_def shutdown_received_def
      heartbeat_tick_def split: heartbeat_task.splits option.split)

definition locked_out :: "string \<Rightarrow> nat set \<Rightarrow> web \<Rightarrow> bool" where
  "locked_out key notified w \<longleftrightarrow>
     as_token (wb_app w) = key \<and> wb_logins w = {} \<and> wb_upgrades w = Map.empty
     \<and> (\<forall>sid e. as_http_sessions (wb_app w) sid = Some e \<longrightarrow> se_token_version e \<noteq> as_token_version (wb_app w))
     \<and> (\<forall>c x. wb_conns w c = Some x \<longrightarrow>
          doomed (as_token_version (wb_app w)) (c \<in> notified) (wc_heartbeat x))"

lemma locked_out_invalid: "locked_out key N w \<Longrightarrow> \<not> session_valid (wb_app w) now sid"
  by (auto simp: locked_out_def session_valid_iff entry_valid_def)

lemma locked_out_step:
  assumes "locked_out key N w" "without_key key op"
  shows "locked_out key N (web_step op w)"
proof (cases op)
  case (LoginCheck sid t)
  then show ?thesis using assms by (simp add: locked_out_def token_ok_def)
next
  case (LoginIssue sid t)
  then show ?thesis using assms by (simp add: locked_out_def)
next
  case (PageRequest h t)
  then show ?thesis using assms
    by (auto simp: locked_out_def middleware_sessions(2,3) dest: middleware_sessions(1))
next
  case (WsAuthenticate c h q t)
  then have "authenticate_ws (wb_app w) t h q = None"
    using ws.rejects [where s = "wb_app w" and now = t and q = q and h = h] locked_out_invalid [OF assms(1)] assms
    by (auto simp: locked_out_def)
  then show ?thesis using WsAuthenticate assms by simp
next
  case (WsVersion c)
  then show ?thesis using assms
    by (auto simp: locked_out_def on_heartbeat_conns doomed_step split: if_splits)
next
  case (WsSubscribe c)
  then show ?thesis using assms
    by (auto simp: locked_out_def on_heartbeat_conns doomed_step split: if_splits)
next
  case (WsShutdown c)
  then show ?thesis using assms
    by (auto simp: locked_out_def on_heartbeat_conns doomed_step split: if_splits)
next
  case (WsTick c t)
  then show ?thesis using assms
    by (auto simp: locked_out_def on_heartbeat_conns doomed_step split: if_splits)
qed (use assms in \<open>auto simp: locked_out_def split: if_splits\<close>)

lemma locked_out_authenticate:
  "locked_out key N w \<Longrightarrow> q \<noteq> Some key \<Longrightarrow> authenticate_ws (wb_app w) now h q = None"
  using ws.rejects [where s = "wb_app w" and now = now and q = q and h = h] locked_out_invalid
  by (auto simp: locked_out_def)

lemma locked_out_conns:
  assumes "locked_out key N w" "without_key key op"
  shows "(wb_conns (web_step op w) c = None) = (wb_conns w c = None \<or> op = WsGone c)"
proof (cases op)
  case (WsAuthenticate d h q t)
  then have "authenticate_ws (wb_app w) t h q = None"
    using locked_out_authenticate [OF assms(1)] assms(2) by simp
  then show ?thesis using WsAuthenticate by simp
qed (use assms in \<open>auto simp: locked_out_def on_heartbeat_conns\<close>)

lemma locked_out_run:
  "locked_out key N w \<Longrightarrow> list_all (without_key key) ops \<Longrightarrow> locked_out key N (web_run ops w)"
  by (induction ops arbitrary: w) (auto intro: locked_out_step)

lemma locked_out_run_conns:
  "locked_out key N w \<Longrightarrow> list_all (without_key key) ops
    \<Longrightarrow> (wb_conns (web_run ops w) c = None) = (wb_conns w c = None \<or> WsGone c \<in> set ops)"
proof (induction ops arbitrary: w)
  case (Cons op ops)
  then show ?case using Cons.IH [of "web_step op w"] locked_out_step locked_out_conns by auto
qed simp

lemma hb_version_step:
  "hb_version (heartbeat_load s hb) = Some v \<Longrightarrow> hb_version hb = Some v \<or> v = as_token_version s"
  "hb_version (heartbeat_subscribe hb) = hb_version hb"
  "hb_version (shutdown_sent hb) = hb_version hb"
  "hb_version (shutdown_received hb) = Some v \<Longrightarrow> hb_version hb = Some v"
  "hb_version (heartbeat_tick s now subject hb) = Some v \<Longrightarrow> hb_version hb = Some v"
  by (auto simp: hb_version_def heartbeat_load_def heartbeat_subscribe_def shutdown_sent_def
      shutdown_received_def heartbeat_tick_def split: heartbeat_task.splits if_splits option.splits)

lemma hb_version_new: "hb_version HbNew = None"
  by (simp add: hb_version_def)

lemma web_step_versions:
  assumes "wb_conns (web_step op w) c = Some x" "hb_version (wc_heartbeat x) = Some v"
  shows "(\<exists>y. wb_conns w c = Some y \<and> hb_version (wc_heartbeat y) = Some v) \<or> v = as_token_version (wb_app w)"
  using assms
  by (cases op)
    (auto simp: on_heartbeat_conns regenerate_web_server_token_def conn_open_def hb_version_step(2,3)
      hb_version_new dest: hb_version_step(1,4,5) split: if_splits option.splits)

lemma heartbeat_versions:
  assumes "wb_conns (web_run ops (web_init token)) c = Some x" "hb_version (wc_heartbeat x) = Some v"
  shows "\<exists>n \<le> rotations ops. v = of_nat n"
  using assms
proof (induction ops arbitrary: x v rule: rev_induct)
  case Nil
  then show ?case by (simp add: web_init_def)
next
  case (snoc op ops)
  let ?w = "web_run ops (web_init token)"
  have now: "as_token_version (wb_app ?w) = of_nat (rotations ops)" using history [of ops token] by blast
  have "(\<exists>y. wb_conns ?w c = Some y \<and> hb_version (wc_heartbeat y) = Some v)
      \<or> v = as_token_version (wb_app ?w)"
    using web_step_versions [of op ?w c x v] snoc.prems by simp
  then show ?case
  proof
    assume "\<exists>y. wb_conns ?w c = Some y \<and> hb_version (wc_heartbeat y) = Some v"
    then obtain n where "n \<le> rotations ops" "v = of_nat n" using snoc.IH by blast
    then show ?thesis by (intro exI [of _ n]) simp
  next
    assume "v = as_token_version (wb_app ?w)"
    then show ?thesis using now by (intro exI [of _ "rotations ops"]) simp
  qed
qed

text \<open>What the heartbeats do in a locked out server, and that the messages are read all the same.\<close>

lemma doomed_ends:
  assumes "doomed (as_token_version s) notified hb"
  shows "\<exists>reason. heartbeat_tick s now subject (heartbeat_subscribe hb) = HbEnded reason"
    "notified \<Longrightarrow> \<exists>reason. shutdown_received hb = HbEnded reason"
  using assms
  by (auto simp: doomed_def heartbeat_subscribe_def heartbeat_tick_def heartbeat_def shutdown_received_def
      split: heartbeat_task.splits)

lemma doomed_closes:
  assumes "locked_out key N w" "wb_conns w c \<noteq> None"
  shows "close_sent (web_run [WsSubscribe c, WsTick c now] w) c"
    "c \<in> N \<Longrightarrow> close_sent (web_step (WsShutdown c) w) c"
proof -
  obtain x where x: "wb_conns w c = Some x" using assms(2) by blast
  then have d: "doomed (as_token_version (wb_app w)) (c \<in> N) (wc_heartbeat x)"
    using assms(1) by (simp add: locked_out_def)
  show "close_sent (web_run [WsSubscribe c, WsTick c now] w) c"
    using doomed_ends(1) [OF d, of now "wc_subject x"] x by (simp add: close_sent_def on_heartbeat_conns)
  show "close_sent (web_step (WsShutdown c) w) c" if "c \<in> N"
    using doomed_ends(2) [OF d that] x by (simp add: close_sent_def on_heartbeat_conns)
qed

lemma rotation_locks_out:
  fixes ops :: "web_op list" and token new :: string
  defines "w \<equiv> web_run ops (web_init token)"
  assumes "wb_logins w = {}" "wb_upgrades w = Map.empty" "length ops + 1 < 2 ^ 64"
    and started: "\<And>c x. wb_conns w c = Some x \<Longrightarrow> wc_heartbeat x \<noteq> HbNew"
  shows "locked_out new {c. watching w c} (web_step (RotateToken new) w)"
proof -
  let ?r = "web_step (RotateToken new) w"
  have version: "as_token_version (wb_app ?r) = of_nat (Suc (rotations ops))"
    using history [of ops token] by (simp add: w_def rotate_def)
  have old: "of_nat n \<noteq> as_token_version (wb_app ?r)" if "n \<le> rotations ops" for n
    using u64_of_nat_inj [of n "Suc (rotations ops)"] rotations_le [of ops] assms(4) that
    unfolding version by auto
  have "se_token_version e \<noteq> as_token_version (wb_app ?r)"
    if "as_http_sessions (wb_app ?r) sid = Some e" for sid e
  proof -
    have "issued (web_init token) ops sid e" using history [of ops token] that by (auto simp: w_def rotate_def)
    then obtain pre where "se_token_version e = of_nat (rotations pre)" "rotations pre \<le> rotations ops"
      unfolding issued_def by auto
    then show ?thesis using old by simp
  qed
  moreover have "doomed (as_token_version (wb_app ?r)) (watching w c) (wc_heartbeat x)"
    if conn: "wb_conns ?r c = Some x" for c x
  proof -
    obtain y where y: "wb_conns w c = Some y" "wc_heartbeat x = shutdown_sent (wc_heartbeat y)"
      using conn by (auto simp: regenerate_web_server_token_def)
    have "v \<noteq> as_token_version (wb_app ?r)" if "hb_version (wc_heartbeat y) = Some v" for v
      using heartbeat_versions [of ops token c y v] y(1) that old by (auto simp: w_def)
    then show ?thesis using y started [OF y(1)]
      by (cases "wc_heartbeat y") (auto simp: watching_def shutdown_sent_def hb_version_def)
  qed
  ultimately show ?thesis using assms(2,3) by (auto simp: locked_out_def rotate_def)
qed

text \<open>
  C35: what a new token revokes, and what it does not.  When no login, no upgrade and no heartbeat is
  half-way, then until somebody presents the new token no cookie is valid, no check passes that is
  not given the new token, every page request goes to the login page, and there is no new connection.
  Every connection that is left gets its Close frame at the next interval of its heartbeat at the
  latest, one whose heartbeat was subscribed also when it reads its channel.  But the messages of
  such a connection are still dispatched, before and after the Close frame, until the client goes.
\<close>

theorem rotation_revokes:
  fixes ops ops' :: "web_op list" and token new :: string
  defines "w \<equiv> web_run ops (web_init token)"
  defines "w' \<equiv> web_run ops' (web_step (RotateToken new) w)"
  assumes "wb_logins w = {}" "wb_upgrades w = Map.empty" "length ops + 1 < 2 ^ 64"
    and started: "\<And>c x. wb_conns w c = Some x \<Longrightarrow> wc_heartbeat x \<noteq> HbNew"
    and "list_all (without_key new) ops'"
  shows "\<not> session_valid (wb_app w') now sid
    \<and> (q \<noteq> Some new \<longrightarrow> authenticate_ws (wb_app w') now h q = None
        \<and> \<not> validate_ws_auth_extracted (wb_app w') now h q)
    \<and> (new \<notin> set (raw_tokens query) \<longrightarrow> \<not> validate_ws_auth (wb_app w') now h (Some query))
    \<and> fst (session_cookie_middleware (wb_app w') now h) = RedirectToLogin
    \<and> (wb_conns w' c = None) = (wb_conns w c = None \<or> WsGone c \<in> set ops')
    \<and> (wb_conns w' c \<noteq> None \<longrightarrow> close_sent (web_run [WsSubscribe c, WsTick c now] w') c
        \<and> (watching w c \<longrightarrow> close_sent (web_step (WsShutdown c) w') c))
    \<and> wb_dispatched (web_step (WsCommand c message) w')
      = wb_dispatched w'
        @ (if wb_conns w c \<noteq> None \<and> WsGone c \<notin> set ops' then [(c, message)] else [])"
proof -
  have r: "locked_out new {c. watching w c} (web_step (RotateToken new) w)"
    unfolding w_def by (rule rotation_locks_out) (use assms in \<open>simp_all add: w_def\<close>)
  then have l: "locked_out new {c. watching w c} w'" unfolding w'_def using assms(7) by (rule locked_out_run)
  have iv: "\<not> session_valid (wb_app w') now sid" for sid by (rule locked_out_invalid [OF l])
  have token: "as_token (wb_app w') = new" using l by (simp add: locked_out_def)
  have out: "authenticate_ws (wb_app w') now h q = None" if "q \<noteq> Some new" for q
    using locked_out_authenticate [OF l that] .
  have page: "fst (session_cookie_middleware (wb_app w') now h) = RedirectToLogin"
    using page.rejects [where s = "wb_app w'" and now = now and h = h] iv by (metis gate.exhaust)
  have conns: "(wb_conns w' c = None) = (wb_conns w c = None \<or> WsGone c \<in> set ops')"
    using locked_out_run_conns [OF r assms(7)] unfolding w'_def [symmetric]
    by (simp add: regenerate_web_server_token_def)
  have raw: "\<not> validate_ws_auth (wb_app w') now h (Some query)" if "new \<notin> set (raw_tokens query)"
    using request.rejects [where s = "wb_app w'" and now = now and h = h and q = "Some query"] iv that token
    by (auto simp: query_has_token_def)
  show ?thesis
    using iv out authenticate_extracted [of "wb_app w'" now h q] raw page conns
      doomed_closes(1) [OF l, of c now] doomed_closes(2) [OF l, of c] by auto
qed

theorem rotation_revokes_witness:
  "let ops = [LoginCheck ''i'' ''a'', LoginIssue ''i'' 0, WsAuthenticate 1 None (Some ''a'') 0,
              WsOpen 1, WsVersion 1, WsSubscribe 1];
       w = web_run [WsShutdown 1, LoginCheck ''j'' ''a''] (web_step (RotateToken ''b'') (web_run ops (web_init ''a'')))
   in authenticate_ws (wb_app w) 1 (Some ''session=i'') (Some ''a'') = None
      \<and> wb_dispatched (web_step (WsCommand 1 ''m'') w) = [(1, ''m'')]"
proof -
  define ops where "ops = [LoginCheck ''i'' ''a'', LoginIssue ''i'' 0, WsAuthenticate 1 None (Some ''a'') 0,
    WsOpen 1, WsVersion 1, WsSubscribe 1]"
  let ?w = "web_run ops (web_init ''a'')"
  have h: "wb_logins ?w = {}" "wb_upgrades ?w = Map.empty" "length ops + 1 < 2 ^ 64"
    "wb_conns ?w = [1 \<mapsto> \<lparr> wc_subject = QueryToken, wc_heartbeat = HbWatching 0 False \<rparr>]"
    by (simp_all add: ops_def web_init_def token_ok_def authenticate_ws_def conn_open_def on_heartbeat_def
        create_session_cookie_def heartbeat_load_def heartbeat_subscribe_def fun_eq_iff)
  have started: "wc_heartbeat x \<noteq> HbNew" if "wb_conns ?w c = Some x" for c x
    using that h(4) by (auto split: if_splits)
  have d: "wb_dispatched (web_run [WsShutdown 1, LoginCheck ''j'' ''a''] (web_step (RotateToken ''b'') ?w)) = []"
    by (simp add: ops_def web_init_def token_ok_def rotate_def authenticate_ws_def)
  from rotation_revokes [OF h(1,2,3) started, where new = "''b''" and ops' = "[WsShutdown 1, LoginCheck ''j'' ''a'']"
      and now = 1 and q = "Some ''a''" and h = "Some ''session=i''" and c = 1 and message = "''m''"]
  show ?thesis using d h(4) unfolding ops_def [symmetric] Let_def by simp
qed

text \<open>
  What rotation misses.  A login that has passed the check when the token changes still gets a
  session, one of the new version, which is valid for its 24 hours; a connection that has been
  authenticated but not started is not told of the rotation and is never closed by its heartbeat.
  Both entered with the old token.
\<close>

theorem rotation_race:
  "session_valid
     (wb_app (web_run [LoginCheck sid old, RotateToken new, LoginIssue sid t] (web_init old))) now sid
   = (now < t + seconds SESSION_TTL_SECS)
   \<and> (\<exists>x. wb_conns (web_run [WsAuthenticate c None (Some old) t, RotateToken new, WsOpen c, WsVersion c,
              WsSubscribe c] (web_init old)) c = Some x
        \<and> shutdown_received (wc_heartbeat x) = wc_heartbeat x
        \<and> heartbeat_tick (wb_app (web_run [WsAuthenticate c None (Some old) t, RotateToken new, WsOpen c,
              WsVersion c, WsSubscribe c] (web_init old))) now (wc_subject x) (wc_heartbeat x) = wc_heartbeat x)"
  by (simp add: web_init_def token_ok_def rotate_def create_session_cookie_def session_valid_def
      entry_valid_def authenticate_ws_def conn_open_def heartbeat_def on_heartbeat_conns heartbeat_load_def
      heartbeat_subscribe_def shutdown_received_def heartbeat_tick_def regenerate_web_server_token_def)

text \<open>
  The rotation in the update of the settings is dead code: the only token that rotates is that of
  \<open>regenerate_web_server_token\<close>.  An update of the settings never changes the token of the server or
  its version, whatever the patch says, when nobody else changes the file during the call.
\<close>

theorem update_never_rotates:
  assumes "update_user_settings_with_rotation F C True io X now p f f2 s = (r, f3, s')"
    and "load_settings C True io now f = (a, f2)" "prints C a" "sx_readable X"
  shows "s' = s"
proof -
  obtain g where g: "load_settings C True (sx_load X) now f2 = (a, g)"
    using load_again [OF assms(2,3), of "sx_load X"] by (metis prod.collapse)
  have "us_web_server_token u = us_web_server_token (al_user a)"
    if upd: "update_user_settings F C X now p f2 = (Inr u, h)" for u h
  proof -
    obtain v where "patch_user F C p (al_user a) = Inr v" "u = v\<lparr>us_updated_at := now\<rparr>"
      using upd g assms(4) by (auto simp: update_user_settings_def Let_def split: sum.splits prod.splits)
    with fixed_patch show ?thesis by (fastforce simp: fixed_fields_def)
  qed
  then show ?thesis
    using assms(1,2)
    by (auto simp: update_user_settings_with_rotation_def get_user_settings_def Let_def
        split: prod.splits sum.splits if_splits)
qed

theorem update_never_rotates_witness:
  "snd (snd (update_user_settings_with_rotation zero_ops (one_codec (all_default ''t'')) True fs_ok good_io ''t''
     (JObj []) (Some ''s'') (Some ''s'') (wb_app (web_init ''a'')))) = wb_app (web_init ''a'')"
proof -
  obtain r f3 s' where r: "update_user_settings_with_rotation zero_ops (one_codec (all_default ''t'')) True
      fs_ok good_io ''t'' (JObj []) (Some ''s'') (Some ''s'') (wb_app (web_init ''a'')) = (r, f3, s')"
    by (metis surj_pair)
  from update_never_rotates [OF r one_load prints_one] r show ?thesis by simp
qed

end
