(* ===== verification/EventLog.thy ===== *)
theory EventLog
  imports CodexItems
begin

text \<open>
  The event log of a run, \<open>events.jsonl\<close> (\<open>storage/events.rs\<close>): numbering, appending, replay, the copy
  for a fork, and the aggregation of usage.  A log is the content of the file in bytes.  The JSON
  parser and printer, the serialization of a bus event and the outcome of the file operations are
  arguments.
\<close>

section \<open>Decoding bytes\<close>

text \<open>
  \<open>String::from_utf8_lossy\<close> and the check of \<open>read_to_string\<close>: the bytes are cut into valid
  characters and into maximal invalid pieces, which are replaced by U+FFFD.
\<close>

definition byte :: "char \<Rightarrow> nat" where "byte c = of_char c"

definition utf8_width :: "char \<Rightarrow> nat" where
  "utf8_width b =
     (let n = byte b in
      if n < 0x80 then 1
      else if 0xC2 \<le> n \<and> n < 0xE0 then 2
      else if 0xE0 \<le> n \<and> n < 0xF0 then 3
      else if 0xF0 \<le> n \<and> n < 0xF5 then 4 else 0)"

definition second_ok :: "char \<Rightarrow> char \<Rightarrow> bool" where
  "second_ok b c \<longleftrightarrow>
     (let n = byte b; m = byte c;
          lo = (if n = 0xE0 then 0xA0 else if n = 0xF0 then 0x90 else 0x80);
          hi = (if n = 0xED then 0xA0 else if n = 0xF4 then 0x90 else 0xC0)
      in lo \<le> m \<and> m < hi)"

definition utf8_chunk :: "char \<Rightarrow> string \<Rightarrow> bool \<times> nat" where
  "utf8_chunk b bs =
     (let w = utf8_width b in
      if w = 0 then (False, 1)
      else if w = 1 then (True, 1)
      else (case bs of
              [] \<Rightarrow> (False, 1)
            | c # cs \<Rightarrow>
                if \<not> second_ok b c then (False, 1)
                else (let k = 2 + length (takeWhile is_cont (take (w - 2) cs)) in (k = w, k))))"

lemma utf8_chunk_bounds:
  assumes "utf8_chunk b bs = (v, k)"
  shows "0 < k" "k \<le> Suc (length bs)"
proof -
  have "length (takeWhile is_cont (take n cs)) \<le> length cs" for n and cs :: string
    using length_takeWhile_le [of is_cont "take n cs"] by simp
  with assms show "0 < k" "k \<le> Suc (length bs)"
    by (auto simp: utf8_chunk_def Let_def split: if_splits list.splits)
qed

function utf8_chunks :: "string \<Rightarrow> (bool \<times> string) list" where
  "utf8_chunks [] = []"
| "utf8_chunks (b # bs) =
     (case utf8_chunk b bs of
        (v, k) \<Rightarrow> (v, take k (b # bs)) # utf8_chunks (drop k (b # bs)))"
  by pat_completeness auto
termination
  by (relation "measure length") (auto dest: utf8_chunk_bounds [OF sym])

definition replacement :: string where "replacement = [CHR 0xEF, CHR 0xBF, CHR 0xBD]"

definition utf8_lossy :: "string \<Rightarrow> string" where
  "utf8_lossy s = concat (map (\<lambda>(v, bs). if v then bs else replacement) (utf8_chunks s))"

definition utf8_valid :: "string \<Rightarrow> bool" where
  "utf8_valid s \<longleftrightarrow> list_all fst (utf8_chunks s)"

section \<open>Sequence numbers\<close>

text \<open>Whether the metadata, the tail and the whole of the file can be read.\<close>

record log_io =
  li_meta :: bool
  li_tail :: bool
  li_read :: bool

definition io_good :: log_io where
  "io_good = \<lparr> li_meta = True, li_tail = True, li_read = True \<rparr>"

type_synonym logs = "string \<Rightarrow> string option"

definition line_seqs :: "(string \<Rightarrow> json option) \<Rightarrow> string \<Rightarrow> u64 list" where
  "line_seqs parse content =
     List.map_filter
       (\<lambda>l. if str_trim l = [] then None
            else Option.bind (parse l) (\<lambda>v. get_u64 v ''seq''))
       (str_lines content)"

definition scan_max_seq :: "(string \<Rightarrow> json option) \<Rightarrow> string \<Rightarrow> u64 option" where
  "scan_max_seq parse content =
     (case line_seqs parse content of [] \<Rightarrow> None | s # ss \<Rightarrow> Some (foldl max s ss))"

text \<open>\<open>split_once('\n')\<close>, the part after the first newline.\<close>

definition after_newline :: "string \<Rightarrow> string option" where
  "after_newline s =
     (case dropWhile (\<lambda>c. c \<noteq> CHR 0x0A) s of [] \<Rightarrow> None | c # cs \<Rightarrow> Some cs)"

definition TAIL :: nat where "TAIL = 4096"

definition max_seq_in_tail :: "(string \<Rightarrow> json option) \<Rightarrow> log_io \<Rightarrow> string \<Rightarrow> u64 option" where
  "max_seq_in_tail parse io content =
     (if \<not> li_tail io then None
      else if TAIL < length content then
        scan_max_seq parse
          (unwrap_or (after_newline (utf8_lossy (drop (length content - TAIL) content))) [])
      else scan_max_seq parse (utf8_lossy content))"

definition next_seq :: "(string \<Rightarrow> json option) \<Rightarrow> log_io \<Rightarrow> logs \<Rightarrow> string \<Rightarrow> u64" where
  "next_seq parse io files run_id =
     (case (if li_meta io then files run_id else None) of
        None \<Rightarrow> 1
      | Some content \<Rightarrow>
          if content = [] then 1
          else (case max_seq_in_tail parse io content of
                  Some m \<Rightarrow> m + 1
                | None \<Rightarrow>
                    if li_read io \<and> utf8_valid content then
                      (case scan_max_seq parse content of Some m \<Rightarrow> m + 1 | None \<Rightarrow> 1)
                    else 1))"

section \<open>Writing\<close>

text \<open>
  The writer keeps the next number of each run it has written to.  The lock of a run makes the
  allocation and the write one step; \<open>held\<close> are the runs whose lock another thread holds, which the
  clean-up of the table spares.
\<close>

type_synonym event_writer = "(string \<times> u64) list"

definition run_seq ::
  "(string \<Rightarrow> json option) \<Rightarrow> log_io \<Rightarrow> string set \<Rightarrow> logs \<Rightarrow> string \<Rightarrow> event_writer \<Rightarrow> u64 \<times> event_writer" where
  "run_seq parse io held files run_id w =
     (let w1 = (if 50 < length w then filter (\<lambda>(r, n). r \<in> held) w else w) in
      case map_of w1 run_id of
        Some n \<Rightarrow> (n, w1)
      | None \<Rightarrow>
          (let n = next_seq parse io files run_id in (n, hm_insert run_id n w1)))"

text \<open>
  The outcomes of the write: a failure before anything is written, with its message, or one of the
  write itself, which leaves the first bytes of the line.
\<close>

datatype append_outcome = ApOk | ApFail string | ApPartial nat string

definition append_line :: "append_outcome \<Rightarrow> string \<Rightarrow> string \<Rightarrow> logs \<Rightarrow> (string + unit) \<times> logs" where
  "append_line res run_id line files =
     (let old = unwrap_or (files run_id) [] in
      case res of
        ApOk \<Rightarrow> (Inr (), files(run_id \<mapsto> old @ line @ [CHR 0x0A]))
      | ApFail e \<Rightarrow> (Inl e, files)
      | ApPartial n e \<Rightarrow> (Inl e, files(run_id \<mapsto> old @ take n (line @ [CHR 0x0A]))))"

text \<open>The common part of the three writers: \<open>mk\<close> makes the record from its number.\<close>

definition write_record ::
  "(string \<Rightarrow> json option) \<Rightarrow> (json \<Rightarrow> string) \<Rightarrow> log_io \<Rightarrow> string set \<Rightarrow> append_outcome \<Rightarrow> string
     \<Rightarrow> (u64 \<Rightarrow> json) \<Rightarrow> event_writer \<times> logs \<Rightarrow> (string + u64) \<times> event_writer \<times> logs" where
  "write_record parse shw io held res run_id mk s =
     (case s of (w, files) \<Rightarrow>
        (case run_seq parse io held files run_id w of
           (current, w1) \<Rightarrow>
             (let w2 = hm_insert run_id (current + 1) w1 in
              case append_line res run_id (shw (mk current)) files of
                (Inl e, files') \<Rightarrow> (Inl e, w2, files')
              | (Inr u, files') \<Rightarrow> (Inr current, w2, files'))))"

definition json_num :: "u64 \<Rightarrow> json" where "json_num n = JNum (JPos n)"

definition bus_envelope :: "string \<Rightarrow> json \<Rightarrow> u64 \<Rightarrow> json" where
  "bus_envelope ts event n =
     JObj [(''_bus'', JBool True), (''seq'', json_num n), (''ts'', JStr ts), (''event'', event)]"

definition write_bus_event ::
  "(string \<Rightarrow> json option) \<Rightarrow> (json \<Rightarrow> string) \<Rightarrow> (BusEvent \<Rightarrow> json) \<Rightarrow> string \<Rightarrow> log_io \<Rightarrow> string set
     \<Rightarrow> append_outcome \<Rightarrow> string \<Rightarrow> BusEvent \<Rightarrow> event_writer \<times> logs \<Rightarrow> (string + unit) \<times> event_writer \<times> logs" where
  "write_bus_event parse shw enc now io held res run_id ev s =
     (case write_record parse shw io held res run_id (bus_envelope now (enc ev)) s of
        (Inl e, s') \<Rightarrow> (Inl e, s') | (Inr n, s') \<Rightarrow> (Inr (), s'))"

definition write_bus_event_with_ts ::
  "(string \<Rightarrow> json option) \<Rightarrow> (json \<Rightarrow> string) \<Rightarrow> (BusEvent \<Rightarrow> json) \<Rightarrow> log_io \<Rightarrow> string set
     \<Rightarrow> append_outcome \<Rightarrow> string \<Rightarrow> BusEvent \<Rightarrow> string \<Rightarrow> event_writer \<times> logs
     \<Rightarrow> (string + u64) \<times> event_writer \<times> logs" where
  "write_bus_event_with_ts parse shw enc io held res run_id ev ts =
     write_record parse shw io held res run_id (bus_envelope ts (enc ev))"

record RunEvent =
  re_id :: string
  re_task_id :: string
  re_seq :: u64
  re_event_type :: RunEventType
  re_payload :: json
  re_timestamp :: string

definition run_event_json :: "RunEvent \<Rightarrow> json" where
  "run_event_json e =
     JObj [(''id'', JStr (re_id e)), (''task_id'', JStr (re_task_id e)), (''seq'', json_num (re_seq e)),
           (''type'', JStr (event_type_to_string (re_event_type e))), (''payload'', re_payload e),
           (''timestamp'', JStr (re_timestamp e))]"

definition write_run_event ::
  "(string \<Rightarrow> json option) \<Rightarrow> (json \<Rightarrow> string) \<Rightarrow> string \<Rightarrow> string \<Rightarrow> log_io \<Rightarrow> string set
     \<Rightarrow> append_outcome \<Rightarrow> string \<Rightarrow> RunEventType \<Rightarrow> json \<Rightarrow> event_writer \<times> logs
     \<Rightarrow> (string + RunEvent) \<times> event_writer \<times> logs" where
  "write_run_event parse shw uuid now io held res run_id event_type payload s =
     (let ev = (\<lambda>n. \<lparr> re_id = take 12 uuid, re_task_id = run_id, re_seq = n,
              re_event_type = event_type, re_payload = payload, re_timestamp = now \<rparr>)
      in case write_record parse shw io held res run_id (run_event_json \<circ> ev) s of
           (Inl e, s') \<Rightarrow> (Inl e, s') | (Inr n, s') \<Rightarrow> (Inr (ev n), s'))"

section \<open>Reading\<close>

text \<open>The text a reader gets: none when the file is missing or is not valid UTF-8.\<close>

definition read_log :: "log_io \<Rightarrow> logs \<Rightarrow> string \<Rightarrow> string option" where
  "read_log io files run_id =
     (if li_read io then opt_filter utf8_valid (files run_id) else None)"

text \<open>The lines that are not blank and parse.\<close>

definition log_values :: "(string \<Rightarrow> json option) \<Rightarrow> string \<Rightarrow> json list" where
  "log_values parse content =
     List.map_filter parse (filter (\<lambda>l. str_trim l \<noteq> []) (str_lines content))"

definition event_type_of_string :: "string \<Rightarrow> RunEventType option" where
  "event_type_of_string s =
     find (\<lambda>t. event_type_to_string t = s)
       [EvSystem, EvStdout, EvStderr, EvCommand, EvUser, EvAssistant]"

definition run_event_of_json :: "json \<Rightarrow> RunEvent option" where
  "run_event_of_json v =
     (case (get_str v ''id'', get_str v ''task_id'', get_u64 v ''seq'',
            Option.bind (get_str v ''type'') event_type_of_string, j_get v ''payload'',
            get_str v ''timestamp'') of
        (Some i, Some t, Some n, Some ty, Some p, Some ts) \<Rightarrow>
          Some \<lparr> re_id = i, re_task_id = t, re_seq = n, re_event_type = ty, re_payload = p,
                 re_timestamp = ts \<rparr>
      | _ \<Rightarrow> None)"

definition list_events ::
  "(string \<Rightarrow> json option) \<Rightarrow> log_io \<Rightarrow> logs \<Rightarrow> string \<Rightarrow> u64 \<Rightarrow> RunEvent list" where
  "list_events parse io files run_id since_seq =
     (case read_log io files run_id of
        None \<Rightarrow> []
      | Some content \<Rightarrow>
          filter (\<lambda>e. since_seq < re_seq e)
            (List.map_filter run_event_of_json (log_values parse content)))"

definition REPLAY_TYPES :: "string list" where
  "REPLAY_TYPES =
     [''session_init'', ''message_delta'', ''thinking_delta'', ''tool_input_delta'',
      ''message_complete'', ''user_message'', ''tool_start'', ''tool_end'', ''run_state'',
      ''usage_update'', ''permission_denied'', ''permission_prompt'', ''compact_boundary'',
      ''system_status'', ''auth_status'', ''hook_started'', ''hook_response'',
      ''control_cancelled'', ''task_notification'', ''tool_progress'', ''tool_use_summary'',
      ''command_output'', ''files_persisted'', ''hook_progress'', ''hook_callback'',
      ''elicitation_prompt'', ''rate_limit_event'', ''codex_hook_run'']"

text \<open>The serde tag of a bus event (\<open>rename_all = "snake_case"\<close>).\<close>

fun event_tag :: "BusEvent \<Rightarrow> string" where
  "event_tag (SessionInit _ _) = ''session_init''"
| "event_tag (MessageDelta _ _ _) = ''message_delta''"
| "event_tag (MessageComplete _ _ _ _ _ _ _) = ''message_complete''"
| "event_tag (ToolStart _ _ _ _ _) = ''tool_start''"
| "event_tag (ToolEnd _ _ _ _ _ _ _ _) = ''tool_end''"
| "event_tag (UserMessage _ _ _ _ _) = ''user_message''"
| "event_tag (RunState _ _ _ _) = ''run_state''"
| "event_tag (UsageUpdate _ _) = ''usage_update''"
| "event_tag (Raw _ _ _) = ''raw''"
| "event_tag (PermissionDenied _ _ _ _) = ''permission_denied''"
| "event_tag (ThinkingDelta _ _ _) = ''thinking_delta''"
| "event_tag (ToolInputDelta _ _ _ _) = ''tool_input_delta''"
| "event_tag (PermissionPrompt _ _ _ _ _ _ _ _) = ''permission_prompt''"
| "event_tag (CompactBoundary _ _ _) = ''compact_boundary''"
| "event_tag (SystemStatus _ _ _) = ''system_status''"
| "event_tag (HookStarted _ _ _ _ _) = ''hook_started''"
| "event_tag (HookProgress _ _ _) = ''hook_progress''"
| "event_tag (HookResponse _ _ _ _ _ _ _ _ _) = ''hook_response''"
| "event_tag (TaskNotification _ _ _ _) = ''task_notification''"
| "event_tag (FilesPersisted _ _ _) = ''files_persisted''"
| "event_tag (ToolProgress _ _ _ _ _) = ''tool_progress''"
| "event_tag (ToolOutputDelta _ _ _ _) = ''tool_output_delta''"
| "event_tag (GoalUpdate _ _) = ''goal_update''"
| "event_tag (CodexHookRun _ _ _ _ _ _) = ''codex_hook_run''"
| "event_tag (CodexMcpStatus _ _ _ _) = ''codex_mcp_status''"
| "event_tag (CodexTurnDiff _ _ _) = ''codex_turn_diff''"
| "event_tag (ToolUseSummary _ _ _ _ _ _) = ''tool_use_summary''"
| "event_tag (AuthStatus _ _ _ _) = ''auth_status''"
| "event_tag (HookCallback _ _ _ _ _ _) = ''hook_callback''"
| "event_tag (ControlCancelled _ _) = ''control_cancelled''"
| "event_tag (CommandOutput _ _) = ''command_output''"
| "event_tag (ElicitationPrompt _ _ _ _ _ _ _ _) = ''elicitation_prompt''"
| "event_tag (RateLimitEvent _ _ _ _ _ _) = ''rate_limit_event''"
| "event_tag (RalphStarted _ _ _ _ _) = ''ralph_started''"
| "event_tag (RalphIteration _ _ _) = ''ralph_iteration''"
| "event_tag (RalphComplete _ _ _) = ''ralph_complete''"

definition is_replayable :: "BusEvent \<Rightarrow> bool" where
  "is_replayable ev \<longleftrightarrow> event_tag ev \<in> set REPLAY_TYPES"

definition j_set :: "string \<Rightarrow> json \<Rightarrow> json \<Rightarrow> json" where
  "j_set k x v = (case v of JObj kvs \<Rightarrow> JObj (hm_insert k x kvs) | _ \<Rightarrow> v)"

definition replay_value :: "u64 \<Rightarrow> json \<Rightarrow> json option" where
  "replay_value min_seq v =
     (if get_bool v ''_bus'' = Some True then
        (case (get_u64 v ''seq'', j_get v ''event'') of
           (Some n, Some event) \<Rightarrow>
             if min_seq < n \<and> is_some_and (get_str event ''type'') (\<lambda>t. t \<in> set REPLAY_TYPES)
             then Some (j_set ''_seq'' (json_num n)
                    (case j_get v ''ts'' of None \<Rightarrow> event | Some ts \<Rightarrow> j_set ''ts'' ts event))
             else None
         | _ \<Rightarrow> None)
      else None)"

definition list_bus_events ::
  "(string \<Rightarrow> json option) \<Rightarrow> log_io \<Rightarrow> logs \<Rightarrow> string \<Rightarrow> u64 option \<Rightarrow> json list" where
  "list_bus_events parse io files run_id since_seq =
     (case read_log io files run_id of
        None \<Rightarrow> []
      | Some content \<Rightarrow>
          List.map_filter (replay_value (unwrap_or since_seq 0)) (log_values parse content))"

section \<open>The copy for a fork\<close>

definition CONTENT_TYPES :: "string list" where
  "CONTENT_TYPES =
     [''message_delta'', ''message_complete'', ''tool_start'', ''tool_end'', ''user_message'']"

definition inner_type :: "json \<Rightarrow> string" where
  "inner_type envelope =
     unwrap_or (Option.bind (j_get envelope ''event'') (\<lambda>e. get_str e ''type'')) []"

text \<open>The envelope with the run of the fork and the next number; \<open>event.insert\<close> needs an object.\<close>

definition forked_envelope :: "string \<Rightarrow> u64 \<Rightarrow> json \<Rightarrow> json" where
  "forked_envelope to_run_id n envelope =
     j_set ''seq'' (json_num n)
       (case j_get envelope ''event'' of
          None \<Rightarrow> envelope
        | Some event \<Rightarrow> j_set ''event'' (j_set ''run_id'' (JStr to_run_id) event) envelope)"

fun copy_lines :: "(json \<Rightarrow> string) \<Rightarrow> string \<Rightarrow> u64 \<Rightarrow> json list \<Rightarrow> string" where
  "copy_lines shw to_run_id copied [] = []"
| "copy_lines shw to_run_id copied (v # vs) =
     (if get_bool v ''_bus'' = Some True \<and> inner_type v \<in> set CONTENT_TYPES
      then shw (forked_envelope to_run_id (copied + 1) v) @ [CHR 0x0A]
             @ copy_lines shw to_run_id (copied + 1) vs
      else copy_lines shw to_run_id copied vs)"

text \<open>
  \<open>dir\<close> is the error of creating the directory, \<open>res\<close> the outcome of the final write, which replaces
  the content of the file; one that fails half way leaves the first bytes.
\<close>

definition copy_bus_events ::
  "(string \<Rightarrow> json option) \<Rightarrow> (json \<Rightarrow> string) \<Rightarrow> log_io \<Rightarrow> string option \<Rightarrow> append_outcome
     \<Rightarrow> string \<Rightarrow> string \<Rightarrow> logs \<Rightarrow> (string + unit) \<times> logs" where
  "copy_bus_events parse shw io dir res from_run_id to_run_id files =
     (case files from_run_id of
        None \<Rightarrow> (Inr (), files)
      | Some _ \<Rightarrow>
          (case dir of
             Some e \<Rightarrow> (Inl e, files)
           | None \<Rightarrow>
               (case read_log io files from_run_id of
                  None \<Rightarrow> (Inl ''read source events failed'', files)
                | Some content \<Rightarrow>
                    (let out = copy_lines shw to_run_id 0 (log_values parse content)
                     in case res of
                          ApOk \<Rightarrow> (Inr (), files(to_run_id \<mapsto> out))
                        | ApFail e \<Rightarrow> (Inl e, files)
                        | ApPartial n e \<Rightarrow> (Inl e, files(to_run_id \<mapsto> take n out))))))"

section \<open>Counting messages\<close>

definition trimmed_values :: "(string \<Rightarrow> json option) \<Rightarrow> string \<Rightarrow> string \<Rightarrow> json list" where
  "trimmed_values parse needle content =
     List.map_filter parse
       (filter (\<lambda>l. l \<noteq> [] \<and> str_contains l needle) (map str_trim (str_lines content)))"

text \<open>A JSON string of the source text, with its quotation marks.\<close>

definition json_quoted :: "string \<Rightarrow> string" where
  "json_quoted s = CHR 0x22 # s @ [CHR 0x22]"

definition count_event :: "json \<Rightarrow> u32 \<times> u32 \<Rightarrow> u32 \<times> u32" where
  "count_event v acc =
     (case acc of (tot, normal) \<Rightarrow>
        (let event = unwrap_or (j_get v ''event'') v in
         if str_field event ''type'' = ''user_message'' then
           (tot + 1,
            if starts_with (trim_start (str_field event ''text'')) ''/'' then normal else normal + 1)
         else (tot, normal)))"

definition count_user_messages ::
  "(string \<Rightarrow> json option) \<Rightarrow> log_io \<Rightarrow> logs \<Rightarrow> string \<Rightarrow> u32 \<times> u32" where
  "count_user_messages parse io files run_id =
     (case read_log io files run_id of
        None \<Rightarrow> (0, 0)
      | Some content \<Rightarrow>
          foldl (\<lambda>acc v. count_event v acc) (0, 0)
            (trimmed_values parse (json_quoted ''user_message'') content))"

section \<open>Usage of a run\<close>

record ModelUsageSummary =
  mu_input_tokens :: u64
  mu_output_tokens :: u64
  mu_cache_read_tokens :: u64
  mu_cache_write_tokens :: u64
  mu_cost_usd :: f64

record RawRunUsage =
  ru_total_cost_usd :: f64
  ru_input_tokens :: u64
  ru_output_tokens :: u64
  ru_cache_read_tokens :: u64
  ru_cache_write_tokens :: u64
  ru_duration_ms :: u64
  ru_num_turns :: u64
  ru_model_usage :: "(string \<times> ModelUsageSummary) list"

text \<open>The local variables of the loop.\<close>

record usage_acc =
  ua_total_cost :: f64
  ua_prev_cost :: f64
  ua_peak_cost :: f64
  ua_duration :: u64
  ua_found :: bool
  ua_input :: u64
  ua_output :: u64
  ua_cache_read :: u64
  ua_cache_write :: u64
  ua_num_turns :: u64
  ua_models :: "(string \<times> ModelUsageSummary) list"

definition usage_start :: "float_ops \<Rightarrow> usage_acc" where
  "usage_start F =
     \<lparr> ua_total_cost = f_of_rat F 0, ua_prev_cost = f_of_rat F 0, ua_peak_cost = f_of_rat F 0,
       ua_duration = 0, ua_found = False, ua_input = 0, ua_output = 0, ua_cache_read = 0,
       ua_cache_write = 0, ua_num_turns = 0, ua_models = [] \<rparr>"

text \<open>\<open><\<close> of doubles.\<close>

definition f64_lt :: "f64 \<Rightarrow> f64 \<Rightarrow> bool" where
  "f64_lt x y \<longleftrightarrow> \<not> f64_nan x \<and> \<not> f64_nan y \<and> f64_key x < f64_key y"

definition usage_cost :: "float_ops \<Rightarrow> bool \<Rightarrow> f64 \<Rightarrow> usage_acc \<Rightarrow> usage_acc" where
  "usage_cost F sum_usage cost a =
     (if sum_usage then a\<lparr>ua_total_cost := f_add F (ua_total_cost a) cost\<rparr>
      else
        (let zero = f_of_rat F 0;
             a1 = (if f64_lt cost (f_mul F (ua_prev_cost a) (f_of_rat F (9 / 10)))
                      \<and> f64_lt zero (ua_prev_cost a)
                   then a\<lparr>ua_total_cost := f_add F (ua_total_cost a) (ua_peak_cost a),
                          ua_peak_cost := zero\<rparr>
                   else a);
             a2 = (if f64_lt (ua_peak_cost a1) cost then a1\<lparr>ua_peak_cost := cost\<rparr> else a1)
         in a2\<lparr>ua_prev_cost := cost\<rparr>))"

definition usage_tokens :: "bool \<Rightarrow> json \<Rightarrow> usage_acc \<Rightarrow> usage_acc" where
  "usage_tokens sum_usage event a =
     (let upd = (\<lambda>k old. if sum_usage then old + unwrap_or (get_u64 event k) 0
                        else unwrap_or (get_u64 event k) old)
      in a\<lparr>ua_input := upd ''input_tokens'' (ua_input a),
           ua_output := upd ''output_tokens'' (ua_output a),
           ua_cache_read := upd ''cache_read_tokens'' (ua_cache_read a),
           ua_cache_write := upd ''cache_write_tokens'' (ua_cache_write a)\<rparr>)"

definition usage_turns :: "json \<Rightarrow> u64 \<Rightarrow> u64" where
  "usage_turns event old =
     (case get_u64 event ''num_turns'' of
        Some n \<Rightarrow> n
      | None \<Rightarrow>
          (case get_u64 event ''turn_index'' of
             Some ti \<Rightarrow> if old < ti then ti else old
           | None \<Rightarrow> old))"

definition model_summary :: "float_ops \<Rightarrow> json \<Rightarrow> ModelUsageSummary" where
  "model_summary F entry =
     (let num = (\<lambda>k. unwrap_or (get_u64 entry k) 0)
      in \<lparr> mu_input_tokens = num ''input_tokens'', mu_output_tokens = num ''output_tokens'',
           mu_cache_read_tokens = num ''cache_read_tokens'',
           mu_cache_write_tokens = num ''cache_write_tokens'',
           mu_cost_usd =
             unwrap_or (Option.bind (j_get entry ''cost_usd'') (as_f64 F)) (f_of_rat F 0) \<rparr>)"

definition usage_event :: "float_ops \<Rightarrow> bool \<Rightarrow> json \<Rightarrow> usage_acc \<Rightarrow> usage_acc" where
  "usage_event F sum_usage event a =
     (let cost = unwrap_or (Option.bind (j_get event ''total_cost_usd'') (as_f64 F)) (f_of_rat F 0);
          a1 = usage_tokens sum_usage event (usage_cost F sum_usage cost (a\<lparr>ua_found := True\<rparr>))
      in a1\<lparr>ua_num_turns := usage_turns event (ua_num_turns a1),
            ua_duration := ua_duration a1 + unwrap_or (get_u64 event ''duration_ms'') 0,
            ua_models :=
              (case Option.bind (j_get event ''model_usage'') as_object of
                 None \<Rightarrow> ua_models a1
               | Some mu \<Rightarrow> map (\<lambda>(m, e). (m, model_summary F e)) (obj_entries mu))\<rparr>)"

text \<open>The usage events of a log.\<close>

definition usage_of_line :: "json \<Rightarrow> json option" where
  "usage_of_line v =
     (if get_bool v ''_bus'' = Some True then
        opt_filter (\<lambda>e. str_field e ''type'' = ''usage_update'') (j_get v ''event'')
      else None)"

definition usage_events :: "(string \<Rightarrow> json option) \<Rightarrow> string \<Rightarrow> json list" where
  "usage_events parse content =
     List.map_filter usage_of_line (trimmed_values parse (json_quoted ''usage_update'') content)"

text \<open>\<open>meta\<close> is the JSON of \<open>meta.json\<close>, when there is one that parses.\<close>

definition sums_usage :: "json option \<Rightarrow> bool" where
  "sums_usage meta \<longleftrightarrow>
     Option.bind meta (\<lambda>v. get_str v ''source'') = Some ''cli_import''
     \<or> Option.bind meta (\<lambda>v. get_str v ''agent'') = Some ''codex''"

definition extract_run_usage ::
  "float_ops \<Rightarrow> (string \<Rightarrow> json option) \<Rightarrow> log_io \<Rightarrow> json option \<Rightarrow> logs \<Rightarrow> string \<Rightarrow> RawRunUsage option" where
  "extract_run_usage F parse io meta files run_id =
     (case read_log io files run_id of
        None \<Rightarrow> None
      | Some content \<Rightarrow>
          (let s = sums_usage meta;
               a = foldl (\<lambda>a e. usage_event F s e a) (usage_start F) (usage_events parse content)
           in if \<not> ua_found a then None
              else Some
                \<lparr> ru_total_cost_usd =
                    (if s then ua_total_cost a else f_add F (ua_total_cost a) (ua_peak_cost a)),
                  ru_input_tokens = ua_input a, ru_output_tokens = ua_output a,
                  ru_cache_read_tokens = ua_cache_read a, ru_cache_write_tokens = ua_cache_write a,
                  ru_duration_ms = ua_duration a, ru_num_turns = ua_num_turns a,
                  ru_model_usage = ua_models a \<rparr>))"

end
