(* ===== verification/WsSession.thy ===== *)
theory WsSession
  imports EventLog
begin

text \<open>
  The delivery of events to a browser: the two broadcast channels (\<open>web_server/broadcaster.rs\<close>) and
  the tasks of one WebSocket connection (\<open>web_server/ws.rs\<close>).  A task is cut at the points where it
  releases a lock or waits, so that the steps of the tasks and of the writers can be interleaved.
  The channels, the JSON library, the commands behind the connection and the outcome of writes are arguments.
\<close>

section \<open>Channels\<close>

record BroadcastMsg =
  bm_event_name :: string
  bm_payload :: json
  bm_seq :: "u64 option"
  bm_run_id :: "string option"

definition A_CAPACITY :: nat where "A_CAPACITY = 8192"
definition B_CAPACITY :: nat where "B_CAPACITY = 1024"

text \<open>
  The channels themselves are those of the async library, an argument: \<open>ch_send\<close> is what a send to a
  channel of a capacity does to a receiver, and \<open>ch_recv\<close> the next receive.  A receiver has the
  messages that it has not received yet, and how many were dropped before them.
\<close>

record receiver =
  rx_queue :: "BroadcastMsg list"
  rx_missed :: nat

datatype recv_result = RvMsg BroadcastMsg | RvLagged nat | RvEmpty

record channel_ops =
  ch_send :: "nat \<Rightarrow> BroadcastMsg \<Rightarrow> receiver \<Rightarrow> receiver"
  ch_recv :: "receiver \<Rightarrow> recv_result \<times> receiver"

definition receiver_new :: receiver where
  "receiver_new = \<lparr> rx_queue = [], rx_missed = 0 \<rparr>"

text \<open>
  The documented behaviour: a send to a full channel drops the oldest message of a slow receiver, and
  the next receive says how many were dropped before it goes on with the oldest that is left.
\<close>

definition channel_send :: "nat \<Rightarrow> BroadcastMsg \<Rightarrow> receiver \<Rightarrow> receiver" where
  "channel_send cap m rx =
     (if length (rx_queue rx) < cap then rx\<lparr>rx_queue := rx_queue rx @ [m]\<rparr>
      else rx\<lparr>rx_queue := tl (rx_queue rx) @ [m], rx_missed := Suc (rx_missed rx)\<rparr>)"

definition channel_recv :: "receiver \<Rightarrow> recv_result \<times> receiver" where
  "channel_recv rx =
     (if 0 < rx_missed rx then (RvLagged (rx_missed rx), rx\<lparr>rx_missed := 0\<rparr>)
      else (case rx_queue rx of
              [] \<Rightarrow> (RvEmpty, rx)
            | m # ms \<Rightarrow> (RvMsg m, rx\<lparr>rx_queue := ms\<rparr>)))"

definition broadcast_channel :: "channel_ops \<Rightarrow> bool" where
  "broadcast_channel C \<longleftrightarrow>
     (\<forall>cap m rx. ch_send C cap m rx = channel_send cap m rx) \<and> (\<forall>rx. ch_recv C rx = channel_recv rx)"

text \<open>
  \<open>persist_and_emit\<close>, up to the broadcast: the record is written, and the message to broadcast is
  made with its number; nothing is broadcast when the write fails.
\<close>

definition bus_msg :: "(BusEvent \<Rightarrow> json) \<Rightarrow> string \<Rightarrow> BusEvent \<Rightarrow> u64 \<Rightarrow> BroadcastMsg" where
  "bus_msg enc run_id ev seq =
     \<lparr> bm_event_name = ''bus-event'', bm_payload = enc ev, bm_seq = Some seq, bm_run_id = Some run_id \<rparr>"

definition persist_and_emit ::
  "(string \<Rightarrow> json option) \<Rightarrow> (json \<Rightarrow> string) \<Rightarrow> (BusEvent \<Rightarrow> json) \<Rightarrow> log_io \<Rightarrow> string set
     \<Rightarrow> append_outcome \<Rightarrow> string \<Rightarrow> string \<Rightarrow> BusEvent \<Rightarrow> event_writer \<times> logs
     \<Rightarrow> BroadcastMsg option \<times> event_writer \<times> logs" where
  "persist_and_emit parse shw enc io held res now run_id ev s =
     (case write_bus_event_with_ts parse shw enc io held res run_id ev now s of
        (Inl e, s') \<Rightarrow> (None, s')
      | (Inr seq, s') \<Rightarrow> (Some (bus_msg enc run_id ev seq), s'))"

definition emit_realtime :: "string \<Rightarrow> json \<Rightarrow> string option \<Rightarrow> BroadcastMsg" where
  "emit_realtime event_name payload run_id =
     \<lparr> bm_event_name = event_name, bm_payload = payload, bm_seq = None, bm_run_id = run_id \<rparr>"

section \<open>The session of a connection\<close>

definition REPLAY_BUFFER_CAPACITY :: nat where "REPLAY_BUFFER_CAPACITY = 4096"
definition FULL_RELOAD_COOLDOWN_SECS :: nat where "FULL_RELOAD_COOLDOWN_SECS = 30"

record BufferedEvent =
  be_envelope :: json
  be_seq :: u64

record WsSession =
  ss_subscriptions :: "(string \<times> u64) list"
  ss_replay_buffer :: "string \<Rightarrow> BufferedEvent list option"
  ss_replaying :: "string set"
  ss_full_reload_cooldown :: "string \<Rightarrow> instant option"

definition session_new :: WsSession where
  "session_new =
     \<lparr> ss_subscriptions = [], ss_replay_buffer = Map.empty, ss_replaying = {},
       ss_full_reload_cooldown = Map.empty \<rparr>"

definition checkpoint :: "WsSession \<Rightarrow> string \<Rightarrow> u64 option" where
  "checkpoint s r = map_of (ss_subscriptions s) r"

text \<open>The checkpoint of a run that is subscribed only grows.\<close>

definition raise_checkpoint :: "string \<Rightarrow> u64 \<Rightarrow> WsSession \<Rightarrow> WsSession" where
  "raise_checkpoint r n s =
     (case checkpoint s r of
        None \<Rightarrow> s
      | Some cp \<Rightarrow> s\<lparr>ss_subscriptions := hm_insert r (max cp n) (ss_subscriptions s)\<rparr>)"

definition begin_replay :: "string \<Rightarrow> WsSession \<Rightarrow> WsSession" where
  "begin_replay r s =
     s\<lparr>ss_replaying := insert r (ss_replaying s),
       ss_replay_buffer := (ss_replay_buffer s)(r \<mapsto> unwrap_or (ss_replay_buffer s r) [])\<rparr>"

definition end_replay :: "string \<Rightarrow> WsSession \<Rightarrow> WsSession" where
  "end_replay r s = s\<lparr>ss_replaying := ss_replaying s - {r}\<rparr>"

definition drop_buffer :: "string \<Rightarrow> WsSession \<Rightarrow> WsSession" where
  "drop_buffer r s = s\<lparr>ss_replay_buffer := (ss_replay_buffer s)(r := None)\<rparr>"

definition bus_envelope_ws :: "string \<Rightarrow> u64 \<Rightarrow> string \<Rightarrow> json \<Rightarrow> json" where
  "bus_envelope_ws event_name seq run_id payload =
     JObj [(''event'', JStr event_name), (''seq'', json_num seq), (''run_id'', JStr run_id),
           (''payload'', payload)]"

text \<open>The connection: its session, what has been sent, and whether the socket is closed.\<close>

record conn =
  cn_session :: WsSession
  cn_out :: "json list"
  cn_closed :: bool

definition ws_send :: "json \<Rightarrow> conn \<Rightarrow> conn option" where
  "ws_send j c = (if cn_closed c then None else Some (c\<lparr>cn_out := cn_out c @ [j]\<rparr>))"

definition on_session :: "(WsSession \<Rightarrow> WsSession) \<Rightarrow> conn \<Rightarrow> conn" where
  "on_session f c = c\<lparr>cn_session := f (cn_session c)\<rparr>"

section \<open>Replay and flush\<close>

text \<open>
  What a task still has to do, one step each.  \<open>WReplay\<close> reads the log; \<open>WSend\<close> sends the next
  event and \<open>WAck\<close> raises the checkpoint; \<open>WFlush\<close> takes the buffer and \<open>WFlushSend\<close> sends it.
\<close>

datatype work =
    WReplay string u64
  | WSend string "json list"
  | WAck string u64 "json list"
  | WFlush string u64
  | WFlushSend string u64 "BufferedEvent list" u64
  | WReload string
  | WReloadSend string
  | WReply json
  | WCleanup string

definition event_seq :: "json \<Rightarrow> u64" where
  "event_seq ev = unwrap_or (get_u64 ev ''_seq'') 0"

text \<open>\<open>flush_replay_buffer\<close>: one round under the lock.\<close>

definition flush_take :: "string \<Rightarrow> u64 \<Rightarrow> conn \<Rightarrow> work list \<times> conn" where
  "flush_take r max_seq c =
     (let s = cn_session c;
          buffer = unwrap_or (ss_replay_buffer s r) [];
          s1 = drop_buffer r s
      in if buffer = [] then
           ([], c\<lparr>cn_session :=
                (if 0 < max_seq then raise_checkpoint r max_seq (end_replay r s1) else end_replay r s1)\<rparr>)
         else if REPLAY_BUFFER_CAPACITY \<le> length buffer then
           ([WReload r], c\<lparr>cn_session := end_replay r s1\<rparr>)
         else
           ([WFlushSend r (max (unwrap_or (checkpoint s1 r) 0) max_seq) buffer max_seq],
            c\<lparr>cn_session := s1\<rparr>))"

definition flush_send ::
  "string \<Rightarrow> u64 \<Rightarrow> BufferedEvent list \<Rightarrow> u64 \<Rightarrow> conn \<Rightarrow> work list \<times> conn" where
  "flush_send r cp events max_seq c =
     (case events of
        [] \<Rightarrow> ([WFlush r max_seq], on_session (raise_checkpoint r max_seq) c)
      | e # es \<Rightarrow>
          if be_seq e \<le> cp then ([WFlushSend r cp es max_seq], c)
          else (case ws_send (be_envelope e) c of
                  None \<Rightarrow> ([], on_session (end_replay r) c)
                | Some c' \<Rightarrow> ([WFlushSend r cp es (max max_seq (be_seq e))], c')))"

text \<open>Seconds are counted as \<open>Duration::as_secs\<close> does; \<open>now\<close> is in milliseconds.\<close>

definition send_full_reload :: "instant \<Rightarrow> string \<Rightarrow> conn \<Rightarrow> work list \<times> conn" where
  "send_full_reload now r c =
     (case ss_full_reload_cooldown (cn_session c) r of
        Some t \<Rightarrow>
          if (now - t) div 1000 < FULL_RELOAD_COOLDOWN_SECS then ([], c)
          else ([WReloadSend r],
                on_session (\<lambda>s. s\<lparr>ss_full_reload_cooldown := (ss_full_reload_cooldown s)(r \<mapsto> now)\<rparr>) c)
      | None \<Rightarrow>
          ([WReloadSend r],
           on_session (\<lambda>s. s\<lparr>ss_full_reload_cooldown := (ss_full_reload_cooldown s)(r \<mapsto> now)\<rparr>) c))"

definition full_reload :: "string \<Rightarrow> json" where
  "full_reload r = JObj [(''event'', JStr ''_full_reload''), (''run_id'', JStr r)]"

text \<open>
  One step of work; \<open>rd\<close> reads the log of a run after a number, as it is now.  The result is what
  has to be done next, or none when a replay has failed.
\<close>

fun work_step ::
  "(string \<Rightarrow> u64 \<Rightarrow> json list) \<Rightarrow> instant \<Rightarrow> work \<Rightarrow> conn \<Rightarrow> work list option \<times> conn" where
  "work_step rd now (WReplay r n) c = (Some [WSend r (rd r n)], c)"
| "work_step rd now (WSend r []) c = (Some [], c)"
| "work_step rd now (WSend r (ev # evs)) c =
     (case ws_send (bus_envelope_ws ''bus-event'' (event_seq ev) r ev) c of
        None \<Rightarrow> (None, c)
      | Some c' \<Rightarrow>
          (Some [if 0 < event_seq ev then WAck r (event_seq ev) evs else WSend r evs], c'))"
| "work_step rd now (WAck r n evs) c = (Some [WSend r evs], on_session (raise_checkpoint r n) c)"
| "work_step rd now (WFlush r m) c = apfst Some (flush_take r m c)"
| "work_step rd now (WFlushSend r cp es m) c = apfst Some (flush_send r cp es m c)"
| "work_step rd now (WReload r) c = apfst Some (send_full_reload now r c)"
| "work_step rd now (WReloadSend r) c = (Some [], unwrap_or (ws_send (full_reload r) c) c)"
| "work_step rd now (WReply j) c = (Some [], unwrap_or (ws_send j c) c)"
| "work_step rd now (WCleanup r) c = (Some [], on_session (end_replay r \<circ> drop_buffer r) c)"

section \<open>The tasks\<close>

text \<open>\<open>a_forward\<close>.\<close>

datatype a_task = AIdle | ASend string u64 json | AAck string u64 | ACatch "work list" | AStopped

definition a_receive :: "BroadcastMsg \<Rightarrow> conn \<Rightarrow> a_task \<times> conn" where
  "a_receive m c =
     (case (bm_run_id m, bm_seq m) of
        (Some r, Some seq) \<Rightarrow>
          (let s = cn_session c;
               env = bus_envelope_ws (bm_event_name m) seq r (bm_payload m)
           in case checkpoint s r of
                None \<Rightarrow> (AIdle, c)
              | Some cp \<Rightarrow>
                  if r \<in> ss_replaying s then
                    (let buf = unwrap_or (ss_replay_buffer s r) [];
                         buf' = (if length buf < REPLAY_BUFFER_CAPACITY
                                 then buf @ [\<lparr> be_envelope = env, be_seq = seq \<rparr>] else buf)
                     in (AIdle, c\<lparr>cn_session :=
                           s\<lparr>ss_replay_buffer := (ss_replay_buffer s)(r \<mapsto> buf')\<rparr>\<rparr>))
                  else if seq \<le> cp then (AIdle, c)
                  else (ASend r seq env, c))
      | _ \<Rightarrow> (AIdle, c))"

definition a_lagged :: "conn \<Rightarrow> a_task \<times> conn" where
  "a_lagged c =
     (let s = cn_session c;
          runs = filter (\<lambda>(r, n). r \<notin> ss_replaying s) (ss_subscriptions s)
      in (ACatch (map (\<lambda>(r, n). WReplay r n) runs @ map (\<lambda>(r, n). WFlush r 0) runs),
          c\<lparr>cn_session := fold (\<lambda>(r, n). begin_replay r) runs s\<rparr>))"

fun a_step ::
  "channel_ops \<Rightarrow> (string \<Rightarrow> u64 \<Rightarrow> json list) \<Rightarrow> instant \<Rightarrow> a_task \<Rightarrow> receiver \<Rightarrow> conn \<Rightarrow> a_task \<times> receiver \<times> conn" where
  "a_step C rd now AIdle rx c =
     (case ch_recv C rx of
        (RvEmpty, rx') \<Rightarrow> (AIdle, rx', c)
      | (RvMsg m, rx') \<Rightarrow> (case a_receive m c of (t, c') \<Rightarrow> (t, rx', c'))
      | (RvLagged k, rx') \<Rightarrow> (case a_lagged c of (t, c') \<Rightarrow> (t, rx', c')))"
| "a_step C rd now (ASend r n env) rx c =
     (case ws_send env c of
        None \<Rightarrow> (AStopped, rx, c)
      | Some c' \<Rightarrow> (AAck r n, rx, c'))"
| "a_step C rd now (AAck r n) rx c = (AIdle, rx, on_session (raise_checkpoint r n) c)"
| "a_step C rd now (ACatch []) rx c = (AIdle, rx, c)"
| "a_step C rd now (ACatch (w # ws)) rx c =
     (case work_step rd now w c of
        (None, c') \<Rightarrow> (ACatch ws, rx, c')
      | (Some xs, c') \<Rightarrow> (ACatch (xs @ ws), rx, c'))"
| "a_step C rd now AStopped rx c = (AStopped, rx, c)"

text \<open>\<open>b_forward\<close>: a message of a run goes only to its subscribers; lag is ignored.\<close>

definition b_step :: "channel_ops \<Rightarrow> receiver \<Rightarrow> conn \<Rightarrow> receiver \<times> conn" where
  "b_step C rx c =
     (case ch_recv C rx of
        (RvMsg m, rx') \<Rightarrow>
          (if bm_run_id m \<noteq> None
              \<and> checkpoint (cn_session c) (unwrap_or (bm_run_id m) []) = None
           then (rx', c)
           else (rx', unwrap_or (ws_send
                   (JObj [(''event'', JStr (bm_event_name m)), (''payload'', bm_payload m)]) c) c))
      | (_, rx') \<Rightarrow> (rx', c))"

text \<open>
  \<open>cmd_loop\<close>: what a client message makes it do, and what it does instead of the rest when a replay
  fails.  \<open>dispatch\<close> is the table of commands.
\<close>

definition reply_result :: "string option \<Rightarrow> json \<Rightarrow> work" where
  "reply_result i v = WReply (JObj [(''id'', opt_json i), (''result'', v)])"

definition reply_error :: "string option \<Rightarrow> string \<Rightarrow> work" where
  "reply_error i e = WReply (JObj [(''id'', opt_json i), (''error'', JStr e)])"

definition subscribe_run :: "string option \<Rightarrow> string \<Rightarrow> u64 \<Rightarrow> WsSession \<Rightarrow> (work list \<times> work list) \<times> WsSession" where
  "subscribe_run i r last_seq s =
     (let eff = max (unwrap_or (checkpoint s r) 0) last_seq;
          s1 = s\<lparr>ss_subscriptions := hm_insert r eff (ss_subscriptions s)\<rparr>
      in if r \<in> ss_replaying s then
           (([reply_result i (JObj [(''status'', JStr ''already_replaying'')])], []), s1)
         else
           (([WReplay r eff, WFlush r 0, reply_result i (JObj [(''ok'', JBool True)])],
             [WCleanup r, reply_error i ''replay failed'']),
            begin_replay r s1))"

definition unsubscribe_run :: "string \<Rightarrow> WsSession \<Rightarrow> WsSession" where
  "unsubscribe_run r s =
     s\<lparr>ss_subscriptions := hm_remove r (ss_subscriptions s),
       ss_replay_buffer := (ss_replay_buffer s)(r := None),
       ss_replaying := ss_replaying s - {r},
       ss_full_reload_cooldown := (ss_full_reload_cooldown s)(r := None)\<rparr>"

definition handle_request ::
  "(string \<Rightarrow> json \<Rightarrow> string + json) \<Rightarrow> json \<Rightarrow> WsSession \<Rightarrow> (work list \<times> work list) \<times> WsSession" where
  "handle_request dispatch parsed s =
     (let i = get_str parsed ''id'';
          name = str_field parsed ''method'';
          params = unwrap_or (j_get parsed ''params'') (JObj []);
          r = str_field params ''run_id''
      in if name = ''_subscribe'' then
           (if r = [] then (([reply_error i ''run_id required''], []), s)
            else subscribe_run i r (unwrap_or (get_u64 params ''last_seq'') 0) s)
         else if name = ''_unsubscribe'' then
           (([reply_result i (JObj [(''ok'', JBool True)])], []), unsubscribe_run r s)
         else (([case dispatch name params of Inl e \<Rightarrow> reply_error i e | Inr v \<Rightarrow> reply_result i v], []), s))"

section \<open>The interleaving\<close>

record world =
  wd_logs :: "event_writer \<times> logs"
  wd_inflight :: "BroadcastMsg list"
  wd_a_rx :: receiver
  wd_b_rx :: receiver
  wd_conn :: conn
  wd_now :: instant
  wd_a :: a_task
  wd_cmd :: "work list"
  wd_cmd_fail :: "work list"

record ws_env =
  we_parse :: "string \<Rightarrow> json option"
  we_show :: "json \<Rightarrow> string"
  we_enc :: "BusEvent \<Rightarrow> json"
  we_dispatch :: "string \<Rightarrow> json \<Rightarrow> string + json"
  we_channel :: channel_ops

text \<open>
  What can happen: a writer writes a record; a message that has been written is broadcast (in any
  order, since the writers have released the lock of the log); a realtime message; a step of one of
  the tasks; a request of the client; the socket closes; time passes.
\<close>

datatype ws_label =
    LEvent string string BusEvent append_outcome "string set"
  | LBroadcast nat
  | LRealtime string json "string option"
  | LForward
  | LForwardB
  | LCommand
  | LRequest json
  | LClose
  | LTime nat

definition read_events :: "ws_env \<Rightarrow> world \<Rightarrow> string \<Rightarrow> u64 \<Rightarrow> json list" where
  "read_events E w r n = list_bus_events (we_parse E) io_good (snd (wd_logs w)) r (Some n)"

definition command_step :: "ws_env \<Rightarrow> world \<Rightarrow> world" where
  "command_step E w =
     (case wd_cmd w of
        [] \<Rightarrow> w
      | x # xs \<Rightarrow>
          (case work_step (read_events E w) (wd_now w) x (wd_conn w) of
             (None, c) \<Rightarrow> w\<lparr>wd_conn := c, wd_cmd := wd_cmd_fail w, wd_cmd_fail := []\<rparr>
           | (Some ys, c) \<Rightarrow> w\<lparr>wd_conn := c, wd_cmd := ys @ xs\<rparr>))"

fun ws_step :: "ws_env \<Rightarrow> ws_label \<Rightarrow> world \<Rightarrow> world" where
  "ws_step E (LEvent now r ev res held) w =
     (case persist_and_emit (we_parse E) (we_show E) (we_enc E) io_good held res now r ev (wd_logs w) of
        (m, s) \<Rightarrow>
          w\<lparr>wd_logs := s,
            wd_inflight := wd_inflight w @ (case m of None \<Rightarrow> [] | Some x \<Rightarrow> [x])\<rparr>)"
| "ws_step E (LBroadcast i) w =
     (if i < length (wd_inflight w)
      then w\<lparr>wd_inflight := take i (wd_inflight w) @ drop (Suc i) (wd_inflight w),
             wd_a_rx := ch_send (we_channel E) A_CAPACITY (wd_inflight w ! i) (wd_a_rx w)\<rparr>
      else w)"
| "ws_step E (LRealtime name payload r) w =
     w\<lparr>wd_b_rx := ch_send (we_channel E) B_CAPACITY (emit_realtime name payload r) (wd_b_rx w)\<rparr>"
| "ws_step E LForward w =
     (case a_step (we_channel E) (read_events E w) (wd_now w) (wd_a w) (wd_a_rx w) (wd_conn w) of
        (t, rx, c) \<Rightarrow> w\<lparr>wd_a := t, wd_a_rx := rx, wd_conn := c\<rparr>)"
| "ws_step E LForwardB w =
     (case b_step (we_channel E) (wd_b_rx w) (wd_conn w) of (rx, c) \<Rightarrow> w\<lparr>wd_b_rx := rx, wd_conn := c\<rparr>)"
| "ws_step E LCommand w = command_step E w"
| "ws_step E (LRequest j) w =
     (if wd_cmd w = []
      then (case handle_request (we_dispatch E) j (cn_session (wd_conn w)) of
              ((xs, fs), s) \<Rightarrow>
                w\<lparr>wd_cmd := xs, wd_cmd_fail := fs, wd_conn := (wd_conn w)\<lparr>cn_session := s\<rparr>\<rparr>)
      else w)"
| "ws_step E LClose w = w\<lparr>wd_conn := (wd_conn w)\<lparr>cn_closed := True\<rparr>\<rparr>"
| "ws_step E (LTime n) w = w\<lparr>wd_now := wd_now w + n\<rparr>"

definition ws_run :: "ws_env \<Rightarrow> ws_label list \<Rightarrow> world \<Rightarrow> world" where
  "ws_run E ls w = foldl (\<lambda>w l. ws_step E l w) w ls"

definition ws_start :: "event_writer \<times> logs \<Rightarrow> world" where
  "ws_start logs =
     \<lparr> wd_logs = logs, wd_inflight = [], wd_a_rx = receiver_new, wd_b_rx = receiver_new,
       wd_conn = \<lparr> cn_session = session_new, cn_out = [], cn_closed = False \<rparr>, wd_now = 0,
       wd_a = AIdle, wd_cmd = [], wd_cmd_fail = [] \<rparr>"

lemma ws_run_simps [simp]:
  "ws_run E [] w = w" "ws_run E (l # ls) w = ws_run E ls (ws_step E l w)"
  "ws_run E (xs @ ys) w = ws_run E ys (ws_run E xs w)"
  by (simp_all add: ws_run_def)

end
