(* ===== verification/WsProtocol.thy ===== *)
theory WsProtocol
  imports Prelude
begin

text \<open>
  The protocol that brings the numbered records of a run to a browser, as steps over numbers only:
  live messages, a catch-up from the log, and a buffer for what arrives during the catch-up.  Its
  invariant says that nothing is sent twice or out of order, and nothing is left out; the theory
  \<open>WsDelivery\<close> shows that the tasks of a connection follow it.
\<close>

section \<open>The protocol\<close>

datatype phase =
    PIdle
  | PSending u64
  | PSent u64
  | PReplay
  | PSend "u64 list"
  | PAck u64 "u64 list"
  | PFlush u64
  | PFlushSend u64 "u64 list" u64

text \<open>
  The numbers of all records of the run, those of the records that are replayed, the messages under
  way, whether some were dropped, the checkpoint, the buffer, and what has been sent.
\<close>

record view =
  vw_nums :: "u64 list"
  vw_log :: "u64 list"
  vw_live :: "u64 list"
  vw_lag :: bool
  vw_cp :: u64
  vw_buf :: "u64 list"
  vw_phase :: phase
  vw_out :: "u64 list"

definition in_replay :: "phase \<Rightarrow> bool" where
  "in_replay p \<longleftrightarrow> p \<noteq> PIdle \<and> (\<forall>x. p \<noteq> PSending x \<and> p \<noteq> PSent x)"

inductive view_step :: "view \<Rightarrow> view \<Rightarrow> bool" where
  vs_write: "\<forall>x\<in>set (vw_nums v). x < n \<Longrightarrow>
     view_step v (v\<lparr>vw_nums := vw_nums v @ [n], vw_log := vw_log v @ (if rep then [n] else []),
                   vw_live := vw_live v @ [n]\<rparr>)"
| vs_drop: "(ys = vw_live v \<or> vw_live v = x # ys) \<Longrightarrow> view_step v (v\<lparr>vw_live := ys, vw_lag := True\<rparr>)"
| vs_skip: "vw_phase v = PIdle \<Longrightarrow> \<not> vw_lag v \<Longrightarrow> vw_live v = x # xs \<Longrightarrow> x \<le> vw_cp v
    \<Longrightarrow> view_step v (v\<lparr>vw_live := xs\<rparr>)"
| vs_take: "vw_phase v = PIdle \<Longrightarrow> \<not> vw_lag v \<Longrightarrow> vw_live v = x # xs \<Longrightarrow> vw_cp v < x
    \<Longrightarrow> view_step v (v\<lparr>vw_live := xs, vw_phase := PSending x\<rparr>)"
| vs_sent: "vw_phase v = PSending x \<Longrightarrow> view_step v (v\<lparr>vw_out := vw_out v @ [x], vw_phase := PSent x\<rparr>)"
| vs_acked: "vw_phase v = PSent x \<Longrightarrow> view_step v (v\<lparr>vw_cp := max (vw_cp v) x, vw_phase := PIdle\<rparr>)"
| vs_buffer: "in_replay (vw_phase v) \<Longrightarrow> \<not> vw_lag v \<Longrightarrow> vw_live v = x # xs
    \<Longrightarrow> view_step v (v\<lparr>vw_live := xs, vw_buf := vw_buf v @ [x]\<rparr>)"
| vs_catch: "vw_phase v = PIdle \<Longrightarrow> vw_lag v \<Longrightarrow> view_step v (v\<lparr>vw_lag := False, vw_phase := PReplay\<rparr>)"
| vs_read: "vw_phase v = PReplay
    \<Longrightarrow> view_step v (v\<lparr>vw_phase := PSend (filter ((<) (vw_cp v)) (vw_log v))\<rparr>)"
| vs_send: "vw_phase v = PSend (x # xs)
    \<Longrightarrow> view_step v (v\<lparr>vw_out := vw_out v @ [x], vw_phase := PAck x xs\<rparr>)"
| vs_ack: "vw_phase v = PAck x xs
    \<Longrightarrow> view_step v (v\<lparr>vw_cp := max (vw_cp v) x, vw_phase := PSend xs\<rparr>)"
| vs_replayed: "vw_phase v = PSend [] \<Longrightarrow> view_step v (v\<lparr>vw_phase := PFlush 0\<rparr>)"
| vs_done: "vw_phase v = PFlush m \<Longrightarrow> vw_buf v = []
    \<Longrightarrow> view_step v (v\<lparr>vw_cp := max (vw_cp v) m, vw_phase := PIdle\<rparr>)"
| vs_flush: "vw_phase v = PFlush m \<Longrightarrow> vw_buf v \<noteq> []
    \<Longrightarrow> view_step v (v\<lparr>vw_buf := [], vw_phase := PFlushSend (max (vw_cp v) m) (vw_buf v) m\<rparr>)"
| vs_old: "vw_phase v = PFlushSend k (x # xs) m \<Longrightarrow> x \<le> k
    \<Longrightarrow> view_step v (v\<lparr>vw_phase := PFlushSend k xs m\<rparr>)"
| vs_buffered: "vw_phase v = PFlushSend k (x # xs) m \<Longrightarrow> k < x
    \<Longrightarrow> view_step v (v\<lparr>vw_out := vw_out v @ [x], vw_phase := PFlushSend k xs (max m x)\<rparr>)"
| vs_round: "vw_phase v = PFlushSend k [] m
    \<Longrightarrow> view_step v (v\<lparr>vw_cp := max (vw_cp v) m, vw_phase := PFlush m\<rparr>)"

text \<open>
  What is still to be sent: each source contributes what comes after everything before it.
\<close>

definition after :: "u64 \<Rightarrow> u64 list \<Rightarrow> u64 list" where
  "after c xs = filter ((<) c) xs"

definition reach :: "u64 \<Rightarrow> u64 list \<Rightarrow> u64" where
  "reach c xs = last (c # after c xs)"

fun chain :: "u64 \<Rightarrow> u64 list list \<Rightarrow> u64 list" where
  "chain c [] = []"
| "chain c (xs # xss) = after c xs @ chain (reach c xs) xss"

definition rest :: "view \<Rightarrow> u64 list list" where
  "rest v = (if vw_lag v then [vw_buf v, vw_log v, vw_live v] else [vw_buf v, vw_live v])"

text \<open>How far the client is, and the sources in their order.\<close>

fun position :: "phase \<Rightarrow> u64 \<Rightarrow> u64" where
  "position (PSent x) c = max c x"
| "position (PAck x xs) c = max c x"
| "position (PFlush m) c = max c m"
| "position (PFlushSend k xs m) c = max c m"
| "position p c = c"

fun front :: "phase \<Rightarrow> u64 list \<Rightarrow> u64 list list" where
  "front (PSending x) lg = [[x]]"
| "front PReplay lg = [lg]"
| "front (PSend xs) lg = [xs]"
| "front (PAck x xs) lg = [xs]"
| "front (PFlushSend k xs m) lg = [xs]"
| "front p lg = []"

definition sources :: "view \<Rightarrow> u64 list list" where
  "sources v = front (vw_phase v) (vw_log v) @ rest v"

definition to_send :: "view \<Rightarrow> u64 list" where
  "to_send v = chain (position (vw_phase v) (vw_cp v)) (sources v)"

text \<open>Facts on chains.\<close>

lemma after_simps [simp]:
  "after c [] = []" "after c (x # xs) = (if c < x then x # after c xs else after c xs)"
  "after c (xs @ ys) = after c xs @ after c ys"
  by (simp_all add: after_def)

lemma set_after [simp]: "set (after c xs) = {x \<in> set xs. c < x}"
  by (simp add: after_def)

lemma sorted_after: "sorted_wrt (<) xs \<Longrightarrow> sorted_wrt (<) (after c xs)"
  by (simp add: after_def sorted_wrt_filter)

lemma last_after: "after c xs \<noteq> [] \<Longrightarrow> c < last (after c xs) \<and> last (after c xs) \<in> set xs"
  using last_in_set [of "after c xs"] by simp

lemma last_greatest: "sorted_wrt (<) xs \<Longrightarrow> x \<in> set xs \<Longrightarrow> x \<le> last xs" for x :: u64
proof (induction xs)
  case (Cons y ys)
  show ?case
  proof (cases "ys = []")
    case False
    then have "y < last ys" using Cons.prems(1) by simp
    with False Cons show ?thesis by (auto intro: less_imp_le)
  qed (use Cons in simp)
qed simp

lemma reach_cases: "reach c xs = (if after c xs = [] then c else last (after c xs))"
  by (simp add: reach_def)

lemma reach_ge: "c \<le> reach c xs"
  using last_after [of c xs] by (auto simp: reach_cases)

lemma reach_max:
  assumes "sorted_wrt (<) xs" "x \<in> set xs" "c < x"
  shows "x \<le> reach c xs"
proof -
  have x: "x \<in> set (after c xs)" using assms by simp
  then have "after c xs \<noteq> []" by (metis empty_iff list.set(1))
  with last_greatest [OF sorted_after [OF assms(1)] x] show ?thesis by (simp add: reach_cases)
qed

lemma reach_in: "reach c xs = c \<or> reach c xs \<in> set xs"
  using last_after [of c xs] by (auto simp: reach_cases)

lemma chain_gt: "x \<in> set (chain c xss) \<Longrightarrow> c < x"
proof (induction xss arbitrary: c)
  case (Cons xs xss)
  then show ?case using reach_ge [of c xs] by (auto dest: Cons.IH)
qed simp

lemma chain_sorted: "list_all (sorted_wrt (<)) xss \<Longrightarrow> sorted_wrt (<) (chain c xss)"
proof (induction xss arbitrary: c)
  case (Cons xs xss)
  have "x < y" if "x \<in> set (after c xs)" "y \<in> set (chain (reach c xs) xss)" for x y
    using reach_max [of xs x c] chain_gt [OF that(2)] that(1) Cons.prems by fastforce
  then show ?case using Cons by (auto simp: sorted_wrt_append sorted_after)
qed simp

lemma chain_sub: "set (chain c xss) \<subseteq> \<Union> (set ` set xss)"
proof (induction xss arbitrary: c)
  case (Cons xs xss)
  then show ?case using Cons.IH [of "reach c xs"] by auto
qed simp

text \<open>A number above the start that some source has is sent, or a source before it goes beyond.\<close>

lemma chain_append: "chain c (xss @ yss) = chain c xss @ chain (foldl reach c xss) yss"
  by (induction xss arbitrary: c) auto

lemma chain_reach:
  assumes "list_all (sorted_wrt (<)) xss" "x \<in> set (chain c xss)"
  shows "x \<le> foldl reach c xss"
  using assms
proof (induction xss arbitrary: c)
  case (Cons xs xss)
  have ge: "d \<le> foldl reach d xss" for d
    by (induction xss arbitrary: d) (auto intro: order_trans reach_ge)
  from Cons show ?case
    by (auto intro: order_trans [OF reach_max ge])
qed simp

lemma after_twice: "after c (after c xs) = after c xs" "reach c (after c xs) = reach c xs"
  by (simp_all add: after_def reach_def)

lemma after_all: "(\<And>x. x \<in> set xs \<Longrightarrow> c < x) \<Longrightarrow> after c xs = xs"
  by (simp add: after_def)

lemma chain_two:
  assumes "sorted_wrt (<) (xs @ ys)"
  shows "chain c [xs, ys] = after c (xs @ ys)"
proof (cases "after c xs")
  case Nil
  then show ?thesis by (simp add: reach_def)
next
  case (Cons z zs)
  then have l: "reach c xs \<in> set (after c xs)" by (simp add: reach_def)
  then have "after (reach c xs) ys = ys" "after c ys = ys"
    using assms by (auto intro!: after_all simp: sorted_wrt_append intro: less_trans)
  then show ?thesis by simp
qed

lemma reach_Nil [simp]: "reach c [] = c"
  by (simp add: reach_def)

lemma chain_Nil [simp]: "chain c ([] # xss) = chain c xss"
  by (simp add: reach_def)

lemma chain_head:
  assumes "sorted_wrt (<) (x # xs)" "c < x"
  shows "chain c ((x # xs) # xss) = x # chain x (xs # xss)"
proof -
  have "after c xs = xs" "after x xs = xs" using assms by (auto intro!: after_all intro: less_trans)
  then show ?thesis using assms(2) by (simp add: reach_def)
qed

section \<open>The invariant\<close>

fun held :: "phase \<Rightarrow> u64 list" where
  "held (PSending x) = [x]"
| "held (PFlushSend k xs m) = xs"
| "held p = []"

fun phase_ok :: "phase \<Rightarrow> u64 \<Rightarrow> u64 list \<Rightarrow> bool" where
  "phase_ok (PSending x) cp nums \<longleftrightarrow> cp < x"
| "phase_ok (PSent x) cp nums \<longleftrightarrow> x \<in> set nums"
| "phase_ok (PSend xs) cp nums \<longleftrightarrow> sorted_wrt (<) xs \<and> (\<forall>x\<in>set xs. cp < x) \<and> set xs \<subseteq> set nums"
| "phase_ok (PAck x xs) cp nums \<longleftrightarrow>
     sorted_wrt (<) (x # xs) \<and> cp < x \<and> set (x # xs) \<subseteq> set nums"
| "phase_ok (PFlush m) cp nums \<longleftrightarrow> m = 0 \<or> m \<in> set nums"
| "phase_ok (PFlushSend k xs m) cp nums \<longleftrightarrow>
     k \<le> max cp m \<and> (\<forall>x\<in>set xs. k < x \<longrightarrow> max cp m < x) \<and> (m = 0 \<or> m \<in> set nums)"
| "phase_ok p cp nums \<longleftrightarrow> True"

definition view_ok :: "u64 \<Rightarrow> view \<Rightarrow> bool" where
  "view_ok n0 v \<longleftrightarrow>
     sorted_wrt (<) (vw_nums v) \<and> sorted_wrt (<) (vw_log v)
     \<and> sorted_wrt (<) (held (vw_phase v) @ vw_buf v @ vw_live v) \<and> sorted_wrt (<) (vw_out v)
     \<and> set (vw_log v) \<subseteq> set (vw_nums v) \<and> set (vw_out v) \<subseteq> set (vw_nums v)
     \<and> set (held (vw_phase v) @ vw_buf v @ vw_live v) \<subseteq> set (vw_nums v)
     \<and> phase_ok (vw_phase v) (vw_cp v) (vw_nums v)
     \<and> n0 \<le> vw_cp v \<and> (vw_cp v = n0 \<or> vw_cp v \<in> set (vw_nums v))
     \<and> (in_replay (vw_phase v) \<or> vw_buf v = [])
     \<and> (\<forall>x\<in>set (vw_out v). n0 < x \<and> x \<le> position (vw_phase v) (vw_cp v))"

text \<open>Every replayed record after the start has been sent or will be.\<close>

definition covered :: "u64 \<Rightarrow> view \<Rightarrow> bool" where
  "covered n0 v \<longleftrightarrow> (\<forall>x\<in>set (vw_log v). n0 < x \<longrightarrow> x \<in> set (vw_out v) \<or> x \<in> set (to_send v))"

text \<open>The sources before the log is read again, when it will be.\<close>

definition before_log :: "view \<Rightarrow> u64 list list" where
  "before_log v = (if vw_phase v = PReplay then [] else front (vw_phase v) (vw_log v) @ [vw_buf v])"

definition limit :: "view \<Rightarrow> u64" where
  "limit v = foldl reach (position (vw_phase v) (vw_cp v)) (before_log v)"

definition rereads :: "view \<Rightarrow> bool" where
  "rereads v \<longleftrightarrow> vw_lag v \<or> vw_phase v = PReplay"

definition sent_first :: "view \<Rightarrow> u64 list" where
  "sent_first v = chain (position (vw_phase v) (vw_cp v)) (before_log v)"

lemma to_send_rereads:
  assumes "rereads v"
  shows "\<exists>zss. to_send v = sent_first v @ chain (limit v) (vw_log v # zss)"
proof (cases "vw_phase v = PReplay")
  case True
  then have "to_send v = sent_first v @ chain (limit v) (vw_log v # rest v)"
    by (simp add: to_send_def sources_def before_log_def limit_def sent_first_def)
  then show ?thesis by blast
next
  case False
  then have "sources v = before_log v @ [vw_log v, vw_live v]"
    using assms by (simp add: sources_def before_log_def rest_def rereads_def)
  then have "to_send v = sent_first v @ chain (limit v) (vw_log v # [vw_live v])"
    by (simp only: to_send_def sent_first_def limit_def chain_append)
  then show ?thesis by blast
qed

lemma to_send_live:
  assumes "\<not> rereads v"
  shows "to_send v = sent_first v @ after (limit v) (vw_live v)"
proof -
  have "sources v = before_log v @ [vw_live v]"
    using assms by (simp add: sources_def before_log_def rest_def rereads_def)
  then show ?thesis by (simp add: to_send_def sent_first_def limit_def chain_append)
qed

lemma covered_rereads:
  assumes "rereads v"
  shows "covered n0 v \<longleftrightarrow> (\<forall>x\<in>set (vw_log v). n0 < x \<longrightarrow> x \<le> limit v \<longrightarrow>
      x \<in> set (vw_out v) \<or> x \<in> set (sent_first v))"
proof -
  obtain zss where t: "to_send v = sent_first v @ chain (limit v) (vw_log v # zss)"
    using to_send_rereads [OF assms] by blast
  have "x \<in> set (to_send v) \<longleftrightarrow> x \<in> set (sent_first v) \<or> limit v < x" if "x \<in> set (vw_log v)" for x
  proof -
    have "x \<in> set (chain (limit v) (vw_log v # zss)) \<longleftrightarrow> limit v < x"
      using that chain_gt [of x "limit v" "vw_log v # zss"] by (auto simp del: chain_Nil)
    then show ?thesis by (simp only: t set_append Un_iff)
  qed
  then show ?thesis unfolding covered_def by (meson leD le_less_linear)
qed

lemma covered_limit:
  assumes "covered n0 v" "x \<in> set (vw_log v)" "n0 < x" "x \<le> limit v"
  shows "x \<in> set (vw_out v) \<or> x \<in> set (sent_first v)"
proof (cases "rereads v")
  case True
  then show ?thesis using assms covered_rereads by blast
next
  case False
  then show ?thesis using assms to_send_live by (fastforce simp: covered_def)
qed

lemma foldl_reach_in: "foldl reach c xss = c \<or> foldl reach c xss \<in> \<Union> (set ` set xss)"
proof (induction xss arbitrary: c)
  case (Cons xs xss)
  show ?case using Cons.IH [of "reach c xs"] reach_in [of c xs] by (elim disjE) simp_all
qed simp

lemma position_in:
  assumes "phase_ok p cp nums" "cp = n0 \<or> cp \<in> set nums"
  shows "position p cp = n0 \<or> position p cp \<in> set nums"
proof -
  have z: "max cp m \<in> {n0} \<union> set nums" if "m = 0 \<or> m \<in> set nums" for m
  proof (cases "cp \<le> m \<and> m \<noteq> 0")
    case False
    then have "max cp m = cp" by (auto simp: max_def)
    then show ?thesis using assms(2) by auto
  qed (use that in \<open>simp add: max_def\<close>)
  show ?thesis
  proof (cases p)
    case (PSent x)
    then show ?thesis using z [of x] assms(1) by simp
  next
    case (PAck x xs)
    then show ?thesis using z [of x] assms(1) by simp
  next
    case (PFlush m)
    then show ?thesis using z [of m] assms(1) by simp
  next
    case (PFlushSend k xs m)
    then show ?thesis using z [of m] assms(1) by simp
  qed (use assms(2) in simp_all)
qed

lemma limit_in:
  assumes "view_ok n0 v"
  shows "limit v = n0 \<or> limit v \<in> set (vw_nums v)"
proof (cases "limit v = position (vw_phase v) (vw_cp v)")
  case True
  have "position (vw_phase v) (vw_cp v) = n0 \<or> position (vw_phase v) (vw_cp v) \<in> set (vw_nums v)"
    using assms by (intro position_in) (simp_all add: view_ok_def)
  with True show ?thesis by simp
next
  case False
  then have "limit v \<in> \<Union> (set ` set (before_log v))"
    using foldl_reach_in [of "position (vw_phase v) (vw_cp v)" "before_log v"]
    by (simp add: limit_def)
  moreover have "\<Union> (set ` set (before_log v)) \<subseteq> set (vw_nums v)"
  proof -
    have "phase_ok (vw_phase v) (vw_cp v) (vw_nums v)" "set (vw_buf v) \<subseteq> set (vw_nums v)"
      "set (held (vw_phase v)) \<subseteq> set (vw_nums v)"
      using assms by (simp_all add: view_ok_def)
    then show ?thesis by (cases "vw_phase v") (simp_all add: before_log_def)
  qed
  ultimately have "limit v \<in> set (vw_nums v)" by (rule rev_subsetD)
  then show ?thesis by simp
qed

section \<open>Every step keeps the invariant\<close>

lemma view_okD:
  assumes "view_ok n0 v"
  shows "sorted_wrt (<) (vw_nums v)" "sorted_wrt (<) (vw_log v)"
    "sorted_wrt (<) (held (vw_phase v) @ vw_buf v @ vw_live v)" "sorted_wrt (<) (vw_out v)"
    "set (vw_log v) \<subseteq> set (vw_nums v)" "set (vw_out v) \<subseteq> set (vw_nums v)"
    "set (held (vw_phase v)) \<subseteq> set (vw_nums v)" "set (vw_buf v) \<subseteq> set (vw_nums v)"
    "set (vw_live v) \<subseteq> set (vw_nums v)"
    "phase_ok (vw_phase v) (vw_cp v) (vw_nums v)"
    "n0 \<le> vw_cp v" "vw_cp v = n0 \<or> vw_cp v \<in> set (vw_nums v)"
    "in_replay (vw_phase v) \<or> vw_buf v = []"
    "\<forall>x\<in>set (vw_out v). n0 < x \<and> x \<le> position (vw_phase v) (vw_cp v)"
  using assms by (simp_all add: view_ok_def)

lemma phase_ok_mono: "phase_ok p cp nums \<Longrightarrow> set nums \<subseteq> set nums' \<Longrightarrow> phase_ok p cp nums'"
  by (cases p) auto

lemma in_replay_simps [simp]:
  "\<not> in_replay PIdle" "\<not> in_replay (PSending x)" "\<not> in_replay (PSent x)" "in_replay PReplay"
  "in_replay (PSend xs)" "in_replay (PAck x xs)" "in_replay (PFlush m)" "in_replay (PFlushSend k xs m)"
  by (simp_all add: in_replay_def)

lemma max_word_0 [simp]: "max c 0 = c" for c :: u64
  by (simp add: max_def)

lemma position_ge: "c \<le> position p c"
  by (cases p) simp_all

lemma sorted_wrt_snoc: "sorted_wrt (<) (xs @ [x]) \<longleftrightarrow> sorted_wrt (<) xs \<and> (\<forall>y\<in>set xs. y < x)"
  by (auto simp: sorted_wrt_append)

lemma view_ok_step:
  assumes "view_step v v'" "view_ok n0 v"
  shows "view_ok n0 v'"
  using assms
proof cases
  case (vs_write n rep)
  note ok = view_okD [OF assms(2)]
  have "phase_ok (vw_phase v) (vw_cp v) (vw_nums v @ [n])"
    using ok(10) by (rule phase_ok_mono) auto
  with ok vs_write show ?thesis
    by (simp add: view_ok_def sorted_wrt_append) blast
next
  case (vs_drop ys x)
  note ok = view_okD [OF assms(2)]
  from vs_drop ok show ?thesis
    by (simp add: view_ok_def) (elim disjE; simp add: sorted_wrt_append)
next
  case (vs_skip x xs)
  with view_okD [OF assms(2)] show ?thesis by (simp add: view_ok_def)
next
  case (vs_take x xs)
  with view_okD [OF assms(2)] show ?thesis by (simp add: view_ok_def)
next
  case (vs_sent x)
  with view_okD [OF assms(2)] show ?thesis
    by (simp add: view_ok_def sorted_wrt_snoc) (auto intro: le_less_trans less_imp_le)
next
  case (vs_acked x)
  with view_okD [OF assms(2)] show ?thesis
    by (simp add: view_ok_def) (auto simp: max_def)
next
  case (vs_buffer x xs)
  with view_okD [OF assms(2)] show ?thesis by (simp add: view_ok_def sorted_wrt_append)
next
  case vs_catch
  with view_okD [OF assms(2)] show ?thesis by (simp add: view_ok_def)
next
  case vs_read
  with view_okD [OF assms(2)] show ?thesis
    by (simp add: view_ok_def sorted_wrt_filter) blast
next
  case (vs_send x xs)
  with view_okD [OF assms(2)] show ?thesis
    by (simp add: view_ok_def sorted_wrt_snoc) (auto intro: le_less_trans less_imp_le)
next
  case (vs_ack x xs)
  with view_okD [OF assms(2)] show ?thesis
    by (simp add: view_ok_def) (auto simp: max_def)
next
  case vs_replayed
  with view_okD [OF assms(2)] show ?thesis by (simp add: view_ok_def)
next
  case (vs_done m)
  with view_okD [OF assms(2)] show ?thesis
    by (simp add: view_ok_def) (auto simp: max_def)
next
  case (vs_flush m)
  with view_okD [OF assms(2)] show ?thesis
    by (simp add: view_ok_def)
next
  case (vs_old k x xs m)
  with view_okD [OF assms(2)] show ?thesis by (simp add: view_ok_def)
next
  case (vs_buffered k x xs m)
  note ok = view_okD [OF assms(2)]
  have lt: "vw_cp v < x" "m < x" "k < x" using ok(10) vs_buffered by simp_all
  then have e: "max m x = x" "max (vw_cp v) x = x" by (simp_all add: max.absorb2 less_imp_le)
  have out: "\<forall>y\<in>set (vw_out v). n0 < y \<and> y < x"
    using ok(14) vs_buffered lt by (auto simp: max_def split: if_splits)
  have n0: "n0 < x" using ok(11) lt by simp
  from ok vs_buffered lt out n0 show ?thesis
    by (simp add: view_ok_def sorted_wrt_snoc e) (blast intro: less_imp_le)
next
  case (vs_round k m)
  with view_okD [OF assms(2)] show ?thesis
    by (simp add: view_ok_def) (auto simp: max_def)
qed

lemma covered_same:
  assumes "covered n0 v" "vw_log v' = vw_log v" "set (vw_out v) \<subseteq> set (vw_out v')"
    and "set (to_send v) \<subseteq> set (vw_out v') \<union> set (to_send v')"
  shows "covered n0 v'"
  unfolding covered_def
proof (intro ballI impI)
  fix x assume "x \<in> set (vw_log v')" "n0 < x"
  then have "x \<in> set (vw_out v) \<or> x \<in> set (to_send v)" using assms(1,2) by (simp add: covered_def)
  then show "x \<in> set (vw_out v') \<or> x \<in> set (to_send v')"
    using subsetD [OF assms(3), of x] subsetD [OF assms(4), of x] by (elim disjE) simp_all
qed

lemma chain_buffer:
  assumes "sorted_wrt (<) (b @ x # xs)"
  shows "chain c (xss @ [b @ [x], xs]) = chain c (xss @ [b, x # xs])"
  using chain_two [of "b @ [x]" xs] chain_two [of b "x # xs"] assms
  by (simp only: chain_append append_assoc append_Cons append_Nil)

lemma covered_write:
  assumes "covered n0 v" "view_ok n0 v" "\<forall>x\<in>set (vw_nums v). x < n"
  shows "covered n0 (v\<lparr>vw_nums := vw_nums v @ [n], vw_log := vw_log v @ (if rep then [n] else []),
                   vw_live := vw_live v @ [n]\<rparr>)" (is "covered n0 ?v")
proof -
  have L: "limit v < n" if "n0 < n" using limit_in [OF assms(2)] assms(3) that by auto
  have "before_log ?v = before_log v" by (cases "vw_phase v") (simp_all add: before_log_def)
  then have same: "rereads ?v = rereads v" "limit ?v = limit v" "sent_first ?v = sent_first v"
    by (simp_all add: rereads_def limit_def sent_first_def)
  show ?thesis
  proof (cases "rereads v")
    case True
    then have r: "rereads ?v" using same by simp
    show ?thesis unfolding covered_rereads [OF r] same
      using L covered_limit [OF assms(1)] by auto
  next
    case False
    then have t: "to_send ?v = to_send v @ (if limit v < n then [n] else [])"
      by (simp add: to_send_live same)
    show ?thesis unfolding covered_def t
    proof (intro ballI impI)
      fix x assume x: "x \<in> set (vw_log ?v)" "n0 < x"
      then consider "x \<in> set (vw_log v)" | "x = n" by (auto split: if_splits)
      then show "x \<in> set (vw_out ?v) \<or> x \<in> set (to_send v @ (if limit v < n then [n] else []))"
      proof cases
        case 1
        then have "x \<in> set (vw_out v) \<or> x \<in> set (to_send v)"
          using assms(1) x(2) by (simp add: covered_def)
        then show ?thesis by (elim disjE) simp_all
      next
        case 2
        with x L show ?thesis by simp
      qed
    qed
  qed
qed

lemma covered_step:
  assumes "view_step v v'" "view_ok n0 v" "covered n0 v"
  shows "covered n0 v'"
  using assms
proof cases
  case (vs_write n rep)
  then show ?thesis using covered_write [OF assms(3,2), of n rep] by simp
next
  case (vs_drop ys x)
  have r: "rereads v'" using vs_drop by (simp add: rereads_def)
  have same: "limit v' = limit v" "sent_first v' = sent_first v" "vw_log v' = vw_log v" "vw_out v' = vw_out v"
    using vs_drop by (simp_all add: limit_def sent_first_def before_log_def)
  show ?thesis unfolding covered_rereads [OF r] same using covered_limit [OF assms(3)] by blast
next
  case (vs_skip x xs)
  have "vw_buf v = []" "\<not> vw_cp v < x" using view_okD(13) [OF assms(2)] vs_skip by simp_all
  with vs_skip show ?thesis
    by (intro covered_same [OF assms(3)]) (simp_all add: to_send_def sources_def rest_def reach_def)
next
  case (vs_take x xs)
  have "vw_buf v = []" "after x xs = xs" "after (vw_cp v) xs = xs" 
    using view_okD(3,13) [OF assms(2)] vs_take by (auto intro!: after_all intro: less_trans)
  with vs_take show ?thesis
    by (intro covered_same [OF assms(3)]) (auto simp: to_send_def sources_def rest_def reach_def)
next
  case (vs_sent x)
  then show ?thesis using view_okD(10) [OF assms(2)]
    by (intro covered_same [OF assms(3)])
      (auto simp: to_send_def sources_def rest_def reach_def)
next
  case (vs_acked x)
  then have "to_send v' = to_send v" by (simp add: to_send_def sources_def rest_def)
  then show ?thesis using vs_acked by (intro covered_same [OF assms(3)]) simp_all
next
  case (vs_buffer x xs)
  have "sources v' = front (vw_phase v) (vw_log v) @ [vw_buf v @ [x], xs]"
    "sources v = front (vw_phase v) (vw_log v) @ [vw_buf v, x # xs]"
    using vs_buffer by (simp_all add: sources_def rest_def)
  moreover have "sorted_wrt (<) (vw_buf v @ x # xs)"
    using view_okD(3) [OF assms(2)] vs_buffer by (simp add: sorted_wrt_append)
  moreover have "vw_phase v' = vw_phase v" "vw_cp v' = vw_cp v" using vs_buffer by simp_all
  ultimately have "to_send v' = to_send v"
    using chain_buffer [of "vw_buf v" x xs] by (simp only: to_send_def)
  then show ?thesis using vs_buffer by (intro covered_same [OF assms(3)]) simp_all
next
  case vs_catch
  have "vw_buf v = []" using view_okD(13) [OF assms(2)] vs_catch by simp
  then have "to_send v' = to_send v" using vs_catch by (simp add: to_send_def sources_def rest_def)
  then show ?thesis using vs_catch by (intro covered_same [OF assms(3)]) simp_all
next
  case vs_read
  then have "to_send v' = to_send v"
    by (simp add: to_send_def sources_def rest_def after_twice flip: after_def)
  then show ?thesis using vs_read by (intro covered_same [OF assms(3)]) simp_all
next
  case (vs_send x xs)
  then have lt: "sorted_wrt (<) (x # xs)" "vw_cp v < x" using view_okD(10) [OF assms(2)] by auto
  then have "max (vw_cp v) x = x" by (simp add: max.absorb2 less_imp_le)
  moreover have "chain (vw_cp v) ((x # xs) # rest v) = x # chain x (xs # rest v)"
    using chain_head [OF lt] .
  ultimately have "to_send v = x # to_send v'"
    using vs_send by (simp add: to_send_def sources_def rest_def del: chain.simps)
  then show ?thesis using vs_send by (intro covered_same [OF assms(3)]) auto
next
  case (vs_ack x xs)
  then have "to_send v' = to_send v" by (simp add: to_send_def sources_def rest_def)
  then show ?thesis using vs_ack by (intro covered_same [OF assms(3)]) simp_all
next
  case vs_replayed
  then have "to_send v' = to_send v" by (simp add: to_send_def sources_def rest_def)
  then show ?thesis using vs_replayed by (intro covered_same [OF assms(3)]) simp_all
next
  case (vs_done m)
  then have "to_send v' = to_send v" by (simp add: to_send_def sources_def rest_def)
  then show ?thesis using vs_done by (intro covered_same [OF assms(3)]) simp_all
next
  case (vs_flush m)
  then have "to_send v' = to_send v" by (simp add: to_send_def sources_def rest_def)
  then show ?thesis using vs_flush by (intro covered_same [OF assms(3)]) simp_all
next
  case (vs_old k x xs m)
  have "k \<le> max (vw_cp v) m" using view_okD(10) [OF assms(2)] vs_old by simp
  then have "\<not> max (vw_cp v) m < x" using vs_old by (metis leD order_trans)
  then have "to_send v' = to_send v" using vs_old
    by (simp add: to_send_def sources_def rest_def reach_def del: max_less_iff_conj)
  then show ?thesis using vs_old by (intro covered_same [OF assms(3)]) simp_all
next
  case (vs_buffered k x xs m)
  have lt: "sorted_wrt (<) (x # xs)" "max (vw_cp v) m < x"
    using view_okD(3,10) [OF assms(2)] vs_buffered by (simp_all add: sorted_wrt_append)
  then have "max (vw_cp v) (max m x) = x" by (simp add: max.absorb2 less_imp_le)
  moreover have "chain (max (vw_cp v) m) ((x # xs) # rest v) = x # chain x (xs # rest v)"
    using chain_head [OF lt] .
  ultimately have "to_send v = x # to_send v'"
    using vs_buffered by (simp add: to_send_def sources_def rest_def del: chain.simps)
  then show ?thesis using vs_buffered by (intro covered_same [OF assms(3)]) auto
next
  case (vs_round k m)
  then have "to_send v' = to_send v" by (simp add: to_send_def sources_def rest_def)
  then show ?thesis using vs_round by (intro covered_same [OF assms(3)]) simp_all
qed

text \<open>What the invariant gives: the order, no gap at any moment, and completeness when all is quiet.\<close>

lemma view_start:
  assumes "sorted_wrt (<) (vw_nums v)" "sorted_wrt (<) (vw_log v)" "set (vw_log v) \<subseteq> set (vw_nums v)"
    and "sorted_wrt (<) (vw_live v)" "set (vw_live v) \<subseteq> set (vw_nums v)"
    and "vw_phase v = PReplay" "vw_buf v = []" "vw_out v = []" "vw_cp v = n0"
  shows "view_ok n0 v" "covered n0 v"
  using assms
  by (simp_all add: view_ok_def covered_def to_send_def sources_def)

lemma view_gap_free:
  assumes "view_ok n0 v" "covered n0 v" "y \<in> set (vw_out v)" "x \<in> set (vw_log v)" "n0 < x" "x < y"
  shows "x \<in> set (vw_out v)"
proof (rule ccontr)
  assume "x \<notin> set (vw_out v)"
  then have "x \<in> set (to_send v)" using assms by (auto simp: covered_def)
  then have "position (vw_phase v) (vw_cp v) < x" unfolding to_send_def by (rule chain_gt)
  moreover have "y \<le> position (vw_phase v) (vw_cp v)" using view_okD(14) [OF assms(1)] assms(3) by blast
  ultimately show False using assms(6) by simp
qed

lemma view_complete:
  assumes "covered n0 v" "view_ok n0 v" "vw_phase v = PIdle" "\<not> vw_lag v" "vw_live v = []"
    and "x \<in> set (vw_log v)" "n0 < x"
  shows "x \<in> set (vw_out v)"
proof -
  have "vw_buf v = []" using view_okD(13) [OF assms(2)] assms(3) by simp
  then have "to_send v = []" using assms(3-5) by (simp add: to_send_def sources_def rest_def)
  then show ?thesis using assms by (auto simp: covered_def)
qed

end
