(* ===== verification/EventLogProperties.thy ===== *)
theory EventLogProperties
  imports EventLog
begin

text \<open>
  What the event log guarantees: the numbers of a log increase over restarts, failed writes and
  clean-ups of the writer's table; replay returns exactly the shown events after a checkpoint; a
  fork starts with its own consecutive numbers; and which events and which usage the readers get
  wrong.
\<close>

section \<open>Newlines and characters\<close>

abbreviation (input) nl :: char where "nl \<equiv> CHR 0x0A"

lemma newline_no_cont [simp]: "\<not> is_cont nl" "\<not> second_ok b nl" "utf8_width nl = 1"
  by (simp_all add: is_cont_def second_ok_def utf8_width_def byte_def Let_def)

lemma take_until_newline:
  "takeWhile is_cont (take n (zs @ nl # ys)) = takeWhile is_cont (take n zs)"
proof (induction zs arbitrary: n)
  case Nil
  then show ?case by (cases n) simp_all
next
  case (Cons z zs)
  then show ?case by (cases n) simp_all
qed

lemma utf8_chunk_newline: "utf8_chunk b (bs @ nl # ys) = utf8_chunk b bs"
  by (cases bs) (simp_all add: utf8_chunk_def Let_def take_until_newline del: take_append)

lemma utf8_chunks_newline:
  "utf8_chunks (xs @ nl # ys) = utf8_chunks xs @ (True, [nl]) # utf8_chunks ys"
proof (induction xs rule: utf8_chunks.induct)
  case 1
  have "utf8_chunk nl ys = (True, 1)" by (simp add: utf8_chunk_def)
  then show ?case by simp
next
  case (2 b bs)
  obtain v k where c: "utf8_chunk b bs = (v, k)" by (metis surj_pair)
  note k = utf8_chunk_bounds [OF c]
  from 2 [OF c [symmetric]] k show ?case
    by (simp add: c utf8_chunk_newline drop_Cons' take_Cons')
qed

lemma utf8_valid_newline: "utf8_valid (xs @ nl # ys) \<longleftrightarrow> utf8_valid xs \<and> utf8_valid ys"
  by (simp add: utf8_valid_def utf8_chunks_newline)

lemma concat_chunks: "concat (map snd (utf8_chunks s)) = s"
proof (induction s rule: utf8_chunks.induct)
  case (2 b bs)
  then show ?case by (cases "utf8_chunk b bs") simp
qed simp

lemma utf8_lossy_valid: "utf8_valid s \<Longrightarrow> utf8_lossy s = s"
proof -
  assume v: "utf8_valid s"
  have "map (\<lambda>(v, bs). if v then bs else replacement) cs = map snd cs" if "list_all fst cs" for cs
    using that by (induction cs) auto
  from this [of "utf8_chunks s"] v concat_chunks [of s] show ?thesis
    by (simp only: utf8_valid_def utf8_lossy_def)
qed

lemma utf8_lossy_newline: "utf8_lossy (xs @ nl # ys) = utf8_lossy xs @ nl # utf8_lossy ys"
  by (simp add: utf8_lossy_def utf8_chunks_newline)

lemma utf8_lossy_no_newline: "nl \<notin> set xs \<Longrightarrow> nl \<notin> set (utf8_lossy xs)"
proof -
  assume n: "nl \<notin> set xs"
  have "set bs \<subseteq> set xs" if "(v, bs) \<in> set (utf8_chunks xs)" for v bs
    using that concat_chunks [of xs] by (metis UN_upper image_eqI set_concat set_map snd_conv)
  then show ?thesis using n
    by (auto simp: utf8_lossy_def replacement_def split: if_splits)
qed

section \<open>Lines\<close>

lemma lines_aux_newline:
  "lines_aux acc (xs @ nl # ys) = lines_aux acc (xs @ [nl]) @ str_lines ys"
proof (induction xs arbitrary: acc)
  case (Cons x xs)
  then show ?case by (simp only: lines_aux.simps append_Cons Cons.IH append_assoc split: if_split) simp
qed (simp add: str_lines_def)

lemma str_lines_newline: "str_lines (xs @ nl # ys) = str_lines (xs @ [nl]) @ str_lines ys"
  unfolding str_lines_def by (rule lines_aux_newline [unfolded str_lines_def])

lemma str_lines_line:
  assumes "nl \<notin> set l" "l = [] \<or> last l \<noteq> CHR 0x0D"
  shows "str_lines (l @ [nl]) = [l]"
proof -
  have "lines_aux acc (l @ [nl]) = [rev acc @ l]"
    if "nl \<notin> set l" "rev acc @ l = [] \<or> last (rev acc @ l) \<noteq> CHR 0x0D" for acc l
    using that
  proof (induction l arbitrary: acc)
    case Nil
    then show ?case by (cases acc) auto
  next
    case (Cons c cs)
    from Cons.IH [of "c # acc"] Cons.prems show ?case by auto
  qed
  from this [of l "[]"] assms show ?thesis by (simp add: str_lines_def)
qed

section \<open>The next number\<close>

lemma line_seqs_newline:
  "line_seqs parse (xs @ nl # ys) = line_seqs parse (xs @ [nl]) @ line_seqs parse ys"
  unfolding line_seqs_def str_lines_newline [of xs ys] by (simp add: List.map_filter_def)

lemma scan_max_sorted:
  assumes "sorted (line_seqs parse s)"
  shows "scan_max_seq parse s =
    (if line_seqs parse s = [] then None else Some (last (line_seqs parse s)))"
proof -
  have "foldl max a xs = last (a # xs)" if "sorted (a # xs)" for a :: u64 and xs
    using that by (induction xs arbitrary: a) (auto simp: max_def)
  then show ?thesis using assms by (auto simp: scan_max_seq_def split: list.split)
qed

lemma after_newline_split:
  "after_newline s = Some ys \<longleftrightarrow> (\<exists>xs. s = xs @ nl # ys \<and> nl \<notin> set xs)"
proof
  assume "after_newline s = Some ys"
  then have "dropWhile (\<lambda>c. c \<noteq> nl) s = nl # ys"
    by (auto simp: after_newline_def dropWhile_eq_Cons_conv split: list.splits)
  then show "\<exists>xs. s = xs @ nl # ys \<and> nl \<notin> set xs" by (auto simp: dropWhile_eq_Cons_conv dest: set_takeWhileD)
next
  assume "\<exists>xs. s = xs @ nl # ys \<and> nl \<notin> set xs"
  then obtain xs where s: "s = xs @ nl # ys" "nl \<notin> set xs" by blast
  then have "dropWhile (\<lambda>c. c \<noteq> nl) s = nl # ys" by (induction xs arbitrary: s) auto
  then show "after_newline s = Some ys" by (simp add: after_newline_def)
qed

text \<open>What the tail finds is the number of the last line with one, or nothing.\<close>

lemma tail_max:
  assumes "utf8_valid s" "sorted (line_seqs parse s)" "max_seq_in_tail parse io s = Some m"
  shows "line_seqs parse s \<noteq> [] \<and> m = last (line_seqs parse s)"
proof (cases "TAIL < length s")
  case False
  then show ?thesis
    using assms scan_max_sorted [OF assms(2)]
    by (simp add: max_seq_in_tail_def utf8_lossy_valid split: if_splits)
next
  case True
  let ?tail = "drop (length s - TAIL) s"
  from True assms(3) have m: "scan_max_seq parse (unwrap_or (after_newline (utf8_lossy ?tail)) []) = Some m"
    by (simp add: max_seq_in_tail_def split: if_splits)
  show ?thesis
  proof (cases "nl \<in> set ?tail")
    case False
    then have "after_newline (utf8_lossy ?tail) = None"
      using utf8_lossy_no_newline after_newline_split [of "utf8_lossy ?tail"]
      by (metis in_set_conv_decomp not_Some_eq)
    with m show ?thesis by (simp add: scan_max_seq_def line_seqs_def str_lines_def List.map_filter_simps)
  next
    case True
    then obtain xs ys where t: "?tail = xs @ nl # ys" "nl \<notin> set xs" by (metis split_list_first)
    then have s: "s = (take (length s - TAIL) s @ xs) @ nl # ys" by (metis append_assoc append_take_drop_id)
    with assms(1) have v: "utf8_valid ys" using utf8_valid_newline by metis
    have "utf8_lossy ?tail = utf8_lossy xs @ nl # ys"
      by (simp add: t utf8_lossy_newline utf8_lossy_valid [OF v])
    then have "after_newline (utf8_lossy ?tail) = Some ys"
      using utf8_lossy_no_newline [OF t(2)] after_newline_split by blast
    with m have y: "scan_max_seq parse ys = Some m" by simp
    have "line_seqs parse s = line_seqs parse ((take (length s - TAIL) s @ xs) @ [nl]) @ line_seqs parse ys"
      by (subst s) (rule line_seqs_newline)
    with assms(2) y scan_max_sorted [of parse ys] show ?thesis
      by (auto simp: sorted_append split: if_splits)
  qed
qed

text \<open>
  C28: the next number of a log.  For a file that is valid UTF-8 and whose numbers do not decrease,
  the shortcut that reads only the last four kilobytes, cutting through a line and perhaps through
  a character, gives the same answer as reading everything: one more than the last number, and 1
  for a log without numbers.
\<close>

theorem next_seq_after_last:
  assumes "files r = Some s" "utf8_valid s" "sorted (line_seqs parse s)" "li_meta io" "li_read io"
  shows "next_seq parse io files r =
    (if line_seqs parse s = [] then 1 else last (line_seqs parse s) + 1)"
proof (cases "max_seq_in_tail parse io s")
  case None
  then show ?thesis using assms scan_max_sorted [OF assms(3)]
    by (auto simp: next_seq_def line_seqs_def str_lines_def List.map_filter_simps)
next
  case (Some m)
  then show ?thesis using assms tail_max [OF assms(2,3) Some]
    by (auto simp: next_seq_def line_seqs_def str_lines_def List.map_filter_simps)
qed

section \<open>Numbers over the life of a log\<close>

text \<open>
  What the log relies on of the JSON library: a record is printed on one line of valid UTF-8 that is
  not blank, and the line parses to a value with the same number.
\<close>

definition prints_line :: "(string \<Rightarrow> json option) \<Rightarrow> (json \<Rightarrow> string) \<Rightarrow> json \<Rightarrow> bool" where
  "prints_line parse shw j \<longleftrightarrow>
     (let l = shw j in
      nl \<notin> set l \<and> CHR 0x0D \<notin> set l \<and> utf8_valid l \<and> str_trim l \<noteq> []
      \<and> Option.bind (parse l) (\<lambda>v. get_u64 v ''seq'') = get_u64 j ''seq'')"

definition numbered :: "(u64 \<Rightarrow> json) \<Rightarrow> bool" where
  "numbered mk \<longleftrightarrow> (\<forall>n. get_u64 (mk n) ''seq'' = Some n)"

lemma writers_number:
  "numbered (bus_envelope ts ev)"
  "numbered (run_event_json \<circ> (\<lambda>n. \<lparr> re_id = i, re_task_id = r, re_seq = n, re_event_type = t,
     re_payload = p, re_timestamp = ts \<rparr>))"
  by (simp_all add: numbered_def bus_envelope_def run_event_json_def json_num_def get_u64_def)

text \<open>What happens to the logs: writes with their outcome, and restarts of the program.\<close>

datatype log_op = LWrite string "u64 \<Rightarrow> json" append_outcome "string set" | LRestart

fun log_step :: "(string \<Rightarrow> json option) \<Rightarrow> (json \<Rightarrow> string) \<Rightarrow> log_op \<Rightarrow> event_writer \<times> logs
    \<Rightarrow> event_writer \<times> logs" where
  "log_step parse shw (LWrite r mk res held) s = snd (write_record parse shw io_good held res r mk s)"
| "log_step parse shw LRestart s = ([], snd s)"

fun log_op_ok :: "(string \<Rightarrow> json option) \<Rightarrow> (json \<Rightarrow> string) \<Rightarrow> log_op \<Rightarrow> bool" where
  "log_op_ok parse shw (LWrite r mk res held) =
     (numbered mk \<and> (\<forall>n. prints_line parse shw (mk n)) \<and> (\<forall>n e. res \<noteq> ApPartial n e))"
| "log_op_ok parse shw LRestart = True"

fun writes_to :: "string \<Rightarrow> log_op \<Rightarrow> nat" where
  "writes_to r (LWrite r' mk res held) = (if r' = r \<and> res = ApOk then 1 else 0)"
| "writes_to r LRestart = 0"

text \<open>A log that is in order, with numbers up to \<open>k\<close>, and a table that is ahead of the logs.\<close>

definition file_ok :: "(string \<Rightarrow> json option) \<Rightarrow> nat \<Rightarrow> string \<Rightarrow> bool" where
  "file_ok parse k s \<longleftrightarrow>
     utf8_valid s \<and> (s = [] \<or> last s = nl) \<and> sorted_wrt (<) (line_seqs parse s)
     \<and> (\<forall>x\<in>set (line_seqs parse s). unat x \<le> k)"

definition table_ok :: "(string \<Rightarrow> json option) \<Rightarrow> nat \<Rightarrow> event_writer \<Rightarrow> logs \<Rightarrow> bool" where
  "table_ok parse k w files \<longleftrightarrow>
     (\<forall>r n. map_of w r = Some n \<longrightarrow> 0 < n \<and> unat n \<le> Suc k
        \<and> (\<forall>x\<in>set (line_seqs parse (unwrap_or (files r) [])). x < n))"

definition logs_ok :: "(string \<Rightarrow> json option) \<Rightarrow> nat \<Rightarrow> event_writer \<times> logs \<Rightarrow> bool" where
  "logs_ok parse k s \<longleftrightarrow>
     (\<forall>r. file_ok parse k (unwrap_or (snd s r) [])) \<and> table_ok parse k (fst s) (snd s)"

lemma line_seqs_Nil [simp]: "line_seqs parse [] = []"
  by (simp add: line_seqs_def str_lines_def List.map_filter_simps)

lemma line_seqs_append:
  assumes "s = [] \<or> last s = nl" "prints_line parse shw j" "get_u64 j ''seq'' = Some n"
  shows "line_seqs parse (s @ shw j @ [nl]) = line_seqs parse s @ [n]"
proof -
  have l: "line_seqs parse (shw j @ [nl]) = [n]"
  proof -
    have "str_lines (shw j @ [nl]) = [shw j]"
      using assms(2) by (intro str_lines_line) (auto simp: prints_line_def Let_def dest: last_in_set)
    then show ?thesis using assms(2,3)
      by (simp add: line_seqs_def prints_line_def Let_def List.map_filter_simps)
  qed
  show ?thesis
  proof (cases "s = []")
    case False
    with assms(1) obtain xs where "s = xs @ [nl]" by (metis append_butlast_last_id)
    then show ?thesis using line_seqs_newline [of parse xs "shw j @ [nl]"] l by simp
  qed (simp add: l)
qed

lemma sorted_le_last: "sorted xs \<Longrightarrow> x \<in> set xs \<Longrightarrow> x \<le> last xs" for xs :: "u64 list"
  by (induction xs) auto

lemma map_of_keep: "map_of (filter (\<lambda>(r, n). r \<in> held) w) r = (if r \<in> held then map_of w r else None)"
  by (induction w) auto

lemma next_number:
  assumes "logs_ok parse k (w, files)" "k + 2 < 2 ^ 64"
    and "run_seq parse io_good held files r w = (n, w1)"
  shows "unat n \<le> Suc k" "\<forall>x\<in>set (line_seqs parse (unwrap_or (files r) [])). x < n"
    "table_ok parse k w1 files" "0 < n"
proof -
  let ?s = "unwrap_or (files r) []"
  have f: "file_ok parse k ?s" and t: "table_ok parse k w files"
    using assms(1) by (simp_all add: logs_ok_def)
  define w0 where "w0 = (if 50 < length w then filter (\<lambda>(r, n). r \<in> held) w else w)"
  have t0: "table_ok parse k w0 files" using t by (auto simp: table_ok_def w0_def map_of_keep)
  have nx: "0 < next_seq parse io_good files r \<and> unat (next_seq parse io_good files r) \<le> Suc k
    \<and> (\<forall>x\<in>set (line_seqs parse ?s). x < next_seq parse io_good files r)"
  proof (cases "files r")
    case None
    then show ?thesis by (simp add: next_seq_def)
  next
    case (Some s)
    have so: "sorted_wrt (<) (line_seqs parse s)" and v: "utf8_valid s"
      and b: "\<forall>x\<in>set (line_seqs parse s). unat x \<le> k"
      using f Some by (simp_all add: file_ok_def)
    have "sorted (line_seqs parse s)"
      using so by (rule sorted_wrt_mono_rel [rotated]) simp
    note n = next_seq_after_last [where files = files and r = r and io = io_good, OF Some v this]
    show ?thesis
    proof (cases "line_seqs parse s = []")
      case True
      then show ?thesis using n Some by (simp add: io_good_def)
    next
      case False
      let ?m = "last (line_seqs parse s)"
      have m: "unat ?m \<le> k" using b False by simp
      then have u: "unat (?m + 1) = Suc (unat ?m)"
        using assms(2) by (simp add: unat_word_ariths)
      have "x \<le> ?m" if "x \<in> set (line_seqs parse s)" for x
        using sorted_le_last [OF \<open>sorted (line_seqs parse s)\<close> that] .
      then have "x < ?m + 1" if "x \<in> set (line_seqs parse s)" for x
        using that u by (metis le_imp_less_Suc word_le_nat_alt word_less_nat_alt)
      moreover have "0 < ?m + 1" using u by (simp add: word_less_nat_alt)
      ultimately show ?thesis using n False Some m u by (simp add: io_good_def)
    qed
  qed
  have "(case map_of w0 r of Some n \<Rightarrow> (n, w0)
      | None \<Rightarrow> (let n = next_seq parse io_good files r in (n, hm_insert r n w0))) = (n, w1)"
    using assms(3) unfolding run_seq_def Let_def w0_def [symmetric] by simp
  then consider "map_of w0 r = Some n" "w1 = w0"
    | "n = next_seq parse io_good files r" "w1 = hm_insert r n w0"
    by (auto simp: Let_def split: option.splits)
  then have "unat n \<le> Suc k \<and> (\<forall>x\<in>set (line_seqs parse ?s). x < n) \<and> table_ok parse k w1 files \<and> 0 < n"
  proof cases
    case 1
    with t0 show ?thesis by (auto simp: table_ok_def)
  next
    case 2
    then show ?thesis using t0 nx by (auto simp: table_ok_def)
  qed
  then show "unat n \<le> Suc k" "\<forall>x\<in>set (line_seqs parse ?s). x < n" "table_ok parse k w1 files"
    "0 < n"
    by blast+
qed

lemma log_write:
  assumes "logs_ok parse k (w, files)" "k + 2 < 2 ^ 64" "log_op_ok parse shw (LWrite r mk res held)"
    and "log_step parse shw (LWrite r mk res held) (w, files) = (w', files')"
  shows "logs_ok parse (Suc k) (w', files')"
    and "\<exists>ns. line_seqs parse (unwrap_or (files' r') []) = line_seqs parse (unwrap_or (files r') []) @ ns
      \<and> length ns = writes_to r' (LWrite r mk res held)"
proof -
  obtain n w1 where q: "run_seq parse io_good held files r w = (n, w1)" by (metis surj_pair)
  note n = next_number [OF assms(1,2) q]
  let ?s = "unwrap_or (files r) []"
  have f: "file_ok parse k (unwrap_or (files x) [])" for x using assms(1) by (simp add: logs_ok_def)
  have w': "w' = hm_insert r (n + 1) w1"
    and fs: "files' = snd (append_line res r (shw (mk n)) files)"
    using assms(4) q by (auto simp: write_record_def Let_def split: prod.splits sum.splits)
  have mk: "prints_line parse shw (mk n)" "get_u64 (mk n) ''seq'' = Some n"
    using assms(3) by (auto simp: numbered_def)
  have u: "unat (n + 1) = Suc (unat n)" using n(1) assms(2) by (simp add: unat_word_ariths)
  have ends: "?s = [] \<or> last ?s = nl" using f [of r] by (simp add: file_ok_def)
  note l = line_seqs_append [OF ends mk]
  have res: "res = ApOk \<or> (\<exists>e. res = ApFail e)" using assms(3) by (cases res) auto
  have files': "files' = (if res = ApOk then files(r \<mapsto> ?s @ shw (mk n) @ [nl]) else files)"
    using res by (auto simp: fs append_line_def Let_def)
  show "\<exists>ns. line_seqs parse (unwrap_or (files' r') []) = line_seqs parse (unwrap_or (files r') []) @ ns
      \<and> length ns = writes_to r' (LWrite r mk res held)"
  proof (cases "r = r' \<and> res = ApOk")
    case True
    with l show ?thesis by (auto simp: files')
  next
    case False
    then show ?thesis by (auto simp: files')
  qed
  have fo: "file_ok parse (Suc k) (unwrap_or (files' x) [])" for x
  proof (cases "x = r \<and> res = ApOk")
    case True
    have "utf8_valid (?s @ shw (mk n) @ [nl])"
    proof -
      have m: "utf8_valid (shw (mk n))" using mk(1) by (simp add: prints_line_def Let_def)
      have e: "utf8_valid []" by (simp add: utf8_valid_def)
      show ?thesis
      proof (cases "?s = []")
        case True
        then show ?thesis using utf8_valid_newline [of "shw (mk n)" "[]"] m e by simp
      next
        case False
        with ends obtain xs where xs: "?s = xs @ [nl]" by (metis append_butlast_last_id)
        have "utf8_valid xs" using f [of r] xs utf8_valid_newline [of xs "[]"] by (simp add: file_ok_def)
        then show ?thesis
          using utf8_valid_newline [of xs "shw (mk n) @ [nl]"] utf8_valid_newline [of "shw (mk n)" "[]"] m e
          by (simp add: xs)
      qed
    qed
    with True f [of r] n(1,2) show ?thesis
      by (auto simp: file_ok_def files' l sorted_wrt_append intro: le_SucI)
  next
    case False
    with f [of x] show ?thesis by (auto simp: file_ok_def files' intro: le_SucI)
  qed
  have "table_ok parse (Suc k) w' files'"
    unfolding table_ok_def
  proof (intro allI impI)
    fix x m
    assume "map_of w' x = Some m"
    then consider "x = r" "m = n + 1" | "x \<noteq> r" "map_of w1 x = Some m"
      by (auto simp: w' split: if_splits)
    then show "0 < m \<and> unat m \<le> Suc (Suc k) \<and> (\<forall>y\<in>set (line_seqs parse (unwrap_or (files' x) [])). y < m)"
    proof cases
      case 1
      have "y < n + 1" if "y < n \<or> y = n" for y :: u64
        using that u by (auto simp: word_less_nat_alt)
      moreover have "0 < n + 1" using u by (simp add: word_less_nat_alt)
      ultimately show ?thesis using 1 n(1,2) u l by (auto simp: files')
    next
      case 2
      with n(3) show ?thesis by (auto simp: files' table_ok_def intro: le_SucI)
    qed
  qed
  with fo show "logs_ok parse (Suc k) (w', files')" by (simp add: logs_ok_def)
qed

text \<open>
  C27: whatever is written to the logs of the program, by whichever of the three writers, with
  restarts, failed writes and clean-ups of the table at any time: the numbers of every log keep
  increasing strictly, what was there stays in front, and each successful write adds exactly one
  record.  (A failure that leaves a part of a line is not covered.)
\<close>

theorem log_numbers_increase:
  assumes "list_all (log_op_ok parse shw) ops" "logs_ok parse k s" "k + length ops + 1 < 2 ^ 64"
    and "foldl (\<lambda>s op. log_step parse shw op s) s ops = s'"
  shows "sorted_wrt (<) (line_seqs parse (unwrap_or (snd s' r) []))
    \<and> (\<exists>ns. line_seqs parse (unwrap_or (snd s' r) []) = line_seqs parse (unwrap_or (snd s r) []) @ ns
        \<and> length ns = sum_list (map (writes_to r) ops))"
  using assms
proof (induction ops arbitrary: s k)
  case Nil
  then show ?case by (auto simp: logs_ok_def file_ok_def)
next
  case (Cons op ops)
  let ?t = "log_step parse shw op s"
  have rest: "foldl (\<lambda>s op. log_step parse shw op s) ?t ops = s'" "list_all (log_op_ok parse shw) ops"
    "Suc k + length ops + 1 < 2 ^ 64" "log_op_ok parse shw op"
    using Cons.prems(1,3,4) by simp_all
  have step: "logs_ok parse (Suc k) ?t
    \<and> (\<exists>ns. line_seqs parse (unwrap_or (snd ?t r) []) = line_seqs parse (unwrap_or (snd s r) []) @ ns
        \<and> length ns = writes_to r op)"
  proof (cases op)
    case (LWrite q mk res held)
    obtain w' files' where "log_step parse shw op s = (w', files')" by (metis surj_pair)
    moreover obtain w files where "s = (w, files)" by (metis surj_pair)
    ultimately show ?thesis
      using log_write(1) [of parse k w files shw q mk res held w' files']
        log_write(2) [of parse k w files shw q mk res held w' files' r] Cons.prems(2,3) rest(4) LWrite
      by simp
  next
    case LRestart
    then show ?thesis using Cons.prems(2)
      by (auto simp: logs_ok_def table_ok_def file_ok_def intro: le_SucI)
  qed
  from Cons.IH [OF rest(2) conjunct1 [OF step] rest(3,1)] conjunct2 [OF step] show ?case by auto
qed

section \<open>Replay\<close>

lemma replay_value_seq:
  "replay_value n v = opt_filter (\<lambda>e. is_some_and (get_u64 e ''_seq'') ((<) n)) (replay_value 0 v)"
proof (cases "get_bool v ''_bus'' = Some True")
  case True
  show ?thesis
  proof (cases "get_u64 v ''seq''")
    case (Some m)
    show ?thesis
    proof (cases "j_get v ''event''")
      case (Some event)
      show ?thesis
      proof (cases "is_some_and (get_str event ''type'') (\<lambda>t. t \<in> set REPLAY_TYPES)")
        case True
        then have "j_get event ''type'' \<noteq> None"
          by (auto simp: is_some_and_def get_str_def split: option.splits bind_splits)
        then obtain kvs where "event = JObj kvs" by (cases event) auto
        then have "get_u64 (j_set ''_seq'' (json_num m)
            (case j_get v ''ts'' of None \<Rightarrow> event | Some ts \<Rightarrow> j_set ''ts'' ts event)) ''_seq'' = Some m"
          by (auto simp: get_u64_def j_set_def json_num_def split: option.split)
        moreover have "n < m \<Longrightarrow> 0 < m" by (rule le_less_trans [OF word_zero_le])
        ultimately show ?thesis
          using \<open>get_u64 v ''seq'' = Some m\<close> Some True \<open>get_bool v ''_bus'' = Some True\<close>
          by (auto simp: replay_value_def)
      qed (use Some \<open>get_u64 v ''seq'' = Some m\<close> in \<open>simp add: replay_value_def\<close>)
    qed (simp add: replay_value_def split: option.split)
  qed (simp add: replay_value_def)
qed (simp add: replay_value_def)

text \<open>
  A client that has seen the log up to a number gets exactly the rest: replay after a checkpoint
  is the full replay without the events up to it, in the same order and with the same content.
\<close>

lemma replay_after_checkpoint:
  "list_bus_events parse io files r (Some n) =
     filter (\<lambda>e. is_some_and (get_u64 e ''_seq'') ((<) n)) (list_bus_events parse io files r None)"
proof -
  have "List.map_filter (replay_value n) vs =
      filter (\<lambda>e. is_some_and (get_u64 e ''_seq'') ((<) n)) (List.map_filter (replay_value 0) vs)" for vs
  proof (induction vs)
    case (Cons v vs)
    have "replay_value n v = opt_filter (\<lambda>e. is_some_and (get_u64 e ''_seq'') ((<) n)) (replay_value 0 v)"
      by (rule replay_value_seq)
    with Cons show ?case by (cases "replay_value 0 v") (auto simp: List.map_filter_simps)
  qed (simp add: List.map_filter_simps)
  then show ?thesis by (simp add: list_bus_events_def split: option.split)
qed

lemma log_values_newline:
  "log_values parse (xs @ nl # ys) = log_values parse (xs @ [nl]) @ log_values parse ys"
  unfolding log_values_def str_lines_newline [of xs ys] by (simp add: List.map_filter_def)

lemma log_values_append:
  assumes "s = [] \<or> last s = nl" "prints_line parse shw j"
  shows "log_values parse (s @ shw j @ [nl]) = log_values parse s @ (case parse (shw j) of None \<Rightarrow> [] | Some v \<Rightarrow> [v])"
proof -
  have "str_lines (shw j @ [nl]) = [shw j]"
    using assms(2) by (intro str_lines_line) (auto simp: prints_line_def Let_def dest: last_in_set)
  then have l: "log_values parse (shw j @ [nl]) = (case parse (shw j) of None \<Rightarrow> [] | Some v \<Rightarrow> [v])"
    using assms(2)
    by (auto simp: log_values_def prints_line_def Let_def List.map_filter_simps split: option.split)
  show ?thesis
  proof (cases "s = []")
    case True
    have "log_values parse [] = []" by (simp add: log_values_def str_lines_def List.map_filter_simps)
    with True l show ?thesis by simp
  next
    case False
    with assms(1) obtain xs where "s = xs @ [nl]" by (metis append_butlast_last_id)
    then show ?thesis using log_values_newline [of parse xs "shw j @ [nl]"] l by simp
  qed
qed

text \<open>A bus event that is written: its number, and what it adds to the log and to the replay.\<close>

definition replayed_event :: "string \<Rightarrow> json \<Rightarrow> u64 \<Rightarrow> json" where
  "replayed_event ts event n = j_set ''_seq'' (json_num n) (j_set ''ts'' (JStr ts) event)"

lemma list_bus_events_values:
  "utf8_valid (unwrap_or (files r) []) \<Longrightarrow> list_bus_events parse io_good files r None =
     List.map_filter (replay_value 0) (log_values parse (unwrap_or (files r) []))"
  by (cases "files r") (simp_all add: list_bus_events_def read_log_def io_good_def log_values_def
      str_lines_def List.map_filter_simps)

lemma bus_record_written:
  assumes "logs_ok parse k (w, files)" "k + 2 < 2 ^ 64"
    and "write_record parse shw io_good held res r (bus_envelope now event) (w, files) = (q, w', files')"
    and "\<And>n. prints_line parse shw (bus_envelope now event n)"
    and "\<And>n. parse (shw (bus_envelope now event n)) = Some (bus_envelope now event n)"
    and "get_str event ''type'' = Some tag" "\<And>n e. res \<noteq> ApPartial n e"
  shows "logs_ok parse (Suc k) (w', files')"
    and "(\<exists>e. q = Inl e \<and> files' = files)
      \<or> (\<exists>n s'. q = Inr n \<and> files' = files(r \<mapsto> s') \<and> 0 < n
          \<and> (\<forall>x\<in>set (line_seqs parse (unwrap_or (files r) [])). x < n)
          \<and> line_seqs parse s' = line_seqs parse (unwrap_or (files r) []) @ [n]
          \<and> list_bus_events parse io_good files' r None = list_bus_events parse io_good files r None
              @ (if tag \<in> set REPLAY_TYPES then [replayed_event now event n] else []))"
proof -
  have ok: "log_op_ok parse shw (LWrite r (bus_envelope now event) res held)"
    using assms(4,7) by (simp add: writers_number)
  have step: "log_step parse shw (LWrite r (bus_envelope now event) res held) (w, files) = (w', files')"
    using assms(3) by simp
  show l': "logs_ok parse (Suc k) (w', files')" by (rule log_write(1) [OF assms(1,2) ok step])
  obtain n w1 where q: "run_seq parse io_good held files r w = (n, w1)" by (metis surj_pair)
  note n = next_number [OF assms(1,2) q]
  let ?s = "unwrap_or (files r) []" and ?j = "bus_envelope now event n"
  have s: "?s = [] \<or> last ?s = nl" "utf8_valid ?s" using assms(1) by (auto simp: logs_ok_def file_ok_def)
  show "(\<exists>e. q = Inl e \<and> files' = files)
      \<or> (\<exists>n s'. q = Inr n \<and> files' = files(r \<mapsto> s') \<and> 0 < n
          \<and> (\<forall>x\<in>set (line_seqs parse ?s). x < n) \<and> line_seqs parse s' = line_seqs parse ?s @ [n]
          \<and> list_bus_events parse io_good files' r None = list_bus_events parse io_good files r None
              @ (if tag \<in> set REPLAY_TYPES then [replayed_event now event n] else []))"
  proof (cases res)
    case ApOk
    then have f: "files' = files(r \<mapsto> ?s @ shw ?j @ [nl])" "q = Inr n"
      using assms(3) q by (auto simp: write_record_def append_line_def Let_def)
    have "utf8_valid (unwrap_or (files' r) [])" using l' by (simp add: logs_ok_def file_ok_def)
    note new = list_bus_events_values [where files = files' and r = r and parse = parse, OF this]
      and old = list_bus_events_values [where files = files and r = r and parse = parse, OF s(2)]
    have "List.map_filter (replay_value 0) [?j] =
        (if tag \<in> set REPLAY_TYPES then [replayed_event now event n] else [])"
      using assms(6) n(4)
      by (simp add: List.map_filter_simps replay_value_def bus_envelope_def replayed_event_def
          get_bool_def get_u64_def json_num_def)
    moreover have "List.map_filter (replay_value 0) (log_values parse (?s @ shw ?j @ [nl])) =
        List.map_filter (replay_value 0) (log_values parse ?s) @ List.map_filter (replay_value 0) [?j]"
      by (simp add: log_values_append [OF s(1) assms(4)] assms(5) List.map_filter_def)
    ultimately have "list_bus_events parse io_good files' r None = list_bus_events parse io_good files r None
        @ (if tag \<in> set REPLAY_TYPES then [replayed_event now event n] else [])"
      using new old by (simp add: f(1))
    moreover have "line_seqs parse (?s @ shw ?j @ [nl]) = line_seqs parse ?s @ [n]"
      using line_seqs_append [OF s(1) assms(4)] by (simp add: bus_envelope_def json_num_def get_u64_def)
    ultimately show ?thesis using f n(2,4) by blast
  next
    case (ApFail e)
    then show ?thesis using assms(3) q by (auto simp: write_record_def append_line_def Let_def)
  qed (use assms(7) in simp)
qed

text \<open>
  C29: what is written is what is replayed.  A bus event that is written successfully to a log in
  order comes last in the replay, with the time and the number of its record, and the replay of
  what was there is unchanged; an event of a type that is not replayed changes nothing.
\<close>

theorem written_event_replayed:
  assumes "logs_ok parse k (w, files)" "k + 2 < 2 ^ 64"
    and "write_bus_event parse shw enc now io_good held ApOk r ev (w, files) = (Inr (), w', files')"
    and "\<And>n. prints_line parse shw (bus_envelope now (enc ev) n)"
    and "\<And>n. parse (shw (bus_envelope now (enc ev) n)) = Some (bus_envelope now (enc ev) n)"
    and "get_str (enc ev) ''type'' = Some (event_tag ev)"
  shows "\<exists>n. list_bus_events parse io_good files' r None = list_bus_events parse io_good files r None
    @ (if is_replayable ev then [j_set ''_seq'' (json_num n) (j_set ''ts'' (JStr now) (enc ev))] else [])"
proof -
  obtain q where "write_record parse shw io_good held ApOk r (bus_envelope now (enc ev)) (w, files) = (Inr q, w', files')"
    using assms(3) by (auto simp: write_bus_event_def split: prod.splits sum.splits)
  from bus_record_written(2) [OF assms(1,2) this assms(4-6)] show ?thesis
    by (auto simp: is_replayable_def replayed_event_def)
qed

text \<open>
  Which events are lost to a client that reconnects.  Every bus event is replayed from the log
  except the raw lines of the CLI and those of seven types that the front end does show: the output
  of a running tool, the goal, the MCP status and the diff of a Codex session, and all three events
  of a Ralph loop.
\<close>

theorem replay_gaps:
  "is_replayable ev \<longleftrightarrow>
     event_tag ev \<notin> {''raw'', ''tool_output_delta'', ''goal_update'', ''codex_mcp_status'',
       ''codex_turn_diff'', ''ralph_started'', ''ralph_iteration'', ''ralph_complete''}"
  by (cases ev; simp only: is_replayable_def event_tag.simps REPLAY_TYPES_def; simp)

section \<open>Forks\<close>

definition copied :: "json \<Rightarrow> bool" where
  "copied v \<longleftrightarrow> get_bool v ''_bus'' = Some True \<and> inner_type v \<in> set CONTENT_TYPES"

lemma forked_seq:
  assumes "copied v"
  shows "get_u64 (forked_envelope to_id n v) ''seq'' = Some n"
proof -
  obtain kvs where "v = JObj kvs"
    using assms by (cases v) (auto simp: copied_def get_bool_def)
  then show ?thesis
    by (auto simp: forked_envelope_def get_u64_def j_set_def json_num_def split: option.split)
qed

lemma copy_seqs:
  assumes "\<forall>v\<in>set vs. \<forall>n. copied v \<longrightarrow> prints_line parse shw (forked_envelope to_id n v)"
  shows "line_seqs parse (copy_lines shw to_id c vs) =
    map (\<lambda>i. c + of_nat i) [1..<Suc (length (filter copied vs))]"
  using assms
proof (induction vs arbitrary: c)
  case (Cons v vs)
  show ?case
  proof (cases "copied v")
    case True
    let ?j = "forked_envelope to_id (c + 1) v"
    have up: "[Suc 1..<Suc (Suc k)] = map Suc [1..<Suc k]" for k by (rule map_Suc_upt [symmetric])
    have p: "prints_line parse shw ?j" using Cons.prems True by simp
    have cp: "copy_lines shw to_id c (v # vs) = shw ?j @ nl # copy_lines shw to_id (c + 1) vs"
      using True by (simp add: copied_def)
    have "line_seqs parse (copy_lines shw to_id c (v # vs)) =
        line_seqs parse (shw ?j @ [nl]) @ line_seqs parse (copy_lines shw to_id (c + 1) vs)"
      unfolding cp by (rule line_seqs_newline)
    also have "line_seqs parse (shw ?j @ [nl]) = [c + 1]"
      using line_seqs_append [of "[]", OF _ p forked_seq [OF True]] by simp
    also have "line_seqs parse (copy_lines shw to_id (c + 1) vs) =
        map (\<lambda>i. c + 1 + of_nat i) [1..<Suc (length (filter copied vs))]"
      using Cons by simp
    also have "\<dots> = map (\<lambda>i. c + of_nat i) [Suc 1..<Suc (Suc (length (filter copied vs)))]"
      unfolding up map_map by (rule map_cong [OF refl]) (simp only: comp_def of_nat_Suc add.assoc)
    finally show ?thesis using True
      by (simp add: upt_conv_Cons del: upt_Suc)
  next
    case False
    then have "copy_lines shw to_id c (v # vs) = copy_lines shw to_id c vs"
      by (auto simp: copied_def)
    with Cons False show ?thesis by simp
  qed
qed simp

text \<open>
  The log of a fork.  A copy that succeeds keeps the other logs, and the new log consists of
  exactly the messages and tool calls of the parent, numbered 1, 2, 3 without gaps whatever their
  numbers were.
\<close>

theorem fork_numbers:
  assumes "copy_bus_events parse shw io dir res from_id to_id files = (Inr (), files')"
    and "read_log io files from_id = Some s"
    and "\<forall>v\<in>set (log_values parse s). \<forall>n. copied v \<longrightarrow> prints_line parse shw (forked_envelope to_id n v)"
  shows "\<exists>t. files' = files(to_id \<mapsto> t)
    \<and> line_seqs parse t = map of_nat [1..<Suc (length (filter copied (log_values parse s)))]"
proof -
  have "files from_id \<noteq> None" using assms(2) by (cases "files from_id") (auto simp: read_log_def split: if_splits)
  then have "files' = files(to_id \<mapsto> copy_lines shw to_id 0 (log_values parse s))"
    using assms(1,2) by (auto simp: copy_bus_events_def Let_def split: option.splits append_outcome.splits)
  with copy_seqs [OF assms(3), of 0] show ?thesis
    by (intro exI [of _ "copy_lines shw to_id 0 (log_values parse s)"]) (simp del: upt_Suc)
qed

section \<open>Usage\<close>

lemma usage_fold_input:
  "ua_input (foldl (\<lambda>a e. usage_event F True e a) a es) =
     ua_input a + sum_list (map (\<lambda>e. unwrap_or (get_u64 e ''input_tokens'') 0) es)"
  "ua_found (foldl (\<lambda>a e. usage_event F True e a) a es) \<longleftrightarrow> ua_found a \<or> es \<noteq> []"
  by (induction es arbitrary: a)
    (simp_all add: usage_event_def usage_tokens_def usage_cost_def Let_def add.assoc)

text \<open>
  C30: the input tokens of a Codex run are the sum over all its usage events.  That is right for the
  one-shot process, whose events report a turn, but the app server reports the running total of
  the thread each time, so the totals of all turns are added up.
\<close>

theorem codex_usage_summed:
  assumes "read_log io files r = Some s" "get_str m ''agent'' = Some ''codex''"
  shows "map_option ru_input_tokens (extract_run_usage F parse io (Some m) files r) =
    (if usage_events parse s = [] then None
     else Some (sum_list (map (\<lambda>e. unwrap_or (get_u64 e ''input_tokens'') 0) (usage_events parse s))))"
proof -
  have "sums_usage (Some m)" using assms(2) by (simp add: sums_usage_def)
  then show ?thesis using assms(1)
    by (simp add: extract_run_usage_def usage_fold_input usage_start_def Let_def)
qed

section \<open>Samples\<close>

text \<open>
  A printer that writes a record as its number of ones, and the parser that counts them.  It keeps
  the number of a record; every record it reads is a user message.
\<close>

definition ones :: "json \<Rightarrow> string" where
  "ones j = ''.'' @ replicate (unat (unwrap_or (get_u64 j ''seq'') 0)) CHR ''1'' @ ''.''"

definition hello :: json where
  "hello = JObj [(''type'', JStr ''user_message'')]"

definition count_ones :: "string \<Rightarrow> json option" where
  "count_ones s = Some (bus_envelope ''t'' hello (of_nat (length s - 2)))"

lemma get_u64_envelope [simp]: "get_u64 (bus_envelope ts ev n) ''seq'' = Some n"
  by (simp add: bus_envelope_def json_num_def get_u64_def)

lemma ascii_valid: "list_all (\<lambda>c. byte c < 0x80) s \<Longrightarrow> utf8_valid s"
proof -
  have "list_all fst (utf8_chunks s)" if "list_all (\<lambda>c. byte c < 0x80) s" for s
    using that
  proof (induction s rule: utf8_chunks.induct)
    case (2 b bs)
    have "utf8_chunk b bs = (True, 1)" using 2(2) by (simp add: utf8_chunk_def utf8_width_def Let_def)
    with 2 show ?case by simp
  qed simp
  then show "list_all (\<lambda>c. byte c < 0x80) s \<Longrightarrow> utf8_valid s" by (simp add: utf8_valid_def)
qed

lemma dot_trim: "str_trim (''.'' @ s @ ''.'') = ''.'' @ s @ ''.''"
proof -
  have "strip_seqs ws_seqs (''.'' @ t) = ''.'' @ t" "strip_seqs (map rev ws_seqs) (''.'' @ t) = ''.'' @ t" for t
    by (rule strip_seqs_id; auto simp: ws_seqs_def)+
  from this(1) [of "s @ ''.''"] this(2) [of "rev s @ ''.''"] show ?thesis
    by (simp add: str_trim_def trim_start_def trim_end_def)
qed

lemma ones_line: "get_u64 j ''seq'' = Some n \<Longrightarrow> prints_line count_ones ones j"
proof -
  assume j: "get_u64 j ''seq'' = Some n"
  have "utf8_valid (''.'' @ replicate k CHR ''1'' @ ''.'')" for k
    by (rule ascii_valid) (simp add: list_all_iff byte_def)
  then show "prints_line count_ones ones j"
    using j dot_trim [of "replicate (unat n) CHR ''1''"]
    by (simp add: prints_line_def ones_def count_ones_def bus_envelope_def get_u64_def json_num_def Let_def)
qed

text \<open>A log that holds the number 1 and its table.\<close>

definition one_line :: string where "one_line = ''.1.'' @ [nl]"

definition one_log :: logs where
  "one_log = [''r'' \<mapsto> one_line]"

lemma one_log_seqs: "line_seqs count_ones one_line = [1]"
proof -
  have "str_lines one_line = [''.1.'']" unfolding one_line_def by (rule str_lines_line) simp_all
  then show ?thesis
    using dot_trim [of "''1''"]
    by (simp add: line_seqs_def List.map_filter_simps count_ones_def bus_envelope_def get_u64_def json_num_def)
qed

lemma one_log_ok: "logs_ok count_ones 1 ([], one_log)"
proof -
  have "utf8_valid one_line" "utf8_valid []" by (rule ascii_valid; simp add: byte_def one_line_def)+
  moreover have "last one_line = nl" by (simp add: one_line_def)
  ultimately show ?thesis
    using one_log_seqs by (simp add: logs_ok_def table_ok_def file_ok_def one_log_def)
qed

theorem next_seq_after_last_witness: "next_seq count_ones io_good one_log ''r'' = 2"
proof -
  have "utf8_valid one_line" by (rule ascii_valid) (simp add: byte_def one_line_def)
  from next_seq_after_last [of one_log "''r''", OF _ this, of count_ones io_good] show ?thesis
    using one_log_seqs by (simp add: one_log_def io_good_def)
qed

theorem log_numbers_increase_witness:
  "let op = LWrite ''r'' (bus_envelope ''t'' (JObj [])) ApOk {};
       s = foldl (\<lambda>s op. log_step count_ones ones op s) ([], one_log) [op, LRestart, op]
   in length (line_seqs count_ones (unwrap_or (snd s ''r'') [])) = 3"
proof -
  let ?op = "LWrite ''r'' (bus_envelope ''t'' (JObj [])) ApOk {}"
  have "numbered (bus_envelope ''t'' (JObj []))" by (rule writers_number)
  then have "list_all (log_op_ok count_ones ones) [?op, LRestart, ?op]"
    using ones_line by (auto simp: numbered_def)
  from log_numbers_increase [OF this one_log_ok _ refl, of "''r''"] one_log_seqs show ?thesis
    by (auto simp: one_log_def Let_def simp del: foldl_Cons)
qed

lemma one_log_values: "log_values count_ones one_line = [bus_envelope ''t'' hello 1]"
proof -
  have "str_lines one_line = [''.1.'']" unfolding one_line_def by (rule str_lines_line) simp_all
  then show ?thesis
    using dot_trim [of "''1''"] by (simp add: log_values_def List.map_filter_simps count_ones_def)
qed

lemma one_log_read: "read_log io_good one_log ''r'' = Some one_line"
proof -
  have "utf8_valid one_line" by (rule ascii_valid) (simp add: byte_def one_line_def)
  then show ?thesis by (simp add: read_log_def io_good_def one_log_def)
qed

theorem written_event_replayed_witness:
  "case write_bus_event count_ones ones (\<lambda>_. hello) ''t'' io_good {} ApOk ''r'' (UserMessage ''r'' [] None None [])
      ([], one_log) of
     (res, w, files) \<Rightarrow>
       res = Inr () \<and> length (list_bus_events count_ones io_good files ''r'' None) = 2"
proof -
  let ?ev = "UserMessage ''r'' [] None None []"
  obtain r0 w files where
    w: "write_bus_event count_ones ones (\<lambda>_. hello) ''t'' io_good {} ApOk ''r'' ?ev ([], one_log) = (r0, w, files)"
    by (metis surj_pair)
  have r0: "r0 = Inr ()" using w
    by (auto simp: write_bus_event_def write_record_def append_line_def Let_def split: prod.splits sum.splits)
  have p: "prints_line count_ones ones (bus_envelope ''t'' hello n)" for n by (rule ones_line) simp
  have q: "count_ones (ones (bus_envelope ''t'' hello n)) = Some (bus_envelope ''t'' hello n)" for n
    by (simp add: count_ones_def ones_def)
  have h: "get_str hello ''type'' = Some (event_tag ?ev)" by (simp add: hello_def get_str_def)
  have i: "is_replayable ?ev" by (simp add: is_replayable_def REPLAY_TYPES_def)
  have "length (list_bus_events count_ones io_good one_log ''r'' None) = 1"
    by (simp add: list_bus_events_def one_log_read one_log_values List.map_filter_simps replay_value_def
        bus_envelope_def hello_def REPLAY_TYPES_def get_bool_def get_u64_def get_str_def json_num_def)
  with written_event_replayed [OF one_log_ok _ w [unfolded r0] p q h] i w r0 show ?thesis by auto
qed

theorem fork_numbers_witness:
  "case copy_bus_events count_ones ones io_good None ApOk ''r'' ''f'' one_log of
     (res, files) \<Rightarrow> res = Inr () \<and> map_option (line_seqs count_ones) (files ''f'') = Some [1]"
proof -
  have "one_log ''r'' \<noteq> None" by (simp add: one_log_def)
  then obtain files where
    w: "copy_bus_events count_ones ones io_good None ApOk ''r'' ''f'' one_log = (Inr (), files)"
    by (auto simp: copy_bus_events_def one_log_read Let_def)
  have "\<forall>v\<in>set (log_values count_ones one_line). \<forall>n. copied v \<longrightarrow> prints_line count_ones ones (forked_envelope ''f'' n v)"
    using ones_line forked_seq by blast
  from fork_numbers [OF w one_log_read this] w show ?thesis
    by (auto simp: one_log_values copied_def inner_type_def bus_envelope_def hello_def CONTENT_TYPES_def
        get_bool_def get_str_def)
qed

definition usage_line :: string where "usage_line = json_quoted ''usage_update'' @ [nl]"

definition always_usage :: "string \<Rightarrow> json option" where
  "always_usage s = Some (JObj [(''_bus'', JBool True), (''event'',
     JObj [(''type'', JStr ''usage_update''), (''input_tokens'', json_num 7)])])"

theorem codex_usage_summed_witness:
  "\<forall>F. map_option ru_input_tokens
     (extract_run_usage F always_usage io_good (Some (JObj [(''agent'', JStr ''codex'')]))
        [''r'' \<mapsto> usage_line @ usage_line] ''r'') = Some 14"
proof
  fix F
  have v: "read_log io_good [''r'' \<mapsto> usage_line @ usage_line] ''r'' = Some (usage_line @ usage_line)"
    using ascii_valid [of "usage_line @ usage_line"]
    by (simp add: read_log_def io_good_def usage_line_def json_quoted_def byte_def)
  have "usage_events always_usage (usage_line @ usage_line) =
      (let e = JObj [(''type'', JStr ''usage_update''), (''input_tokens'', json_num 7)] in [e, e])"
    by code_simp
  then show "map_option ru_input_tokens
     (extract_run_usage F always_usage io_good (Some (JObj [(''agent'', JStr ''codex'')]))
        [''r'' \<mapsto> usage_line @ usage_line] ''r'') = Some 14"
    using codex_usage_summed [OF v, of "JObj [(''agent'', JStr ''codex'')]" F always_usage]
    by (simp add: get_str_def get_u64_def json_num_def Let_def)
qed

end
