(* ===== verification/WsDelivery.thy ===== *)
theory WsDelivery
  imports WsSession WsProtocol EventLogProperties
begin

text \<open>
  What a browser gets.  Seen by one run, the steps of the tasks of a connection are steps of the
  protocol of \<open>WsProtocol\<close>, so that its events are delivered in order, without a gap, and all
  of them when nothing is left to do; and the cases in which the tasks leave the protocol, with
  what is lost in each.
\<close>

section \<open>One run of a connection\<close>

definition msg_seq :: "string \<Rightarrow> BroadcastMsg \<Rightarrow> u64 option" where
  "msg_seq r m = (if bm_run_id m = Some r then bm_seq m else None)"

definition live_seqs :: "string \<Rightarrow> world \<Rightarrow> u64 list" where
  "live_seqs r w = List.map_filter (msg_seq r) (rx_queue (wd_a_rx w) @ wd_inflight w)"

definition seq_for :: "string \<Rightarrow> json \<Rightarrow> u64 option" where
  "seq_for r j = (if get_str j ''run_id'' = Some r then get_u64 j ''seq'' else None)"

definition delivered :: "string \<Rightarrow> conn \<Rightarrow> u64 list" where
  "delivered r c = List.map_filter (seq_for r) (cn_out c)"

definition buffered :: "string \<Rightarrow> conn \<Rightarrow> u64 list" where
  "buffered r c = map be_seq (unwrap_or (ss_replay_buffer (cn_session c) r) [])"

definition replayed_seqs :: "ws_env \<Rightarrow> string \<Rightarrow> world \<Rightarrow> u64 list" where
  "replayed_seqs E r w = map event_seq (list_bus_events (we_parse E) io_good (snd (wd_logs w)) r None)"

definition log_seqs :: "ws_env \<Rightarrow> string \<Rightarrow> world \<Rightarrow> u64 list" where
  "log_seqs E r w = line_seqs (we_parse E) (unwrap_or (snd (wd_logs w) r) [])"

fun work_run :: "work \<Rightarrow> string option" where
  "work_run (WReplay r n) = Some r"
| "work_run (WSend r evs) = Some r"
| "work_run (WAck r n evs) = Some r"
| "work_run (WFlush r m) = Some r"
| "work_run (WFlushSend r k es m) = Some r"
| "work_run (WReload r) = Some r"
| "work_run (WReloadSend r) = Some r"
| "work_run (WReply j) = None"
| "work_run (WCleanup r) = Some r"

definition works :: "string \<Rightarrow> work list \<Rightarrow> work list" where
  "works r xs = filter (\<lambda>x. work_run x = Some r) xs"

fun catch_work :: "a_task \<Rightarrow> work list" where
  "catch_work (ACatch xs) = xs"
| "catch_work t = []"

fun busy_with :: "string \<Rightarrow> a_task \<Rightarrow> bool" where
  "busy_with r (ASend q n env) \<longleftrightarrow> q = r"
| "busy_with r (AAck q n) \<longleftrightarrow> q = r"
| "busy_with r t \<longleftrightarrow> False"

text \<open>The phase of the protocol that the tasks are in.\<close>

fun work_phase :: "work \<Rightarrow> phase" where
  "work_phase (WReplay r n) = PReplay"
| "work_phase (WSend r evs) = PSend (map event_seq evs)"
| "work_phase (WAck r n evs) = PAck n (map event_seq evs)"
| "work_phase (WFlush r m) = PFlush m"
| "work_phase (WFlushSend r k es m) = PFlushSend k (map be_seq es) m"
| "work_phase x = PIdle"

fun task_phase :: "string \<Rightarrow> a_task \<Rightarrow> phase" where
  "task_phase r (ASend q n env) = (if q = r then PSending n else PIdle)"
| "task_phase r (AAck q n) = (if q = r then PSent n else PIdle)"
| "task_phase r t = PIdle"

definition todo :: "string \<Rightarrow> world \<Rightarrow> work list" where
  "todo r w = works r (wd_cmd w) @ works r (catch_work (wd_a w))"

definition phase_of :: "string \<Rightarrow> world \<Rightarrow> phase" where
  "phase_of r w = (case todo r w of [] \<Rightarrow> task_phase r (wd_a w) | x # xs \<Rightarrow> work_phase x)"

definition view_of :: "ws_env \<Rightarrow> string \<Rightarrow> world \<Rightarrow> view" where
  "view_of E r w =
     \<lparr> vw_nums = log_seqs E r w, vw_log = replayed_seqs E r w, vw_live = live_seqs r w,
       vw_lag = (0 < rx_missed (wd_a_rx w)),
       vw_cp = unwrap_or (checkpoint (cn_session (wd_conn w)) r) 0, vw_buf = buffered r (wd_conn w),
       vw_phase = phase_of r w, vw_out = delivered r (wd_conn w) \<rparr>"

text \<open>What the tasks have left to do for a run always has the same shape.\<close>

fun shaped :: "string \<Rightarrow> u64 \<Rightarrow> work list \<Rightarrow> bool" where
  "shaped r cp [] \<longleftrightarrow> True"
| "shaped r cp [WFlush q m] \<longleftrightarrow> True"
| "shaped r cp [WFlushSend q k es m] \<longleftrightarrow> True"
| "shaped r cp [WReplay q n, x] \<longleftrightarrow> n = cp \<and> x = WFlush r 0"
| "shaped r cp [WSend q evs, x] \<longleftrightarrow> (\<forall>ev\<in>set evs. 0 < event_seq ev) \<and> x = WFlush r 0"
| "shaped r cp [WAck q n evs, x] \<longleftrightarrow> (\<forall>ev\<in>set evs. 0 < event_seq ev) \<and> x = WFlush r 0"
| "shaped r cp xs \<longleftrightarrow> False"

definition tidy :: "string \<Rightarrow> world \<Rightarrow> bool" where
  "tidy r w \<longleftrightarrow>
     (let s = cn_session (wd_conn w) in
      (works r (wd_cmd w) = [] \<or> works r (catch_work (wd_a w)) = [])
      \<and> (r \<in> ss_replaying s \<longleftrightarrow> todo r w \<noteq> [])
      \<and> (todo r w \<noteq> [] \<longrightarrow> \<not> busy_with r (wd_a w))
      \<and> (case checkpoint s r of
           None \<Rightarrow> todo r w = [] \<and> ss_replay_buffer s r = None \<and> \<not> busy_with r (wd_a w)
         | Some cp \<Rightarrow> shaped r cp (todo r w)))"

text \<open>
  What holds of the rest of the connection: what is buffered or being sent for a run is an envelope
  of the run with the right number, and a reply is no envelope at all.
\<close>

definition envelope_ok :: "string \<Rightarrow> u64 \<Rightarrow> json \<Rightarrow> bool" where
  "envelope_ok q n env \<longleftrightarrow> (\<forall>r. seq_for r env = (if q = r then Some n else None))"

abbreviation buffered_ok :: "string \<Rightarrow> BufferedEvent list \<Rightarrow> bool" where
  "buffered_ok q es \<equiv> list_all (\<lambda>e. envelope_ok q (be_seq e) (be_envelope e)) es"

fun work_ok :: "work \<Rightarrow> bool" where
  "work_ok (WFlushSend q k es m) \<longleftrightarrow> buffered_ok q es"
| "work_ok (WReply j) \<longleftrightarrow> get_str j ''run_id'' = None"
| "work_ok x \<longleftrightarrow> True"

fun task_ok :: "a_task \<Rightarrow> bool" where
  "task_ok (ASend q n env) \<longleftrightarrow> envelope_ok q n env"
| "task_ok (ACatch xs) \<longleftrightarrow> list_all work_ok xs"
| "task_ok AStopped \<longleftrightarrow> False"
| "task_ok t \<longleftrightarrow> True"

definition well_kept :: "conn \<Rightarrow> bool" where
  "well_kept c \<longleftrightarrow>
     distinct (map fst (ss_subscriptions (cn_session c))) \<and> \<not> cn_closed c
     \<and> (\<forall>q es. ss_replay_buffer (cn_session c) q = Some es \<longrightarrow> buffered_ok q es)"

definition sound :: "ws_env \<Rightarrow> nat \<Rightarrow> string \<Rightarrow> world \<Rightarrow> bool" where
  "sound E k r w \<longleftrightarrow>
     broadcast_channel (we_channel E) \<and> logs_ok (we_parse E) k (wd_logs w) \<and> well_kept (wd_conn w) \<and> task_ok (wd_a w)
     \<and> list_all work_ok (wd_cmd w) \<and> length (buffered r (wd_conn w)) < REPLAY_BUFFER_CAPACITY"

text \<open>What the connection relies on of the JSON library for an event.\<close>

definition event_ok :: "ws_env \<Rightarrow> string \<Rightarrow> BusEvent \<Rightarrow> bool" where
  "event_ok E now ev \<longleftrightarrow>
     (\<forall>n. prints_line (we_parse E) (we_show E) (bus_envelope now (we_enc E ev) n)
        \<and> we_parse E (we_show E (bus_envelope now (we_enc E ev) n)) = Some (bus_envelope now (we_enc E ev) n))
     \<and> get_str (we_enc E ev) ''type'' = Some (event_tag ev)"

definition about :: "string \<Rightarrow> json \<Rightarrow> bool" where
  "about r j \<longleftrightarrow> str_field j ''method'' \<in> {''_subscribe'', ''_unsubscribe''}
     \<and> str_field (unwrap_or (j_get j ''params'') (JObj [])) ''run_id'' = r"

text \<open>
  The steps of the protocol: the messages of the run are broadcast in the order they were written,
  the socket stays open, no request is about the run, the buffer does not fill up, and lag is not
  noticed while the command loop replays the run.
\<close>

fun follows :: "ws_env \<Rightarrow> string \<Rightarrow> ws_label \<Rightarrow> world \<Rightarrow> bool" where
  "follows E r (LEvent now q ev res open_runs) w \<longleftrightarrow>
     event_ok E now ev \<and> (\<forall>n e. res \<noteq> ApPartial n e)"
| "follows E r (LBroadcast i) w \<longleftrightarrow>
     (i < length (wd_inflight w) \<longrightarrow> bm_run_id (wd_inflight w ! i) = Some r
        \<longrightarrow> list_all (\<lambda>m. bm_run_id m \<noteq> Some r) (take i (wd_inflight w)))"
| "follows E r LForward w \<longleftrightarrow>
     (wd_a w = AIdle \<longrightarrow> r \<in> ss_replaying (cn_session (wd_conn w)) \<longrightarrow>
        rx_missed (wd_a_rx w) = 0 \<and> Suc (length (buffered r (wd_conn w))) < REPLAY_BUFFER_CAPACITY)"
| "follows E r LClose w \<longleftrightarrow> False"
| "follows E r (LRequest j) w \<longleftrightarrow> \<not> about r j"
| "follows E r l w \<longleftrightarrow> True"

section \<open>Operations on the session\<close>

lemma checkpoint_simps [simp]:
  "checkpoint (raise_checkpoint q n s) r =
     (if q = r then map_option (\<lambda>cp. max cp n) (checkpoint s r) else checkpoint s r)"
  "checkpoint (begin_replay q s) r = checkpoint s r" "checkpoint (end_replay q s) r = checkpoint s r"
  "checkpoint (drop_buffer q s) r = checkpoint s r"
  "checkpoint (s\<lparr>ss_replay_buffer := b\<rparr>) r = checkpoint s r"
  "checkpoint (s\<lparr>ss_full_reload_cooldown := t\<rparr>) r = checkpoint s r"
  "checkpoint (s\<lparr>ss_subscriptions := hm_insert q n (ss_subscriptions s)\<rparr>) r =
     (if q = r then Some n else checkpoint s r)"
  by (auto simp: checkpoint_def raise_checkpoint_def begin_replay_def end_replay_def drop_buffer_def
      split: option.split)

lemma replaying_simps [simp]:
  "ss_replaying (raise_checkpoint q n s) = ss_replaying s"
  "ss_replaying (begin_replay q s) = insert q (ss_replaying s)"
  "ss_replaying (end_replay q s) = ss_replaying s - {q}"
  "ss_replaying (drop_buffer q s) = ss_replaying s"
  by (simp_all add: raise_checkpoint_def begin_replay_def end_replay_def drop_buffer_def split: option.split)

lemma replay_buffer_simps [simp]:
  "ss_replay_buffer (raise_checkpoint q n s) = ss_replay_buffer s"
  "ss_replay_buffer (begin_replay q s) =
     (ss_replay_buffer s)(q \<mapsto> unwrap_or (ss_replay_buffer s q) [])"
  "ss_replay_buffer (end_replay q s) = ss_replay_buffer s"
  "ss_replay_buffer (drop_buffer q s) = (ss_replay_buffer s)(q := None)"
  by (simp_all add: raise_checkpoint_def begin_replay_def end_replay_def drop_buffer_def split: option.split)

lemma subscriptions_simps [simp]:
  "ss_subscriptions (begin_replay q s) = ss_subscriptions s"
  "ss_subscriptions (end_replay q s) = ss_subscriptions s"
  "ss_subscriptions (drop_buffer q s) = ss_subscriptions s"
  by (simp_all add: begin_replay_def end_replay_def drop_buffer_def)

lemma raise_checkpoint_distinct [simp]:
  "distinct (map fst (ss_subscriptions s)) \<Longrightarrow> distinct (map fst (ss_subscriptions (raise_checkpoint q n s)))"
  by (simp add: raise_checkpoint_def hm_insert_distinct split: option.split)

lemma ws_send_open: "\<not> cn_closed c \<Longrightarrow> ws_send j c = Some (c\<lparr>cn_out := cn_out c @ [j]\<rparr>)"
  by (simp add: ws_send_def)

lemma on_session_simps [simp]:
  "cn_session (on_session f c) = f (cn_session c)" "cn_out (on_session f c) = cn_out c"
  "cn_closed (on_session f c) = cn_closed c"
  by (simp_all add: on_session_def)

lemma delivered_simps [simp]:
  "delivered r (on_session f c) = delivered r c" "delivered r (c\<lparr>cn_session := s\<rparr>) = delivered r c"
  "delivered r (c\<lparr>cn_out := cn_out c @ [j]\<rparr>) =
     delivered r c @ (case seq_for r j of None \<Rightarrow> [] | Some n \<Rightarrow> [n])"
  by (simp_all add: delivered_def List.map_filter_def split: option.split)

lemma seq_for_simps [simp]:
  "seq_for r (bus_envelope_ws name n q payload) = (if q = r then Some n else None)"
  "seq_for r (full_reload q) = None"
  "seq_for r (JObj [(''event'', e), (''payload'', p)]) = None"
  "get_str j ''run_id'' = None \<Longrightarrow> seq_for r j = None"
  by (simp_all add: seq_for_def bus_envelope_ws_def full_reload_def get_str_def get_u64_def json_num_def)

text \<open>What a step changes for one run.\<close>

definition same_for :: "string \<Rightarrow> conn \<Rightarrow> conn \<Rightarrow> bool" where
  "same_for r c c' \<longleftrightarrow>
     checkpoint (cn_session c') r = checkpoint (cn_session c) r
     \<and> ss_replay_buffer (cn_session c') r = ss_replay_buffer (cn_session c) r
     \<and> (r \<in> ss_replaying (cn_session c') \<longleftrightarrow> r \<in> ss_replaying (cn_session c))
     \<and> delivered r c' = delivered r c"

lemma works_simps [simp]:
  "works r [] = []" "works r (x # xs) = (if work_run x = Some r then x # works r xs else works r xs)"
  "works r (xs @ ys) = works r xs @ works r ys"
  by (simp_all add: works_def)

lemma work_step_kept:
  assumes "work_step rd now x c = (res, c')" "well_kept c" "work_ok x"
  shows "well_kept c'"
    "\<exists>ys. res = Some ys \<and> (\<forall>y\<in>set ys. work_run y = work_run x \<and> work_run y \<noteq> None) \<and> list_all work_ok ys"
  using assms
  by (cases "(rd, now, x, c)" rule: work_step.cases;
      auto simp: well_kept_def ws_send_open flush_take_def flush_send_def send_full_reload_def Let_def
        unwrap_or_def split: list.splits option.splits if_splits)+

lemma work_step_other:
  assumes "work_step rd now x c = (res, c')" "well_kept c" "work_run x \<noteq> Some r" "work_ok x"
  shows "same_for r c c'"
  using assms
  by (cases "(rd, now, x, c)" rule: work_step.cases;
      auto simp: same_for_def well_kept_def ws_send_open flush_take_def flush_send_def
        send_full_reload_def Let_def envelope_ok_def
      split: list.splits option.splits if_splits)

text \<open>A step of the work on the run itself is a step of the protocol.\<close>

definition own_view :: "string \<Rightarrow> view \<Rightarrow> conn \<Rightarrow> work list \<Rightarrow> view" where
  "own_view r v c xs =
     \<lparr> vw_nums = vw_nums v, vw_log = vw_log v, vw_live = vw_live v, vw_lag = vw_lag v,
       vw_cp = unwrap_or (checkpoint (cn_session c) r) 0, vw_buf = buffered r c,
       vw_phase = (case xs of [] \<Rightarrow> PIdle | x # _ \<Rightarrow> work_phase x), vw_out = delivered r c \<rparr>"

lemma buffered_simps [simp]:
  "buffered r (on_session (raise_checkpoint q n) c) = buffered r c"
  "buffered r (c\<lparr>cn_out := o'\<rparr>) = buffered r c"
  by (simp_all add: buffered_def on_session_def)

lemma own_replay:
  assumes "map event_seq (rd r n) = filter ((<) n) (vw_log v)" "checkpoint (cn_session c) r = Some n"
  shows "view_step (own_view r v c (WReplay r n # xs)) (own_view r v c (WSend r (rd r n) # xs))"
  using vs_read [of "own_view r v c (WReplay r n # xs)"] assms by (simp add: own_view_def)

lemma own_send:
  assumes "\<not> cn_closed c"
  shows "view_step (own_view r v c (WSend r (ev # evs) # xs))
     (own_view r v (c\<lparr>cn_out := cn_out c @ [bus_envelope_ws name (event_seq ev) r ev]\<rparr>)
        (WAck r (event_seq ev) evs # xs))"
  using vs_send [of "own_view r v c (WSend r (ev # evs) # xs)"] by (simp add: own_view_def)

lemma own_ack:
  assumes "checkpoint (cn_session c) r = Some cp"
  shows "view_step (own_view r v c (WAck r n evs # xs))
     (own_view r v (on_session (raise_checkpoint r n) c) (WSend r evs # xs))"
  using vs_ack [of "own_view r v c (WAck r n evs # xs)"] assms by (simp add: own_view_def)

lemma own_sent:
  "view_step (own_view r v c (WSend r [] # WFlush r 0 # xs)) (own_view r v c (WFlush r 0 # xs))"
  using vs_replayed [of "own_view r v c (WSend r [] # WFlush r 0 # xs)"] by (simp add: own_view_def)

lemma own_flush_done:
  assumes "checkpoint (cn_session c) r = Some cp" "buffered r c = []"
    and "flush_take r m c = (ys, c')"
  shows "ys = []" "view_step (own_view r v c [WFlush r m]) (own_view r v c' [])"
    "r \<notin> ss_replaying (cn_session c')" "checkpoint (cn_session c') r \<noteq> None"
proof -
  have b: "unwrap_or (ss_replay_buffer (cn_session c) r) [] = []" using assms(2) by (simp add: buffered_def)
  have c': "ys = []" "c' = c\<lparr>cn_session := (if 0 < m
      then raise_checkpoint r m (end_replay r (drop_buffer r (cn_session c)))
      else end_replay r (drop_buffer r (cn_session c)))\<rparr>"
    using assms(3) b by (simp_all add: flush_take_def Let_def)
  have m: "\<not> 0 < m \<Longrightarrow> max cp m = cp" by (simp add: word_gt_0)
  show "ys = []" by (rule c'(1))
  show "r \<notin> ss_replaying (cn_session c')" "checkpoint (cn_session c') r \<noteq> None"
    using assms(1) by (simp_all add: c'(2))
  show "view_step (own_view r v c [WFlush r m]) (own_view r v c' [])"
    using vs_done [of "own_view r v c [WFlush r m]" m] assms(1,2) m b
    by (cases "0 < m") (simp_all add: own_view_def c'(2) buffered_def)
qed

lemma own_flush_take:
  assumes "checkpoint (cn_session c) r = Some cp" "buffered r c \<noteq> []"
    and "length (buffered r c) < REPLAY_BUFFER_CAPACITY" "flush_take r m c = (ys, c')"
  shows "\<exists>k es. ys = [WFlushSend r k es m]" "view_step (own_view r v c [WFlush r m]) (own_view r v c' ys)"
    "ss_replaying (cn_session c') = ss_replaying (cn_session c)" "checkpoint (cn_session c') r = Some cp"
  using assms vs_flush [of "own_view r v c [WFlush r m]" m]
  by (auto simp: own_view_def flush_take_def buffered_def Let_def delivered_def)

lemma own_flush_send:
  assumes "checkpoint (cn_session c) r = Some cp" "\<not> cn_closed c" "buffered_ok r es"
    and "flush_send r k es m c = (ys, c')"
  shows "\<exists>k es m. ys = [WFlushSend r k es m] \<or> ys = [WFlush r m]"
    "view_step (own_view r v c [WFlushSend r k es m]) (own_view r v c' ys)"
    "ss_replaying (cn_session c') = ss_replaying (cn_session c)" "checkpoint (cn_session c') r \<noteq> None"
proof -
  let ?v = "own_view r v c [WFlushSend r k es m]"
  consider "es = []" | e es' where "es = e # es'" "be_seq e \<le> k" | e es' where "es = e # es'" "k < be_seq e"
    by (cases es) (auto, meson not_le)
  then have "(\<exists>k es m. ys = [WFlushSend r k es m] \<or> ys = [WFlush r m]) \<and> view_step ?v (own_view r v c' ys)
    \<and> ss_replaying (cn_session c') = ss_replaying (cn_session c) \<and> checkpoint (cn_session c') r \<noteq> None"
  proof cases
    case 1
    with assms(1,4) vs_round [of ?v] show ?thesis by (auto simp: own_view_def flush_send_def)
  next
    case 2
    with assms(1,4) vs_old [of ?v k "be_seq e" "map be_seq es'"] show ?thesis
      by (auto simp: own_view_def flush_send_def)
  next
    case 3
    moreover have "\<not> be_seq e \<le> k" using 3(2) by simp
    ultimately have c': "ys = [WFlushSend r k es' (max m (be_seq e))]"
      "c' = c\<lparr>cn_out := cn_out c @ [be_envelope e]\<rparr>"
      using assms(4) by (auto simp: flush_send_def ws_send_open [OF assms(2)])
    have "seq_for r (be_envelope e) = Some (be_seq e)" using assms(3) 3 by (simp add: envelope_ok_def)
    with assms(1) 3 vs_buffered [of ?v k "be_seq e" "map be_seq es'"] show ?thesis
      by (simp add: own_view_def c')
  qed
  then show "\<exists>k es m. ys = [WFlushSend r k es m] \<or> ys = [WFlush r m]" "view_step ?v (own_view r v c' ys)"
    "ss_replaying (cn_session c') = ss_replaying (cn_session c)" "checkpoint (cn_session c') r \<noteq> None"
    by blast+
qed

lemma apfst_Some: "apfst Some p = (Some x, y) \<longleftrightarrow> p = (x, y)"
  by (cases p) auto

lemma work_step_own:
  assumes "work_step rd now x c = (Some ys, c')" "well_kept c" "work_ok x" "work_run x = Some r"
    and "checkpoint (cn_session c) r = Some cp" "shaped r cp (x # xs)" "r \<in> ss_replaying (cn_session c)"
    and "length (buffered r c) < REPLAY_BUFFER_CAPACITY"
    and "map event_seq (rd r cp) = filter ((<) cp) (vw_log v)"
  shows "\<exists>cp'. checkpoint (cn_session c') r = Some cp' \<and> shaped r cp' (ys @ xs)
    \<and> (r \<in> ss_replaying (cn_session c') \<longleftrightarrow> ys @ xs \<noteq> [])
    \<and> view_step (own_view r v c (x # xs)) (own_view r v c' (ys @ xs))"
proof -
  have open_c: "\<not> cn_closed c" using assms(2) by (simp add: well_kept_def)
  show ?thesis
  proof (cases "(r, cp, x # xs)" rule: shaped.cases)
    case (2 r1 cp1 q m)
    then have x: "x = WFlush r m" "xs = []" using assms(4) by simp_all
    then have f: "flush_take r m c = (ys, c')" using assms(1) by (simp add: apfst_Some)
    show ?thesis
    proof (cases "buffered r c = []")
      case True
      from own_flush_done(1,3,4) [OF assms(5) True f] own_flush_done(2) [OF assms(5) True f, of v]
      show ?thesis by (auto simp: x)
    next
      case False
      from own_flush_take(1,3,4) [OF assms(5) False assms(8) f] assms(7)
        own_flush_take(2) [OF assms(5) False assms(8) f, of v]
      show ?thesis by (auto simp: x)
    qed
  next
    case (3 r1 cp1 q k es m)
    then have x: "x = WFlushSend r k es m" "xs = []" using assms(4) by simp_all
    then have f: "flush_send r k es m c = (ys, c')" using assms(1) by (simp add: apfst_Some)
    have "buffered_ok r es" using assms(3) x by simp
    from own_flush_send(1,3,4) [OF assms(5) open_c this f] assms(7)
      own_flush_send(2) [OF assms(5) open_c this f, of v]
    show ?thesis by (auto simp: x)
  next
    case (4 r1 cp1 q n y)
    then have x: "x = WReplay r n" "xs = [WFlush r 0]" "n = cp" using assms(4,6) by simp_all
    have pos: "\<forall>ev\<in>set (rd r cp). 0 < event_seq ev"
    proof
      fix ev assume "ev \<in> set (rd r cp)"
      then have "event_seq ev \<in> set (filter ((<) cp) (vw_log v))" using assms(9) by (metis image_eqI set_map)
      then have "cp < event_seq ev" by simp
      then show "0 < event_seq ev" by (rule le_less_trans [OF word_zero_le])
    qed
    show ?thesis using own_replay [of rd r cp v c xs, OF assms(9,5)] assms(1,5,7) pos by (auto simp: x)
  next
    case (5 r1 cp1 q evs y)
    then have x: "x = WSend r evs" "xs = [WFlush r 0]" "\<forall>ev\<in>set evs. 0 < event_seq ev"
      using assms(4,6) by simp_all
    show ?thesis
    proof (cases evs)
      case Nil
      with assms(1,5,7) own_sent [of r v c "[]"] show ?thesis by (auto simp: x)
    next
      case (Cons ev evs')
      with assms(1,5,7) x(3) own_send [OF open_c] show ?thesis by (auto simp: x(1,2) ws_send_open [OF open_c])
    qed
  next
    case (6 r1 cp1 q n evs y)
    then have x: "x = WAck r n evs" "xs = [WFlush r 0]" "\<forall>ev\<in>set evs. 0 < event_seq ev"
      using assms(4,6) by simp_all
    with assms(1,5,7) own_ack [OF assms(5)] show ?thesis by auto
  qed (use assms(6) in auto)
qed

section \<open>Steps of the tasks\<close>

lemma buffered_length: "work_step rd now x c = (res, c') \<Longrightarrow> well_kept c \<Longrightarrow>
    length (buffered r c') \<le> length (buffered r c)"
  by (cases "(rd, now, x, c)" rule: work_step.cases;
      auto simp: buffered_def well_kept_def ws_send_open flush_take_def flush_send_def
        send_full_reload_def Let_def
      split: list.splits option.splits if_splits)

lemma read_events_seqs:
  "map event_seq (read_events E w r n) = filter ((<) n) (replayed_seqs E r w)"
proof -
  have "is_some_and (get_u64 e ''_seq'') ((<) n) = (n < event_seq e)" for e
    by (cases "get_u64 e ''_seq''") (simp_all add: is_some_and_def event_seq_def)
  then show ?thesis
    by (simp add: read_events_def replayed_seqs_def replay_after_checkpoint [of _ _ _ r n] filter_map o_def)
qed

text \<open>A step of the world that changes for the run only what its work changes, or nothing.\<close>

definition same_tasks :: "string \<Rightarrow> world \<Rightarrow> world \<Rightarrow> bool" where
  "same_tasks r w w' \<longleftrightarrow>
     works r (wd_cmd w') = works r (wd_cmd w)
     \<and> works r (catch_work (wd_a w')) = works r (catch_work (wd_a w))
     \<and> busy_with r (wd_a w') = busy_with r (wd_a w) \<and> task_phase r (wd_a w') = task_phase r (wd_a w)"

definition same_channel :: "string \<Rightarrow> world \<Rightarrow> world \<Rightarrow> bool" where
  "same_channel r w w' \<longleftrightarrow>
     wd_logs w' = wd_logs w \<and> live_seqs r w' = live_seqs r w
     \<and> (0 < rx_missed (wd_a_rx w')) = (0 < rx_missed (wd_a_rx w))"

lemma same_step:
  assumes "tidy r w" "same_for r (wd_conn w) (wd_conn w')" "same_tasks r w w'"
  shows "tidy r w'" "same_channel r w w' \<Longrightarrow> view_of E r w' = view_of E r w"
    "buffered r (wd_conn w') = buffered r (wd_conn w)"
proof -
  have t: "todo r w' = todo r w" using assms(3) by (simp add: todo_def same_tasks_def)
  show "tidy r w'" using assms t unfolding tidy_def same_for_def same_tasks_def Let_def
    by (simp cong: option.case_cong)
  show "buffered r (wd_conn w') = buffered r (wd_conn w)"
    using assms(2) by (simp add: buffered_def same_for_def)
  then show "same_channel r w w' \<Longrightarrow> view_of E r w' = view_of E r w"
    using assms t
    by (simp add: view_of_def same_for_def same_tasks_def same_channel_def phase_of_def log_seqs_def
        replayed_seqs_def cong: list.case_cong)
qed

lemma work_world:
  assumes "tidy r w" "sound E k r w" "checkpoint (cn_session (wd_conn w)) r = Some cp"
    and "todo r w = x # xs" "work_ok x" "work_run x = Some r"
    and "work_step (read_events E w) now x (wd_conn w) = (Some ys, wd_conn w')"
    and "todo r w' = ys @ xs" "wd_logs w' = wd_logs w" "wd_a_rx w' = wd_a_rx w"
    and "wd_inflight w' = wd_inflight w" "\<not> busy_with r (wd_a w')"
    and "works r (wd_cmd w') = [] \<or> works r (catch_work (wd_a w')) = []"
  shows "tidy r w'" "view_step (view_of E r w) (view_of E r w')"
    "checkpoint (cn_session (wd_conn w')) r \<noteq> None"
proof -
  let ?v = "view_of E r w"
  have r: "r \<in> ss_replaying (cn_session (wd_conn w))" "shaped r cp (x # xs)"
    using assms(1,3,4) by (simp_all add: tidy_def Let_def)
  have "map event_seq (read_events E w r cp) = filter ((<) cp) (vw_log ?v)"
    by (simp add: read_events_seqs view_of_def)
  with r obtain cp' where o: "checkpoint (cn_session (wd_conn w')) r = Some cp'" "shaped r cp' (ys @ xs)"
    "r \<in> ss_replaying (cn_session (wd_conn w')) \<longleftrightarrow> ys @ xs \<noteq> []"
    "view_step (own_view r ?v (wd_conn w) (x # xs)) (own_view r ?v (wd_conn w') (ys @ xs))"
    using work_step_own [OF assms(7) _ assms(5,6,3)] assms(2) by (force simp: sound_def)
  have tp: "task_phase r (wd_a w') = PIdle" using assms(12) by (cases "wd_a w'") auto
  have "own_view r ?v (wd_conn w) (x # xs) = ?v"
    by (simp add: own_view_def view_of_def phase_of_def assms(4))
  moreover have "own_view r ?v (wd_conn w') (ys @ xs) = view_of E r w'"
    by (simp add: own_view_def view_of_def phase_of_def assms(8-11) log_seqs_def replayed_seqs_def
        live_seqs_def tp cong: list.case_cong)
  ultimately show "view_step (view_of E r w) (view_of E r w')" using o(4) by simp
  show "tidy r w'" using o assms(8,12,13) by (simp add: tidy_def Let_def)
  show "checkpoint (cn_session (wd_conn w')) r \<noteq> None" using o(1) by simp
qed

lemma works_none: "\<forall>y\<in>set ys. work_run y \<noteq> Some r \<Longrightarrow> works r ys = []"
  by (simp add: works_def)

lemma works_all: "\<forall>y\<in>set ys. work_run y = Some r \<Longrightarrow> works r ys = ys"
  by (simp add: works_def)

text \<open>What has to be shown of every step.\<close>

definition advances :: "ws_env \<Rightarrow> string \<Rightarrow> world \<Rightarrow> world \<Rightarrow> bool" where
  "advances E r w w' \<longleftrightarrow>
     (checkpoint (cn_session (wd_conn w)) r = None \<longrightarrow>
        checkpoint (cn_session (wd_conn w')) r = None \<and> delivered r (wd_conn w') = delivered r (wd_conn w))
     \<and> (checkpoint (cn_session (wd_conn w)) r \<noteq> None \<longrightarrow>
          checkpoint (cn_session (wd_conn w')) r \<noteq> None
          \<and> (view_of E r w' = view_of E r w \<or> view_step (view_of E r w) (view_of E r w')))"

lemma same_advances:
  assumes "tidy r w" "same_for r (wd_conn w) (wd_conn w')" "same_tasks r w w'" "same_channel r w w'"
  shows "advances E r w w'"
  using same_step [OF assms(1-3)] assms(2,4) by (simp add: advances_def same_for_def)

lemma command_advances:
  assumes "tidy r w" "sound E k r w"
  shows "tidy r (command_step E w) \<and> sound E k r (command_step E w) \<and> advances E r w (command_step E w)"
proof (cases "wd_cmd w")
  case Nil
  then have "command_step E w = w" by (simp add: command_step_def)
  then show ?thesis using assms by (simp add: advances_def)
next
  case (Cons x xs)
  obtain res c' where ws: "work_step (read_events E w) (wd_now w) x (wd_conn w) = (res, c')" by (metis surj_pair)
  have ok: "well_kept (wd_conn w)" "work_ok x" using assms(2) Cons by (simp_all add: sound_def)
  note kept = work_step_kept [OF ws ok]
  then obtain ys where ys: "res = Some ys" "\<forall>y\<in>set ys. work_run y = work_run x \<and> work_run y \<noteq> None"
    "list_all work_ok ys" by blast
  let ?w = "w\<lparr>wd_conn := c', wd_cmd := ys @ xs\<rparr>"
  have w': "command_step E w = ?w" using Cons ws ys(1) by (simp add: command_step_def)
  have so: "sound E k r ?w"
    using assms(2) kept(1) ys(3) Cons buffered_length [OF ws ok(1), of r] by (simp add: sound_def)
  show ?thesis
  proof (cases "work_run x = Some r")
    case True
    then have yr: "works r ys = ys" using ys(2) by (intro works_all) simp
    have ex: "works r (catch_work (wd_a w)) = []" and nb: "\<not> busy_with r (wd_a w)"
      using assms(1) Cons True by (simp_all add: tidy_def Let_def todo_def)
    have t: "todo r w = x # works r xs" using Cons True ex by (simp add: todo_def)
    have cp: "checkpoint (cn_session (wd_conn w)) r \<noteq> None"
      using assms(1) t by (auto simp: tidy_def Let_def split: option.splits)
    then obtain cp where cp: "checkpoint (cn_session (wd_conn w)) r = Some cp" by blast
    have "todo r ?w = ys @ works r xs" using yr ex by (simp add: todo_def)
    with work_world [OF assms cp t ok(2) True, of "wd_now w" ys ?w] ws ys(1) ex nb so cp
    show ?thesis by (simp add: w' advances_def)
  next
    case False
    then have "works r ys = []" using ys(2) by (intro works_none) simp
    then have st: "same_tasks r w ?w" using Cons False by (simp add: same_tasks_def)
    have sf: "same_for r (wd_conn w) (wd_conn ?w)"
      using work_step_other [OF ws ok(1) False ok(2)] by simp
    have "same_channel r w ?w" by (simp add: same_channel_def live_seqs_def)
    with same_step(1) [OF assms(1) sf st] same_advances [OF assms(1) sf st] so show ?thesis by (simp add: w')
  qed
qed

lemma catch_advances:
  assumes "tidy r w" "sound E k r w" "wd_a w = ACatch xs"
  shows "tidy r (ws_step E LForward w) \<and> sound E k r (ws_step E LForward w)
    \<and> advances E r w (ws_step E LForward w)"
proof (cases xs)
  case Nil
  let ?w = "w\<lparr>wd_a := AIdle\<rparr>"
  have w': "ws_step E LForward w = ?w" using assms(3) Nil by simp
  have st: "same_tasks r w ?w" "same_for r (wd_conn w) (wd_conn ?w)" "same_channel r w ?w"
    using assms(3) Nil by (simp_all add: same_tasks_def same_for_def same_channel_def live_seqs_def)
  have "sound E k r ?w" using assms(2) by (simp add: sound_def)
  with same_step(1) [OF assms(1) st(2,1)] same_advances [OF assms(1) st(2,1,3)] show ?thesis
    unfolding w' by simp
next
  case (Cons x xs')
  obtain res c' where ws: "work_step (read_events E w) (wd_now w) x (wd_conn w) = (res, c')" by (metis surj_pair)
  have ok: "well_kept (wd_conn w)" "work_ok x" using assms(2,3) Cons by (simp_all add: sound_def)
  note kept = work_step_kept [OF ws ok]
  then obtain ys where ys: "res = Some ys" "\<forall>y\<in>set ys. work_run y = work_run x \<and> work_run y \<noteq> None"
    "list_all work_ok ys" by blast
  let ?w = "w\<lparr>wd_conn := c', wd_a := ACatch (ys @ xs')\<rparr>"
  have w': "ws_step E LForward w = ?w" using assms(3) Cons ws ys(1) by simp
  have so: "sound E k r ?w"
    using assms(2,3) kept(1) ys(3) Cons buffered_length [OF ws ok(1), of r] by (simp add: sound_def)
  show ?thesis
  proof (cases "work_run x = Some r")
    case True
    then have yr: "works r ys = ys" using ys(2) by (intro works_all) simp
    have ex: "works r (wd_cmd w) = []"
      using assms(1,3) Cons True by (simp add: tidy_def Let_def todo_def)
    have t: "todo r w = x # works r xs'" using assms(3) Cons True ex by (simp add: todo_def)
    then obtain cp where cp: "checkpoint (cn_session (wd_conn w)) r = Some cp"
      using assms(1) by (auto simp: tidy_def Let_def split: option.splits)
    have "todo r ?w = ys @ works r xs'" using yr ex by (simp add: todo_def)
    with work_world [OF assms(1,2) cp t ok(2) True, of "wd_now w" ys ?w] ws ys(1) ex so cp
    show ?thesis unfolding w' by (simp add: advances_def)
  next
    case False
    then have "works r ys = []" using ys(2) by (intro works_none) simp
    then have st: "same_tasks r w ?w" using assms(3) Cons False by (simp add: same_tasks_def)
    have sf: "same_for r (wd_conn w) (wd_conn ?w)"
      using work_step_other [OF ws ok(1) False ok(2)] by simp
    have "same_channel r w ?w" by (simp add: same_channel_def live_seqs_def)
    with same_step(1) [OF assms(1) sf st] same_advances [OF assms(1) sf st] so show ?thesis unfolding w' by simp
  qed
qed

text \<open>Sending a live message.\<close>

lemma busy_phase: "\<not> busy_with r t \<Longrightarrow> task_phase r t = PIdle"
  by (cases t) auto

lemma live_advances:
  assumes "tidy r w" "sound E k r w" "wd_a w = ASend q n env \<or> wd_a w = AAck q n"
  shows "tidy r (ws_step E LForward w) \<and> sound E k r (ws_step E LForward w)
    \<and> advances E r w (ws_step E LForward w)"
proof -
  have open_c: "\<not> cn_closed (wd_conn w)" using assms(2) by (simp add: sound_def well_kept_def)
  let ?s = "w\<lparr>wd_conn := (wd_conn w)\<lparr>cn_out := cn_out (wd_conn w) @ [env]\<rparr>, wd_a := AAck q n\<rparr>"
  let ?a = "w\<lparr>wd_conn := on_session (raise_checkpoint q n) (wd_conn w), wd_a := AIdle\<rparr>"
  consider "wd_a w = ASend q n env" "ws_step E LForward w = ?s" | "wd_a w = AAck q n" "ws_step E LForward w = ?a"
    using assms(3) ws_send_open [OF open_c] by auto
  then show ?thesis
  proof cases
    case 1
    have env: "envelope_ok q n env" using assms(2) 1 by (simp add: sound_def)
    have so: "sound E k r ?s" using assms(2) by (simp add: sound_def well_kept_def)
    show ?thesis
    proof (cases "q = r")
      case False
      then have st: "same_tasks r w ?s" "same_for r (wd_conn w) (wd_conn ?s)" "same_channel r w ?s"
        using 1(1) env by (simp_all add: same_tasks_def same_for_def same_channel_def live_seqs_def
            delivered_def envelope_ok_def List.map_filter_def)
      show ?thesis unfolding 1(2)
        using same_step(1) [OF assms(1) st(2,1)] same_advances [OF assms(1) st(2,1,3)] so by simp
    next
      case True
      then have t: "todo r w = []" "checkpoint (cn_session (wd_conn w)) r \<noteq> None" "todo r ?s = []"
        using assms(1) 1(1) by (auto simp: tidy_def Let_def todo_def split: option.splits)
      have ti: "tidy r ?s" using assms(1) t 1(1) by (auto simp: tidy_def Let_def todo_def split: option.splits)
      have "vw_phase (view_of E r w) = PSending n" using t 1(1) True by (simp add: view_of_def phase_of_def)
      from vs_sent [OF this] have "view_step (view_of E r w) (view_of E r ?s)"
        using t True env
        by (simp add: view_of_def phase_of_def log_seqs_def replayed_seqs_def live_seqs_def
            envelope_ok_def del: delivered_simps) (simp add: delivered_def List.map_filter_def)
      then show ?thesis unfolding 1(2) using ti so t(2) by (auto simp: advances_def)
    qed
  next
    case 2
    have so: "sound E k r ?a" using assms(2) by (simp add: sound_def well_kept_def)
    show ?thesis
    proof (cases "q = r")
      case False
      then have st: "same_tasks r w ?a" "same_for r (wd_conn w) (wd_conn ?a)" "same_channel r w ?a"
        using 2(1) by (simp_all add: same_tasks_def same_for_def same_channel_def live_seqs_def)
      show ?thesis unfolding 2(2)
        using same_step(1) [OF assms(1) st(2,1)] same_advances [OF assms(1) st(2,1,3)] so by simp
    next
      case True
      then obtain cp where t: "todo r w = []" "checkpoint (cn_session (wd_conn w)) r = Some cp" "todo r ?a = []"
        using assms(1) 2(1) by (auto simp: tidy_def Let_def todo_def split: option.splits)
      have ti: "tidy r ?a" using assms(1) t 2(1) True by (auto simp: tidy_def Let_def todo_def)
      have "vw_phase (view_of E r w) = PSent n" using t 2(1) True by (simp add: view_of_def phase_of_def)
      from vs_acked [OF this] have "view_step (view_of E r w) (view_of E r ?a)"
        using t True by (simp add: view_of_def phase_of_def log_seqs_def replayed_seqs_def live_seqs_def)
      then show ?thesis unfolding 2(2) using ti so t(2) True by (simp add: advances_def)
    qed
  qed
qed

text \<open>Receiving a message, and the lag.\<close>

lemma live_seqs_recv:
  "rx_queue (wd_a_rx w) = m # ms \<Longrightarrow>
     live_seqs r w = (case msg_seq r m of None \<Rightarrow> [] | Some n \<Rightarrow> [n])
       @ List.map_filter (msg_seq r) (ms @ wd_inflight w)"
  by (simp add: live_seqs_def List.map_filter_def split: option.split)

lemma shaped_in_replay: "shaped r cp (x # xs) \<Longrightarrow> in_replay (work_phase x)"
  by (cases "(r, cp, x # xs)" rule: shaped.cases) auto

lemma receive_other:
  assumes "msg_seq r m = None" "well_kept c" "a_receive m c = (t, c')"
  shows "same_for r c c'" "well_kept c'" "task_ok t" "works r (catch_work t) = []" "\<not> busy_with r t"
    "buffered r c' = buffered r c"
proof -
  have "same_for r c c' \<and> well_kept c' \<and> task_ok t \<and> works r (catch_work t) = [] \<and> \<not> busy_with r t
    \<and> buffered r c' = buffered r c"
  proof (cases "bm_run_id m = None \<or> bm_seq m = None")
    case True
    then have "t = AIdle" "c' = c" using assms(3) by (auto simp: a_receive_def split: option.splits)
    then show ?thesis using assms(2) by (simp add: same_for_def)
  next
    case False
    then obtain q n where m: "bm_run_id m = Some q" "bm_seq m = Some n" by auto
    then have q: "q \<noteq> r" using assms(1) by (auto simp: msg_seq_def)
    let ?env = "bus_envelope_ws (bm_event_name m) n q (bm_payload m)"
    have env: "envelope_ok q n ?env" by (simp add: envelope_ok_def)
    let ?s = "cn_session c"
    let ?buf = "unwrap_or (ss_replay_buffer ?s q) []"
    let ?b = "if length ?buf < REPLAY_BUFFER_CAPACITY then ?buf @ [\<lparr> be_envelope = ?env, be_seq = n \<rparr>] else ?buf"
    consider "t = AIdle" "c' = c"
      | "t = AIdle" "c' = c\<lparr>cn_session := ?s\<lparr>ss_replay_buffer := (ss_replay_buffer ?s)(q \<mapsto> ?b)\<rparr>\<rparr>"
      | "t = ASend q n ?env" "c' = c"
      using assms(3) m by (auto simp: a_receive_def Let_def split: option.splits if_splits)
    then show ?thesis
    proof cases
      case 2
      have "buffered_ok q ?buf"
        using assms(2) by (cases "ss_replay_buffer ?s q") (auto simp: well_kept_def)
      then have b: "buffered_ok q ?b" using env by simp
      have "well_kept (c\<lparr>cn_session := ?s\<lparr>ss_replay_buffer := (ss_replay_buffer ?s)(q \<mapsto> b)\<rparr>\<rparr>)"
        if "buffered_ok q b" for b
        using that assms(2) by (simp add: well_kept_def)
      from this [OF b] have "well_kept c'" using 2(2) by simp
      then show ?thesis using q 2 by (simp add: same_for_def buffered_def)
    qed (use assms(2) env q in \<open>simp_all add: same_for_def\<close>)
  qed
  then show "same_for r c c'" "well_kept c'" "task_ok t" "works r (catch_work t) = []" "\<not> busy_with r t"
    "buffered r c' = buffered r c" by blast+
qed

lemma idle_tasks:
  assumes "wd_a w = AIdle" "works r (catch_work t) = []" "\<not> busy_with r t" "wd_cmd w' = wd_cmd w" "wd_a w' = t"
  shows "same_tasks r w w'"
  using assms busy_phase [OF assms(3)] by (simp add: same_tasks_def)

lemma receive_advances:
  assumes "tidy r w" "sound E k r w" "wd_a w = AIdle" "rx_missed (wd_a_rx w) = 0"
    and "rx_queue (wd_a_rx w) = m # ms" "follows E r LForward w"
  shows "tidy r (ws_step E LForward w) \<and> sound E k r (ws_step E LForward w)
    \<and> advances E r w (ws_step E LForward w)"
proof -
  let ?c = "wd_conn w"
  let ?rx = "(wd_a_rx w)\<lparr>rx_queue := ms\<rparr>"
  obtain t c' where tc: "a_receive m ?c = (t, c')" by (metis surj_pair)
  let ?w = "w\<lparr>wd_a := t, wd_a_rx := ?rx, wd_conn := c'\<rparr>"
  have w': "ws_step E LForward w = ?w"
    using assms(2-5) tc by (simp add: channel_recv_def sound_def broadcast_channel_def)
  have wk: "well_kept ?c" using assms(2) by (simp add: sound_def)
  have live: "live_seqs r w = (case msg_seq r m of None \<Rightarrow> [] | Some n \<Rightarrow> [n]) @ live_seqs r ?w"
    using live_seqs_recv [OF assms(5)] by (simp add: live_seqs_def)
  show ?thesis
  proof (cases "msg_seq r m")
    case None
    note o = receive_other [OF None wk tc]
    have st: "same_tasks r w ?w" using idle_tasks [OF assms(3) o(4,5), of ?w] by simp
    have sc: "same_channel r w ?w" using live None by (simp add: same_channel_def)
    have "sound E k r ?w" using assms(2) o by (simp add: sound_def)
    then show ?thesis unfolding w'
      using same_step(1) [OF assms(1) _ st] same_advances [OF assms(1) _ st sc] o(1) by simp
  next
    case (Some n)
    then have m: "bm_run_id m = Some r" "bm_seq m = Some n" by (auto simp: msg_seq_def split: if_splits)
    have lv: "live_seqs r w = n # live_seqs r ?w" using live Some by simp
    have nl: "\<not> vw_lag (view_of E r w)" "vw_live (view_of E r w) = n # live_seqs r ?w"
      using assms(4) lv by (simp_all add: view_of_def)
    let ?s = "cn_session ?c"
    show ?thesis
    proof (cases "checkpoint ?s r")
      case None
      then have tc': "t = AIdle" "c' = ?c" using tc m by (simp_all add: a_receive_def Let_def)
      have st: "same_tasks r w ?w" "same_for r (wd_conn w) (wd_conn ?w)"
        using tc' assms(3) by (simp_all add: same_tasks_def same_for_def)
      have "sound E k r ?w" using assms(2,3) tc' by (simp add: sound_def)
      then show ?thesis unfolding w'
        using same_step(1) [OF assms(1) st(2,1)] None tc' by (simp add: advances_def)
    next
      case (Some cp)
      show ?thesis
      proof (cases "r \<in> ss_replaying ?s")
        case True
        let ?env = "bus_envelope_ws (bm_event_name m) n r (bm_payload m)"
        let ?buf = "unwrap_or (ss_replay_buffer ?s r) []"
        let ?b = "?buf @ [\<lparr> be_envelope = ?env, be_seq = n \<rparr>]"
        have room: "Suc (length ?buf) < REPLAY_BUFFER_CAPACITY"
          using assms(3,6) True by (simp add: buffered_def)
        then have tc': "t = AIdle" "c' = ?c\<lparr>cn_session := ?s\<lparr>ss_replay_buffer := (ss_replay_buffer ?s)(r \<mapsto> ?b)\<rparr>\<rparr>"
          using tc m Some True by (simp_all add: a_receive_def Let_def)
        have "buffered_ok r ?buf"
          using wk by (cases "ss_replay_buffer ?s r") (auto simp: well_kept_def)
        then have "well_kept c'" using wk by (simp add: well_kept_def tc'(2) envelope_ok_def)
        then have so: "sound E k r ?w" using assms(2) tc' room by (simp add: sound_def buffered_def)
        have td: "todo r ?w = todo r w" using tc' assms(3) by (simp add: todo_def)
        have ti: "tidy r ?w" using assms(1,3) Some td by (simp add: tidy_def Let_def tc')
        obtain x xs where x: "todo r w = x # xs" "shaped r cp (x # xs)"
          using assms(1) True Some by (cases "todo r w") (auto simp: tidy_def Let_def)
        have "in_replay (vw_phase (view_of E r w))"
          using shaped_in_replay [OF x(2)] by (simp add: view_of_def phase_of_def x(1))
        moreover have c': "checkpoint (cn_session c') r = Some cp" "buffered r c' = buffered r ?c @ [n]"
          "delivered r c' = delivered r ?c"
          using Some by (simp_all add: tc'(2) buffered_def)
        have "view_of E r ?w = (view_of E r w)\<lparr>vw_live := live_seqs r ?w,
            vw_buf := vw_buf (view_of E r w) @ [n]\<rparr>"
          using td x(1) c' Some by (simp add: view_of_def phase_of_def log_seqs_def replayed_seqs_def)
        ultimately have "view_step (view_of E r w) (view_of E r ?w)"
          using vs_buffer [OF _ nl] by simp
        then show ?thesis unfolding w' using so ti Some tc' by (simp add: advances_def)
      next
        case False
        then have t0: "todo r w = []" using assms(1) by (simp add: tidy_def Let_def)
        have idle: "vw_phase (view_of E r w) = PIdle" using t0 assms(3) by (simp add: view_of_def phase_of_def)
        have cp: "vw_cp (view_of E r w) = cp" using Some by (simp add: view_of_def)
        show ?thesis
        proof (cases "n \<le> cp")
          case True
          then have tc': "t = AIdle" "c' = ?c" using tc m Some False by (simp_all add: a_receive_def Let_def)
          have st: "same_tasks r w ?w" "same_for r (wd_conn w) (wd_conn ?w)"
            using tc' assms(3) by (simp_all add: same_tasks_def same_for_def)
          have so: "sound E k r ?w" using assms(2,3) tc' by (simp add: sound_def)
          have td: "todo r ?w = []" using t0 tc' assms(3) by (simp add: todo_def)
          have "view_step (view_of E r w) (view_of E r ?w)"
            using vs_skip [OF idle nl] True cp assms(3) tc' t0 td
            by (simp add: view_of_def phase_of_def log_seqs_def replayed_seqs_def)
          then show ?thesis unfolding w'
            using same_step(1) [OF assms(1) st(2,1)] so Some tc' by (simp add: advances_def)
        next
          case gt: False
          let ?env = "bus_envelope_ws (bm_event_name m) n r (bm_payload m)"
          have tc': "t = ASend r n ?env" "c' = ?c"
            using tc m Some False gt by (simp_all add: a_receive_def Let_def)
          have so: "sound E k r ?w" using assms(2) tc' by (simp add: sound_def envelope_ok_def)
          have td: "todo r ?w = []" using t0 tc' assms(3) by (simp add: todo_def)
          have ti: "tidy r ?w" using assms(1,3) Some td t0 False by (simp add: tidy_def Let_def tc')
          have "view_step (view_of E r w) (view_of E r ?w)"
            using vs_take [OF idle nl] gt cp tc' t0 td
            by (simp add: view_of_def phase_of_def log_seqs_def replayed_seqs_def)
          then show ?thesis unfolding w' using so ti Some tc' by (simp add: advances_def)
        qed
      qed
    qed
  qed
qed

lemma begin_replays:
  fixes runs :: "(string \<times> u64) list" and s :: WsSession
  defines "s' \<equiv> fold (\<lambda>(q, n). begin_replay q) runs s"
  shows "ss_subscriptions s' = ss_subscriptions s"
    "ss_replaying s' = fst ` set runs \<union> ss_replaying s"
    "unwrap_or (ss_replay_buffer s' r) [] = unwrap_or (ss_replay_buffer s r) []"
    "r \<notin> fst ` set runs \<Longrightarrow> ss_replay_buffer s' r = ss_replay_buffer s r"
  unfolding s'_def by (induction runs arbitrary: s) auto

lemma works_replays:
  assumes "distinct (map fst runs)"
  shows "works r (map (\<lambda>(q, n). WReplay q n) runs) =
      (case map_of runs r of None \<Rightarrow> [] | Some n \<Rightarrow> [WReplay r n])"
    "works r (map (\<lambda>(q, n). WFlush q 0) runs) =
      (case map_of runs r of None \<Rightarrow> [] | Some n \<Rightarrow> [WFlush r 0])"
  using assms by (induction runs) (auto simp: works_def filter_empty_conv image_iff split: option.splits)

lemma lag_advances:
  assumes "tidy r w" "sound E k r w" "wd_a w = AIdle" "0 < rx_missed (wd_a_rx w)" "follows E r LForward w"
  shows "tidy r (ws_step E LForward w) \<and> sound E k r (ws_step E LForward w)
    \<and> advances E r w (ws_step E LForward w)"
proof -
  let ?c = "wd_conn w" and ?s = "cn_session (wd_conn w)"
  let ?rx = "(wd_a_rx w)\<lparr>rx_missed := 0\<rparr>"
  define runs where "runs = filter (\<lambda>(q, n). q \<notin> ss_replaying ?s) (ss_subscriptions ?s)"
  define xs where "xs = map (\<lambda>(q, n). WReplay q n) runs @ map (\<lambda>(q, n). WFlush q (0 :: u64)) runs"
  define s' where "s' = fold (\<lambda>(q, n). begin_replay q) runs ?s"
  define w' where "w' = w\<lparr>wd_a := ACatch xs, wd_a_rx := ?rx, wd_conn := ?c\<lparr>cn_session := s'\<rparr>\<rparr>"
  have w': "ws_step E LForward w = w'"
    using assms(2-4)
    by (simp add: channel_recv_def a_lagged_def Let_def w'_def xs_def runs_def s'_def sound_def broadcast_channel_def)
  have wk: "well_kept ?c" using assms(2) by (simp add: sound_def)
  then have d: "distinct (map fst (ss_subscriptions ?s))" by (simp add: well_kept_def)
  then have dr: "distinct (map fst runs)" by (simp add: runs_def distinct_map_filter)
  note b = begin_replays [where runs = runs and s = ?s, folded s'_def]
  have nr: "r \<notin> ss_replaying ?s" using assms(3-5) by auto
  then have t0: "todo r w = []" using assms(1) by (simp add: tidy_def Let_def)
  have look: "map_of runs r = checkpoint ?s r"
  proof -
    have "map_of (filter (\<lambda>(q, n). q \<notin> ss_replaying ?s) xs) r = map_of xs r" for xs :: "(string \<times> u64) list"
      using nr by (induction xs) auto
    then show ?thesis by (simp add: runs_def checkpoint_def)
  qed
  have cp: "checkpoint s' r = checkpoint ?s r" by (simp add: checkpoint_def b(1))
  have buf: "buffered r (wd_conn w') = buffered r ?c" by (simp add: buffered_def b(3) w'_def)
  have "well_kept (wd_conn w')"
  proof -
    have "buffered_ok q es" if "ss_replay_buffer s' q = Some es" for q es
    proof -
      have "es = unwrap_or (ss_replay_buffer ?s q) []" using b(3) [of q] that by simp
      then show ?thesis using wk by (cases "ss_replay_buffer ?s q") (auto simp: well_kept_def)
    qed
    then show ?thesis using wk by (simp add: well_kept_def w'_def b(1))
  qed
  then have so: "sound E k r w'"
    using assms(2) buf by (auto simp: sound_def w'_def xs_def list_all_iff)
  have tw: "todo r w' = (case checkpoint ?s r of None \<Rightarrow> [] | Some n \<Rightarrow> [WReplay r n, WFlush r 0])"
    using t0 by (simp add: todo_def w'_def xs_def works_replays [OF dr] look split: option.split)
  have dl: "delivered r (wd_conn w') = delivered r ?c" by (simp add: w'_def)
  show ?thesis
  proof (cases "checkpoint ?s r")
    case None
    then have "r \<notin> fst ` set runs" using look by (simp add: map_of_eq_None_iff)
    then have "r \<notin> ss_replaying s'" "ss_replay_buffer s' r = ss_replay_buffer ?s r" using b(2,4) nr by auto
    moreover have "works r (wd_cmd w) = []" using t0 by (simp add: todo_def)
    ultimately have "tidy r w'" using assms(1) tw None cp by (simp add: tidy_def Let_def w'_def)
    then show ?thesis unfolding w' using so None dl cp by (simp add: advances_def w'_def)
  next
    case (Some n)
    then have "r \<in> fst ` set runs" using look by (metis map_of_eq_None_iff option.distinct(1))
    then have "r \<in> ss_replaying s'" using b(2) by simp
    moreover have "works r (wd_cmd w) = []" using t0 by (simp add: todo_def)
    ultimately have ti: "tidy r w'" using assms(1) tw Some cp by (simp add: tidy_def Let_def w'_def)
    have "view_of E r w' = (view_of E r w)\<lparr>vw_lag := False, vw_phase := PReplay\<rparr>"
      using tw Some buf dl cp
      by (simp add: view_of_def phase_of_def log_seqs_def replayed_seqs_def live_seqs_def) (simp add: w'_def cp)
    moreover have "vw_phase (view_of E r w) = PIdle" "vw_lag (view_of E r w)"
      using t0 assms(3,4) by (simp_all add: view_of_def phase_of_def)
    ultimately have "view_step (view_of E r w) (view_of E r w')" using vs_catch by simp
    then show ?thesis unfolding w' using so ti Some cp by (simp add: advances_def w'_def)
  qed
qed

section \<open>Steps around the tasks\<close>

lemma replay_value_number:
  assumes "replay_value n v = Some e"
  shows "get_u64 v ''seq'' = Some (event_seq e)"
proof -
  obtain m event where v: "get_u64 v ''seq'' = Some m" "j_get v ''event'' = Some event"
    "is_some_and (get_str event ''type'') (\<lambda>t. t \<in> set REPLAY_TYPES)"
    and e: "e = j_set ''_seq'' (json_num m)
      (case j_get v ''ts'' of None \<Rightarrow> event | Some ts \<Rightarrow> j_set ''ts'' ts event)"
    using assms by (auto simp: replay_value_def split: if_splits option.splits)
  from v(3) have "j_get event ''type'' \<noteq> None"
    by (auto simp: is_some_and_def get_str_def split: option.splits bind_splits)
  then obtain kvs where "event = JObj kvs" by (cases event) auto
  then have "get_u64 e ''_seq'' = Some m"
    by (auto simp: e get_u64_def j_set_def json_num_def split: option.split)
  then show ?thesis using v(1) by (simp add: event_seq_def)
qed

lemma replayed_numbers:
  fixes ls :: "string list" and parse :: "string \<Rightarrow> json option"
  defines "N \<equiv> List.map_filter (\<lambda>l. if str_trim l = [] then None
      else Option.bind (parse l) (\<lambda>v. get_u64 v ''seq''))"
    and "R \<equiv> \<lambda>ls. map event_seq (List.map_filter (replay_value 0)
      (List.map_filter parse (filter (\<lambda>l. str_trim l \<noteq> []) ls)))"
  shows "set (R ls) \<subseteq> set (N ls) \<and> (sorted_wrt (<) (N ls) \<longrightarrow> sorted_wrt (<) (R ls))"
proof (induction ls)
  case (Cons l ls)
  show ?case
  proof (cases "R (l # ls) = R ls")
    case True
    then show ?thesis using Cons by (auto simp: N_def List.map_filter_simps split: option.splits)
  next
    case False
    then obtain v e where v: "str_trim l \<noteq> []" "parse l = Some v" "replay_value 0 v = Some e"
      by (auto simp: R_def List.map_filter_simps split: option.splits if_splits)
    then have "R (l # ls) = event_seq e # R ls" by (simp add: R_def List.map_filter_simps)
    moreover have "N (l # ls) = event_seq e # N ls"
      using v replay_value_number [OF v(3)] by (simp add: N_def List.map_filter_simps)
    ultimately show ?thesis using Cons by auto
  qed
qed (simp add: N_def R_def List.map_filter_simps)

lemma log_sorted:
  assumes "logs_ok (we_parse E) k (wd_logs w)"
  shows "sorted_wrt (<) (log_seqs E r w)" "sorted_wrt (<) (replayed_seqs E r w)"
    "set (replayed_seqs E r w) \<subseteq> set (log_seqs E r w)"
proof -
  have f: "file_ok (we_parse E) k (unwrap_or (snd (wd_logs w) r) [])" using assms by (simp add: logs_ok_def)
  then show s: "sorted_wrt (<) (log_seqs E r w)" by (simp add: file_ok_def log_seqs_def)
  have e: "replayed_seqs E r w = map event_seq (List.map_filter (replay_value 0)
      (log_values (we_parse E) (unwrap_or (snd (wd_logs w) r) [])))"
    using f list_bus_events_values [of "snd (wd_logs w)" r "we_parse E"]
    by (simp add: replayed_seqs_def file_ok_def)
  show "sorted_wrt (<) (replayed_seqs E r w)" "set (replayed_seqs E r w) \<subseteq> set (log_seqs E r w)"
    using s replayed_numbers [where parse = "we_parse E" and ls = "str_lines (unwrap_or (snd (wd_logs w) r) [])"]
    by (simp_all add: e log_seqs_def log_values_def line_seqs_def)
qed

lemma logs_ok_mono: "logs_ok parse k s \<Longrightarrow> logs_ok parse (Suc k) s"
  by (auto simp: logs_ok_def file_ok_def table_ok_def intro: le_SucI)

lemma sound_mono: "sound E k r w \<Longrightarrow> sound E (Suc k) r w"
  by (simp add: sound_def logs_ok_mono)

lemma replayed_event_number:
  assumes "get_str event ''type'' = Some tag"
  shows "event_seq (replayed_event now event n) = n"
proof -
  have "j_get event ''type'' \<noteq> None" using assms by (auto simp: get_str_def split: bind_splits)
  then obtain kvs where "event = JObj kvs" by (cases event) auto
  then show ?thesis by (simp add: replayed_event_def event_seq_def get_u64_def j_set_def json_num_def)
qed

lemma list_bus_events_only: "files' r = files r \<Longrightarrow>
    list_bus_events parse io files' r n = list_bus_events parse io files r n"
  by (simp add: list_bus_events_def read_log_def)

lemma tidy_only: "wd_cmd w' = wd_cmd w \<Longrightarrow> wd_a w' = wd_a w \<Longrightarrow> wd_conn w' = wd_conn w \<Longrightarrow>
    tidy r w' = tidy r w"
  unfolding tidy_def todo_def Let_def by (simp cong: option.case_cong)

lemma event_advances:
  assumes "tidy r w" "sound E k r w" "k + 2 < 2 ^ 64"
    and "follows E r (LEvent now q ev res open_runs) w" "ws_step E (LEvent now q ev res open_runs) w = w'"
  shows "tidy r w'" "sound E (Suc k) r w'" "advances E r w w'"
    "\<exists>ns. log_seqs E r w' = log_seqs E r w @ ns \<and> live_seqs r w' = live_seqs r w @ ns
      \<and> sorted_wrt (<) (log_seqs E r w @ ns)"
proof -
  obtain tab files where lg: "wd_logs w = (tab, files)" by (metis surj_pair)
  obtain res' tab' files' where wr: "write_record (we_parse E) (we_show E) io_good open_runs res q
      (bus_envelope now (we_enc E ev)) (tab, files) = (res', tab', files')"
    by (metis surj_pair)
  have ok: "logs_ok (we_parse E) k (tab, files)" using assms(2) lg by (simp add: sound_def)
  have tag: "get_str (we_enc E ev) ''type'' = Some (event_tag ev)" using assms(4) by (simp add: event_ok_def)
  have pr: "prints_line (we_parse E) (we_show E) (bus_envelope now (we_enc E ev) n)"
    "we_parse E (we_show E (bus_envelope now (we_enc E ev) n)) = Some (bus_envelope now (we_enc E ev) n)" for n
    using assms(4) by (simp_all add: event_ok_def)
  have part: "res \<noteq> ApPartial n e" for n e using assms(4) by simp
  note b = bus_record_written [where now = now, OF ok assms(3) wr pr tag part]
  let ?ms = "case res' of Inl e \<Rightarrow> [] | Inr n \<Rightarrow> [bus_msg (we_enc E) q ev n]"
  have w': "w' = w\<lparr>wd_logs := (tab', files'), wd_inflight := wd_inflight w @ ?ms\<rparr>"
    using assms(5) wr lg by (auto simp: persist_and_emit_def write_bus_event_with_ts_def split: sum.split)
  show so: "sound E (Suc k) r w'" using assms(2) b(1) by (simp add: sound_def w')
  show ti: "tidy r w'" using assms(1) tidy_only [of w' w r] by (simp add: w')
  have live: "live_seqs r w' = live_seqs r w @ List.map_filter (msg_seq r) ?ms"
    by (simp add: live_seqs_def w' List.map_filter_def)
  have keep: "view_of E r w' = (view_of E r w)\<lparr>vw_nums := log_seqs E r w', vw_log := replayed_seqs E r w',
      vw_live := live_seqs r w'\<rparr>"
  proof -
    have "wd_cmd w' = wd_cmd w" "wd_a w' = wd_a w" "wd_conn w' = wd_conn w" "wd_a_rx w' = wd_a_rx w"
      by (simp_all add: w')
    then show ?thesis by (simp add: view_of_def phase_of_def todo_def cong: list.case_cong)
  qed
  have same: "log_seqs E r w' = log_seqs E r w" "replayed_seqs E r w' = replayed_seqs E r w"
    if "files' r = files r"
    using that list_bus_events_only [of files' r files] by (simp_all add: log_seqs_def replayed_seqs_def w' lg)
  have cases: "(log_seqs E r w' = log_seqs E r w \<and> replayed_seqs E r w' = replayed_seqs E r w
      \<and> live_seqs r w' = live_seqs r w)
    \<or> (\<exists>n. log_seqs E r w' = log_seqs E r w @ [n] \<and> live_seqs r w' = live_seqs r w @ [n]
      \<and> replayed_seqs E r w' = replayed_seqs E r w @ (if is_replayable ev then [n] else [])
      \<and> (\<forall>x\<in>set (log_seqs E r w). x < n))"
    using b(2)
  proof (elim disjE exE conjE)
    fix e assume "res' = Inl e" "files' = files"
    then show ?thesis using same live by (simp add: List.map_filter_simps)
  next
    fix n s' assume n: "res' = Inr n" "files' = files(q \<mapsto> s')"
      "\<forall>x\<in>set (line_seqs (we_parse E) (unwrap_or (files q) [])). x < n"
      "line_seqs (we_parse E) s' = line_seqs (we_parse E) (unwrap_or (files q) []) @ [n]"
      "list_bus_events (we_parse E) io_good files' q None = list_bus_events (we_parse E) io_good files q None
        @ (if event_tag ev \<in> set REPLAY_TYPES then [replayed_event now (we_enc E ev) n] else [])"
    show ?thesis
    proof (cases "q = r")
      case True
      have "log_seqs E r w' = log_seqs E r w @ [n]" "\<forall>x\<in>set (log_seqs E r w). x < n"
        using n True by (simp_all add: log_seqs_def w' lg)
      moreover have "replayed_seqs E r w' = replayed_seqs E r w @ (if is_replayable ev then [n] else [])"
        using n(5) True replayed_event_number [OF tag]
        by (simp add: replayed_seqs_def w' lg is_replayable_def)
      moreover have "live_seqs r w' = live_seqs r w @ [n]"
        using live n(1) True by (simp add: List.map_filter_simps msg_seq_def bus_msg_def)
      ultimately show ?thesis by blast
    next
      case False
      then have "files' r = files r" using n(2) by simp
      then show ?thesis using same live n(1) False by (simp add: List.map_filter_simps msg_seq_def bus_msg_def)
    qed
  qed
  have srt: "sorted_wrt (<) (log_seqs E r w)" using log_sorted(1) [of E k w r] ok lg by simp
  show "\<exists>ns. log_seqs E r w' = log_seqs E r w @ ns \<and> live_seqs r w' = live_seqs r w @ ns
      \<and> sorted_wrt (<) (log_seqs E r w @ ns)"
    using cases
  proof (elim disjE exE conjE)
    fix n assume "log_seqs E r w' = log_seqs E r w @ [n]" "live_seqs r w' = live_seqs r w @ [n]"
      "\<forall>x\<in>set (log_seqs E r w). x < n"
    with srt show ?thesis by (intro exI [of _ "[n]"]) (simp add: sorted_wrt_snoc)
  qed (use srt in \<open>intro exI [of _ "[]"], simp\<close>)
  have cn: "wd_conn w' = wd_conn w" by (simp add: w')
  have "view_of E r w' = view_of E r w \<or> view_step (view_of E r w) (view_of E r w')"
    using cases
  proof (elim disjE exE conjE)
    assume "log_seqs E r w' = log_seqs E r w" "replayed_seqs E r w' = replayed_seqs E r w"
      "live_seqs r w' = live_seqs r w"
    then show ?thesis using keep by (simp add: view_of_def)
  next
    fix n assume n: "log_seqs E r w' = log_seqs E r w @ [n]" "live_seqs r w' = live_seqs r w @ [n]"
      "replayed_seqs E r w' = replayed_seqs E r w @ (if is_replayable ev then [n] else [])"
      "\<forall>x\<in>set (log_seqs E r w). x < n"
    from vs_write [of "view_of E r w" n "is_replayable ev"] n have
      "view_step (view_of E r w) (view_of E r w')"
      unfolding keep by (simp add: view_of_def)
    then show ?thesis ..
  qed
  then show "advances E r w w'" by (simp add: advances_def cn)
qed

text \<open>The messages under way stay in the order of the log.\<close>

definition live_ok :: "ws_env \<Rightarrow> string \<Rightarrow> world \<Rightarrow> bool" where
  "live_ok E r w \<longleftrightarrow> sorted_wrt (<) (live_seqs r w) \<and> set (live_seqs r w) \<subseteq> set (log_seqs E r w)"

lemma live_ok_smaller:
  assumes "live_ok E r w" "live_seqs r w = live_seqs r w' \<or> (\<exists>x. live_seqs r w = x # live_seqs r w')"
    and "wd_logs w' = wd_logs w"
  shows "live_ok E r w'"
  using assms by (auto simp: live_ok_def log_seqs_def)

lemma broadcast_advances:
  assumes "tidy r w" "sound E k r w" "live_ok E r w" "follows E r (LBroadcast i) w"
    and "ws_step E (LBroadcast i) w = w'"
  shows "tidy r w'" "sound E k r w'" "advances E r w w'" "live_ok E r w'"
proof -
  let ?rx = "wd_a_rx w" and ?fl = "wd_inflight w"
  have "tidy r w' \<and> sound E k r w' \<and> advances E r w w' \<and> live_ok E r w'"
  proof (cases "i < length ?fl")
    case False
    then have "w' = w" using assms(5) by simp
    then show ?thesis using assms by (simp add: advances_def)
  next
    case True
    let ?m = "?fl ! i"
    define fl' where "fl' = take i ?fl @ drop (Suc i) ?fl"
    have w': "w' = w\<lparr>wd_inflight := fl', wd_a_rx := channel_send A_CAPACITY ?m ?rx\<rparr>"
      using assms(2,5) True by (simp add: fl'_def sound_def broadcast_channel_def)
    have fr: "wd_cmd w' = wd_cmd w" "wd_a w' = wd_a w" "wd_conn w' = wd_conn w" "wd_logs w' = wd_logs w"
      by (simp_all add: w')
    have fl: "?fl = take i ?fl @ ?m # drop (Suc i) ?fl" using True by (rule id_take_nth_drop)
    let ?f = "List.map_filter (msg_seq r)"
    have app: "?f (xs @ ys) = ?f xs @ ?f ys" for xs ys by (simp add: List.map_filter_def)
    have move: "?f (?m # fl') = ?f ?fl"
    proof (cases "msg_seq r ?m")
      case None
      then have "?f ?fl = ?f (take i ?fl) @ ?f (drop (Suc i) ?fl)"
        by (subst fl) (simp add: app List.map_filter_simps)
      then show ?thesis using None by (simp add: app List.map_filter_simps fl'_def)
    next
      case (Some n)
      then have "bm_run_id ?m = Some r" by (simp add: msg_seq_def split: if_splits)
      then have "list_all (\<lambda>m. bm_run_id m \<noteq> Some r) (take i ?fl)" using assms(4) True by simp
      then have "?f (take i ?fl) = []" by (auto simp: List.map_filter_def filter_empty_conv list_all_iff msg_seq_def)
      moreover have "?f ?fl = ?f (take i ?fl) @ n # ?f (drop (Suc i) ?fl)"
        using Some by (subst fl) (simp add: app List.map_filter_simps)
      ultimately show ?thesis using Some by (simp add: app List.map_filter_simps fl'_def)
    qed
    have sent: "?f ((q @ [?m]) @ fl') = ?f (q @ ?fl)" for q
      using move by (simp only: app append_assoc append_Cons append_Nil)
    have lag: "rx_missed (wd_a_rx w') = rx_missed ?rx \<and> live_seqs r w' = live_seqs r w
      \<or> 0 < rx_missed (wd_a_rx w') \<and> (live_seqs r w = live_seqs r w' \<or> (\<exists>x. live_seqs r w = x # live_seqs r w'))"
    proof (cases "length (rx_queue ?rx) < A_CAPACITY")
      case True
      then have "live_seqs r w' = ?f ((rx_queue ?rx @ [?m]) @ fl')"
        by (simp add: w' channel_send_def live_seqs_def)
      then have "live_seqs r w' = live_seqs r w" by (simp only: sent live_seqs_def)
      moreover have "rx_missed (wd_a_rx w') = rx_missed ?rx" using True by (simp add: w' channel_send_def)
      ultimately show ?thesis by simp
    next
      case False
      then obtain m0 ms where q: "rx_queue ?rx = m0 # ms"
        by (cases "rx_queue ?rx") (auto simp: A_CAPACITY_def)
      have "live_seqs r w' = ?f ((ms @ [?m]) @ fl')"
        using False q by (simp add: w' channel_send_def live_seqs_def)
      then have "live_seqs r w' = ?f (ms @ ?fl)" by (simp only: sent)
      moreover have "live_seqs r w = (case msg_seq r m0 of None \<Rightarrow> [] | Some n \<Rightarrow> [n]) @ ?f (ms @ ?fl)"
        using q by (simp add: live_seqs_recv)
      moreover have "0 < rx_missed (wd_a_rx w')" using False by (simp add: w' channel_send_def)
      ultimately show ?thesis by (cases "msg_seq r m0") auto
    qed
    have keep: "view_of E r w' = (view_of E r w)\<lparr>vw_live := live_seqs r w', vw_lag := 0 < rx_missed (wd_a_rx w')\<rparr>"
      by (simp add: view_of_def phase_of_def todo_def log_seqs_def replayed_seqs_def fr cong: list.case_cong)
    have "view_of E r w' = view_of E r w \<or> view_step (view_of E r w) (view_of E r w')"
      using lag
    proof (elim disjE conjE exE)
      assume "rx_missed (wd_a_rx w') = rx_missed ?rx" "live_seqs r w' = live_seqs r w"
      then show ?thesis unfolding keep by (simp add: view_of_def)
    next
      assume l: "0 < rx_missed (wd_a_rx w')" "live_seqs r w = live_seqs r w'"
      show ?thesis using vs_drop [of "live_seqs r w'" "view_of E r w" 0] l
        unfolding keep by (simp add: view_of_def)
    next
      fix x assume l: "0 < rx_missed (wd_a_rx w')" "live_seqs r w = x # live_seqs r w'"
      show ?thesis using vs_drop [of "live_seqs r w'" "view_of E r w" x] l
        unfolding keep by (simp add: view_of_def)
    qed
    moreover have "live_ok E r w'" using lag by (intro live_ok_smaller [OF assms(3) _ fr(4)]) auto
    ultimately show ?thesis
      using tidy_only [OF fr(1-3)] assms(1,2) by (simp add: sound_def fr advances_def)
  qed
  then show "tidy r w'" "sound E k r w'" "advances E r w w'" "live_ok E r w'" by blast+
qed

text \<open>A step of the other tasks, and a request about another run.\<close>

lemma same_world:
  assumes "tidy r w" "sound E k r w" "live_ok E r w"
    and "same_for r (wd_conn w) (wd_conn w')" "works r (wd_cmd w') = works r (wd_cmd w)" "wd_a w' = wd_a w"
    and "wd_logs w' = wd_logs w" "wd_a_rx w' = wd_a_rx w" "wd_inflight w' = wd_inflight w"
    and "well_kept (wd_conn w')" "list_all work_ok (wd_cmd w')"
  shows "tidy r w'" "sound E k r w'" "advances E r w w'" "live_ok E r w'"
proof -
  have st: "same_tasks r w w'" "same_channel r w w'"
    using assms(5-9) by (simp_all add: same_tasks_def same_channel_def live_seqs_def)
  show "tidy r w'" by (rule same_step(1) [OF assms(1,4) st(1)])
  show "advances E r w w'" by (rule same_advances [OF assms(1,4) st])
  show "sound E k r w'"
    using assms(2,6,7,10,11) same_step(3) [OF assms(1,4) st(1)] by (simp add: sound_def)
  show "live_ok E r w'" using assms(3,7-9) by (simp add: live_ok_def live_seqs_def log_seqs_def)
qed

lemma b_step_same:
  assumes "b_step C rx c = (rx', c')" "well_kept c"
  shows "same_for r c c'" "well_kept c'"
  using assms
  by (auto simp: b_step_def same_for_def well_kept_def ws_send_open split: prod.splits recv_result.splits if_splits)

lemma handle_request_same:
  assumes "handle_request dispatch j s = ((xs, fs), s')" "\<not> about r j" "well_kept (c\<lparr>cn_session := s\<rparr>)"
  shows "same_for r (c\<lparr>cn_session := s\<rparr>) (c\<lparr>cn_session := s'\<rparr>)" "well_kept (c\<lparr>cn_session := s'\<rparr>)"
    "works r xs = []" "list_all work_ok xs"
proof -
  let ?name = "str_field j ''method''" and ?params = "unwrap_or (j_get j ''params'') (JObj [])"
  let ?q = "str_field ?params ''run_id''"
  have reply: "get_str (JObj [(''id'', i), (k, v)]) ''run_id'' = None"
    if "k \<in> {''result'', ''error''}" for i k v
    using that by (auto simp: get_str_def)
  consider "?name = ''_subscribe''" "?q \<noteq> r" | "?name = ''_unsubscribe''" "?q \<noteq> r"
    | "?name \<noteq> ''_subscribe''" "?name \<noteq> ''_unsubscribe''"
    using assms(2) by (auto simp: about_def)
  then have "same_for r (c\<lparr>cn_session := s\<rparr>) (c\<lparr>cn_session := s'\<rparr>) \<and> well_kept (c\<lparr>cn_session := s'\<rparr>)
    \<and> works r xs = [] \<and> list_all work_ok xs"
  proof cases
    case 1
    show ?thesis
    proof (cases "?q = []")
      case True
      then have "s' = s" "xs = [reply_error (get_str j ''id'') ''run_id required'']"
        using assms(1) 1 by (auto simp: handle_request_def Let_def)
      then show ?thesis using assms(3) reply by (simp add: same_for_def reply_error_def)
    next
      case False
      then have sub: "subscribe_run (get_str j ''id'') ?q (unwrap_or (get_u64 ?params ''last_seq'') 0) s = ((xs, fs), s')"
        using assms(1) 1 by (simp add: handle_request_def Let_def)
      then show ?thesis using assms(3) 1(2) reply
        by (auto simp: subscribe_run_def Let_def same_for_def well_kept_def reply_result_def hm_insert_distinct
            unwrap_or_def split: if_splits option.splits)
    qed
  next
    case 2
    then have "s' = unsubscribe_run ?q s" "xs = [reply_result (get_str j ''id'') (JObj [(''ok'', JBool True)])]"
      using assms(1) by (auto simp: handle_request_def Let_def)
    then show ?thesis using assms(3) 2(2) reply
      by (auto simp: unsubscribe_run_def same_for_def well_kept_def reply_result_def hm_remove_distinct
          checkpoint_def)
  next
    case 3
    then have "s' = s" "\<exists>e v. xs = [reply_error (get_str j ''id'') e] \<or> xs = [reply_result (get_str j ''id'') v]"
      using assms(1) by (auto simp: handle_request_def Let_def split: sum.splits)
    then show ?thesis using assms(3) reply by (auto simp: same_for_def reply_result_def reply_error_def)
  qed
  then show "same_for r (c\<lparr>cn_session := s\<rparr>) (c\<lparr>cn_session := s'\<rparr>)" "well_kept (c\<lparr>cn_session := s'\<rparr>)"
    "works r xs = []" "list_all work_ok xs" by blast+
qed

section \<open>Delivery\<close>

lemma forward_live:
  assumes "broadcast_channel (we_channel E)"
  shows "live_seqs r w = live_seqs r (ws_step E LForward w) \<or> (\<exists>x. live_seqs r w = x # live_seqs r (ws_step E LForward w))"
proof -
  obtain t rx c where a: "a_step (we_channel E) (read_events E w) (wd_now w) (wd_a w) (wd_a_rx w) (wd_conn w) = (t, rx, c)"
    by (metis surj_pair)
  have "rx_queue rx = rx_queue (wd_a_rx w) \<or> (\<exists>m. rx_queue (wd_a_rx w) = m # rx_queue rx)"
    using a assms by (cases "(we_channel E, read_events E w, wd_now w, wd_a w, wd_a_rx w, wd_conn w)" rule: a_step.cases)
      (auto simp: channel_recv_def broadcast_channel_def split: list.splits option.splits prod.splits if_splits)
  then show ?thesis
  proof (elim disjE exE)
    fix m assume "rx_queue (wd_a_rx w) = m # rx_queue rx"
    then show ?thesis using live_seqs_recv [of w m "rx_queue rx" r] a
      by (cases "msg_seq r m") (simp_all add: live_seqs_def)
  qed (use a in \<open>simp add: live_seqs_def\<close>)
qed

lemma forward_advances:
  assumes "tidy r w" "sound E k r w" "follows E r LForward w"
  shows "tidy r (ws_step E LForward w) \<and> sound E k r (ws_step E LForward w)
    \<and> advances E r w (ws_step E LForward w)"
proof (cases "wd_a w")
  case AIdle
  show ?thesis
  proof (cases "0 < rx_missed (wd_a_rx w)")
    case True
    then show ?thesis using lag_advances [OF assms(1,2) AIdle _ assms(3)] by blast
  next
    case False
    show ?thesis
    proof (cases "rx_queue (wd_a_rx w)")
      case Nil
      then have "ws_step E LForward w = w"
        using AIdle False assms(2) by (simp add: channel_recv_def sound_def broadcast_channel_def)
      then show ?thesis using assms by (simp add: advances_def del: ws_step.simps)
    next
      case (Cons m ms)
      then show ?thesis using receive_advances [OF assms(1,2) AIdle _ Cons assms(3)] False by blast
    qed
  qed
next
  case (ACatch xs)
  then show ?thesis using catch_advances [OF assms(1,2)] by blast
next
  case AStopped
  then show ?thesis using assms(2) by (simp add: sound_def)
qed (use live_advances [OF assms(1,2)] in blast)+

lemma step_advances:
  assumes "tidy r w" "sound E k r w" "live_ok E r w" "follows E r l w" "k + 2 < 2 ^ 64"
  shows "tidy r (ws_step E l w) \<and> sound E (Suc k) r (ws_step E l w) \<and> advances E r w (ws_step E l w)
    \<and> live_ok E r (ws_step E l w)"
proof (cases l)
  case (LEvent now q ev res open_runs)
  note e = event_advances [OF assms(1,2,5), where now = now and q = q and ev = ev and res = res
      and open_runs = open_runs, OF _ refl]
  have f: "follows E r (LEvent now q ev res open_runs) w" using assms(4) LEvent by simp
  obtain ns where "log_seqs E r (ws_step E l w) = log_seqs E r w @ ns"
    "live_seqs r (ws_step E l w) = live_seqs r w @ ns" "sorted_wrt (<) (log_seqs E r w @ ns)"
    using e(4) [OF f] LEvent by blast
  then have "live_ok E r (ws_step E l w)" using assms(3) by (auto simp: live_ok_def sorted_wrt_append)
  then show ?thesis using e(1-3) [OF f] LEvent by simp
next
  case (LBroadcast i)
  then show ?thesis using broadcast_advances [OF assms(1-3), of i "ws_step E l w"] assms(4)
    by (auto intro: sound_mono simp del: ws_step.simps)
next
  case LForward
  have "wd_logs (ws_step E LForward w) = wd_logs w" by (simp split: prod.split)
  then have "live_ok E r (ws_step E LForward w)"
    using forward_live [of E r w] live_ok_smaller [OF assms(3)] assms(2) by (simp add: sound_def)
  then show ?thesis using forward_advances [OF assms(1,2)] assms(4) LForward
    by (auto intro: sound_mono simp del: ws_step.simps)
next
  case LForwardB
  obtain rx c where b: "b_step (we_channel E) (wd_b_rx w) (wd_conn w) = (rx, c)" by (metis surj_pair)
  have wk: "well_kept (wd_conn w)" "list_all work_ok (wd_cmd w)" using assms(2) by (simp_all add: sound_def)
  note s = same_world [OF assms(1-3), of "ws_step E l w"]
  show ?thesis using s b_step_same(1) [OF b wk(1), of r] b_step_same(2) [OF b wk(1)] b LForwardB wk by (auto intro: sound_mono)
next
  case LCommand
  have "wd_logs (command_step E w) = wd_logs w" "wd_a_rx (command_step E w) = wd_a_rx w"
    "wd_inflight (command_step E w) = wd_inflight w"
    by (auto simp: command_step_def split: list.split prod.split option.split)
  then have "live_ok E r (command_step E w)" using assms(3) by (simp add: live_ok_def live_seqs_def log_seqs_def)
  then show ?thesis using command_advances [OF assms(1,2)] LCommand by (auto intro: sound_mono)
next
  case (LRequest j)
  have wk: "well_kept (wd_conn w)" "list_all work_ok (wd_cmd w)" using assms(2) by (simp_all add: sound_def)
  show ?thesis
  proof (cases "wd_cmd w = []")
    case True
    obtain xs fs s' where h: "handle_request (we_dispatch E) j (cn_session (wd_conn w)) = ((xs, fs), s')"
      by (metis surj_pair)
    have "\<not> about r j" using assms(4) LRequest by simp
    note hr = handle_request_same [OF h this, of "wd_conn w"]
    show ?thesis using same_world [OF assms(1-3), of "ws_step E l w"] hr wk h True LRequest
      by (auto intro: sound_mono)
  next
    case False
    then have "ws_step E l w = w" using LRequest by simp
    then show ?thesis using assms by (simp add: advances_def sound_mono)
  qed
next
  case (LRealtime name payload q)
  have wk: "well_kept (wd_conn w)" "list_all work_ok (wd_cmd w)" using assms(2) by (simp_all add: sound_def)
  show ?thesis using same_world [OF assms(1-3), of "ws_step E l w"] wk LRealtime
    by (auto intro: sound_mono simp: same_for_def)
next
  case (LTime n)
  have wk: "well_kept (wd_conn w)" "list_all work_ok (wd_cmd w)" using assms(2) by (simp_all add: sound_def)
  show ?thesis using same_world [OF assms(1-3), of "ws_step E l w"] wk LTime
    by (auto intro: sound_mono simp: same_for_def)
qed (use assms(4) in simp)

fun follows_all :: "ws_env \<Rightarrow> string \<Rightarrow> ws_label list \<Rightarrow> world \<Rightarrow> bool" where
  "follows_all E r [] w \<longleftrightarrow> True"
| "follows_all E r (l # ls) w \<longleftrightarrow> follows E r l w \<and> follows_all E r ls (ws_step E l w)"

definition delivering :: "ws_env \<Rightarrow> string \<Rightarrow> u64 \<Rightarrow> world \<Rightarrow> bool" where
  "delivering E r n0 w \<longleftrightarrow> checkpoint (cn_session (wd_conn w)) r \<noteq> None
     \<and> view_ok n0 (view_of E r w) \<and> covered n0 (view_of E r w)"

lemma delivering_step: "delivering E r n0 w \<Longrightarrow> advances E r w w' \<Longrightarrow> delivering E r n0 w'"
  by (auto simp: delivering_def advances_def intro: view_ok_step covered_step)

lemma run_before:
  assumes "tidy r w" "sound E k r w" "live_ok E r w" "follows_all E r ls w"
    and "k + length ls + 2 < 2 ^ 64" "checkpoint (cn_session (wd_conn w)) r = None"
  shows "tidy r (ws_run E ls w) \<and> sound E (k + length ls) r (ws_run E ls w) \<and> live_ok E r (ws_run E ls w)
    \<and> checkpoint (cn_session (wd_conn (ws_run E ls w))) r = None
    \<and> delivered r (wd_conn (ws_run E ls w)) = delivered r (wd_conn w)"
  using assms
proof (induction ls arbitrary: w k)
  case (Cons l ls)
  have f: "follows E r l w" "follows_all E r ls (ws_step E l w)" using Cons.prems(4) by simp_all
  note s = step_advances [OF Cons.prems(1-3) f(1)]
  have "k + 2 < 2 ^ 64" using Cons.prems(5) by simp
  note s = s [OF this]
  have c: "checkpoint (cn_session (wd_conn (ws_step E l w))) r = None"
    "delivered r (wd_conn (ws_step E l w)) = delivered r (wd_conn w)"
    using s Cons.prems(6) by (simp_all add: advances_def)
  from Cons.IH [OF _ _ _ f(2) _ c(1), of "Suc k"] s Cons.prems(5) c(2) show ?case by simp
qed simp

lemma run_after:
  assumes "tidy r w" "sound E k r w" "live_ok E r w" "follows_all E r ls w"
    and "k + length ls + 2 < 2 ^ 64" "delivering E r n0 w"
  shows "delivering E r n0 (ws_run E ls w)"
  using assms
proof (induction ls arbitrary: w k)
  case (Cons l ls)
  have f: "follows E r l w" "follows_all E r ls (ws_step E l w)" using Cons.prems(4) by simp_all
  have "k + 2 < 2 ^ 64" using Cons.prems(5) by simp
  note s = step_advances [OF Cons.prems(1-3) f(1) this]
  have d: "delivering E r n0 (ws_step E l w)" using delivering_step Cons.prems(6) s by blast
  from Cons.IH [OF _ _ _ f(2) _ d, of "Suc k"] s Cons.prems(5) show ?case by simp
qed simp

definition quiet :: "string \<Rightarrow> world \<Rightarrow> bool" where
  "quiet r w \<longleftrightarrow> todo r w = [] \<and> \<not> busy_with r (wd_a w) \<and> live_seqs r w = [] \<and> rx_missed (wd_a_rx w) = 0"

definition subscribes :: "string \<Rightarrow> u64 \<Rightarrow> json \<Rightarrow> bool" where
  "subscribes r n j \<longleftrightarrow> str_field j ''method'' = ''_subscribe''
     \<and> (let params = unwrap_or (j_get j ''params'') (JObj []) in
        str_field params ''run_id'' = r \<and> r \<noteq> [] \<and> unwrap_or (get_u64 params ''last_seq'') 0 = n)"

lemma subscribed:
  assumes "tidy r w" "sound E k r w" "live_ok E r w" "wd_cmd w = []" "subscribes r n0 j"
    and "checkpoint (cn_session (wd_conn w)) r = None" "delivered r (wd_conn w) = []"
  shows "tidy r (ws_step E (LRequest j) w) \<and> sound E k r (ws_step E (LRequest j) w)
    \<and> live_ok E r (ws_step E (LRequest j) w) \<and> delivering E r n0 (ws_step E (LRequest j) w)"
proof -
  let ?s = "cn_session (wd_conn w)"
  let ?i = "get_str j ''id''"
  define s' where "s' = begin_replay r (?s\<lparr>ss_subscriptions := hm_insert r n0 (ss_subscriptions ?s)\<rparr>)"
  define xs where "xs = [WReplay r n0, WFlush r 0, reply_result ?i (JObj [(''ok'', JBool True)])]"
  have nr: "r \<notin> ss_replaying ?s" "ss_replay_buffer ?s r = None" "\<not> busy_with r (wd_a w)"
    "works r (catch_work (wd_a w)) = []"
    using assms(1,6) by (simp_all add: tidy_def Let_def todo_def)
  have "fst (fst (handle_request (we_dispatch E) j ?s)) = xs \<and> snd (handle_request (we_dispatch E) j ?s) = s'"
    using assms(5,6) nr(1)
    by (simp add: handle_request_def subscribes_def subscribe_run_def Let_def xs_def s'_def)
  then obtain fs where "handle_request (we_dispatch E) j ?s = ((xs, fs), s')" by (metis prod.collapse)
  then have w': "ws_step E (LRequest j) w = w\<lparr>wd_cmd := xs, wd_cmd_fail := fs,
      wd_conn := (wd_conn w)\<lparr>cn_session := s'\<rparr>\<rparr>" (is "_ = ?w")
    using assms(4) by simp
  have cp: "checkpoint s' r = Some n0" by (simp add: s'_def)
  have td: "todo r ?w = [WReplay r n0, WFlush r 0]"
    using nr(4) by (simp add: todo_def xs_def reply_result_def)
  have ti: "tidy r ?w" using nr cp td by (simp add: tidy_def Let_def) (simp add: s'_def)
  have wk: "well_kept ((wd_conn w)\<lparr>cn_session := s'\<rparr>)"
    using assms(2) nr(2) by (auto simp: sound_def well_kept_def s'_def hm_insert_distinct)
  have so: "sound E k r ?w"
    using assms(2) wk by (simp add: sound_def xs_def reply_result_def get_str_def buffered_def s'_def nr(2)
        REPLAY_BUFFER_CAPACITY_def)
  have lo: "live_ok E r ?w" using assms(3) by (simp add: live_ok_def live_seqs_def log_seqs_def)
  have lg: "logs_ok (we_parse E) k (wd_logs ?w)" using so by (simp add: sound_def)
  have v: "vw_phase (view_of E r ?w) = PReplay" "vw_buf (view_of E r ?w) = []" "vw_cp (view_of E r ?w) = n0"
    "vw_out (view_of E r ?w) = []" "vw_nums (view_of E r ?w) = log_seqs E r ?w"
    "vw_log (view_of E r ?w) = replayed_seqs E r ?w" "vw_live (view_of E r ?w) = live_seqs r ?w"
    using td cp assms(7) nr(2) by (simp_all add: view_of_def phase_of_def) (simp add: buffered_def s'_def)
  have "view_ok n0 (view_of E r ?w) \<and> covered n0 (view_of E r ?w)"
    using view_start [of "view_of E r ?w" n0] log_sorted [OF lg] lo
    by (simp only: v live_ok_def simp_thms)
  then have "delivering E r n0 ?w" using cp by (simp add: delivering_def)
  then show ?thesis unfolding w' using ti so lo by blast
qed

text \<open>
  C10: delivery.  A client that subscribes to a run, with the number of the last event it has, gets
  the events of the run in the order of their numbers, each at most once and none it has; nothing
  that can be replayed is left out before what it gets; and when the tasks have nothing left to do,
  it has got everything.  This holds for every interleaving of the writers, the broadcast, the lag
  of the channel and the tasks, with other runs and requests in between, as long as the steps follow
  the protocol (\<open>follows\<close>).
\<close>

theorem delivery:
  assumes "broadcast_channel (we_channel E)"
    and "logs_ok (we_parse E) k logs" "k + length pre + length post + 3 < 2 ^ 64"
    and "follows_all E r pre (ws_start logs)" "wd_cmd (ws_run E pre (ws_start logs)) = []"
    and "subscribes r n0 j" "follows_all E r post (ws_run E (pre @ [LRequest j]) (ws_start logs))"
    and "w = ws_run E (pre @ LRequest j # post) (ws_start logs)"
  shows "sorted_wrt (<) (delivered r (wd_conn w))
    \<and> (\<forall>n\<in>set (delivered r (wd_conn w)). n0 < n \<and> n \<in> set (log_seqs E r w)
        \<and> (\<forall>m\<in>set (replayed_seqs E r w). n0 < m \<and> m < n \<longrightarrow> m \<in> set (delivered r (wd_conn w))))
    \<and> (quiet r w \<longrightarrow> (\<forall>m\<in>set (replayed_seqs E r w). n0 < m \<longrightarrow> m \<in> set (delivered r (wd_conn w))))"
proof -
  let ?w0 = "ws_start logs" and ?w1 = "ws_run E pre (ws_start logs)"
  have start: "tidy r ?w0" "sound E k r ?w0" "live_ok E r ?w0"
    "checkpoint (cn_session (wd_conn ?w0)) r = None" "delivered r (wd_conn ?w0) = []"
    using assms(1,2)
    by (simp_all add: ws_start_def tidy_def Let_def todo_def session_new_def checkpoint_def sound_def
        well_kept_def buffered_def REPLAY_BUFFER_CAPACITY_def live_ok_def live_seqs_def receiver_new_def
        List.map_filter_simps delivered_def)
  have "k + length pre + 2 < 2 ^ 64" using assms(3) by simp
  from run_before [OF start(1-3) assms(4) this start(4)] start(5)
  have mid: "tidy r ?w1" "sound E (k + length pre) r ?w1" "live_ok E r ?w1"
    "checkpoint (cn_session (wd_conn ?w1)) r = None" "delivered r (wd_conn ?w1) = []" by simp_all
  let ?w2 = "ws_step E (LRequest j) ?w1"
  note sub = subscribed [OF mid(1-3) assms(5,6) mid(4,5)]
  have "k + length pre + length post + 2 < 2 ^ 64" using assms(3) by simp
  moreover have "follows_all E r post ?w2" using assms(7) by (simp del: ws_step.simps)
  ultimately have "delivering E r n0 (ws_run E post ?w2)"
    using sub by (intro run_after [where k = "k + length pre"]) auto
  then have d: "view_ok n0 (view_of E r w)" "covered n0 (view_of E r w)"
    using assms(8) by (simp_all add: delivering_def del: ws_step.simps)
  note v = view_okD [OF d(1)]
  have f: "vw_out (view_of E r w) = delivered r (wd_conn w)" "vw_nums (view_of E r w) = log_seqs E r w"
    "vw_log (view_of E r w) = replayed_seqs E r w" "vw_live (view_of E r w) = live_seqs r w"
    "vw_lag (view_of E r w) = (0 < rx_missed (wd_a_rx w))"
    by (simp_all add: view_of_def)
  have ph: "vw_phase (view_of E r w) = PIdle" if "quiet r w"
    using that busy_phase by (simp add: quiet_def view_of_def phase_of_def)
  show ?thesis
  proof (intro conjI ballI impI)
    show "sorted_wrt (<) (delivered r (wd_conn w))" using v(4) f(1) by simp
  next
    fix n assume n: "n \<in> set (delivered r (wd_conn w))"
    then show "n0 < n" "n \<in> set (log_seqs E r w)" using v(6,14) f(1,2) by (simp_all add: subset_iff)
    fix m assume "m \<in> set (replayed_seqs E r w)" "n0 < m \<and> m < n"
    then show "m \<in> set (delivered r (wd_conn w))" using view_gap_free [OF d, of n m] n f(1,3) by simp
  next
    fix m assume "quiet r w" "m \<in> set (replayed_seqs E r w)" "n0 < m"
    then show "m \<in> set (delivered r (wd_conn w))"
      using view_complete [OF d(2,1) ph, of m] f by (simp add: quiet_def)
  qed
qed

section \<open>What falls outside the protocol\<close>

text \<open>
  An overtaken event is lost.  The number of an event is drawn under the lock of the log and the
  event is broadcast after the lock has been released.  When a later event of the run is broadcast
  first, the client gets that one, and the earlier one is thrown away when it arrives, although it is
  in the log: nothing is left to do and the client never hears of it.
\<close>

theorem overtaken_event_lost:
  fixes E :: ws_env and w :: world
  defines "w' \<equiv> ws_run E [LBroadcast 1, LBroadcast 0, LForward, LForward, LForward, LForward] w"
  assumes "wd_inflight w = [bus_msg (we_enc E) r e1 n1, bus_msg (we_enc E) r e2 n2]" "n1 < n2"
    and "broadcast_channel (we_channel E)"
    and "wd_a_rx w = receiver_new" "wd_a w = AIdle" "\<not> cn_closed (wd_conn w)"
    and "checkpoint (cn_session (wd_conn w)) r = Some cp" "cp < n2" "r \<notin> ss_replaying (cn_session (wd_conn w))"
  shows "delivered r (wd_conn w') = delivered r (wd_conn w) @ [n2]
    \<and> checkpoint (cn_session (wd_conn w')) r = Some n2
    \<and> wd_inflight w' = [] \<and> wd_a_rx w' = receiver_new \<and> wd_a w' = AIdle \<and> wd_cmd w' = wd_cmd w"
proof -
  have g: "\<not> n2 \<le> cp" "n1 \<le> n2" "max cp n2 = n2" using assms(3,9) by (simp_all add: max.absorb2)
  show ?thesis
    using assms(2,4-8,10) g
    by (simp add: w'_def broadcast_channel_def channel_send_def A_CAPACITY_def receiver_new_def channel_recv_def a_receive_def
        bus_msg_def Let_def ws_send_open)
qed

text \<open>
  An overflow in the cooldown is silent.  When the buffer of a run is full at the end of its
  replay and the client was told to reload less than 30 seconds before, everything in the buffer is
  dropped and the client is told nothing; the run then goes on live, behind a gap.
\<close>

theorem overflow_in_cooldown_lost:
  fixes E :: ws_env and w :: world
  defines "w' \<equiv> ws_run E [LCommand, LCommand] w"
  assumes "wd_cmd w = WFlush r m # xs" "\<not> cn_closed (wd_conn w)"
    and "ss_replay_buffer (cn_session (wd_conn w)) r = Some es" "REPLAY_BUFFER_CAPACITY \<le> length es"
    and "ss_full_reload_cooldown (cn_session (wd_conn w)) r = Some t"
    and "(wd_now w - t) div 1000 < FULL_RELOAD_COOLDOWN_SECS"
  shows "cn_out (wd_conn w') = cn_out (wd_conn w) \<and> wd_cmd w' = xs
    \<and> ss_replay_buffer (cn_session (wd_conn w')) r = None \<and> r \<notin> ss_replaying (cn_session (wd_conn w'))
    \<and> checkpoint (cn_session (wd_conn w')) r = checkpoint (cn_session (wd_conn w)) r"
proof -
  have "es \<noteq> []" using assms(5) by (auto simp: REPLAY_BUFFER_CAPACITY_def)
  moreover have "ss_full_reload_cooldown (end_replay r (drop_buffer r s)) = ss_full_reload_cooldown s" for s
    by (simp add: end_replay_def drop_buffer_def)
  ultimately show ?thesis
    using assms(2,4-7) by (simp add: w'_def command_step_def flush_take_def send_full_reload_def Let_def)
qed

text \<open>
  Lag during a replay leaves a gap.  The catch-up after a lag leaves out the runs that the command
  loop is replaying.  When messages are dropped after the log has been read, the catch-up does
  nothing and the flush goes on with the next message: no event between the checkpoint and that one
  is ever sent.
\<close>

theorem lag_in_replay_lost:
  fixes E :: ws_env and w :: world
  defines "w' \<equiv> ws_run E [LForward, LForward, LForward, LCommand, LCommand, LCommand, LCommand, LCommand] w"
  assumes "ss_subscriptions (cn_session (wd_conn w)) = [(r, cp)]" "r \<in> ss_replaying (cn_session (wd_conn w))"
    and "ss_replay_buffer (cn_session (wd_conn w)) r = Some []" "\<not> cn_closed (wd_conn w)"
    and "wd_a w = AIdle" "wd_cmd w = [WSend r [], WFlush r 0]"
    and "wd_a_rx w = \<lparr> rx_queue = [bus_msg (we_enc E) r ev n], rx_missed = Suc k \<rparr>" "cp < n"
    and "broadcast_channel (we_channel E)"
  shows "delivered r (wd_conn w') = delivered r (wd_conn w) @ [n]
    \<and> checkpoint (cn_session (wd_conn w')) r = Some n
    \<and> wd_cmd w' = [] \<and> wd_a w' = AIdle \<and> wd_a_rx w' = receiver_new"
proof -
  let ?s = "cn_session (wd_conn w)"
  let ?env = "bus_envelope_ws ''bus-event'' n r (we_enc E ev)"
  have cp: "checkpoint ?s r = Some cp" by (simp add: checkpoint_def assms(2))
  have g: "\<not> n \<le> cp" "max cp n = n" "0 < n" "max 0 n = n"
    using assms(9) le_less_trans [OF word_zero_le assms(9)] by (simp_all add: max.absorb2)
  have rd: "0 < REPLAY_BUFFER_CAPACITY" "\<not> REPLAY_BUFFER_CAPACITY \<le> 1"
    by (simp_all add: REPLAY_BUFFER_CAPACITY_def)
  show ?thesis
    using assms(2-8,10) cp g rd
    by (simp add: w'_def broadcast_channel_def channel_recv_def a_lagged_def a_receive_def bus_msg_def Let_def command_step_def
        flush_take_def flush_send_def ws_send_open receiver_new_def)
      (simp add: delivered_def List.map_filter_def)
qed

section \<open>Samples\<close>

definition sample_env :: ws_env where
  "sample_env = \<lparr> we_parse = count_ones, we_show = ones, we_enc = (\<lambda>_. hello),
     we_dispatch = (\<lambda>_ _. Inl ''unknown''),
     we_channel = \<lparr> ch_send = channel_send, ch_recv = channel_recv \<rparr> \<rparr>"

lemma sample_channel: "broadcast_channel (we_channel sample_env)"
  by (simp add: broadcast_channel_def sample_env_def)

definition sample_request :: json where
  "sample_request = JObj [(''method'', JStr ''_subscribe''), (''params'', JObj [(''run_id'', JStr ''r'')])]"

definition sample_event :: json where "sample_event = replayed_event ''t'' hello 1"

lemma sample_request_subscribes: "subscribes ''r'' 0 sample_request"
  by (simp add: subscribes_def sample_request_def str_field_def get_str_def get_u64_def Let_def)

lemma sample_read: "list_bus_events count_ones io_good one_log ''r'' (Some 0) = [sample_event]"
  "list_bus_events count_ones io_good one_log ''r'' None = [sample_event]"
  by (simp_all add: list_bus_events_def one_log_read one_log_values List.map_filter_simps replay_value_def
        bus_envelope_def hello_def REPLAY_TYPES_def get_bool_def get_u64_def get_str_def json_num_def
        sample_event_def replayed_event_def)

lemma sample_event_seq: "event_seq sample_event = 1"
  unfolding sample_event_def by (rule replayed_event_number [where tag = "''user_message''"]) (simp add: hello_def get_str_def)

definition sample_world :: "nat \<Rightarrow> world" where
  "sample_world n = ws_run sample_env (LRequest sample_request # replicate n LCommand) (ws_start ([], one_log))"

definition sample_session :: WsSession where
  "sample_session = begin_replay ''r'' (session_new\<lparr>ss_subscriptions := [(''r'', 0)]\<rparr>)"

lemma sample_handled: "\<exists>j fs. handle_request d sample_request session_new
    = (([WReplay ''r'' 0, WFlush ''r'' 0, WReply j], fs), sample_session)"
proof -
  have r: "str_field sample_request ''method'' = ''_subscribe''"
    "unwrap_or (j_get sample_request ''params'') (JObj []) = JObj [(''run_id'', JStr ''r'')]"
    "str_field (JObj [(''run_id'', JStr ''r'')]) ''run_id'' = ''r''"
    "get_u64 (JObj [(''run_id'', JStr ''r'')]) ''last_seq'' = None"
    by (simp_all add: sample_request_def str_field_def get_str_def get_u64_def)
  show ?thesis
    unfolding handle_request_def Let_def r
    by (simp add: subscribe_run_def Let_def sample_session_def session_new_def checkpoint_def reply_result_def)
qed

lemma sample_step:
  assumes "wd_cmd w = x # xs" "wd_logs w = ([], one_log)"
    and "work_step (\<lambda>q n. list_bus_events count_ones io_good one_log q (Some n)) (wd_now w) x (wd_conn w) = (Some ys, c)"
  shows "command_step sample_env w = w\<lparr>wd_conn := c, wd_cmd := ys @ xs\<rparr>"
  using assms by (simp add: command_step_def read_events_def [abs_def] sample_env_def)

lemma sample_world_end: "quiet ''r'' (sample_world 5)" "wd_logs (sample_world 5) = ([], one_log)"
proof -
  obtain j fs where h: "handle_request (we_dispatch sample_env) sample_request session_new
    = (([WReplay ''r'' 0, WFlush ''r'' 0, WReply j], fs), sample_session)"
    using sample_handled by blast
  let ?c = "\<lambda>s out. \<lparr> cn_session = s, cn_out = out, cn_closed = False \<rparr>"
  let ?w = "\<lambda>s out xs. \<lparr> wd_logs = ([], one_log), wd_inflight = [], wd_a_rx = receiver_new, wd_b_rx = receiver_new,
       wd_conn = ?c s out, wd_now = 0, wd_a = AIdle, wd_cmd = xs, wd_cmd_fail = fs \<rparr>"
  let ?s = "sample_session"
  let ?o = "[bus_envelope_ws ''bus-event'' 1 ''r'' sample_event]"
  let ?s1 = "raise_checkpoint ''r'' 1 ?s"
  have buf: "unwrap_or (ss_replay_buffer ?s1 ''r'') [] = []" by (simp add: sample_session_def session_new_def)
  have s0: "ws_step sample_env (LRequest sample_request) (ws_start ([], one_log))
      = ?w ?s [] [WReplay ''r'' 0, WFlush ''r'' 0, WReply j]"
    by (simp add: ws_start_def h)
  have s1: "command_step sample_env (?w ?s [] [WReplay ''r'' 0, WFlush ''r'' 0, WReply j])
      = ?w ?s [] [WSend ''r'' [sample_event], WFlush ''r'' 0, WReply j]"
    by (subst sample_step) (auto simp: sample_read)
  have s2: "command_step sample_env (?w ?s [] [WSend ''r'' [sample_event], WFlush ''r'' 0, WReply j])
      = ?w ?s ?o [WAck ''r'' 1 [], WFlush ''r'' 0, WReply j]"
    by (subst sample_step) (auto simp: sample_event_seq ws_send_def)
  have s3: "command_step sample_env (?w ?s ?o [WAck ''r'' 1 [], WFlush ''r'' 0, WReply j])
      = ?w ?s1 ?o [WSend ''r'' [], WFlush ''r'' 0, WReply j]"
    by (subst sample_step) (auto simp: on_session_def)
  have s4: "command_step sample_env (?w ?s1 ?o [WSend ''r'' [], WFlush ''r'' 0, WReply j])
      = ?w ?s1 ?o [WFlush ''r'' 0, WReply j]"
    by (subst sample_step) auto
  have s5: "command_step sample_env (?w ?s1 ?o [WFlush ''r'' 0, WReply j])
      = ?w (end_replay ''r'' (drop_buffer ''r'' ?s1)) ?o [WReply j]"
  proof -
    have "work_step (\<lambda>q n. list_bus_events count_ones io_good one_log q (Some n)) 0 (WFlush ''r'' 0) (?c ?s1 ?o)
      = (Some [], ?c (end_replay ''r'' (drop_buffer ''r'' ?s1)) ?o)"
      using buf by (simp add: flush_take_def Let_def)
    then show ?thesis
      using sample_step [of "?w ?s1 ?o [WFlush ''r'' 0, WReply j]" "WFlush ''r'' 0" "[WReply j]" "[]"]
      by simp
  qed
  have w: "sample_world 5 = ?w (end_replay ''r'' (drop_buffer ''r'' ?s1)) ?o [WReply j]"
  proof -
    have five: "replicate 5 LCommand = [LCommand, LCommand, LCommand, LCommand, LCommand]"
      by (simp add: numeral_eq_Suc del: One_nat_def)
    have c: "ws_step E LCommand v = command_step E v" for E v by simp
    show ?thesis unfolding sample_world_def five ws_run_simps s0 c s1 s2 s3 s4 s5 ..
  qed
  show "quiet ''r'' (sample_world 5)" "wd_logs (sample_world 5) = ([], one_log)"
    unfolding w by (simp_all add: quiet_def todo_def live_seqs_def receiver_new_def List.map_filter_simps)
qed

theorem delivery_witness: "delivered ''r'' (wd_conn (sample_world 5)) \<noteq> []"
proof -
  have f: "follows_all sample_env ''r'' (replicate n LCommand) w" for n w
    by (induction n arbitrary: w) simp_all
  have k: "logs_ok (we_parse sample_env) 1 ([], one_log)" using one_log_ok by (simp add: sample_env_def)
  have "replayed_seqs sample_env ''r'' (sample_world 5) = [1]"
    by (simp add: replayed_seqs_def sample_world_end(2) sample_env_def sample_read sample_event_seq)
  moreover have "sample_world 5 = ws_run sample_env ([] @ LRequest sample_request # replicate 5 LCommand)
      (ws_start ([], one_log))" by (simp only: sample_world_def append_Nil)
  ultimately show ?thesis
    using delivery [OF sample_channel k _ _ _ sample_request_subscribes f, of "[]" 5 "sample_world 5"] sample_world_end(1)
    by (auto simp: ws_start_def)
qed

text \<open>A client that has the events up to 1 of one run, and a state of its connection.\<close>

definition one_session :: WsSession where
  "one_session = session_new\<lparr>ss_subscriptions := [(''r'', 1)]\<rparr>"

definition one_world :: "WsSession \<Rightarrow> BroadcastMsg list \<Rightarrow> receiver \<Rightarrow> work list \<Rightarrow> world" where
  "one_world s ms rx xs =
     (ws_start ([], one_log))\<lparr>wd_inflight := ms, wd_a_rx := rx,
        wd_conn := \<lparr> cn_session = s, cn_out = [], cn_closed = False \<rparr>, wd_cmd := xs\<rparr>"

lemma one_world_simps [simp]:
  "wd_inflight (one_world s ms rx xs) = ms" "wd_a_rx (one_world s ms rx xs) = rx"
  "wd_cmd (one_world s ms rx xs) = xs" "wd_a (one_world s ms rx xs) = AIdle" "wd_now (one_world s ms rx xs) = 0"
  "cn_session (wd_conn (one_world s ms rx xs)) = s" "\<not> cn_closed (wd_conn (one_world s ms rx xs))"
  "delivered r (wd_conn (one_world s ms rx xs)) = []" "cn_out (wd_conn (one_world s ms rx xs)) = []"
  by (simp_all add: one_world_def ws_start_def delivered_def List.map_filter_simps)

lemma one_session_simps [simp]:
  "ss_subscriptions one_session = [(''r'', 1)]" "ss_replaying one_session = {}"
  by (simp_all add: one_session_def session_new_def)

definition sample_msg :: "u64 \<Rightarrow> BroadcastMsg" where
  "sample_msg n = bus_msg (we_enc sample_env) ''r'' (Raw ''r'' [] JNull) n"

theorem overtaken_event_lost_witness:
  "delivered ''r'' (wd_conn (ws_run sample_env
       [LBroadcast 1, LBroadcast 0, LForward, LForward, LForward, LForward]
       (one_world one_session [sample_msg 2, sample_msg 3] receiver_new []))) = [3]"
proof -
  let ?w = "one_world one_session [sample_msg 2, sample_msg 3] receiver_new []"
  have "checkpoint (cn_session (wd_conn ?w)) ''r'' = Some 1" by (simp add: checkpoint_def)
  note t = overtaken_event_lost [where E = sample_env and w = ?w and ?n1.0 = 2 and ?n2.0 = 3,
      OF _ _ sample_channel _ _ _ this]
  show ?thesis using t by (simp add: sample_msg_def del: ws_run_simps ws_step.simps)
qed

definition full_session :: WsSession where
  "full_session = one_session\<lparr>ss_replaying := {''r''}, ss_full_reload_cooldown := [''r'' \<mapsto> 0],
     ss_replay_buffer := [''r'' \<mapsto> replicate REPLAY_BUFFER_CAPACITY \<lparr> be_envelope = JNull, be_seq = 2 \<rparr>]\<rparr>"

theorem overflow_in_cooldown_lost_witness:
  "cn_out (wd_conn (ws_run sample_env [LCommand, LCommand]
     (one_world full_session [] receiver_new [WFlush ''r'' 0]))) = []"
proof -
  let ?w = "one_world full_session [] receiver_new [WFlush ''r'' 0]"
  note t = overflow_in_cooldown_lost [where E = sample_env and w = ?w and t = 0]
  show ?thesis using t
    by (simp add: full_session_def FULL_RELOAD_COOLDOWN_SECS_def del: ws_run_simps ws_step.simps)
qed

theorem lag_in_replay_lost_witness:
  "delivered ''r'' (wd_conn (ws_run sample_env
       [LForward, LForward, LForward, LCommand, LCommand, LCommand, LCommand, LCommand]
       (one_world (one_session\<lparr>ss_replaying := {''r''}, ss_replay_buffer := [''r'' \<mapsto> []]\<rparr>) []
          \<lparr> rx_queue = [sample_msg 5], rx_missed = Suc 2 \<rparr> [WSend ''r'' [], WFlush ''r'' 0]))) = [5]"
proof -
  let ?w = "one_world (one_session\<lparr>ss_replaying := {''r''}, ss_replay_buffer := [''r'' \<mapsto> []]\<rparr>) []
          \<lparr> rx_queue = [sample_msg 5], rx_missed = Suc 2 \<rparr> [WSend ''r'' [], WFlush ''r'' 0]"
  note t = lag_in_replay_lost [where E = sample_env and w = ?w and cp = 1 and n = 5 and k = 2,
      OF _ _ _ _ _ _ _ _ sample_channel]
  show ?thesis using t by (simp add: sample_msg_def del: ws_run_simps ws_step.simps)
qed

end
