(* ===== verification/Launch.thy ===== *)
theory Launch
  imports Settings ActorText
begin

text \<open>
  How the child processes are launched: the settings of a session (\<open>agent/adapter.rs\<close>), the
  command of a one-shot run (\<open>agent/spawn.rs\<close>), the ssh command of a remote session
  (\<open>agent/ssh.rs\<close>), the paths of the CLIs (\<open>agent/claude_stream.rs\<close>), the credentials and the
  processes of a session (\<open>commands/session.rs\<close>).  A child is described by the program, the
  arguments, the changes of its environment and its working directory.  The answers of the file
  system and of the environment, and the printers of \<open>f64\<close> and JSON, are arguments.
\<close>

section \<open>The settings of a session\<close>

datatype SessionMode = SessionNew | SessionResume | SessionContinue | SessionFork

record AdapterSettings =
  ad_model :: "string option"
  ad_allowed_tools :: "string list"
  ad_disallowed_tools :: "string list"
  ad_permission_mode :: "string option"
  ad_append_system_prompt :: "string option"
  ad_max_budget_usd :: "f64 option"
  ad_fallback_model :: "string option"
  ad_system_prompt :: "string option"
  ad_tool_set :: "string option"
  ad_add_dirs :: "string list"
  ad_json_schema :: "string option"
  ad_include_partial_messages :: bool
  ad_cli_debug :: "string option"
  ad_no_session_persistence :: bool
  ad_max_turns :: "u32 option"
  ad_effort :: "string option"
  ad_betas :: "string list"
  ad_agents_json :: "string option"
  ad_ephemeral :: bool
  ad_profile :: "string option"
  ad_ignore_user_config :: bool
  ad_ignore_rules :: bool
  ad_web_search :: bool
  ad_codex_provider :: "CodexProviderCredential option"

text \<open>
  What the launch reads outside the program: the printers, the home directory, the augmented
  \<open>PATH\<close>, the directories it lists, the variables of the process, which paths exist and which
  are executable files, and the content of the files that can be read.
\<close>

record launch_env =
  le_show_f64 :: "f64 \<Rightarrow> string"
  le_show_json :: "json \<Rightarrow> string option"
  le_home :: "string option"
  le_path :: string
  le_path_dirs :: "string list"
  le_var :: "string \<Rightarrow> string option"
  le_exists :: "string \<Rightarrow> bool"
  le_executable :: "string \<Rightarrow> bool"
  le_read :: "string \<Rightarrow> string option"

definition nonempty :: "string option \<Rightarrow> string option" where
  "nonempty s = opt_filter (\<lambda>t. t \<noteq> []) s"

definition clear_model_if_provider_overrides ::
  "string option \<Rightarrow> string option \<Rightarrow> string list option \<Rightarrow> AdapterSettings \<Rightarrow> AdapterSettings" where
  "clear_model_if_provider_overrides model_override agent_model provider_models ad =
     (if \<not> is_some_and provider_models (\<lambda>m. m \<noteq> []) then ad
      else if \<not> is_some_and model_override (\<lambda>m. m \<noteq> [])
              \<and> \<not> is_some_and agent_model (\<lambda>m. m \<noteq> [])
      then ad\<lparr>ad_model := None\<rparr>
      else ad)"

definition adapter_permission :: "AgentSettings \<Rightarrow> UserSettings \<Rightarrow> string option" where
  "adapter_permission agent user =
     (case nonempty (ag_permission_mode agent) of
        Some pm \<Rightarrow> Some (map_permission_mode pm)
      | None \<Rightarrow>
          if unwrap_or (ag_plan_mode agent) False then Some ''plan''
          else if us_permission_mode user = [] then None
          else Some (map_permission_mode (us_permission_mode user)))"

definition build_adapter_settings ::
  "launch_env \<Rightarrow> AgentSettings \<Rightarrow> UserSettings \<Rightarrow> string option \<Rightarrow> AdapterSettings" where
  "build_adapter_settings L agent user model_override =
     \<lparr> ad_model = or_else (or_else (nonempty model_override) (ag_model agent)) (us_default_model user),
       ad_allowed_tools =
         (if ag_allowed_tools agent = [] then us_allowed_tools user else ag_allowed_tools agent),
       ad_disallowed_tools = unwrap_or (ag_disallowed_tools agent) [],
       ad_permission_mode = adapter_permission agent user,
       ad_append_system_prompt = ag_append_system_prompt agent,
       ad_max_budget_usd = or_else (ag_max_budget_usd agent) (us_max_budget_usd user),
       ad_fallback_model = or_else (ag_fallback_model agent) (us_fallback_model user),
       ad_system_prompt = ag_system_prompt agent,
       ad_tool_set = ag_tool_set agent,
       ad_add_dirs = unwrap_or (ag_add_dirs agent) [],
       ad_json_schema = Option.bind (ag_json_schema agent) (le_show_json L),
       ad_include_partial_messages = unwrap_or (ag_include_partial_messages agent) True,
       ad_cli_debug = ag_cli_debug agent,
       ad_no_session_persistence = unwrap_or (ag_no_session_persistence agent) False,
       ad_max_turns = ag_max_turns agent,
       ad_effort = ag_effort agent,
       ad_betas = unwrap_or (ag_betas agent) [],
       ad_agents_json = ag_agents_json agent,
       ad_ephemeral = unwrap_or (ag_ephemeral agent) False,
       ad_profile = nonempty (ag_profile agent),
       ad_ignore_user_config = unwrap_or (ag_ignore_user_config agent) False,
       ad_ignore_rules = unwrap_or (ag_ignore_rules agent) False,
       ad_web_search = unwrap_or (ag_web_search agent) False,
       ad_codex_provider =
         (if ag_agent agent = ''codex'' then us_codex_provider user else None) \<rparr>"

definition validate_session_params :: "AdapterSettings \<Rightarrow> SessionMode \<Rightarrow> string + unit" where
  "validate_session_params ad mode =
     (if ad_no_session_persistence ad \<and> mode \<noteq> SessionNew
      then Inl ''Cannot resume/continue with no_session_persistence enabled'' else Inr ())"

section \<open>The flags of the Claude CLI\<close>

definition NEVER_ALLOW_TOOLS :: "string list" where
  "NEVER_ALLOW_TOOLS = [''ExitPlanMode'', ''EnterPlanMode'']"

definition opt_flag :: "string \<Rightarrow> string option \<Rightarrow> string list" where
  "opt_flag flag v = (case v of None \<Rightarrow> [] | Some x \<Rightarrow> [flag, x])"

definition list_flag :: "string \<Rightarrow> string list \<Rightarrow> string list" where
  "list_flag flag xs = (if xs = [] then [] else [flag, str_join '','' xs])"

definition bool_flag :: "string \<Rightarrow> bool \<Rightarrow> string list" where
  "bool_flag flag b = (if b then [flag] else [])"

definition each_flag :: "string \<Rightarrow> string list \<Rightarrow> string list" where
  "each_flag flag xs = concat (map (\<lambda>x. [flag, x]) xs)"

definition debug_flag :: "string option \<Rightarrow> string list" where
  "debug_flag v =
     (case v of None \<Rightarrow> [] | Some x \<Rightarrow> if x = [] then [''--debug''] else [''--debug'', x])"

definition prompt_flags :: "AdapterSettings \<Rightarrow> string list" where
  "prompt_flags ad =
     (case ad_system_prompt ad of
        Some sp \<Rightarrow> [''--system-prompt'', sp]
      | None \<Rightarrow> opt_flag ''--append-system-prompt'' (ad_append_system_prompt ad))"

definition build_settings_args :: "launch_env \<Rightarrow> AdapterSettings \<Rightarrow> bool \<Rightarrow> string list" where
  "build_settings_args L ad print_mode =
     opt_flag ''--model'' (nonempty (ad_model ad))
     @ list_flag ''--allowedTools''
         (filter (\<lambda>t. t \<notin> set NEVER_ALLOW_TOOLS) (ad_allowed_tools ad))
     @ list_flag ''--disallowed-tools'' (ad_disallowed_tools ad)
     @ opt_flag ''--permission-mode'' (ad_permission_mode ad)
     @ prompt_flags ad
     @ opt_flag ''--tools'' (ad_tool_set ad)
     @ each_flag ''--add-dir'' (ad_add_dirs ad)
     @ debug_flag (ad_cli_debug ad)
     @ bool_flag ''--no-session-persistence'' (ad_no_session_persistence ad)
     @ opt_flag ''--max-budget-usd'' (map_option (le_show_f64 L) (ad_max_budget_usd ad))
     @ opt_flag ''--fallback-model'' (ad_fallback_model ad)
     @ opt_flag ''--max-turns'' (map_option (\<lambda>n. show_nat (unat n)) (ad_max_turns ad))
     @ opt_flag ''--effort'' (nonempty (ad_effort ad))
     @ list_flag ''--betas'' (ad_betas ad)
     @ opt_flag ''--agents'' (nonempty (ad_agents_json ad))
     @ (if print_mode then opt_flag ''--json-schema'' (ad_json_schema ad) else [])"

section \<open>Where the CLIs are\<close>

text \<open>\<open>PathBuf::push\<close> on Unix: an absolute path replaces the buffer.\<close>

definition path_join :: "string \<Rightarrow> string \<Rightarrow> string" where
  "path_join base p =
     (if starts_with p ''/'' then p
      else if base = [] \<or> ends_with base ''/'' then base @ p
      else base @ ''/'' @ p)"

definition which_binary :: "launch_env \<Rightarrow> string \<Rightarrow> string option" where
  "which_binary L name =
     List.find (le_executable L) (map (\<lambda>dir. path_join dir name) (le_path_dirs L))"

definition nonblank :: "string option \<Rightarrow> string option" where
  "nonblank v = nonempty (map_option str_trim v)"

text \<open>
  The path of the Claude binary and the new cache: the cached answer, the variable, the setting,
  the usual places, the search path.
\<close>

definition resolve_claude_path ::
  "launch_env \<Rightarrow> UserSettings \<Rightarrow> string option \<Rightarrow> string \<times> string option" where
  "resolve_claude_path L user cached =
     (case cached of
        Some path \<Rightarrow> (path, cached)
      | None \<Rightarrow>
          (let found =
             (case nonblank (le_var L ''OPENCOVIBE_CLAUDE_PATH'') of
                Some custom \<Rightarrow> custom
              | None \<Rightarrow>
                  (case nonblank (us_claude_path user) of
                     Some custom \<Rightarrow> custom
                   | None \<Rightarrow>
                       (let cands =
                          (case nonempty (le_home L) of
                             None \<Rightarrow> []
                           | Some h \<Rightarrow>
                               [path_join (path_join (path_join h ''.claude'') ''bin'') ''claude'',
                                path_join (path_join (path_join h ''.local'') ''bin'') ''claude''])
                          @ [''/usr/local/bin/claude''] in
                        (case List.find (le_exists L) cands of
                           Some c \<Rightarrow> c
                         | None \<Rightarrow> unwrap_or (which_binary L ''claude'') ''claude''))))
           in (found, Some found)))"

definition resolve_codex_path :: "launch_env \<Rightarrow> string option \<Rightarrow> string \<times> string option" where
  "resolve_codex_path L cached =
     (case cached of
        Some path \<Rightarrow> (path, cached)
      | None \<Rightarrow>
          (let found =
             (case nonblank (le_var L ''OPENCOVIBE_CODEX_PATH'') of
                Some custom \<Rightarrow> custom
              | None \<Rightarrow>
                  (let cands =
                     (case nonempty (le_home L) of
                        None \<Rightarrow> []
                      | Some h \<Rightarrow>
                          [path_join (path_join (path_join h ''.codex'') ''bin'') ''codex'',
                           path_join (path_join (path_join h ''.local'') ''bin'') ''codex''])
                     @ [''/usr/local/bin/codex''] in
                   (case List.find (le_exists L) cands of
                      Some c \<Rightarrow> c
                    | None \<Rightarrow> unwrap_or (which_binary L ''codex'') ''codex'')))
           in (found, Some found)))"

section \<open>The command of a one-shot run\<close>

definition quoted_value :: "string \<Rightarrow> string" where
  "quoted_value s = CHR 0x22 # s @ [CHR 0x22]"

definition codex_provider_config_args :: "CodexProviderCredential \<Rightarrow> string list" where
  "codex_provider_config_args p =
     (let key = (\<lambda>field. ''model_providers.'' @ cx_id p @ ''.'' @ field @ ''='') in
      [''-c'', ''model_provider='' @ quoted_value (cx_id p),
       ''-c'', key ''name'' @ quoted_value (cx_name p),
       ''-c'', key ''base_url'' @ quoted_value (cx_base_url p)]
      @ (if cx_env_key p = [] then [] else [''-c'', key ''env_key'' @ quoted_value (cx_env_key p)])
      @ [''-c'', key ''wire_api'' @ quoted_value (cx_wire_api p),
         ''-c'', key ''requires_openai_auth'' @ ''false''])"

definition codex_provider_env :: "CodexProviderCredential \<Rightarrow> (string \<times> string) option" where
  "codex_provider_env p =
     (case nonempty (cx_api_key p) of
        None \<Rightarrow> None
      | Some key \<Rightarrow> if cx_env_key p = [] then None else Some (cx_env_key p, key))"

text \<open>
  \<open>str::to_lowercase\<close>, as far as the search for ASCII text can tell: the letters, and the two
  other characters whose lower case has an ASCII letter (U+212A and U+0130).
\<close>

definition lower_char :: "string \<Rightarrow> string" where
  "lower_char c =
     (case c of
        [b] \<Rightarrow> if 65 \<le> (of_char b :: nat) \<and> of_char b \<le> (90 :: nat)
               then [char_of (of_char b + 32 :: nat)] else c
      | _ \<Rightarrow> if c = [CHR 0xE2, CHR 0x84, CHR 0xAA] then ''k''
             else if c = [CHR 0xC4, CHR 0xB0] then [CHR 0x69, CHR 0xCC, CHR 0x87]
             else c)"

definition to_lowercase :: "string \<Rightarrow> string" where
  "to_lowercase s = concat (map lower_char (utf8_chars s))"

definition is_claude_model :: "string \<Rightarrow> bool" where
  "is_claude_model m =
     (let lm = to_lowercase m in
      lm = [] \<or> str_contains lm ''claude'' \<or> str_contains lm ''opus''
      \<or> str_contains lm ''sonnet'' \<or> str_contains lm ''haiku'')"

definition provider_model :: "AdapterSettings \<Rightarrow> string option" where
  "provider_model ad = Option.bind (ad_codex_provider ad) (\<lambda>p. nonempty (Some (cx_model p)))"

definition codex_sandbox_flags :: "string option \<Rightarrow> bool \<Rightarrow> string list" where
  "codex_sandbox_flags perm is_resume =
     (case perm of
        None \<Rightarrow> []
      | Some p \<Rightarrow>
          if p = ''plan'' then (if is_resume then [] else [''--sandbox'', ''read-only''])
          else if p = ''bypassPermissions'' \<or> p = ''dontAsk''
          then [''--dangerously-bypass-approvals-and-sandbox'']
          else [])"

definition codex_exec_args ::
  "AdapterSettings \<Rightarrow> string \<Rightarrow> string option \<Rightarrow> string list \<Rightarrow> string list" where
  "codex_exec_args ad prompt resume_thread_id image_paths =
     bool_flag ''--search'' (ad_web_search ad)
     @ [''exec'']
     @ (case resume_thread_id of None \<Rightarrow> [] | Some tid \<Rightarrow> [''resume'', tid])
     @ [''--json'', ''--skip-git-repo-check'']
     @ (case ad_codex_provider ad of
          None \<Rightarrow> []
        | Some p \<Rightarrow> codex_provider_config_args p @ opt_flag ''--model'' (provider_model ad))
     @ bool_flag ''--ephemeral'' (ad_ephemeral ad)
     @ bool_flag ''--ignore-user-config'' (ad_ignore_user_config ad)
     @ bool_flag ''--ignore-rules'' (ad_ignore_rules ad)
     @ (if resume_thread_id = None then opt_flag ''--profile'' (ad_profile ad) else [])
     @ opt_flag ''-c''
         (map_option (\<lambda>e. ''model_reasoning_effort='' @ quoted_value e) (nonempty (ad_effort ad)))
     @ (if provider_model ad = None
        then opt_flag ''--model'' (opt_filter (\<lambda>m. \<not> is_claude_model m) (ad_model ad)) else [])
     @ codex_sandbox_flags (ad_permission_mode ad) (resume_thread_id \<noteq> None)
     @ (if resume_thread_id = None \<and> ad_permission_mode ad \<noteq> Some ''plan''
        then each_flag ''--add-dir'' (ad_add_dirs ad) else [])
     @ map (\<lambda>path. ''--image='' @ path) image_paths
     @ (if prompt = [] then [] else [prompt])"

text \<open>\<open>claude_path\<close> is the answer of \<open>resolve_claude_path\<close>.\<close>

definition build_agent_command ::
  "launch_env \<Rightarrow> string \<Rightarrow> string \<Rightarrow> string \<Rightarrow> AdapterSettings \<Rightarrow> bool \<Rightarrow> string option
     \<Rightarrow> string list \<Rightarrow> string + (string \<times> string list)" where
  "build_agent_command L claude_path agent prompt ad print_mode resume_thread_id image_paths =
     (if agent = ''claude'' then
        Inr (claude_path,
             bool_flag ''--print'' print_mode @ build_settings_args L ad print_mode
             @ (if prompt = [] then [] else [prompt]))
      else if agent = ''codex'' then
        Inr (''codex'', codex_exec_args ad prompt resume_thread_id image_paths)
      else Inl (''Unsupported agent: '' @ agent @ ''. Supported: claude, codex''))"

section \<open>The credentials of a session\<close>

record ResolvedAuth =
  ra_api_key :: "string option"
  ra_auth_token :: "string option"
  ra_base_url :: "string option"
  ra_models :: "string list option"
  ra_extra_env :: "(string \<times> string) list option"

definition no_auth :: ResolvedAuth where
  "no_auth = \<lparr> ra_api_key = None, ra_auth_token = None, ra_base_url = None, ra_models = None,
              ra_extra_env = None \<rparr>"

definition resolve_remote_host ::
  "RemoteHost list \<Rightarrow> RunMeta \<Rightarrow> string + RemoteHost option" where
  "resolve_remote_host hosts m =
     (case rm_remote_host_snapshot m of
        Some snapshot \<Rightarrow> Inr (Some snapshot)
      | None \<Rightarrow>
          (case rm_remote_host_name m of
             None \<Rightarrow> Inr None
           | Some name \<Rightarrow>
               (case List.find (\<lambda>h. rh_name h = name) hosts of
                  None \<Rightarrow> Inl (''Remote host '' @ [CHR 0x27] @ name @ [CHR 0x27] @ '' not found in settings'')
                | Some h \<Rightarrow> Inr (Some h))))"

definition resolve_model_tiers :: "string list \<Rightarrow> (string \<times> string) list" where
  "resolve_model_tiers models =
     (let tiers = (\<lambda>opus sonnet haiku.
            [(''ANTHROPIC_MODEL'', sonnet), (''ANTHROPIC_DEFAULT_OPUS_MODEL'', opus),
             (''ANTHROPIC_DEFAULT_SONNET_MODEL'', sonnet), (''ANTHROPIC_DEFAULT_HAIKU_MODEL'', haiku)]) in
      case models of
        [] \<Rightarrow> []
      | [a] \<Rightarrow> tiers a a a
      | [a, b] \<Rightarrow> tiers a a b
      | a # b # c # _ \<Rightarrow>
          if b = [] then []
          else tiers (if a = [] then b else a) b (if c = [] then b else c))"

text \<open>A key goes into one of two variables.\<close>

definition keyed_auth ::
  "bool \<Rightarrow> string \<Rightarrow> string option \<Rightarrow> string list option \<Rightarrow> (string \<times> string) list option
     \<Rightarrow> ResolvedAuth" where
  "keyed_auth use_bearer key base_url models extra =
     \<lparr> ra_api_key = (if use_bearer then None else Some key),
       ra_auth_token = (if use_bearer then Some key else None),
       ra_base_url = base_url, ra_models = models, ra_extra_env = extra \<rparr>"

definition make_placeholder_auth ::
  "bool \<Rightarrow> string option \<Rightarrow> string list option \<Rightarrow> (string \<times> string) list option \<Rightarrow> ResolvedAuth" where
  "make_placeholder_auth use_bearer base_url models extra =
     keyed_auth use_bearer ''PROXY_MANAGED'' base_url models extra"

definition bearer :: "string option \<Rightarrow> bool" where
  "bearer v \<longleftrightarrow> v = Some ''ANTHROPIC_AUTH_TOKEN''"

definition keeps_credentials :: "RemoteHost option \<Rightarrow> bool" where
  "keeps_credentials remote \<longleftrightarrow> is_some_and remote (\<lambda>r. \<not> rh_forward_api_key r)"

definition resolve_auth_env :: "RemoteHost option \<Rightarrow> UserSettings \<Rightarrow> ResolvedAuth" where
  "resolve_auth_env remote user =
     (let base_url = nonempty (us_anthropic_base_url user) in
      if keeps_credentials remote then no_auth
      else (case (if us_auth_mode user = ''api'' then nonempty (us_anthropic_api_key user) else None) of
              Some key \<Rightarrow> keyed_auth (bearer (us_auth_env_var user)) key base_url None None
            | None \<Rightarrow>
                no_auth\<lparr>ra_base_url := (if us_auth_mode user = ''cli'' then None else base_url)\<rparr>))"

definition nonempty_list :: "'a list option \<Rightarrow> 'a list option" where
  "nonempty_list x = opt_filter (\<lambda>m. m \<noteq> []) x"

text \<open>
  The credential of a platform: with a key, or without one for a platform that needs none
  (\<open>None\<close>: the global settings decide).
\<close>

definition credential_auth :: "string \<Rightarrow> PlatformCredential \<Rightarrow> ResolvedAuth option" where
  "credential_auth pid cred =
     (let base_url = nonempty (pc_base_url cred);
          models = nonempty_list (pc_models cred);
          extra = pc_extra_env cred in
      case nonempty (pc_api_key cred) of
        Some k \<Rightarrow> Some (keyed_auth (bearer (pc_auth_env_var cred)) k base_url models extra)
      | None \<Rightarrow>
          if is_key_optional_platform pid then
            (let info = get_provider_info pid in
             Some (make_placeholder_auth
               (bearer (or_else (Option.bind info pd_auth_env_var) (pc_auth_env_var cred)))
               (or_else base_url (Option.bind info pd_base_url))
               (or_else models (nonempty_list (Option.bind info pd_models)))
               (or_else extra (Option.bind info pd_extra_env))))
          else None)"

definition default_auth :: "string \<Rightarrow> ResolvedAuth option" where
  "default_auth pid =
     (case get_provider_info pid of
        None \<Rightarrow> None
      | Some info \<Rightarrow>
          if pd_key_optional info
          then Some (make_placeholder_auth (bearer (pd_auth_env_var info)) (pd_base_url info)
                       (nonempty_list (pd_models info)) (pd_extra_env info))
          else None)"

definition resolve_auth_env_for_platform ::
  "RemoteHost option \<Rightarrow> UserSettings \<Rightarrow> string option \<Rightarrow> ResolvedAuth" where
  "resolve_auth_env_for_platform remote user platform_id =
     (if keeps_credentials remote then no_auth
      else (case Option.bind platform_id (\<lambda>pid.
                   case List.find (\<lambda>c. pc_platform_id c = pid) (us_platform_credentials user) of
                     Some cred \<Rightarrow> credential_auth pid cred
                   | None \<Rightarrow> default_auth pid) of
              Some auth \<Rightarrow> auth
            | None \<Rightarrow> resolve_auth_env remote user))"

text \<open>\<open>trim_matches\<close> with one character.\<close>

definition trim_matches :: "char \<Rightarrow> string \<Rightarrow> string" where
  "trim_matches c s = rev (dropWhile (\<lambda>x. x = c) (rev (dropWhile (\<lambda>x. x = c) s)))"

definition shell_config_line :: "string \<Rightarrow> string \<Rightarrow> string option" where
  "shell_config_line name line =
     (let trimmed = str_trim line in
      if starts_with trimmed ''#'' then None
      else (case strip_prefix (unwrap_or (strip_prefix trimmed ''export '') trimmed) (name @ ''='') of
              None \<Rightarrow> None
            | Some v \<Rightarrow> nonempty (Some (trim_matches (CHR 0x27) (trim_matches (CHR 0x22) (str_trim v))))))"

fun first_some :: "('a \<Rightarrow> 'b option) \<Rightarrow> 'a list \<Rightarrow> 'b option" where
  "first_some f [] = None"
| "first_some f (x # xs) = (case f x of None \<Rightarrow> first_some f xs | Some y \<Rightarrow> Some y)"

definition read_env_from_shell_config :: "launch_env \<Rightarrow> string \<Rightarrow> (string \<times> string) option" where
  "read_env_from_shell_config L name =
     Option.bind (le_home L) (\<lambda>home.
       first_some
         (\<lambda>path. map_option (\<lambda>v. (v, path))
            (Option.bind (le_read L path) (\<lambda>content. first_some (shell_config_line name) (str_lines content))))
         (map (\<lambda>rc. home @ rc) [''/.zshrc'', ''/.zprofile'', ''/.bashrc'', ''/.bash_profile'', ''/.profile'']))"

definition should_skip_env_injection :: "string option \<Rightarrow> string option \<Rightarrow> bool" where
  "should_skip_env_injection key_val token_val \<longleftrightarrow>
     is_some_and key_val (\<lambda>v. str_trim v \<noteq> []) \<or> is_some_and token_val (\<lambda>v. str_trim v \<noteq> [])"

definition resolve_shell_auth :: "launch_env \<Rightarrow> string option \<times> string option" where
  "resolve_shell_auth L =
     (if should_skip_env_injection (le_var L ''ANTHROPIC_API_KEY'') (le_var L ''ANTHROPIC_AUTH_TOKEN'')
      then (None, None)
      else (case read_env_from_shell_config L ''ANTHROPIC_API_KEY'' of
              Some (v, path) \<Rightarrow> (Some v, None)
            | None \<Rightarrow>
                (case read_env_from_shell_config L ''ANTHROPIC_AUTH_TOKEN'' of
                   Some (v, path) \<Rightarrow> (None, Some v)
                 | None \<Rightarrow> (None, None))))"

definition config_value_has_auth_key :: "json \<Rightarrow> bool" where
  "config_value_has_auth_key config \<longleftrightarrow>
     list_ex (\<lambda>k. is_some_and (get_str config k) (\<lambda>s. str_trim s \<noteq> [])) [''apiKey'', ''primaryApiKey'']"

text \<open>\<open>user_config\<close> and \<open>project_config\<close> are the CLI's own settings.\<close>

definition augment_with_shell_auth ::
  "launch_env \<Rightarrow> json \<Rightarrow> json \<Rightarrow> string \<Rightarrow> bool \<Rightarrow> ResolvedAuth \<Rightarrow> ResolvedAuth" where
  "augment_with_shell_auth L user_config project_config auth_mode is_remote ra =
     (if auth_mode \<noteq> ''cli'' then ra
      else if is_remote then ra
      else if ra_api_key ra \<noteq> None \<or> ra_auth_token ra \<noteq> None then ra
      else if config_value_has_auth_key user_config \<or> config_value_has_auth_key project_config then ra
      else (case resolve_shell_auth L of
              (key, tok) \<Rightarrow>
                if key \<noteq> None \<or> tok \<noteq> None
                then ra\<lparr>ra_api_key := key, ra_auth_token := tok\<rparr> else ra))"

section \<open>The command of a remote session\<close>

text \<open>\<open>s.replace('\'', "'\\''")\<close> between single quotes.\<close>

definition escape_char :: "char \<Rightarrow> string" where
  "escape_char c =
     (if c = CHR 0x27 then [CHR 0x27, CHR 0x5C, CHR 0x27, CHR 0x27] else [c])"

definition shell_escape :: "string \<Rightarrow> string" where
  "shell_escape s = CHR 0x27 # concat (map escape_char s) @ [CHR 0x27]"

definition shell_escape_path :: "string \<Rightarrow> string" where
  "shell_escape_path s =
     (if s = ''~'' then ''~''
      else (case strip_prefix s ''~/'' of
              Some p \<Rightarrow> ''~/'' @ shell_escape p
            | None \<Rightarrow> shell_escape s))"

definition expand_local_tilde :: "launch_env \<Rightarrow> string \<Rightarrow> string" where
  "expand_local_tilde L path =
     (case strip_prefix path ''~/'' of
        None \<Rightarrow> path
      | Some p \<Rightarrow> (case le_home L of None \<Rightarrow> path | Some home \<Rightarrow> path_join home p))"

definition build_ssh_args :: "launch_env \<Rightarrow> RemoteHost \<Rightarrow> string \<Rightarrow> string list" where
  "build_ssh_args L remote remote_shell_command =
     [''-o'', ''BatchMode=yes'', ''-o'', ''ServerAliveInterval=30'',
      ''-o'', ''StrictHostKeyChecking=accept-new'']
     @ (if rh_port remote = 22 then [] else [''-p'', show_nat (unat (rh_port remote))])
     @ opt_flag ''-i'' (map_option (expand_local_tilde L) (rh_key_path remote))
     @ [rh_user remote @ ''@'' @ rh_host remote, remote_shell_command]"

definition env_key_char :: "char \<Rightarrow> bool" where
  "env_key_char c \<longleftrightarrow>
     (let n = (of_char c :: nat) in 65 \<le> n \<and> n \<le> 90 \<or> 48 \<le> n \<and> n \<le> 57 \<or> n = 95)"

definition env_assign :: "string \<Rightarrow> string \<Rightarrow> string" where
  "env_assign k v = k @ ''='' @ shell_escape v"

text \<open>The words before the binary, in order; \<open>models\<close> and \<open>extra\<close> in the order they are read.\<close>

definition remote_env_words :: "ResolvedAuth \<Rightarrow> string list" where
  "remote_env_words ra =
     (case ra_api_key ra of
        None \<Rightarrow> []
      | Some key \<Rightarrow> [env_assign ''ANTHROPIC_API_KEY'' key, ''ANTHROPIC_AUTH_TOKEN='' ])
     @ (case ra_auth_token ra of
          None \<Rightarrow> []
        | Some token \<Rightarrow> [env_assign ''ANTHROPIC_AUTH_TOKEN'' token, ''ANTHROPIC_API_KEY='' ])
     @ (case ra_base_url ra of None \<Rightarrow> [] | Some url \<Rightarrow> [env_assign ''ANTHROPIC_BASE_URL'' url])
     @ map (\<lambda>(k, v). env_assign k v) (resolve_model_tiers (unwrap_or (ra_models ra) []))
     @ map (\<lambda>(k, v). env_assign k v)
         (filter (\<lambda>(k, v). list_all env_key_char k) (unwrap_or (ra_extra_env ra) []))
     @ [''CLAUDE_CODE_ENABLE_SDK_FILE_CHECKPOINTING=1'']"

definition build_remote_claude_command ::
  "RemoteHost \<Rightarrow> string \<Rightarrow> string list \<Rightarrow> ResolvedAuth \<Rightarrow> string" where
  "build_remote_claude_command remote cwd claude_args ra =
     str_join '' && ''
       [''cd '' @ shell_escape_path cwd,
        str_join '' ''
          (remote_env_words ra
           @ [shell_escape_path (unwrap_or (rh_remote_claude_path remote) ''claude'')]
           @ map shell_escape claude_args)]"

section \<open>The child processes\<close>

datatype env_op = SetVar string string | RemoveVar string

record child_command =
  cc_program :: string
  cc_args :: "string list"
  cc_env :: "env_op list"
  cc_cwd :: "string option"

text \<open>
  The environment of a child: \<open>Command::env\<close> and \<open>env_remove\<close> change what is inherited, a later
  call overrides an earlier one.
\<close>

fun apply_env :: "env_op \<Rightarrow> (string \<Rightarrow> string option) \<Rightarrow> string \<Rightarrow> string option" where
  "apply_env (SetVar k v) e = e(k \<mapsto> v)"
| "apply_env (RemoveVar k) e = e(k := None)"

definition child_env :: "env_op list \<Rightarrow> (string \<Rightarrow> string option) \<Rightarrow> string \<Rightarrow> string option" where
  "child_env ops e = fold apply_env ops e"

definition set_vars :: "(string \<times> string) list option \<Rightarrow> env_op list" where
  "set_vars kvs = map (\<lambda>(k, v). SetVar k v) (unwrap_or kvs [])"

definition auth_env_ops :: "ResolvedAuth \<Rightarrow> env_op list" where
  "auth_env_ops ra =
     (case ra_api_key ra of
        None \<Rightarrow> []
      | Some key \<Rightarrow> [SetVar ''ANTHROPIC_API_KEY'' key, RemoveVar ''ANTHROPIC_AUTH_TOKEN''])
     @ (case ra_auth_token ra of
          None \<Rightarrow> []
        | Some token \<Rightarrow> [SetVar ''ANTHROPIC_AUTH_TOKEN'' token, RemoveVar ''ANTHROPIC_API_KEY''])
     @ (case ra_base_url ra of None \<Rightarrow> [] | Some url \<Rightarrow> [SetVar ''ANTHROPIC_BASE_URL'' url])
     @ set_vars (Some (resolve_model_tiers (unwrap_or (ra_models ra) [])))
     @ set_vars (ra_extra_env ra)"

definition session_args ::
  "launch_env \<Rightarrow> AdapterSettings \<Rightarrow> SessionMode \<Rightarrow> string option \<Rightarrow> string + string list" where
  "session_args L ad mode resume_session_id =
     (let start = (\<lambda>mode_args.
            [''--output-format'', ''stream-json'', ''--input-format'', ''stream-json'', ''--verbose'',
             ''--permission-prompt-tool'', ''stdio'']
            @ mode_args @ build_settings_args L ad False
            @ bool_flag ''--include-partial-messages'' (ad_include_partial_messages ad)) in
      case mode of
        SessionNew \<Rightarrow> Inr (start [])
      | SessionFork \<Rightarrow>
          Inl (''Fork mode not supported in spawn_cli_process '' @ [CHR 0xE2, CHR 0x80, CHR 0x94]
               @ '' use fork_oneshot()'')
      | _ \<Rightarrow> (case resume_session_id of
                None \<Rightarrow> Inl ''session_id required for resume/continue''
              | Some sid \<Rightarrow> Inr (start [''--resume'', sid])))"

definition ssh_command ::
  "launch_env \<Rightarrow> RemoteHost \<Rightarrow> string \<Rightarrow> string list \<Rightarrow> ResolvedAuth \<Rightarrow> child_command" where
  "ssh_command L remote cwd args ra =
     \<lparr> cc_program = ''ssh'',
       cc_args = build_ssh_args L remote (build_remote_claude_command remote cwd args ra),
       cc_env = [], cc_cwd = None \<rparr>"

text \<open>The child that \<open>spawn_cli_process\<close> starts.\<close>

definition spawn_cli_process ::
  "launch_env \<Rightarrow> string \<Rightarrow> string \<Rightarrow> AdapterSettings \<Rightarrow> SessionMode \<Rightarrow> string option
     \<Rightarrow> RemoteHost option \<Rightarrow> string option \<Rightarrow> ResolvedAuth \<Rightarrow> string + child_command" where
  "spawn_cli_process L claude_path cwd ad mode resume_session_id remote_host remote_cwd ra =
     (case session_args L ad mode resume_session_id of
        Inl e \<Rightarrow> Inl e
      | Inr args \<Rightarrow>
          (case remote_host of
             Some remote \<Rightarrow> Inr (ssh_command L remote (unwrap_or remote_cwd cwd) args ra)
           | None \<Rightarrow>
               Inr \<lparr> cc_program = claude_path, cc_args = args,
                     cc_env = [SetVar ''PATH'' (le_path L), RemoveVar ''CLAUDECODE'',
                               SetVar ''CLAUDE_CODE_ENABLE_SDK_FILE_CHECKPOINTING'' ''1'']
                              @ auth_env_ops ra,
                     cc_cwd = Some cwd \<rparr>))"

definition fork_args :: "launch_env \<Rightarrow> AdapterSettings \<Rightarrow> string \<Rightarrow> string list" where
  "fork_args L ad source_session_id =
     [''--resume'', source_session_id, ''--fork-session'', ''-p'', ''(fork checkpoint)'',
      ''--output-format'', ''json'', ''--max-turns'', ''1''] @ build_settings_args L ad False"

text \<open>The child of \<open>fork_oneshot\<close>.\<close>

definition fork_command ::
  "launch_env \<Rightarrow> string \<Rightarrow> string \<Rightarrow> string \<Rightarrow> AdapterSettings \<Rightarrow> RemoteHost option \<Rightarrow> ResolvedAuth
     \<Rightarrow> child_command" where
  "fork_command L claude_path source_session_id cwd ad remote_host ra =
     (let args = fork_args L ad source_session_id in
      case remote_host of
        Some remote \<Rightarrow> ssh_command L remote cwd args ra
      | None \<Rightarrow>
          \<lparr> cc_program = claude_path, cc_args = args,
            cc_env = [SetVar ''PATH'' (le_path L), RemoveVar ''CLAUDECODE''] @ auth_env_ops ra,
            cc_cwd = Some cwd \<rparr>)"

text \<open>The capabilities of the Codex CLI: whether its help succeeded, and the help text.\<close>

definition parse_codex_appserver_capabilities :: "bool \<Rightarrow> string \<Rightarrow> bool \<times> bool" where
  "parse_codex_appserver_capabilities help_succeeded help_text =
     (help_succeeded, help_succeeded \<and> str_contains help_text ''--enable'')"

definition spawn_codex_appserver_process ::
  "launch_env \<Rightarrow> string \<Rightarrow> bool \<times> bool \<Rightarrow> string \<Rightarrow> AdapterSettings \<Rightarrow> (string \<times> string) list option
     \<Rightarrow> string + child_command" where
  "spawn_codex_appserver_process L codex_path capabilities cwd ad extra_env =
     (case capabilities of
        (supported, user_input) \<Rightarrow>
          if \<not> supported then Inl ''The configured Codex CLI does not support app-server''
          else Inr
            \<lparr> cc_program = codex_path,
              cc_args =
                [''app-server'']
                @ (if user_input
                   then [''--enable'', ''default_mode_request_user_input'', ''-c'',
                         ''suppress_unstable_features_warning=true'']
                   else [])
                @ (case ad_codex_provider ad of None \<Rightarrow> [] | Some p \<Rightarrow> codex_provider_config_args p),
              cc_env =
                [SetVar ''PATH'' (le_path L), RemoveVar ''ANTHROPIC_API_KEY'',
                 RemoveVar ''ANTHROPIC_AUTH_TOKEN'', RemoveVar ''CLAUDECODE'']
                @ set_vars extra_env
                @ set_vars (map_option (\<lambda>kv. [kv]) (Option.bind (ad_codex_provider ad) codex_provider_env)),
              cc_cwd = Some cwd \<rparr>)"

end
