(* ===== verification/ShellWords.thy ===== *)
theory ShellWords
  imports Prelude
begin

text \<open>
  What POSIX says about the command line of a shell, for the part of the language that a remote
  launch uses: blanks, single quotes, the backslash, \<open>&&\<close>, assignments before a command and the
  expansion of a leading tilde.  Anything else without quotes (a variable, a pattern, another
  operator, a comment, a line break) is outside this part, and there is no result.
\<close>

section \<open>Words\<close>

text \<open>A word is its characters, each with the mark whether it is quoted.\<close>

type_synonym word_chars = "(bool \<times> char) list"

datatype sh_token = Word word_chars | AndIf

text \<open>Letters, digits and \<open>- . / : = _ ~\<close>.\<close>

definition plain_char :: "char \<Rightarrow> bool" where
  "plain_char c \<longleftrightarrow>
     (let n = (of_char c :: nat) in
      97 \<le> n \<and> n \<le> 122 \<or> 65 \<le> n \<and> n \<le> 90 \<or> 48 \<le> n \<and> n \<le> 57
      \<or> n \<in> {45, 46, 47, 58, 61, 95, 126})"

definition end_word :: "word_chars option \<Rightarrow> sh_token list" where
  "end_word w = (case w of None \<Rightarrow> [] | Some cs \<Rightarrow> [Word cs])"

definition add_chars :: "word_chars option \<Rightarrow> word_chars \<Rightarrow> word_chars option" where
  "add_chars w cs = Some (unwrap_or w [] @ cs)"

text \<open>\<open>sh_lex w s\<close>: the tokens of \<open>s\<close> after the unfinished word \<open>w\<close>; \<open>sh_quote\<close> inside quotes.\<close>

fun sh_lex :: "word_chars option \<Rightarrow> string \<Rightarrow> sh_token list option"
and sh_quote :: "word_chars option \<Rightarrow> string \<Rightarrow> sh_token list option" where
  "sh_lex w [] = Some (end_word w)"
| "sh_lex w (c # cs) =
     (if c = CHR '' '' then map_option (\<lambda>ts. end_word w @ ts) (sh_lex None cs)
      else if c = CHR 0x27 then sh_quote (add_chars w []) cs
      else if c = CHR 0x5C
      then (case cs of [] \<Rightarrow> None
                     | d # ds \<Rightarrow> if d = CHR 0x0A then None else sh_lex (add_chars w [(True, d)]) ds)
      else if c = CHR ''&''
      then (case cs of [] \<Rightarrow> None
                     | d # ds \<Rightarrow> if d = CHR ''&''
                                then map_option (\<lambda>ts. end_word w @ AndIf # ts) (sh_lex None ds)
                                else None)
      else if plain_char c then sh_lex (add_chars w [(False, c)]) cs
      else None)"
| "sh_quote w [] = None"
| "sh_quote w (c # cs) =
     (if c = CHR 0x27 then sh_lex w cs else sh_quote (add_chars w [(True, c)]) cs)"

section \<open>Commands\<close>

text \<open>The expansion of a leading tilde: alone or before a slash; a user's name is outside.\<close>

definition sh_expand :: "string \<Rightarrow> word_chars \<Rightarrow> string option" where
  "sh_expand home w =
     (case w of
        (False, c) # r \<Rightarrow>
          if c \<noteq> CHR ''~'' then Some (map snd w)
          else (case r of
                  [] \<Rightarrow> Some home
                | (q, d) # _ \<Rightarrow> if q then Some (map snd w)
                               else if d = CHR ''/'' then Some (home @ map snd r) else None)
      | _ \<Rightarrow> Some (map snd w))"

text \<open>A name: letters, digits and underscores, not beginning with a digit.\<close>

definition digit :: "char \<Rightarrow> bool" where
  "digit c \<longleftrightarrow> (let n = (of_char c :: nat) in 48 \<le> n \<and> n \<le> 57)"

definition name_char :: "char \<Rightarrow> bool" where
  "name_char c \<longleftrightarrow>
     (let n = (of_char c :: nat) in
      97 \<le> n \<and> n \<le> 122 \<or> 65 \<le> n \<and> n \<le> 90 \<or> 48 \<le> n \<and> n \<le> 57 \<or> n = 95)"

definition is_name :: "string \<Rightarrow> bool" where
  "is_name s \<longleftrightarrow> s \<noteq> [] \<and> \<not> digit (hd s) \<and> list_all name_char s"

text \<open>An assignment: an unquoted name, an unquoted \<open>=\<close> and the value.\<close>

definition as_assignment :: "word_chars \<Rightarrow> (string \<times> word_chars) option" where
  "as_assignment w =
     (let name = takeWhile (\<lambda>x. x \<noteq> (False, CHR ''='')) w;
          val = dropWhile (\<lambda>x. x \<noteq> (False, CHR ''='')) w in
      if val \<noteq> [] \<and> list_all (\<lambda>x. \<not> fst x) name \<and> is_name (map snd name)
      then Some (map snd name, tl val) else None)"

record sh_command =
  sc_assigns :: "(string \<times> string) list"
  sc_words :: "string list"

definition one_word :: "string \<Rightarrow> word_chars \<Rightarrow> string list option \<Rightarrow> string list option" where
  "one_word home w r = Option.bind (sh_expand home w) (\<lambda>x. map_option (\<lambda>xs. x # xs) r)"

fun sh_words :: "string \<Rightarrow> word_chars list \<Rightarrow> string list option" where
  "sh_words home [] = Some []"
| "sh_words home (w # ws) = one_word home w (sh_words home ws)"

fun sh_simple :: "string \<Rightarrow> word_chars list \<Rightarrow> sh_command option" where
  "sh_simple home [] = Some \<lparr> sc_assigns = [], sc_words = [] \<rparr>"
| "sh_simple home (w # ws) =
     (case as_assignment w of
        None \<Rightarrow> map_option (\<lambda>xs. \<lparr> sc_assigns = [], sc_words = xs \<rparr>) (sh_words home (w # ws))
      | Some (k, v) \<Rightarrow>
          Option.bind (sh_expand home v) (\<lambda>x.
            map_option (\<lambda>c. c\<lparr>sc_assigns := (k, x) # sc_assigns c\<rparr>) (sh_simple home ws)))"

text \<open>The commands of an and-list, each executed when those before it succeeded.\<close>

fun and_list :: "word_chars list \<Rightarrow> sh_token list \<Rightarrow> word_chars list list" where
  "and_list ws [] = [ws]"
| "and_list ws (Word w # ts) = and_list (ws @ [w]) ts"
| "and_list ws (AndIf # ts) = ws # and_list [] ts"

fun all_some :: "('a \<Rightarrow> 'b option) \<Rightarrow> 'a list \<Rightarrow> 'b list option" where
  "all_some f [] = Some []"
| "all_some f (x # xs) = Option.bind (f x) (\<lambda>y. map_option (\<lambda>ys. y # ys) (all_some f xs))"

definition posix_commands :: "string \<Rightarrow> string \<Rightarrow> sh_command list option" where
  "posix_commands home line =
     Option.bind (sh_lex None line) (\<lambda>ts. all_some (sh_simple home) (and_list [] ts))"

text \<open>A shell that follows POSIX on this part of the language.\<close>

definition posix_shell :: "string \<Rightarrow> (string \<Rightarrow> sh_command list) \<Rightarrow> bool" where
  "posix_shell home sh \<longleftrightarrow> (\<forall>line cs. posix_commands home line = Some cs \<longrightarrow> sh line = cs)"

lemma posix_shellD: "posix_shell home sh \<Longrightarrow> posix_commands home line = Some cs \<Longrightarrow> sh line = cs"
  by (simp add: posix_shell_def)

section \<open>Pieces of a line\<close>

text \<open>\<open>reads s w\<close>: the text \<open>s\<close> adds the characters \<open>w\<close> to the word it stands in.\<close>

definition reads :: "string \<Rightarrow> word_chars \<Rightarrow> bool" where
  "reads s w \<longleftrightarrow> (\<forall>u r. sh_lex u (s @ r) = sh_lex (add_chars u w) r)"

lemma add_chars_add [simp]: "add_chars (add_chars u v) w = add_chars u (v @ w)"
  by (simp add: add_chars_def)

lemma end_add [simp]: "end_word (add_chars None w) = [Word w]"
  by (simp add: end_word_def add_chars_def)

lemma reads_append: "reads s v \<Longrightarrow> reads t w \<Longrightarrow> reads (s @ t) (v @ w)"
  by (simp add: reads_def)

lemma plain_char_special: "plain_char c \<Longrightarrow> c \<notin> {CHR '' '', CHR 0x27, CHR 0x5C, CHR ''&''}"
  by (auto simp: plain_char_def)

lemma reads_plain:
  assumes "s \<noteq> []" "list_all plain_char s"
  shows "reads s (map (Pair False) s)"
proof -
  have "sh_lex u (s @ r) = sh_lex (if s = [] then u else add_chars u (map (Pair False) s)) r" for u r
    using assms(2)
  proof (induction s arbitrary: u)
    case (Cons c cs)
    from Cons.prems have "plain_char c" "c \<notin> {CHR '' '', CHR 0x27, CHR 0x5C, CHR ''&''}"
      using plain_char_special by auto
    then show ?case using Cons by simp
  qed simp
  then show ?thesis using assms(1) by (simp add: reads_def)
qed

text \<open>A line of words, each read from its own text, separated by blanks; the end word is open.\<close>

lemma end_word_Some [simp]: "end_word (Some w) = [Word w]" "end_word None = []"
  by (simp_all add: end_word_def)

lemma add_chars_None: "add_chars None w = Some w"
  by (simp add: add_chars_def)

lemma lex_words:
  assumes "list_all2 reads ss ws" "ss \<noteq> []"
  shows "sh_lex None (str_join '' '' ss @ r)
         = map_option (\<lambda>ts. map Word (butlast ws) @ ts) (sh_lex (Some (last ws)) r)"
  using assms
proof (induction ss arbitrary: ws)
  case (Cons x xs)
  then obtain w ws' where w: "ws = w # ws'" "reads x w" "list_all2 reads xs ws'"
    by (auto simp: list_all2_Cons1)
  have read: "sh_lex None (x @ t) = sh_lex (Some w) t" for t
    using w(2) by (simp add: reads_def add_chars_None)
  show ?case
  proof (cases xs)
    case Nil
    then show ?thesis using w by (simp add: read option.map_ident)
  next
    case (Cons y ys)
    then have ne: "xs \<noteq> []" "ws' \<noteq> []" using w(3) by auto
    have "sh_lex None (str_join '' '' (x # xs) @ r)
          = sh_lex (Some w) (CHR '' '' # str_join '' '' xs @ r)"
      using Cons by (simp add: read)
    then show ?thesis
      using Cons.IH [OF w(3) ne(1)] ne(2) by (simp add: w(1) option.map_comp comp_def)
  qed
qed simp

lemma and_list_words: "and_list ws (map Word vs @ AndIf # ts) = (ws @ vs) # and_list [] ts"
  by (induction vs arbitrary: ws) simp_all

lemma and_list_last: "and_list ws (map Word vs) = [ws @ vs]"
  by (induction vs arbitrary: ws) simp_all

text \<open>Two commands joined by \<open>&&\<close>.\<close>

lemma posix_and:
  assumes ss: "list_all2 reads ss ws" "ss \<noteq> []" and ts: "list_all2 reads ts vs" "ts \<noteq> []"
    and "sh_simple home ws = Some c" "sh_simple home vs = Some d"
  shows "posix_commands home (str_join '' '' ss @ '' && '' @ str_join '' '' ts) = Some [c, d]"
proof -
  have ne: "ws \<noteq> []" "vs \<noteq> []" using ss ts by auto
  have "sh_lex None (str_join '' '' ts) = Some (map Word (butlast vs) @ [Word (last vs)])"
    using lex_words [OF ts, of "[]"] by simp
  also have "map Word (butlast vs) @ [Word (last vs)] = map Word vs"
    using ne(2) append_butlast_last_id [of vs] by (metis list.map(1) list.simps(9) map_append)
  finally have "sh_lex None (str_join '' '' ts) = Some (map Word vs)" .
  then have "sh_lex (Some (last ws)) ('' && '' @ str_join '' '' ts)
             = Some (Word (last ws) # AndIf # map Word vs)"
    by simp
  then have "sh_lex None (str_join '' '' ss @ '' && '' @ str_join '' '' ts)
             = Some (map Word (butlast ws) @ Word (last ws) # AndIf # map Word vs)"
    by (simp only: lex_words [OF ss] option.map)
  also have "map Word (butlast ws) @ Word (last ws) # AndIf # map Word vs
             = map Word ws @ AndIf # map Word vs"
    using ne(1) append_butlast_last_id [of ws]
    by (metis append.assoc append_Cons append_Nil list.map(1) list.simps(9) map_append)
  finally show ?thesis
    using assms(5,6) by (simp only: posix_commands_def) (simp add: and_list_words and_list_last)
qed

section \<open>Quoted text\<close>

lemma sh_expand_quoted: "sh_expand home (map (Pair True) s) = Some s"
  by (cases s) (simp_all add: sh_expand_def comp_def)

lemma not_assignment:
  assumes "list_all fst w"
  shows "as_assignment w = None"
proof -
  have "dropWhile (\<lambda>x. x \<noteq> (False, CHR ''='')) w = []"
    using assms by (auto simp: list_all_iff)
  then show ?thesis by (simp add: as_assignment_def)
qed

lemma assignment_reads:
  assumes "is_name k"
  shows "as_assignment (map (Pair False) (k @ ''='') @ v) = Some (k, v)"
proof -
  have ne: "CHR ''='' \<notin> set k" using assms by (auto simp: is_name_def list_all_iff name_char_def)
  have t: "takeWhile (\<lambda>x. x \<noteq> (False, CHR ''='')) (map (Pair False) (k @ ''='') @ v) = map (Pair False) k"
    using ne by (simp add: takeWhile_append2 comp_def image_iff) (subst takeWhile_append2; auto)
  have d: "dropWhile (\<lambda>x. x \<noteq> (False, CHR ''='')) (map (Pair False) (k @ ''='') @ v) = (False, CHR ''='') # v"
    using ne by (simp add: comp_def image_iff) (subst dropWhile_append2; auto)
  show ?thesis using assms by (simp add: as_assignment_def t d list_all_iff comp_def del: map_append)
qed

lemma sh_words_quoted: "sh_words home (map (map (Pair True)) ss) = Some ss"
  by (induction ss) (simp_all add: one_word_def sh_expand_quoted)

end
