(* ===== verification/LaunchProperties.thy ===== *)
theory LaunchProperties
  imports Launch ShellWords
begin

text \<open>
  What holds of a launch: the command line of a remote session means what was asked for, no
  credential leaves for a host that must not get it, the key and the token exclude each other,
  and the command of a one-shot Codex run carries the permissions of the run.
\<close>

section \<open>The remote command line\<close>

lemma no_assignment: "(False, CHR ''='') \<notin> set w \<Longrightarrow> as_assignment w = None"
proof -
  assume "(False, CHR ''='') \<notin> set w"
  then have "dropWhile (\<lambda>x. x \<noteq> (False, CHR ''='')) w = []" by auto
  then show ?thesis by (simp add: as_assignment_def)
qed

lemma quote_reads: "sh_quote (Some u) (concat (map escape_char s) @ CHR 0x27 # r)
                    = sh_lex (Some (u @ map (Pair True) s)) r"
  by (induction s arbitrary: u) (simp_all add: escape_char_def add_chars_def)

lemma reads_escape: "reads (shell_escape s) (map (Pair True) s)"
  by (simp add: reads_def shell_escape_def add_chars_def quote_reads)

text \<open>The word that a path becomes, and the path it stands for on a machine.\<close>

definition path_word :: "string \<Rightarrow> word_chars" where
  "path_word p =
     (if p = ''~'' then [(False, CHR ''~'')]
      else (case strip_prefix p ''~/'' of
              Some r \<Rightarrow> (False, CHR ''~'') # (False, CHR ''/'') # map (Pair True) r
            | None \<Rightarrow> map (Pair True) p))"

definition home_path :: "string \<Rightarrow> string \<Rightarrow> string" where
  "home_path home p =
     (if p = ''~'' then home
      else (case strip_prefix p ''~/'' of Some r \<Rightarrow> home @ ''/'' @ r | None \<Rightarrow> p))"

lemma reads_path: "reads (shell_escape_path p) (path_word p)"
proof (cases "strip_prefix p ''~/''")
  case None
  have "reads ''~'' (map (Pair False) ''~'')" by (rule reads_plain) (simp_all add: plain_char_def)
  then show ?thesis using None by (simp add: shell_escape_path_def path_word_def reads_escape)
next
  case (Some r)
  have "reads ''~/'' (map (Pair False) ''~/'')" by (rule reads_plain) (simp_all add: plain_char_def)
  from reads_append [OF this reads_escape [of r]]
  have "reads (''~/'' @ shell_escape r) ((False, CHR ''~'') # (False, CHR ''/'') # map (Pair True) r)"
    by simp
  moreover have "p \<noteq> ''~''" using Some by (auto simp: strip_prefix_def starts_with_def)
  ultimately show ?thesis using Some by (simp add: shell_escape_path_def path_word_def)
qed

lemma expand_path: "sh_expand home (path_word p) = Some (home_path home p)"
proof (cases "strip_prefix p ''~/''")
  case None
  then show ?thesis
    by (simp add: path_word_def home_path_def sh_expand_quoted) (simp add: sh_expand_def)
next
  case (Some r)
  then show ?thesis
    by (auto simp: path_word_def home_path_def sh_expand_def comp_def strip_prefix_def starts_with_def)
qed

lemma path_not_assignment: "as_assignment (path_word p) = None"
  by (rule no_assignment) (auto simp: path_word_def split: option.split)

lemma env_key_plain: "env_key_char c \<Longrightarrow> plain_char c \<and> name_char c"
  by (auto simp: env_key_char_def plain_char_def name_char_def Let_def)

lemma reads_assign:
  assumes "list_all env_key_char k"
  shows "reads (env_assign k v) (map (Pair False) (k @ ''='') @ map (Pair True) v)"
proof -
  have "list_all plain_char (k @ ''='')"
    using assms env_key_plain by (auto simp: list_all_iff plain_char_def)
  then have "reads (k @ ''='') (map (Pair False) (k @ ''=''))"
    using reads_plain by blast
  from reads_append [OF this reads_escape [of v]] show ?thesis by (simp add: env_assign_def)
qed

text \<open>
  The characters of an assignment, and when a text is read as one whose value has nothing to expand.
\<close>

definition assign_chars :: "string \<times> word_chars \<Rightarrow> word_chars" where
  "assign_chars kv = map (Pair False) (fst kv @ ''='') @ snd kv"

definition assign_word :: "string \<times> word_chars \<Rightarrow> string \<Rightarrow> bool" where
  "assign_word kv s \<longleftrightarrow>
     reads s (assign_chars kv) \<and> is_name (fst kv)
     \<and> (\<forall>home. sh_expand home (snd kv) = Some (map snd (snd kv)))"

lemma assign_word_quoted:
  assumes "list_all env_key_char k" "is_name k"
  shows "assign_word (k, map (Pair True) v) (env_assign k v)"
  using reads_assign [OF assms(1), of v] assms(2)
  by (simp add: assign_word_def assign_chars_def sh_expand_quoted comp_def)

lemma assign_words_read:
  "list_all2 assign_word kvs ss \<Longrightarrow> list_all2 reads ss (map assign_chars kvs)"
  by (induction rule: list_all2_induct) (simp_all add: assign_word_def)

lemma simple_assigns:
  assumes "list_all2 assign_word kvs ss" "sh_simple home ws = Some c"
  shows "sh_simple home (map assign_chars kvs @ ws)
         = Some (c\<lparr>sc_assigns := map (\<lambda>kv. (fst kv, map snd (snd kv))) kvs @ sc_assigns c\<rparr>)"
  using assms(1)
proof (induction rule: list_all2_induct)
  case (Cons kv kvs s ss)
  have "as_assignment (assign_chars kv) = Some (fst kv, snd kv)"
    using Cons.hyps(1) by (simp only: assign_chars_def assign_word_def assignment_reads)
  then show ?case using Cons.IH Cons.hyps(1) by (cases kv) (auto simp: assign_word_def)
qed (simp add: assms(2))

text \<open>The variables a remote command sets, in order.\<close>

definition remote_assigns :: "ResolvedAuth \<Rightarrow> (string \<times> string) list" where
  "remote_assigns ra =
     (case ra_api_key ra of
        None \<Rightarrow> []
      | Some key \<Rightarrow> [(''ANTHROPIC_API_KEY'', key), (''ANTHROPIC_AUTH_TOKEN'', [])])
     @ (case ra_auth_token ra of
          None \<Rightarrow> []
        | Some token \<Rightarrow> [(''ANTHROPIC_AUTH_TOKEN'', token), (''ANTHROPIC_API_KEY'', [])])
     @ (case ra_base_url ra of None \<Rightarrow> [] | Some url \<Rightarrow> [(''ANTHROPIC_BASE_URL'', url)])
     @ resolve_model_tiers (unwrap_or (ra_models ra) [])
     @ filter (\<lambda>(k, v). list_all env_key_char k) (unwrap_or (ra_extra_env ra) [])
     @ [(''CLAUDE_CODE_ENABLE_SDK_FILE_CHECKPOINTING'', ''1'')]"

text \<open>The keys of the extra variables that are accepted are names.\<close>

definition extra_names :: "ResolvedAuth \<Rightarrow> bool" where
  "extra_names ra \<longleftrightarrow>
     (\<forall>(k, v) \<in> set (unwrap_or (ra_extra_env ra) []). list_all env_key_char k \<longrightarrow> is_name k)"

lemma fixed_keys:
  "list_all (\<lambda>k. list_all env_key_char k \<and> is_name k)
     [''ANTHROPIC_MODEL'', ''ANTHROPIC_DEFAULT_OPUS_MODEL'', ''ANTHROPIC_DEFAULT_SONNET_MODEL'',
      ''ANTHROPIC_DEFAULT_HAIKU_MODEL'', ''ANTHROPIC_API_KEY'', ''ANTHROPIC_AUTH_TOKEN'',
      ''ANTHROPIC_BASE_URL'', ''CLAUDE_CODE_ENABLE_SDK_FILE_CHECKPOINTING'']"
  by (simp add: env_key_char_def is_name_def digit_def name_char_def)

lemma tier_keys:
  "list_all (\<lambda>(k, v). list_all env_key_char k \<and> is_name k) (resolve_model_tiers ms)"
  using fixed_keys by (simp add: resolve_model_tiers_def Let_def split: list.split)

text \<open>A variable that is set to a quoted value, and one that is set without quotes.\<close>

lemma assign_words_quoted:
  assumes "list_all (\<lambda>(k, v). list_all env_key_char k \<and> is_name k) kvs"
  shows "list_all2 assign_word (map (\<lambda>(k, v). (k, map (Pair True) v)) kvs)
           (map (\<lambda>(k, v). env_assign k v) kvs)"
  using assms by (induction kvs) (auto simp: assign_word_quoted)

lemma assign_word_plain:
  assumes "list_all env_key_char k" "is_name k" "list_all plain_char v" "CHR ''~'' \<notin> set v"
  shows "assign_word (k, map (Pair False) v) (k @ ''='' @ v)"
proof -
  have "list_all plain_char (k @ ''='' @ v)"
    using assms env_key_plain by (auto simp: list_all_iff plain_char_def)
  then have "reads (k @ ''='' @ v) (map (Pair False) (k @ ''='' @ v))"
    using reads_plain by blast
  moreover have "sh_expand home (map (Pair False) v) = Some v" for home
    using assms(4) by (cases v) (auto simp: sh_expand_def comp_def)
  ultimately show ?thesis using assms(2) by (simp add: assign_word_def assign_chars_def comp_def)
qed

definition set_quoted :: "(string \<times> string) list \<Rightarrow> (string \<times> word_chars) list" where
  "set_quoted kvs = map (\<lambda>(k, v). (k, map (Pair True) v)) kvs"

definition remote_words :: "ResolvedAuth \<Rightarrow> (string \<times> word_chars) list" where
  "remote_words ra =
     (case ra_api_key ra of
        None \<Rightarrow> []
      | Some key \<Rightarrow> set_quoted [(''ANTHROPIC_API_KEY'', key)] @ [(''ANTHROPIC_AUTH_TOKEN'', [])])
     @ (case ra_auth_token ra of
          None \<Rightarrow> []
        | Some token \<Rightarrow> set_quoted [(''ANTHROPIC_AUTH_TOKEN'', token)] @ [(''ANTHROPIC_API_KEY'', [])])
     @ (case ra_base_url ra of None \<Rightarrow> [] | Some url \<Rightarrow> set_quoted [(''ANTHROPIC_BASE_URL'', url)])
     @ set_quoted (resolve_model_tiers (unwrap_or (ra_models ra) []))
     @ set_quoted (filter (\<lambda>(k, v). list_all env_key_char k) (unwrap_or (ra_extra_env ra) []))
     @ [(''CLAUDE_CODE_ENABLE_SDK_FILE_CHECKPOINTING'', map (Pair False) ''1'')]"

lemma set_quoted_read:
  "list_all (\<lambda>(k, v). list_all env_key_char k \<and> is_name k) kvs \<Longrightarrow>
   list_all2 assign_word (set_quoted kvs) (map (\<lambda>(k, v). env_assign k v) kvs)"
  by (simp add: set_quoted_def assign_words_quoted)

lemma set_quoted_value: "map (\<lambda>kv. (fst kv, map snd (snd kv))) (set_quoted kvs) = kvs"
  by (induction kvs) (auto simp: set_quoted_def comp_def)

lemma plain_words:
  "assign_word (''ANTHROPIC_API_KEY'', []) ''ANTHROPIC_API_KEY=''"
  "assign_word (''ANTHROPIC_AUTH_TOKEN'', []) ''ANTHROPIC_AUTH_TOKEN=''"
  "assign_word (''CLAUDE_CODE_ENABLE_SDK_FILE_CHECKPOINTING'', map (Pair False) ''1'')
     ''CLAUDE_CODE_ENABLE_SDK_FILE_CHECKPOINTING=1''"
  using assign_word_plain [of "''ANTHROPIC_API_KEY''" "[]"]
    assign_word_plain [of "''ANTHROPIC_AUTH_TOKEN''" "[]"]
    assign_word_plain [of "''CLAUDE_CODE_ENABLE_SDK_FILE_CHECKPOINTING''" "''1''"] fixed_keys
  by (simp_all add: plain_char_def)

lemma quoted_then_empty:
  assumes "k \<in> {''ANTHROPIC_API_KEY'', ''ANTHROPIC_AUTH_TOKEN'', ''ANTHROPIC_BASE_URL''}"
    and "list_all2 assign_word kvs ss"
  shows "list_all2 assign_word (set_quoted [(k, v)] @ kvs) (env_assign k v # ss)"
  using set_quoted_read [of "[(k, v)]"] fixed_keys assms by (auto simp: set_quoted_def)

lemma extra_read:
  assumes "extra_names ra"
  shows "list_all (\<lambda>(k, v). list_all env_key_char k \<and> is_name k)
           (filter (\<lambda>(k, v). list_all env_key_char k) (unwrap_or (ra_extra_env ra) []))"
  using assms by (auto simp: extra_names_def list_all_iff)

lemma remote_words_read:
  assumes "extra_names ra"
  shows "list_all2 assign_word (remote_words ra) (remote_env_words ra)"
  unfolding remote_words_def remote_env_words_def
proof (intro list_all2_appendI set_quoted_read tier_keys extra_read assms)
  show "list_all2 assign_word
      (case ra_api_key ra of None \<Rightarrow> []
       | Some key \<Rightarrow> set_quoted [(''ANTHROPIC_API_KEY'', key)] @ [(''ANTHROPIC_AUTH_TOKEN'', [])])
      (case ra_api_key ra of None \<Rightarrow> []
       | Some key \<Rightarrow> [env_assign ''ANTHROPIC_API_KEY'' key, ''ANTHROPIC_AUTH_TOKEN=''])"
    by (cases "ra_api_key ra") (simp_all only: option.case list_all2_Nil quoted_then_empty plain_words
          insert_iff list_all2_Cons simp_thms)
  show "list_all2 assign_word
      (case ra_auth_token ra of None \<Rightarrow> []
       | Some token \<Rightarrow> set_quoted [(''ANTHROPIC_AUTH_TOKEN'', token)] @ [(''ANTHROPIC_API_KEY'', [])])
      (case ra_auth_token ra of None \<Rightarrow> []
       | Some token \<Rightarrow> [env_assign ''ANTHROPIC_AUTH_TOKEN'' token, ''ANTHROPIC_API_KEY=''])"
    by (cases "ra_auth_token ra") (simp_all only: option.case list_all2_Nil quoted_then_empty plain_words
          insert_iff list_all2_Cons simp_thms)
  show "list_all2 assign_word
      (case ra_base_url ra of None \<Rightarrow> [] | Some url \<Rightarrow> set_quoted [(''ANTHROPIC_BASE_URL'', url)])
      (case ra_base_url ra of None \<Rightarrow> [] | Some url \<Rightarrow> [env_assign ''ANTHROPIC_BASE_URL'' url])"
    using quoted_then_empty [of "''ANTHROPIC_BASE_URL''" "[]" "[]"]
    by (simp split: option.split)
  show "list_all2 assign_word
      [(''CLAUDE_CODE_ENABLE_SDK_FILE_CHECKPOINTING'', map (Pair False) ''1'')]
      [''CLAUDE_CODE_ENABLE_SDK_FILE_CHECKPOINTING=1'']"
    by (simp only: list_all2_Cons plain_words list_all2_Nil simp_thms)
qed

lemma remote_words_value:
  "map (\<lambda>kv. (fst kv, map snd (snd kv))) (remote_words ra) = remote_assigns ra"
  by (simp add: remote_words_def remote_assigns_def set_quoted_value comp_def split: option.split)

lemma path_words: "sh_words home (path_word p # map (map (Pair True)) args) = Some (home_path home p # args)"
  by (simp add: one_word_def expand_path sh_words_quoted)

lemma quoted_args_read: "list_all2 reads (map shell_escape args) (map (map (Pair True)) args)"
  by (induction args) (simp_all add: reads_escape)

lemma simple_path:
  "sh_simple home (path_word p # map (map (Pair True)) args)
   = Some \<lparr> sc_assigns = [], sc_words = home_path home p # args \<rparr>"
  using path_words [of home p args] by (simp add: path_not_assignment)

text \<open>C11: Whatever the working directory, the arguments, the key, the token, the address, the models
  and the values of the extra variables contain, a POSIX shell on the remote host reads the line
  that \<open>build_remote_claude_command\<close> builds as exactly two commands: change to the directory, and,
  when that succeeded, run the configured binary with exactly the arguments given and exactly the
  variables of the resolved credentials; a leading tilde is the remote home directory.  The only
  condition is that the keys of the extra variables which pass the filter are names.\<close>

theorem remote_command_faithful:
  assumes "posix_shell home sh" "extra_names ra"
  shows "sh (build_remote_claude_command remote cwd claude_args ra) =
    [\<lparr> sc_assigns = [], sc_words = [''cd'', home_path home cwd] \<rparr>,
     \<lparr> sc_assigns = remote_assigns ra,
       sc_words = home_path home (unwrap_or (rh_remote_claude_path remote) ''claude'') # claude_args \<rparr>]"
proof (rule posix_shellD [OF assms(1)])
  let ?bin = "unwrap_or (rh_remote_claude_path remote) ''claude''"
  let ?ws = "map assign_chars (remote_words ra) @ path_word ?bin # map (map (Pair True)) claude_args"
  have cd: "list_all2 reads [''cd'', shell_escape_path cwd] [map (Pair False) ''cd'', path_word cwd]"
    using reads_plain [of "''cd''"] reads_path [of cwd] by (simp add: plain_char_def)
  have cd_cmd: "sh_simple home [map (Pair False) ''cd'', path_word cwd]
                = Some \<lparr> sc_assigns = [], sc_words = [''cd'', home_path home cwd] \<rparr>"
    using path_words [of home cwd "[]"]
    by (simp add: no_assignment one_word_def) (simp add: sh_expand_def)
  have run: "list_all2 reads (remote_env_words ra @ [shell_escape_path ?bin] @ map shell_escape claude_args) ?ws"
    using assign_words_read [OF remote_words_read [OF assms(2)]] reads_path quoted_args_read
    by (auto intro!: list_all2_appendI)
  have "sh_simple home ?ws = Some \<lparr> sc_assigns = remote_assigns ra, sc_words = home_path home ?bin # claude_args \<rparr>"
    using simple_assigns [OF remote_words_read [OF assms(2)] simple_path]
    by (simp add: remote_words_value)
  then show "posix_commands home (build_remote_claude_command remote cwd claude_args ra) =
    Some [\<lparr> sc_assigns = [], sc_words = [''cd'', home_path home cwd] \<rparr>,
     \<lparr> sc_assigns = remote_assigns ra, sc_words = home_path home ?bin # claude_args \<rparr>]"
    using posix_and [OF cd _ run _ cd_cmd] by (simp add: build_remote_claude_command_def)
qed

text \<open>
  A key that the filter accepts without being a name (it is empty or begins with a digit) is not an
  assignment to the shell: the remote host would run a program of that name.
\<close>

lemma bad_key_is_a_command:
  assumes "list_all env_key_char k" "\<not> is_name k"
  shows "sh_simple home ((map (Pair False) (k @ ''='') @ map (Pair True) v) # ws)
         = map_option (\<lambda>xs. \<lparr> sc_assigns = [], sc_words = (k @ ''='' @ v) # xs \<rparr>) (sh_words home ws)"
proof -
  have ne: "CHR ''='' \<notin> set k" using assms(1) by (auto simp: list_all_iff env_key_char_def)
  let ?w = "map (Pair False) (k @ ''='') @ map (Pair True) v"
  have "takeWhile (\<lambda>x. x \<noteq> (False, CHR ''='')) (map (Pair False) k @ r) = map (Pair False) k @ takeWhile (\<lambda>x. x \<noteq> (False, CHR ''='')) r" for r
    using ne by (intro takeWhile_append2) auto
  from this [of "(False, CHR ''='') # map (Pair True) v"]
  have no: "as_assignment ?w = None"
    using assms(2) by (simp add: as_assignment_def comp_def)
  have "CHR ''~'' \<notin> set k" using assms(1) by (auto simp: list_all_iff env_key_char_def)
  then have "sh_expand home ?w = Some (k @ ''='' @ v)"
    by (cases k) (auto simp: sh_expand_def comp_def)
  then show ?thesis by (simp add: no one_word_def option.map_comp comp_def del: map_append)
qed

section \<open>The credentials\<close>

text \<open>The value of a variable after a list of assignments.\<close>

definition assigned :: "(string \<times> string) list \<Rightarrow> string \<Rightarrow> string option" where
  "assigned kvs k = map_of (rev kvs) k"

definition auth_vars :: "string set" where
  "auth_vars = {''ANTHROPIC_API_KEY'', ''ANTHROPIC_AUTH_TOKEN''}"

text \<open>The extra variables leave the two credential variables alone.\<close>

definition extra_leaves_auth :: "ResolvedAuth \<Rightarrow> bool" where
  "extra_leaves_auth ra \<longleftrightarrow>
     fst ` set (unwrap_or (ra_extra_env ra) []) \<inter> auth_vars = {}"

definition one_auth :: "ResolvedAuth \<Rightarrow> bool" where
  "one_auth ra \<longleftrightarrow> ra_api_key ra = None \<or> ra_auth_token ra = None"

lemma keyed_one [simp]: "one_auth (keyed_auth b k u m e)"
  by (simp add: one_auth_def keyed_auth_def)

lemma platform_one: "one_auth (resolve_auth_env_for_platform remote user pid)"
proof -
  have env: "one_auth (resolve_auth_env remote user)"
    by (auto simp: resolve_auth_env_def Let_def no_auth_def one_auth_def keyed_auth_def split: option.split)
  have "one_auth a" if "credential_auth pid cred = Some a \<or> default_auth pid = Some a" for pid cred a
    using that by (auto simp: credential_auth_def default_auth_def make_placeholder_auth_def Let_def
        split: option.splits if_splits)
  then have "one_auth a" if "Option.bind pid (\<lambda>pid. case List.find (\<lambda>c. pc_platform_id c = pid)
      (us_platform_credentials user) of Some cred \<Rightarrow> credential_auth pid cred | None \<Rightarrow> default_auth pid) = Some a" for a
    using that by (cases pid) (auto split: option.splits)
  moreover have "one_auth no_auth" by (simp add: one_auth_def no_auth_def)
  ultimately show ?thesis using env
    unfolding resolve_auth_env_for_platform_def by (simp split: option.split)
qed

lemma shell_one: "fst (resolve_shell_auth L) = None \<or> snd (resolve_shell_auth L) = None"
  by (auto simp: resolve_shell_auth_def split: option.split prod.split)

lemma augment_one: "one_auth ra \<Longrightarrow> one_auth (augment_with_shell_auth L uc pc mode is_remote ra)"
  using shell_one [of L] by (auto simp: augment_with_shell_auth_def one_auth_def split: prod.split)

lemma child_env_append: "child_env (xs @ ys) e = child_env ys (child_env xs e)"
  by (simp add: child_env_def)

lemma set_vars_keep:
  assumes "n \<notin> fst ` set (unwrap_or kvs [])"
  shows "child_env (set_vars kvs) e n = e n"
proof -
  have "n \<notin> fst ` set xs \<Longrightarrow> child_env (map (\<lambda>(k, v). SetVar k v) xs) e n = e n" for xs e
    by (induction xs arbitrary: e) (auto simp: child_env_def)
  then show ?thesis using assms by (simp add: set_vars_def)
qed

lemma tiers_cases:
  "resolve_model_tiers ms = [] \<or> (\<exists>o' s h. resolve_model_tiers ms =
     [(''ANTHROPIC_MODEL'', s), (''ANTHROPIC_DEFAULT_OPUS_MODEL'', o'),
      (''ANTHROPIC_DEFAULT_SONNET_MODEL'', s), (''ANTHROPIC_DEFAULT_HAIKU_MODEL'', h)])"
  by (simp add: resolve_model_tiers_def Let_def split: list.split)

lemma tiers_keep: "fst ` set (resolve_model_tiers ms) \<inter> auth_vars = {}"
  using tiers_cases [of ms] by (elim disjE exE) (simp_all add: auth_vars_def)

text \<open>The two credential variables after the changes that the resolved credentials make.\<close>

lemma auth_env:
  assumes "one_auth ra" "extra_leaves_auth ra"
  shows "child_env (auth_env_ops ra) e ''ANTHROPIC_API_KEY''
         = (if ra_auth_token ra \<noteq> None then None else if ra_api_key ra \<noteq> None then ra_api_key ra
            else e ''ANTHROPIC_API_KEY'')"
    and "child_env (auth_env_ops ra) e ''ANTHROPIC_AUTH_TOKEN''
         = (if ra_api_key ra \<noteq> None then None else if ra_auth_token ra \<noteq> None then ra_auth_token ra
            else e ''ANTHROPIC_AUTH_TOKEN'')"
proof -
  have extra: "child_env (set_vars (ra_extra_env ra)) e n = e n"
    and tiers: "child_env (set_vars (Some (resolve_model_tiers ms))) e n = e n"
    if "n \<in> auth_vars" for e n ms
    using assms(2) tiers_keep [of ms] that by (intro set_vars_keep; auto simp: extra_leaves_auth_def)+
  show "child_env (auth_env_ops ra) e ''ANTHROPIC_API_KEY''
         = (if ra_auth_token ra \<noteq> None then None else if ra_api_key ra \<noteq> None then ra_api_key ra
            else e ''ANTHROPIC_API_KEY'')"
    "child_env (auth_env_ops ra) e ''ANTHROPIC_AUTH_TOKEN''
         = (if ra_api_key ra \<noteq> None then None else if ra_auth_token ra \<noteq> None then ra_auth_token ra
            else e ''ANTHROPIC_AUTH_TOKEN'')"
    using assms(1)
    by (auto simp: auth_env_ops_def child_env_append extra tiers auth_vars_def one_auth_def
        child_env_def [of "[]"] child_env_def [of "_ # _"] split: option.split)
qed

lemma assigned_append: "assigned (xs @ ys) n = (case assigned ys n of None \<Rightarrow> assigned xs n | Some v \<Rightarrow> Some v)"
  by (simp add: assigned_def map_add_def) (simp add: assigned_def [abs_def] split: option.split)

lemma assigned_none: "n \<notin> fst ` set xs \<Longrightarrow> assigned xs n = None"
  by (simp add: assigned_def map_of_eq_None_iff)

lemma remote_auth:
  assumes "one_auth ra" "extra_leaves_auth ra"
  shows "assigned (remote_assigns ra) ''ANTHROPIC_API_KEY''
         = (if ra_auth_token ra \<noteq> None then Some [] else ra_api_key ra)"
    and "assigned (remote_assigns ra) ''ANTHROPIC_AUTH_TOKEN''
         = (if ra_api_key ra \<noteq> None then Some [] else ra_auth_token ra)"
proof -
  have "n \<notin> fst ` set (filter P (unwrap_or (ra_extra_env ra) []))" "n \<notin> fst ` set (resolve_model_tiers ms)"
    if "n \<in> auth_vars" for n P ms
    using assms(2) tiers_keep [of ms] that by (auto simp: extra_leaves_auth_def)
  then have none: "assigned (filter P (unwrap_or (ra_extra_env ra) [])) n = None"
    "assigned (resolve_model_tiers ms) n = None" if "n \<in> auth_vars" for n P ms
    using that by (intro assigned_none; blast)+
  show "assigned (remote_assigns ra) ''ANTHROPIC_API_KEY''
         = (if ra_auth_token ra \<noteq> None then Some [] else ra_api_key ra)"
    "assigned (remote_assigns ra) ''ANTHROPIC_AUTH_TOKEN''
         = (if ra_api_key ra \<noteq> None then Some [] else ra_auth_token ra)"
    using assms(1)
    by (auto simp: remote_assigns_def assigned_append none auth_vars_def one_auth_def
        assigned_def [of "[]"] assigned_def [of "_ # _"] split: option.split)
qed

text \<open>The credentials of a session, as a start resolves them.\<close>

definition session_auth ::
  "launch_env \<Rightarrow> json \<Rightarrow> json \<Rightarrow> UserSettings \<Rightarrow> RemoteHost option \<Rightarrow> string option \<Rightarrow> ResolvedAuth" where
  "session_auth L user_config project_config user remote platform_id =
     augment_with_shell_auth L user_config project_config (us_auth_mode user) (remote \<noteq> None)
       (resolve_auth_env_for_platform remote user platform_id)"

text \<open>C13: The key and the token exclude each other: the credentials of a session never hold both.
  A local child that gets one of them does not see the other, whatever it inherits; without either
  it keeps what it inherits.  On a remote host the other one is set to the empty text.  This needs
  extra variables that do not set these two themselves.\<close>

theorem one_credential:
  assumes "ra = session_auth L user_config project_config user remote platform_id"
    and "extra_leaves_auth ra"
    and "spawn_cli_process L claude_path cwd ad mode sid None remote_cwd ra = Inr c"
    and E_def: "E = child_env (cc_env c) inherited"
  shows "\<not> (ra_api_key ra \<noteq> None \<and> ra_auth_token ra \<noteq> None)
    \<and> (ra_api_key ra \<noteq> None \<longrightarrow>
         E ''ANTHROPIC_API_KEY'' = ra_api_key ra \<and> E ''ANTHROPIC_AUTH_TOKEN'' = None
         \<and> assigned (remote_assigns ra) ''ANTHROPIC_API_KEY'' = ra_api_key ra
         \<and> assigned (remote_assigns ra) ''ANTHROPIC_AUTH_TOKEN'' = Some [])
    \<and> (ra_auth_token ra \<noteq> None \<longrightarrow>
         E ''ANTHROPIC_AUTH_TOKEN'' = ra_auth_token ra \<and> E ''ANTHROPIC_API_KEY'' = None
         \<and> assigned (remote_assigns ra) ''ANTHROPIC_AUTH_TOKEN'' = ra_auth_token ra
         \<and> assigned (remote_assigns ra) ''ANTHROPIC_API_KEY'' = Some [])
    \<and> (ra_api_key ra = None \<and> ra_auth_token ra = None \<longrightarrow>
         E ''ANTHROPIC_API_KEY'' = inherited ''ANTHROPIC_API_KEY''
         \<and> E ''ANTHROPIC_AUTH_TOKEN'' = inherited ''ANTHROPIC_AUTH_TOKEN'')"
proof -
  have one: "one_auth ra" unfolding assms(1) session_auth_def by (intro augment_one platform_one)
  have "cc_env c = [SetVar ''PATH'' (le_path L), RemoveVar ''CLAUDECODE'',
      SetVar ''CLAUDE_CODE_ENABLE_SDK_FILE_CHECKPOINTING'' ''1''] @ auth_env_ops ra"
    using assms(3) by (auto simp: spawn_cli_process_def split: sum.splits)
  then have E: "E n = child_env (auth_env_ops ra) (inherited(''PATH'' \<mapsto> le_path L, ''CLAUDECODE'' := None,
      ''CLAUDE_CODE_ENABLE_SDK_FILE_CHECKPOINTING'' \<mapsto> ''1'')) n" for n
    by (simp add: E_def child_env_append) (simp add: child_env_def)
  show ?thesis
    using one by (auto simp: E auth_env [OF one assms(2)] remote_auth [OF one assms(2)] one_auth_def)
qed

section \<open>An example\<close>

definition sample_host :: "bool \<Rightarrow> RemoteHost" where
  "sample_host forward =
     \<lparr> rh_name = ''box'', rh_host = ''h'', rh_user = ''u'', rh_port = 22, rh_key_path = None,
       rh_remote_cwd = None, rh_remote_claude_path = Some ''~/bin/claude'', rh_forward_api_key = forward \<rparr>"

definition sample_auth :: ResolvedAuth where
  "sample_auth = keyed_auth True ''k'' None None (Some [(''A_1'', ''v; w''), (''bad key'', [])])"

definition posix_sh :: "string \<Rightarrow> string \<Rightarrow> sh_command list" where
  "posix_sh home line = unwrap_or (posix_commands home line) []"

lemma posix_sh: "posix_shell home (posix_sh home)"
  by (simp add: posix_shell_def posix_sh_def)

lemma sample_names: "extra_names sample_auth"
  by (simp add: extra_names_def sample_auth_def keyed_auth_def env_key_char_def is_name_def digit_def
      name_char_def)

theorem remote_command_faithful_witness:
  "posix_sh ''/home/u''
     (build_remote_claude_command (sample_host True) ''~/my app'' [''--resume'', [CHR 0x27, CHR ''$'']] sample_auth)
   = [\<lparr> sc_assigns = [], sc_words = [''cd'', ''/home/u/my app''] \<rparr>,
      \<lparr> sc_assigns = [(''ANTHROPIC_AUTH_TOKEN'', ''k''), (''ANTHROPIC_API_KEY'', []), (''A_1'', ''v; w''),
                      (''CLAUDE_CODE_ENABLE_SDK_FILE_CHECKPOINTING'', ''1'')],
        sc_words = [''/home/u/bin/claude'', ''--resume'', [CHR 0x27, CHR ''$'']] \<rparr>]"
  unfolding remote_command_faithful [OF posix_sh sample_names]
  by (simp add: home_path_def strip_prefix_def starts_with_def sample_host_def sample_auth_def
      keyed_auth_def remote_assigns_def resolve_model_tiers_def env_key_char_def)

definition keyed_user :: UserSettings where
  "keyed_user = (user_default [])\<lparr>us_auth_mode := ''api'', us_anthropic_api_key := Some ''k''\<rparr>"

definition bare_adapter :: "launch_env \<Rightarrow> AdapterSettings" where
  "bare_adapter L = build_adapter_settings L (agent_default_for [] ''claude'') keyed_user None"

lemma keyed_session: "session_auth L JNull JNull keyed_user None None = keyed_auth False ''k'' None None None"
  by (simp add: session_auth_def augment_with_shell_auth_def keyed_user_def user_default_def nonempty_def
      resolve_auth_env_for_platform_def resolve_auth_env_def keeps_credentials_def bearer_def)

theorem one_credential_witness:
  "\<forall>L. \<exists>c. spawn_cli_process L ''claude'' ''/w'' (bare_adapter L) SessionNew None None None
              (session_auth L JNull JNull keyed_user None None) = Inr c
    \<and> child_env (cc_env c) (\<lambda>_. Some ''x'') ''ANTHROPIC_API_KEY'' = Some ''k''
    \<and> child_env (cc_env c) (\<lambda>_. Some ''x'') ''ANTHROPIC_AUTH_TOKEN'' = None"
proof
  fix L
  let ?ra = "session_auth L JNull JNull keyed_user None None"
  obtain c where c: "spawn_cli_process L ''claude'' ''/w'' (bare_adapter L) SessionNew None None None ?ra = Inr c"
    by (simp add: spawn_cli_process_def session_args_def Let_def)
  have "extra_leaves_auth ?ra" by (simp add: keyed_session extra_leaves_auth_def keyed_auth_def)
  from one_credential [OF refl this c refl, of "\<lambda>_. Some ''x''"] c
  show "\<exists>c. spawn_cli_process L ''claude'' ''/w'' (bare_adapter L) SessionNew None None None ?ra = Inr c
    \<and> child_env (cc_env c) (\<lambda>_. Some ''x'') ''ANTHROPIC_API_KEY'' = Some ''k''
    \<and> child_env (cc_env c) (\<lambda>_. Some ''x'') ''ANTHROPIC_AUTH_TOKEN'' = None"
    by (auto simp: keyed_session keyed_auth_def)
qed

end
