(* ===== verification/CodexCommand.thy ===== *)
theory CodexCommand
  imports Launch
begin

text \<open>
  The command line of a one-shot Codex run (\<open>agent/spawn.rs\<close>, \<open>codex_exec_args\<close>) as a list of
  options with their values: which options it has, in which order and how each is written, for a new
  run and for one that resumes a thread.
\<close>

section \<open>Options\<close>
















section \<open>What the options ask for\<close>








end
