(* ===== verification/SessionCommands.thy ===== *)
theory SessionCommands
  imports Launch SessionActor CodexAppServer
begin

text \<open>
  The commands that start, stop and steer a session (\<open>commands/session.rs\<close>), over the map of live
  sessions, the tasks of their actors and the store of runs.  A command that needs the actor sends
  it one input of its loop and gets its answer through the number of a reply channel.  The lock of
  a run makes the commands of its life cycle one after the other; what the actor has in its mailbox
  has been handled when a command reaches it.
\<close>

section \<open>The server\<close>

text \<open>
  The tasks by their tags.  The world is shared: a task works on the current one, whatever the one
  in its last state is.
\<close>

record server =
  sv_world :: World
  sv_tasks :: "nat \<Rightarrow> CodexAppServer task option"
  sv_next_tag :: nat

definition task_world :: "CodexAppServer task \<Rightarrow> World" where
  "task_world t = (case t of Looping a \<Rightarrow> ac_w a | Ended a \<Rightarrow> ac_w a | Aborted a \<Rightarrow> ac_w a)"

text \<open>One input for a live task, in the current world; a terminated one ends its loop instead.\<close>

definition task_input ::
  "CodexAppServer env \<Rightarrow> input \<Rightarrow> World \<Rightarrow> CodexAppServer SessionActor \<Rightarrow> CodexAppServer task" where
  "task_input E i w a =
     (let b = a\<lparr>ac_w := w\<rparr> in if ac_terminated b then Ended (cleanup b) else after_step (run_step E i b))"

definition set_task :: "nat \<Rightarrow> CodexAppServer task \<Rightarrow> server \<Rightarrow> server" where
  "set_task tag t sv = sv\<lparr>sv_world := task_world t, sv_tasks := (sv_tasks sv)(tag \<mapsto> t)\<rparr>"

text \<open>What comes of an input: no session, a task that is gone, an answer that never comes, an answer.\<close>

datatype call_outcome = CallMissing | CallDead | CallDropped | CallDone

definition actor_call ::
  "CodexAppServer env \<Rightarrow> string \<Rightarrow> input \<Rightarrow> server \<Rightarrow> call_outcome \<times> server" where
  "actor_call E run_id i sv =
     (case w_sessions (sv_world sv) run_id of
        None \<Rightarrow> (CallMissing, sv)
      | Some tag \<Rightarrow>
          (case sv_tasks sv tag of
             Some (Looping a) \<Rightarrow>
               (let t = task_input E i (sv_world sv) a in
                (case t of Aborted b \<Rightarrow> CallDropped | _ \<Rightarrow> if ac_terminated a then CallDropped else CallDone,
                 set_task tag t sv))
           | _ \<Rightarrow> (CallDead, sv)))"

definition call_error :: "string \<Rightarrow> string \<Rightarrow> string \<Rightarrow> call_outcome \<Rightarrow> string + unit" where
  "call_error run_id dead dropped c =
     (case c of
        CallMissing \<Rightarrow> Inl (''Session '' @ run_id @ '' not found'')
      | CallDead \<Rightarrow> Inl dead
      | CallDropped \<Rightarrow> Inl dropped
      | CallDone \<Rightarrow> Inr ())"

text \<open>The answer under a number, if it has been given.\<close>

fun answer_to :: "nat \<Rightarrow> effect list \<Rightarrow> (string + unit) option" where
  "answer_to n [] = None"
| "answer_to n (e # es) =
     (case e of
        SendReply k r \<Rightarrow> if k = n then Some r else answer_to n es
      | Reply k r \<Rightarrow> if k = n then Some r else answer_to n es
      | ReplyControl k r \<Rightarrow>
          if k = n then Some (case r of Inl err \<Rightarrow> Inl err | Inr rid \<Rightarrow> Inr ()) else answer_to n es
      | ReplyRalph k r \<Rightarrow>
          if k = n then Some (case r of Inl err \<Rightarrow> Inl err | Inr x \<Rightarrow> Inr ()) else answer_to n es
      | _ \<Rightarrow> answer_to n es)"

text \<open>
  What a command returns that sends an input and waits for the answer: the answer that the step
  gave, \<open>Inr ()\<close> when it is still to come (a message that waits for its turn).
\<close>

definition call_result ::
  "string \<Rightarrow> string \<Rightarrow> string \<Rightarrow> nat \<Rightarrow> server \<Rightarrow> call_outcome \<Rightarrow> server \<Rightarrow> string + unit" where
  "call_result run_id dead dropped n sv c sv' =
     sum_bind (call_error run_id dead dropped c) (\<lambda>u.
       unwrap_or (answer_to n (drop (length (w_trace (sv_world sv))) (w_trace (sv_world sv')))) (Inr ()))"

definition sv_emit :: "effect \<Rightarrow> server \<Rightarrow> server" where
  "sv_emit e sv = sv\<lparr>sv_world := (sv_world sv)\<lparr>w_trace := w_trace (sv_world sv) @ [e]\<rparr>\<rparr>"

definition sv_store ::
  "CodexAppServer env \<Rightarrow> (fs_io \<Rightarrow> store \<Rightarrow> (string + unit) \<times> store) \<Rightarrow> server
     \<Rightarrow> (string + unit) \<times> server" where
  "sv_store E f sv =
     (let w = sv_world sv in
      case f (en_fs E (w_saves w)) (w_store w) of
        (r, st) \<Rightarrow> (r, sv\<lparr>sv_world := w\<lparr>w_store := st, w_saves := Suc (w_saves w)\<rparr>\<rparr>))"

definition sv_status ::
  "CodexAppServer env \<Rightarrow> string \<Rightarrow> RunStatus \<Rightarrow> string option \<Rightarrow> server \<Rightarrow> (string + unit) \<times> server" where
  "sv_status E run_id status error sv =
     sv_store E (\<lambda>io. update_status io (w_iso (sv_world sv)) run_id status None error) sv"

definition emit_run_state :: "string \<Rightarrow> string \<Rightarrow> server \<Rightarrow> server" where
  "emit_run_state run_id state = sv_emit (Persisted (RunState run_id state None None))"

section \<open>Stopping a session\<close>

text \<open>
  \<open>stop_actor\<close>: the entry leaves the map first; the actor, if it is still there, kills its child,
  answers and cleans up.  Waiting for it has no other effect.
\<close>

definition stop_actor :: "CodexAppServer env \<Rightarrow> nat \<Rightarrow> string \<Rightarrow> server \<Rightarrow> bool \<times> server" where
  "stop_actor E n run_id sv =
     (let w = sv_world sv in
      case w_sessions w run_id of
        None \<Rightarrow> (False, sv)
      | Some tag \<Rightarrow>
          (let w1 = w\<lparr>w_sessions := (w_sessions w)(run_id := None)\<rparr> in
           (True,
            case sv_tasks sv tag of
              Some (Looping a) \<Rightarrow> set_task tag (task_input E (InStop n) w1 a) sv
            | _ \<Rightarrow> sv\<lparr>sv_world := w1\<rparr>)))"

definition stop_session ::
  "CodexAppServer env \<Rightarrow> nat \<Rightarrow> string \<Rightarrow> server \<Rightarrow> (string + unit) \<times> server" where
  "stop_session E n run_id sv =
     (case stop_actor E n run_id sv of
        (was_active, sv1) \<Rightarrow>
          (Inr (), if was_active
                   then snd (sv_status E run_id Stopped None (emit_run_state run_id ''stopped'' sv1))
                   else sv1))"

text \<open>
  \<open>stop_run\<close> (\<open>commands/runs.rs\<close>, and \<open>stop_run_impl\<close> of \<open>web_server/dispatch.rs\<close>) stops a session
  or, when there is none, the child of a one-shot run (\<open>procs\<close> are the runs that have one), and marks
  the run as stopped in any case.
\<close>

definition stop_process :: "string \<Rightarrow> string set \<Rightarrow> bool \<times> string set" where
  "stop_process run_id procs = (run_id \<in> procs, procs - {run_id})"

definition stop_run ::
  "CodexAppServer env \<Rightarrow> nat \<Rightarrow> string \<Rightarrow> server \<times> string set \<Rightarrow> (string + bool) \<times> server \<times> string set" where
  "stop_run E n run_id s =
     (case s of (sv, procs) \<Rightarrow>
       (case stop_actor E n run_id sv of
          (actor_stopped, sv1) \<Rightarrow>
            (Inr True,
             snd (sv_status E run_id Stopped (Some ''Stopped by user'') sv1),
             if actor_stopped then procs else snd (stop_process run_id procs))))"

section \<open>Is the provider there?\<close>

text \<open>
  \<open>host_of\<close> and \<open>ip_local\<close> stand for the URL and address parsers: the host of a URL, and whether a
  text is an address that is loopback or unspecified (\<open>None\<close>: not an address).
\<close>

definition is_local_url :: "(string \<Rightarrow> string option) \<Rightarrow> (string \<Rightarrow> bool option) \<Rightarrow> string \<Rightarrow> bool" where
  "is_local_url host_of ip_local url =
     (case host_of url of
        None \<Rightarrow> False
      | Some host \<Rightarrow>
          if host = ''localhost'' then True
          else (case ip_local host of
                  Some b \<Rightarrow> b
                | None \<Rightarrow>
                    (let trimmed = rev (dropWhile (\<lambda>c. c = CHR '']'')
                           (rev (dropWhile (\<lambda>c. c = CHR ''['') host))) in
                     unwrap_or (ip_local trimmed) False)))"

definition preset_names :: "(string \<times> string) list" where
  "preset_names =
     [(''anthropic'', ''Anthropic''),
      (''deepseek'', ''DeepSeek''),
      (''kimi'', ''Kimi (Moonshot)''),
      (''kimi-coding'', ''Kimi For Coding''),
      (''zhipu'', ''Zhipu ('' @ [CHR 0xE6, CHR 0x99, CHR 0xBA, CHR 0xE8, CHR 0xB0, CHR 0xB1] @ '')''),
      (''zhipu-intl'', ''Zhipu ('' @ [CHR 0xE6, CHR 0x99, CHR 0xBA, CHR 0xE8, CHR 0xB0, CHR 0xB1] @ '' Intl)''),
      (''bailian'', ''Bailian (Coding Plan)''),
      (''bailian-api'', ''Bailian ('' @ [CHR 0xE7, CHR 0x99, CHR 0xBE, CHR 0xE7, CHR 0x82, CHR 0xBC] @ '' API)''),
      (''doubao'', ''DouBao ('' @ [CHR 0xE8, CHR 0xB1, CHR 0x86, CHR 0xE5, CHR 0x8C, CHR 0x85] @ '')''),
      (''minimax'', ''MiniMax''),
      (''minimax-cn'', ''MiniMax (China)''),
      (''mimo'', ''Xiaomi MiMo ('' @ [CHR 0xE5, CHR 0xB0, CHR 0x8F, CHR 0xE7, CHR 0xB1, CHR 0xB3] @ '')''),
      (''mimo-tp'', ''Xiaomi MiMo (Token Plan)''),
      (''hunyuan'', ''Tencent Hunyuan ('' @ [CHR 0xE6, CHR 0xB7, CHR 0xB7, CHR 0xE5, CHR 0x85, CHR 0x83] @ '')''),
      (''vercel'', ''Vercel AI Gateway''),
      (''openrouter'', ''OpenRouter''),
      (''siliconflow'', ''SiliconFlow ('' @ [CHR 0xE7, CHR 0xA1, CHR 0x85, CHR 0xE5, CHR 0x9F, CHR 0xBA, CHR 0xE6, CHR 0xB5, CHR 0x81, CHR 0xE5, CHR 0x8A, CHR 0xA8] @ '')''),
      (''aihubmix'', ''AiHubMix''),
      (''ollama'', ''Ollama''),
      (''ccswitch'', ''CC Switch''),
      (''ccr'', ''Claude Code Router''),
      (''zenmux'', ''ZenMux''),
      (''custom'', ''Custom'')]"

definition preset_name :: "string \<Rightarrow> string" where
  "preset_name pid = unwrap_or (map_of preset_names pid) pid"

text \<open>
  A request to the provider: the client cannot be built, it answers (with any status), or not.  The
  first argument is whether proxies are bypassed, which also means the short timeout.
\<close>

datatype head_outcome = ClientError string | Responded | Unreachable

record net_io =
  ni_host_of :: "string \<Rightarrow> string option"
  ni_ip_local :: "string \<Rightarrow> bool option"
  ni_head :: "bool \<Rightarrow> string \<Rightarrow> head_outcome"

definition preflight_check_base_url ::
  "net_io \<Rightarrow> string option \<Rightarrow> string option \<Rightarrow> string + unit" where
  "preflight_check_base_url N base_url platform_id =
     (case base_url of
        None \<Rightarrow> Inr ()
      | Some url \<Rightarrow>
          (let is_local = is_local_url (ni_host_of N) (ni_ip_local N) url;
               check_url = rev (dropWhile (\<lambda>c. c = CHR ''/'') (rev url)) @ ''/v1/models'' in
           case ni_head N is_local check_url of
             ClientError e \<Rightarrow> Inl (''HTTP client error: '' @ e)
           | Responded \<Rightarrow> Inr ()
           | Unreachable \<Rightarrow>
               (let display_name = (case platform_id of None \<Rightarrow> ''Provider'' | Some pid \<Rightarrow> preset_name pid);
                    suggestion =
                      (if is_local
                       then ''Make sure '' @ display_name @ '' is running and listening on '' @ url
                       else ''Check your network connection and verify '' @ url @ '' is accessible'')
                in Inl (display_name @ '' is unreachable ('' @ url @ ''). '' @ suggestion))))"

section \<open>Starting a session\<close>

text \<open>
  What a start reads and what the system answers: the settings, the CLI's own settings, the paths
  and capabilities of the CLIs, the network, the outcome of starting a child, the numbers of the
  messages that the log holds, and the version of the program.
\<close>

record start_io =
  si_launch :: launch_env
  si_agent :: AgentSettings
  si_user :: UserSettings
  si_user_config :: json
  si_project_config :: json
  si_claude_path :: string
  si_codex_path :: string
  si_capabilities :: "bool \<times> bool"
  si_net :: net_io
  si_spawn :: "child_command \<Rightarrow> string option"
  si_counts :: "u32 \<times> u32"
  si_version :: string

record session_setup =
  ss_adapter :: AdapterSettings
  ss_remote :: "RemoteHost option"
  ss_platform :: "string option"
  ss_auth :: ResolvedAuth

definition effective_platform :: "UserSettings \<Rightarrow> string option \<Rightarrow> RunMeta \<Rightarrow> string option" where
  "effective_platform user platform_id m =
     (if us_auth_mode user = ''cli'' then None else or_else platform_id (rm_platform_id m))"

text \<open>
  The settings, the remote host and the credentials of a run: \<open>model\<close> is the model that was chosen
  for the run, \<open>perm\<close> the permission mode for this start.
\<close>

definition session_setup ::
  "start_io \<Rightarrow> RunMeta \<Rightarrow> string option \<Rightarrow> string option \<Rightarrow> string option \<Rightarrow> string + session_setup" where
  "session_setup X m model platform_id perm =
     (let L = si_launch X; user = si_user X;
          ad0 = build_adapter_settings L (si_agent X) user model;
          ad1 = (case perm of None \<Rightarrow> ad0 | Some p \<Rightarrow> ad0\<lparr>ad_permission_mode := Some p\<rparr>) in
      case resolve_remote_host (us_remote_hosts user) m of
        Inl e \<Rightarrow> Inl e
      | Inr remote \<Rightarrow>
          (let pid = effective_platform user platform_id m;
               auth = resolve_auth_env_for_platform remote user pid in
           Inr \<lparr> ss_adapter = clear_model_if_provider_overrides model (ag_model (si_agent X))
                                (ra_models auth) ad1,
                 ss_remote = remote, ss_platform = pid,
                 ss_auth = augment_with_shell_auth L (si_user_config X) (si_project_config X)
                             (us_auth_mode user) (remote \<noteq> None) auth \<rparr>))"

definition resume_session_id :: "SessionMode \<Rightarrow> string option \<Rightarrow> RunMeta \<Rightarrow> string + string option" where
  "resume_session_id mode session_id m =
     (let required = (\<lambda>name.
        (case or_else session_id (rm_session_id m) of
           Some sid \<Rightarrow> Inr (Some sid)
         | None \<Rightarrow> Inl (''session_id required for '' @ name
                        @ '' but not found in params or run metadata''))) in
      case mode of
        SessionNew \<Rightarrow> Inr None
      | SessionResume \<Rightarrow> required ''Resume''
      | SessionContinue \<Rightarrow> required ''Continue''
      | SessionFork \<Rightarrow>
          Inl (''Fork mode not supported in start_session '' @ [CHR 0xE2, CHR 0x80, CHR 0x94]
               @ '' use fork_session command instead''))"

text \<open>Steps 1 to 3: what is read and checked before anything changes.\<close>

definition start_checks ::
  "start_io \<Rightarrow> store \<Rightarrow> string \<Rightarrow> SessionMode \<Rightarrow> string option \<Rightarrow> string option \<Rightarrow> string option
     \<Rightarrow> string + (RunMeta \<times> session_setup \<times> string option)" where
  "start_checks X st run_id mode session_id platform_id perm =
     (case get_run st run_id of
        None \<Rightarrow> Inl (''Run '' @ run_id @ '' not found'')
      | Some m \<Rightarrow>
          if resolved_execution_path m \<noteq> SessionActorPath
          then Inl (''start_session requires execution_path=session_actor, got PipeExec for run '' @ run_id)
          else
            sum_bind (session_setup X m (rm_model m) platform_id perm) (\<lambda>su.
            sum_bind (resume_session_id mode session_id m) (\<lambda>sid.
            sum_bind (validate_session_params (ss_adapter su) mode) (\<lambda>u. Inr (m, su, sid)))))"

definition startup_ctx :: "AdapterSettings \<Rightarrow> string \<Rightarrow> RunMeta \<Rightarrow> StartupCtx" where
  "startup_ctx ad cwd m =
     \<lparr> sc_cwd = cwd,
       sc_resume_thread_id = (case resolved_conversation_ref m of Some (CodexThread t) \<Rightarrow> Some t | _ \<Rightarrow> None),
       sc_model = ad_model ad,
       sc_model_provider = map_option cx_id (ad_codex_provider ad),
       sc_approval_policy = Some (codex_approval_for (ad_permission_mode ad)),
       sc_sandbox = Some (codex_sandbox_for (ad_permission_mode ad)),
       sc_effort = nonempty (ad_effort ad), sc_add_dirs = ad_add_dirs ad \<rparr>"

text \<open>
  Step 6: the child to start, and the driver with its first lines for Codex.
\<close>

definition session_child ::
  "start_io \<Rightarrow> RunMeta \<Rightarrow> session_setup \<Rightarrow> SessionMode \<Rightarrow> string option
     \<Rightarrow> string + (child_command \<times> CodexAppServer option \<times> json list)" where
  "session_child X m su mode sid =
     (let cwd = unwrap_or (rm_remote_cwd m) (rm_cwd m) in
      if rm_agent m = ''codex'' then
        (if ss_remote su \<noteq> None
         then Inl ''Codex app-server transport is not supported on remote hosts yet''
         else sum_bind (spawn_codex_appserver_process (si_launch X) (si_codex_path X) (si_capabilities X)
                cwd (ss_adapter su) (ra_extra_env (ss_auth su))) (\<lambda>c.
              case startup_messages (si_version X) (startup_ctx (ss_adapter su) cwd m) codex_new of
                (lines, d) \<Rightarrow> Inr (c, Some d, lines)))
      else sum_bind (spawn_cli_process (si_launch X) (si_claude_path X) cwd (ss_adapter su) mode sid
             (ss_remote su) (rm_remote_cwd m) (ss_auth su)) (\<lambda>c. Inr (c, None, [])))"

text \<open>The child is started, or the system says why not (\<open>what\<close> names the program in the error).\<close>

definition spawn_error :: "RunMeta \<Rightarrow> session_setup \<Rightarrow> string" where
  "spawn_error m su =
     (if rm_agent m = ''codex'' then ''Failed to spawn codex app-server: ''
      else if ss_remote su \<noteq> None then ''Failed to spawn ssh: '' else ''Failed to spawn claude: '')"

definition try_spawn ::
  "start_io \<Rightarrow> RunMeta \<Rightarrow> session_setup \<Rightarrow> SessionMode \<Rightarrow> string option
     \<Rightarrow> string + (CodexAppServer option \<times> json list)" where
  "try_spawn X m su mode sid =
     sum_bind (session_child X m su mode sid) (\<lambda>(c, d, lines).
       case si_spawn X c of Some e \<Rightarrow> Inl (spawn_error m su @ e) | None \<Rightarrow> Inr (d, lines))"

text \<open>Step 8: a new task under a new tag, with its entry in the map.\<close>

definition register_actor ::
  "CodexAppServer env \<Rightarrow> string \<Rightarrow> bool \<Rightarrow> u32 \<times> u32 \<Rightarrow> CodexAppServer option \<Rightarrow> json list \<Rightarrow> server
     \<Rightarrow> server" where
  "register_actor E run_id is_resume base codex lines sv =
     (let tag = sv_next_tag sv; w = sv_world sv;
          w1 = w\<lparr>w_sessions := (w_sessions w)(run_id \<mapsto> tag)\<rparr>;
          a = run_start E (spawn_actor run_id tag is_resume (fst base) (snd base) codex lines w1) in
      set_task tag (Looping a) (sv\<lparr>sv_next_tag := Suc tag\<rparr>))"

text \<open>Step 9 without a message: an idle state, and the status of the run.\<close>

definition synthetic_idle :: "CodexAppServer env \<Rightarrow> string \<Rightarrow> server \<Rightarrow> server" where
  "synthetic_idle E run_id sv =
     (let sv1 = emit_run_state run_id ''idle'' sv in
      if is_some_and (get_run (w_store (sv_world sv1)) run_id) (\<lambda>m. rm_status m \<noteq> Idle)
      then (case sv_status E run_id Idle None sv1 of
              (Inl e, sv2) \<Rightarrow> sv2
            | (Inr u, sv2) \<Rightarrow>
                sv_emit (RealtimeJson ''ocv:status-changed'' (status_payload run_id Idle)) sv2)
      else sv1)"

record start_request =
  sr_run_id :: string
  sr_mode :: SessionMode
  sr_session_id :: "string option"
  sr_message :: "string option"
  sr_attachments :: "AttachmentData list"
  sr_platform_id :: "string option"
  sr_permission_mode :: "string option"

text \<open>
  Steps 4 to 9, after the checks.  \<open>n\<close> is the number of the reply to the stop, \<open>Suc n\<close> of that to
  the first message.
\<close>

definition start_checked ::
  "CodexAppServer env \<Rightarrow> start_io \<Rightarrow> nat \<Rightarrow> start_request \<Rightarrow> RunMeta \<Rightarrow> session_setup \<Rightarrow> string option
     \<Rightarrow> server \<Rightarrow> (string + unit) \<times> server" where
  "start_checked E X n R m su sid sv =
     (let run_id = sr_run_id R; is_new = (sr_mode R = SessionNew);
          sv1 = snd (sv_status E run_id Running None (emit_run_state run_id ''spawning'' sv));
          sv2 = snd (stop_actor E n run_id sv1) in
      case try_spawn X m su (sr_mode R) sid of
        Inl e \<Rightarrow> (Inl e, sv2)
      | Inr (codex, lines) \<Rightarrow>
          (let base = (if is_new then (1, 1) else (fst (si_counts X) + 1, snd (si_counts X) + 1));
               sv3 = register_actor E run_id (\<not> is_new) base codex lines sv2 in
           case or_else (sr_message R) (if is_new then Some (rm_prompt m) else None) of
             Some text \<Rightarrow>
               (case actor_call E run_id (InSend (Suc n) text (sr_attachments R) []) sv3 of
                  (c, sv4) \<Rightarrow>
                    (call_result run_id ''Actor dead before initial message''
                       ''Actor dropped initial message reply'' (Suc n) sv3 c sv4, sv4))
           | None \<Rightarrow> (Inr (), synthetic_idle E run_id sv3)))"

text \<open>
  \<open>start_session_impl\<close>.  After a message that has to wait for its turn the command goes on waiting
  for the answer under the number \<open>Suc n\<close>; the value is \<open>Inr ()\<close> then.
\<close>

definition start_session ::
  "CodexAppServer env \<Rightarrow> start_io \<Rightarrow> nat \<Rightarrow> start_request \<Rightarrow> server \<Rightarrow> (string + unit) \<times> server" where
  "start_session E X n R sv =
     (case start_checks X (w_store (sv_world sv)) (sr_run_id R) (sr_mode R) (sr_session_id R)
             (sr_platform_id R) (sr_permission_mode R) of
        Inl e \<Rightarrow> (Inl e, sv)
      | Inr (m, su, sid) \<Rightarrow>
          (case (if ss_remote su = None
                 then preflight_check_base_url (si_net X) (ra_base_url (ss_auth su)) (ss_platform su)
                 else Inr ()) of
             Inl e \<Rightarrow>
               (Inl e, if sr_mode R = SessionNew \<and> rm_status m = Pending
                       then snd (sv_status E (sr_run_id R) Failed (Some e) sv) else sv)
           | Inr u \<Rightarrow> start_checked E X n R m su sid sv))"

section \<open>Allowing a tool for good\<close>

text \<open>The tool is added to the list of the agent, unless it is there.\<close>

definition allow_tool ::
  "float_ops \<Rightarrow> settings_codec \<Rightarrow> settings_io \<Rightarrow> string \<Rightarrow> string \<Rightarrow> string \<Rightarrow> settings_file
     \<Rightarrow> (string + unit) \<times> settings_file" where
  "allow_tool F C S now agent tool f =
     (case get_agent_settings C (sx_readable S) (sx_load S) now agent f of
        (a, f1) \<Rightarrow>
          if tool \<in> set (ag_allowed_tools a) then (Inr (), f1)
          else (case update_agent_settings F C S now agent
                       (JObj [(''allowed_tools'', JArr (map JStr (ag_allowed_tools a @ [tool])))]) f1 of
                  (Inl e, f2) \<Rightarrow> (Inl e, f2)
                | (Inr x, f2) \<Rightarrow> (Inr (), f2)))"

definition reread_settings ::
  "settings_codec \<Rightarrow> settings_io \<Rightarrow> string \<Rightarrow> string \<Rightarrow> settings_file \<Rightarrow> start_io \<Rightarrow> start_io" where
  "reread_settings C S now agent f X =
     X\<lparr>si_agent := fst (get_agent_settings C (sx_readable S) (sx_load S) now agent f),
       si_user := fst (get_user_settings C (sx_readable S) (sx_load S) now f)\<rparr>"

text \<open>The restart of the session in which the tool is allowed; \<open>Suc n\<close> answers the retry message.\<close>

definition restart_for_tool ::
  "CodexAppServer env \<Rightarrow> start_io \<Rightarrow> nat \<Rightarrow> string \<Rightarrow> string \<Rightarrow> RunMeta \<Rightarrow> server
     \<Rightarrow> (string + unit) \<times> server" where
  "restart_for_tool E X n run_id tool m sv =
     (let cwd = unwrap_or (rm_remote_cwd m) (rm_cwd m) in
      case resolve_remote_host (us_remote_hosts (si_user X)) m of
        Inl e \<Rightarrow> (Inl e, sv)
      | Inr remote \<Rightarrow>
      (case rm_session_id m of
         None \<Rightarrow> (Inl ''No session_id for continue'', sv)
       | Some sid \<Rightarrow>
      (case session_setup X m None None None of
         Inl e \<Rightarrow> (Inl e, sv)
       | Inr su \<Rightarrow>
      (case (if remote = None
             then preflight_check_base_url (si_net X) (ra_base_url (ss_auth su)) (ss_platform su)
             else Inr ()) of
         Inl e \<Rightarrow> (Inl e, sv)
       | Inr u \<Rightarrow>
      (let sv1 = snd (stop_actor E n run_id sv);
           sv2 = snd (sv_status E run_id Running None (emit_run_state run_id ''spawning'' sv1)) in
       case sum_bind (spawn_cli_process (si_launch X) (si_claude_path X) cwd (ss_adapter su) SessionContinue
                        (Some sid) remote (Some cwd) (ss_auth su)) (\<lambda>c.
              case si_spawn X c of
                Some e \<Rightarrow> Inl ((if remote \<noteq> None then ''Failed to spawn ssh: '' else ''Failed to spawn claude: '') @ e)
              | None \<Rightarrow> Inr ()) of
         Inl e \<Rightarrow> (Inl e, sv2)
       | Inr v \<Rightarrow>
           (let sv3 = register_actor E run_id True (fst (si_counts X) + 1, snd (si_counts X) + 1) None [] sv2;
                text = ''The tool '' @ tool @ '' is now allowed. Please retry your previous action using this tool.'' in
            case actor_call E run_id (InSend (Suc n) text [] []) sv3 of
              (c, sv4) \<Rightarrow>
                (call_result run_id ''Actor dead after approve restart'' ''Actor dropped reply'' (Suc n) sv3 c sv4,
                 sv4)))))))"

definition approve_session_tool ::
  "CodexAppServer env \<Rightarrow> start_io \<Rightarrow> float_ops \<Rightarrow> settings_codec \<Rightarrow> settings_io \<Rightarrow> string \<Rightarrow> nat \<Rightarrow> string
     \<Rightarrow> string \<Rightarrow> settings_file \<Rightarrow> server \<Rightarrow> (string + unit) \<times> settings_file \<times> server" where
  "approve_session_tool E X F C S now n run_id tool f sv =
     (if tool \<in> set NEVER_ALLOW_TOOLS then
        (Inl ([CHR 0x27] @ tool @ [CHR 0x27] @ '' cannot be permanently allowed ''
              @ [CHR 0xE2, CHR 0x80, CHR 0x94] @ '' it requires approval each time''), f, sv)
      else (case get_run (w_store (sv_world sv)) run_id of
              None \<Rightarrow> (Inl (''Run '' @ run_id @ '' not found''), f, sv)
            | Some m \<Rightarrow>
                (case allow_tool F C S now (rm_agent m) tool f of
                   (Inl e, f1) \<Rightarrow> (Inl e, f1, sv)
                 | (Inr u, f1) \<Rightarrow>
                     (case restart_for_tool E (reread_settings C S now (rm_agent m) f1 X) n run_id tool m sv of
                        (r, sv') \<Rightarrow> (r, f1, sv')))))"

section \<open>Messages and answers\<close>

definition plain_call ::
  "CodexAppServer env \<Rightarrow> string \<Rightarrow> nat \<Rightarrow> input \<Rightarrow> server \<Rightarrow> (string + unit) \<times> server" where
  "plain_call E run_id n i sv =
     (case actor_call E run_id i sv of
        (c, sv') \<Rightarrow> (call_result run_id ''Actor dead'' ''Actor dropped reply'' n sv c sv', sv'))"

definition send_session_message ::
  "CodexAppServer env \<Rightarrow> nat \<Rightarrow> string \<Rightarrow> string \<Rightarrow> AttachmentData list option \<Rightarrow> CodexSkillRef list option
     \<Rightarrow> server \<Rightarrow> (string + unit) \<times> server" where
  "send_session_message E n run_id message attachments skills =
     plain_call E run_id n (InSend n message (unwrap_or attachments []) (unwrap_or skills []))"

definition control_request :: "string \<Rightarrow> json option \<Rightarrow> json" where
  "control_request subtype params =
     JObj (foldl (\<lambda>kvs (k, v). hm_insert k v kvs) [(''subtype'', JStr subtype)]
       (unwrap_or (Option.bind params as_object) []))"

text \<open>The first phase: the request is sent; the second waits for the answer in the trace.\<close>

definition send_session_control ::
  "CodexAppServer env \<Rightarrow> nat \<Rightarrow> string \<Rightarrow> string \<Rightarrow> json option \<Rightarrow> server \<Rightarrow> (string + unit) \<times> server" where
  "send_session_control E n run_id subtype params =
     plain_call E run_id n (InControl n (control_request subtype params))"

definition permission_response ::
  "string \<Rightarrow> json list option \<Rightarrow> json option \<Rightarrow> string option \<Rightarrow> bool option \<Rightarrow> json" where
  "permission_response behavior updated_permissions updated_input deny_message interrupt =
     (let base =
        (if behavior = ''allow''
         then [(''behavior'', JStr ''allow''), (''updatedInput'', unwrap_or updated_input (JObj []))]
         else [(''behavior'', JStr ''deny''),
               (''message'', JStr (unwrap_or deny_message ''User denied permission''))]
              @ (if interrupt = Some True then [(''interrupt'', JBool True)] else [])) in
      JObj (case updated_permissions of
              Some perms \<Rightarrow>
                if behavior = ''allow'' \<and> perms \<noteq> [] then base @ [(''updatedPermissions'', JArr perms)] else base
            | None \<Rightarrow> base))"

definition respond_permission ::
  "CodexAppServer env \<Rightarrow> nat \<Rightarrow> string \<Rightarrow> string \<Rightarrow> string \<Rightarrow> json list option \<Rightarrow> json option \<Rightarrow> string option
     \<Rightarrow> bool option \<Rightarrow> server \<Rightarrow> (string + unit) \<times> server" where
  "respond_permission E n run_id request_id behavior perms input msg interrupt =
     plain_call E run_id n (InPermission n request_id (permission_response behavior perms input msg interrupt))"

definition hook_response :: "string \<Rightarrow> json option \<Rightarrow> json" where
  "hook_response decision updated_input =
     JObj ([(''decision'', JStr decision)]
       @ (case updated_input of
            Some input \<Rightarrow> if decision = ''allow'' then [(''updatedInput'', input)] else []
          | None \<Rightarrow> []))"

definition respond_hook_callback ::
  "CodexAppServer env \<Rightarrow> nat \<Rightarrow> string \<Rightarrow> string \<Rightarrow> string \<Rightarrow> json option \<Rightarrow> server
     \<Rightarrow> (string + unit) \<times> server" where
  "respond_hook_callback E n run_id request_id decision updated_input =
     plain_call E run_id n (InHook n request_id (hook_response decision updated_input))"

definition cancel_control_request ::
  "CodexAppServer env \<Rightarrow> nat \<Rightarrow> string \<Rightarrow> string \<Rightarrow> server \<Rightarrow> (string + unit) \<times> server" where
  "cancel_control_request E n run_id request_id = plain_call E run_id n (InCancelControl n request_id)"

definition is_object :: "json \<Rightarrow> bool" where
  "is_object v \<longleftrightarrow> as_object v \<noteq> None"

definition respond_user_input ::
  "CodexAppServer env \<Rightarrow> nat \<Rightarrow> string \<Rightarrow> string \<Rightarrow> json \<Rightarrow> server \<Rightarrow> (string + unit) \<times> server" where
  "respond_user_input E n run_id request_id answers sv =
     (if \<not> is_object answers then (Inl ''answers must be a JSON object keyed by question id'', sv)
      else plain_call E run_id n (InUserInput n request_id (JObj [(''answers'', answers)])) sv)"

definition elicitation_response :: "string \<Rightarrow> json option \<Rightarrow> string + json" where
  "elicitation_response action content =
     (if action \<notin> {''accept'', ''decline'', ''cancel''} then Inl (''Invalid elicitation action: '' @ action)
      else if action = ''accept'' then
        (let c = unwrap_or content (JObj []) in
         if \<not> is_object c then Inl ''content must be a JSON object for accept''
         else Inr (JObj [(''action'', JStr ''accept''), (''content'', c)]))
      else Inr (JObj [(''action'', JStr action)]))"

definition respond_elicitation ::
  "CodexAppServer env \<Rightarrow> nat \<Rightarrow> string \<Rightarrow> string \<Rightarrow> string \<Rightarrow> json option \<Rightarrow> server
     \<Rightarrow> (string + unit) \<times> server" where
  "respond_elicitation E n run_id request_id action content sv =
     (case elicitation_response action content of
        Inl e \<Rightarrow> (Inl e, sv)
      | Inr response \<Rightarrow> plain_call E run_id n (InElicitation n request_id response) sv)"

definition start_ralph_command ::
  "CodexAppServer env \<Rightarrow> nat \<Rightarrow> string \<Rightarrow> string \<Rightarrow> u32 \<Rightarrow> string option \<Rightarrow> server \<Rightarrow> (string + unit) \<times> server" where
  "start_ralph_command E n run_id prompt max_iterations promise =
     plain_call E run_id n (InStartRalph n prompt max_iterations promise)"

definition cancel_ralph_command ::
  "CodexAppServer env \<Rightarrow> nat \<Rightarrow> string \<Rightarrow> server \<Rightarrow> (string + unit) \<times> server" where
  "cancel_ralph_command E n run_id = plain_call E run_id n (InCancelRalph n)"

text \<open>
  Every session whose task still takes commands gets the request, in the order in which the map
  gives them; nobody waits for an answer.  \<open>n\<close> numbers the reply channel that is dropped.
\<close>

definition mcp_toggle_request :: "string \<Rightarrow> bool \<Rightarrow> json" where
  "mcp_toggle_request server_name enabled =
     JObj [(''subtype'', JStr ''mcp_toggle''), (''serverName'', JStr server_name), (''enabled'', JBool enabled)]"

fun broadcast_mcp_toggle ::
  "CodexAppServer env \<Rightarrow> nat \<Rightarrow> string list \<Rightarrow> string \<Rightarrow> bool \<Rightarrow> server \<Rightarrow> u32 \<times> server" where
  "broadcast_mcp_toggle E n [] server_name enabled sv = (0, sv)"
| "broadcast_mcp_toggle E n (run_id # run_ids) server_name enabled sv =
     (case actor_call E run_id (InControl n (mcp_toggle_request server_name enabled)) sv of
        (c, sv1) \<Rightarrow>
          (case broadcast_mcp_toggle E n run_ids server_name enabled sv1 of
             (sent, sv2) \<Rightarrow> (if c = CallDone \<or> c = CallDropped then sent + 1 else sent, sv2)))"

end
