(* ===== verification/ActorFrame.thy ===== *)
theory ActorFrame
  imports SessionActor
begin

text \<open>
  What no operation of a session actor changes: its run, its tag and the map of the sessions, and
  that the store of runs is well-formed.  Only the cleanup touches the map.
\<close>

lemma store_op_frame [simp]:
  "ac_run_id (snd (store_op E f a)) = ac_run_id a" "ac_tag (snd (store_op E f a)) = ac_tag a"
  "w_sessions (ac_w (snd (store_op E f a))) = w_sessions (ac_w a)"
  "w_store (ac_w (snd (store_op E f a))) = snd (f (en_fs E (w_saves (ac_w a))) (w_store (ac_w a)))"
  by (simp_all add: store_op_def case_prod_beta)

lemma clear_result_keeps: "runs.keeps (\<lambda>m. Inr (clear_result_error m))"
  by (simp add: runs.keeps_def clear_result_error_def)

lemma finalized_keeps: "runs.keeps (\<lambda>m. Inr (finalized_meta now code m))"
  by (auto simp: runs.keeps_def finalized_meta_def Let_def)

lemma store_updates_keep:
  "runs.keeps (\<lambda>m. Inr (m\<lparr>rm_error_message := e, rm_result_subtype := s\<rparr>))"
  "runs.keeps (\<lambda>m. Inr (m\<lparr>rm_session_id := i, rm_conversation_ref := c\<rparr>))"
  "runs.keeps (\<lambda>m. Inr (m\<lparr>rm_conversation_ref := c\<rparr>))"
  "runs.keeps (\<lambda>m. Inr (status_update now st code e m))"
  by (simp_all add: runs.keeps_def status_update_def)

lemmas keeps_store = runs.modify_inv [OF _ clear_result_keeps] runs.modify_inv [OF _ finalized_keeps]
  store_updates_keep [THEN [2] runs.modify_inv]

lemma store_kept [simp]:
  assumes "store_wf st"
  shows "store_wf (snd (update_status io now i s code e st))"
    and "store_wf (snd (persist_result_error io i e' sub st))"
    and "store_wf (snd (with_meta io i (\<lambda>m. Inr (clear_result_error m)) st))"
    and "store_wf (snd (with_meta io i (\<lambda>m. Inr (finalized_meta now code m)) st))"
    and "store_wf (snd (with_meta io i (\<lambda>m. Inr (m\<lparr>rm_session_id := x, rm_conversation_ref := c\<rparr>)) st))"
    and "store_wf (snd (with_meta io i (\<lambda>m. Inr (m\<lparr>rm_conversation_ref := c\<rparr>)) st))"
  using assms by (simp_all add: update_status_def persist_result_error_def keeps_store)

lemma emit_fx_frame [simp]:
  "ac_run_id (emit_fx x1 a) = ac_run_id a" "ac_tag (emit_fx x1 a) = ac_tag a"
  "w_sessions (ac_w (emit_fx x1 a)) = w_sessions (ac_w a)"
  "store_wf (w_store (ac_w a)) \<Longrightarrow> store_wf (w_store (ac_w (emit_fx x1 a)))"
  by (auto simp: emit_fx_def Let_def case_prod_beta split: option.split sum.split list.split)

lemma persist_and_emit_frame [simp]:
  "ac_run_id (persist_and_emit x1 a) = ac_run_id a" "ac_tag (persist_and_emit x1 a) = ac_tag a"
  "w_sessions (ac_w (persist_and_emit x1 a)) = w_sessions (ac_w a)"
  "store_wf (w_store (ac_w a)) \<Longrightarrow> store_wf (w_store (ac_w (persist_and_emit x1 a)))"
  by (auto simp: persist_and_emit_def Let_def case_prod_beta split: option.split sum.split list.split)

lemma new_uuid_frame [simp]:
  "ac_run_id (snd (new_uuid x1 a)) = ac_run_id a" "ac_tag (snd (new_uuid x1 a)) = ac_tag a"
  "w_sessions (ac_w (snd (new_uuid x1 a))) = w_sessions (ac_w a)"
  "store_wf (w_store (ac_w a)) \<Longrightarrow> store_wf (w_store (ac_w (snd (new_uuid x1 a))))"
  by (auto simp: new_uuid_def Let_def case_prod_beta split: option.split sum.split list.split)

lemma write_json_line_frame [simp]:
  "ac_run_id (snd (write_json_line x1 x2 x3 a)) = ac_run_id a" "ac_tag (snd (write_json_line x1 x2 x3 a)) = ac_tag a"
  "w_sessions (ac_w (snd (write_json_line x1 x2 x3 a))) = w_sessions (ac_w a)"
  "store_wf (w_store (ac_w a)) \<Longrightarrow> store_wf (w_store (ac_w (snd (write_json_line x1 x2 x3 a))))"
  by (auto simp: write_json_line_def Let_def case_prod_beta split: option.split sum.split list.split write_outcome.split)

lemma write_lines_frame [simp]:
  "ac_run_id (snd (write_lines x1 x2 x3 a)) = ac_run_id a" "ac_tag (snd (write_lines x1 x2 x3 a)) = ac_tag a"
  "w_sessions (ac_w (snd (write_lines x1 x2 x3 a))) = w_sessions (ac_w a)"
  "store_wf (w_store (ac_w a)) \<Longrightarrow> store_wf (w_store (ac_w (snd (write_lines x1 x2 x3 a))))"
  by (induction x2 arbitrary: a) (simp_all add: case_prod_beta split: sum.split option.split)

lemma write_control_response_frame [simp]:
  "ac_run_id (snd (write_control_response x1 x2 x3 a)) = ac_run_id a" "ac_tag (snd (write_control_response x1 x2 x3 a)) = ac_tag a"
  "w_sessions (ac_w (snd (write_control_response x1 x2 x3 a))) = w_sessions (ac_w a)"
  "store_wf (w_store (ac_w a)) \<Longrightarrow> store_wf (w_store (ac_w (snd (write_control_response x1 x2 x3 a))))"
  by (auto simp: write_control_response_def Let_def case_prod_beta split: option.split sum.split list.split)

lemma write_control_response_error_frame [simp]:
  "ac_run_id (snd (write_control_response_error x1 x2 x3 a)) = ac_run_id a" "ac_tag (snd (write_control_response_error x1 x2 x3 a)) = ac_tag a"
  "w_sessions (ac_w (snd (write_control_response_error x1 x2 x3 a))) = w_sessions (ac_w a)"
  "store_wf (w_store (ac_w a)) \<Longrightarrow> store_wf (w_store (ac_w (snd (write_control_response_error x1 x2 x3 a))))"
  by (auto simp: write_control_response_error_def Let_def case_prod_beta split: option.split sum.split list.split)

lemma write_user_to_stdin_frame [simp]:
  "ac_run_id (snd (write_user_to_stdin x1 x2 x3 x4 a)) = ac_run_id a" "ac_tag (snd (write_user_to_stdin x1 x2 x3 x4 a)) = ac_tag a"
  "w_sessions (ac_w (snd (write_user_to_stdin x1 x2 x3 x4 a))) = w_sessions (ac_w a)"
  "store_wf (w_store (ac_w a)) \<Longrightarrow> store_wf (w_store (ac_w (snd (write_user_to_stdin x1 x2 x3 x4 a))))"
  by (auto simp: write_user_to_stdin_def Let_def case_prod_beta split: option.split sum.split list.split write_outcome.split)

lemma emit_state_kept [simp]:
  "ac_run_id (emit_state x1 x2 x3 x4 x5 a) = ac_run_id a" "ac_tag (emit_state x1 x2 x3 x4 x5 a) = ac_tag a"
  "w_sessions (ac_w (emit_state x1 x2 x3 x4 x5 a)) = w_sessions (ac_w a)"
  "store_wf (w_store (ac_w a)) \<Longrightarrow> store_wf (w_store (ac_w (emit_state x1 x2 x3 x4 x5 a)))"
  by (auto simp: emit_state_def Let_def case_prod_beta split: option.split sum.split list.split)

lemma finalize_meta_frame [simp]:
  "ac_run_id (finalize_meta x1 x2 a) = ac_run_id a" "ac_tag (finalize_meta x1 x2 a) = ac_tag a"
  "w_sessions (ac_w (finalize_meta x1 x2 a)) = w_sessions (ac_w a)"
  "store_wf (w_store (ac_w a)) \<Longrightarrow> store_wf (w_store (ac_w (finalize_meta x1 x2 a)))"
  by (auto simp: finalize_meta_def Let_def case_prod_beta split: option.split sum.split list.split)

lemma persist_idle_running_frame [simp]:
  "ac_run_id (persist_idle_running x1 x2 a) = ac_run_id a" "ac_tag (persist_idle_running x1 x2 a) = ac_tag a"
  "w_sessions (ac_w (persist_idle_running x1 x2 a)) = w_sessions (ac_w a)"
  "store_wf (w_store (ac_w a)) \<Longrightarrow> store_wf (w_store (ac_w (persist_idle_running x1 x2 a)))"
  by (auto simp: persist_idle_running_def Let_def case_prod_beta split: option.split sum.split list.split)

lemma fail_tickets_frame [simp]:
  "ac_run_id (fail_tickets x1 x2 a) = ac_run_id a" "ac_tag (fail_tickets x1 x2 a) = ac_tag a"
  "w_sessions (ac_w (fail_tickets x1 x2 a)) = w_sessions (ac_w a)"
  "store_wf (w_store (ac_w a)) \<Longrightarrow> store_wf (w_store (ac_w (fail_tickets x1 x2 a)))"
  by (induction x2 arbitrary: a) (simp_all add: case_prod_beta split: sum.split option.split)

lemma fail_all_pending_replies_frame [simp]:
  "ac_run_id (fail_all_pending_replies x1 a) = ac_run_id a" "ac_tag (fail_all_pending_replies x1 a) = ac_tag a"
  "w_sessions (ac_w (fail_all_pending_replies x1 a)) = w_sessions (ac_w a)"
  "store_wf (w_store (ac_w a)) \<Longrightarrow> store_wf (w_store (ac_w (fail_all_pending_replies x1 a)))"
  by (auto simp: fail_all_pending_replies_def Let_def case_prod_beta split: option.split sum.split list.split)

lemma set_pending_slash_frame [simp]:
  "ac_run_id (set_pending_slash x1 a) = ac_run_id a" "ac_tag (set_pending_slash x1 a) = ac_tag a"
  "w_sessions (ac_w (set_pending_slash x1 a)) = w_sessions (ac_w a)"
  "store_wf (w_store (ac_w a)) \<Longrightarrow> store_wf (w_store (ac_w (set_pending_slash x1 a)))"
  by (auto simp: set_pending_slash_def Let_def case_prod_beta split: option.split sum.split list.split)

lemma insert_waiter_frame [simp]:
  "ac_run_id (insert_waiter x1 x2 a) = ac_run_id a" "ac_tag (insert_waiter x1 x2 a) = ac_tag a"
  "w_sessions (ac_w (insert_waiter x1 x2 a)) = w_sessions (ac_w a)"
  "store_wf (w_store (ac_w a)) \<Longrightarrow> store_wf (w_store (ac_w (insert_waiter x1 x2 a)))"
  by (auto simp: insert_waiter_def Let_def case_prod_beta split: option.split sum.split list.split)

lemma resolve_waiter_frame [simp]:
  "ac_run_id (resolve_waiter x1 x2 a) = ac_run_id a" "ac_tag (resolve_waiter x1 x2 a) = ac_tag a"
  "w_sessions (ac_w (resolve_waiter x1 x2 a)) = w_sessions (ac_w a)"
  "store_wf (w_store (ac_w a)) \<Longrightarrow> store_wf (w_store (ac_w (resolve_waiter x1 x2 a)))"
  by (auto simp: resolve_waiter_def Let_def case_prod_beta split: option.split sum.split list.split)

lemma drop_waiter_frame [simp]:
  "ac_run_id (drop_waiter x1 a) = ac_run_id a" "ac_tag (drop_waiter x1 a) = ac_tag a"
  "w_sessions (ac_w (drop_waiter x1 a)) = w_sessions (ac_w a)"
  "store_wf (w_store (ac_w a)) \<Longrightarrow> store_wf (w_store (ac_w (drop_waiter x1 a)))"
  by (auto simp: drop_waiter_def Let_def case_prod_beta split: option.split sum.split list.split)

lemma clear_pending_interactive_request_frame [simp]:
  "ac_run_id (clear_pending_interactive_request x1 a) = ac_run_id a" "ac_tag (clear_pending_interactive_request x1 a) = ac_tag a"
  "w_sessions (ac_w (clear_pending_interactive_request x1 a)) = w_sessions (ac_w a)"
  "store_wf (w_store (ac_w a)) \<Longrightarrow> store_wf (w_store (ac_w (clear_pending_interactive_request x1 a)))"
  by (auto simp: clear_pending_interactive_request_def Let_def case_prod_beta split: option.split sum.split list.split)

lemma send_interrupt_to_cli_frame [simp]:
  "ac_run_id (send_interrupt_to_cli x1 a) = ac_run_id a" "ac_tag (send_interrupt_to_cli x1 a) = ac_tag a"
  "w_sessions (ac_w (send_interrupt_to_cli x1 a)) = w_sessions (ac_w a)"
  "store_wf (w_store (ac_w a)) \<Longrightarrow> store_wf (w_store (ac_w (send_interrupt_to_cli x1 a)))"
  by (auto simp: send_interrupt_to_cli_def Let_def case_prod_beta split: option.split sum.split list.split)

lemma start_user_turn_frame [simp]:
  "ac_run_id (start_user_turn x1 x2 a) = ac_run_id a" "ac_tag (start_user_turn x1 x2 a) = ac_tag a"
  "w_sessions (ac_w (start_user_turn x1 x2 a)) = w_sessions (ac_w a)"
  "store_wf (w_store (ac_w a)) \<Longrightarrow> store_wf (w_store (ac_w (start_user_turn x1 x2 a)))"
  by (auto simp: start_user_turn_def Let_def case_prod_beta split: option.split sum.split list.split UserTurnKind.split)

lemma start_internal_turn_frame [simp]:
  "ac_run_id (start_internal_turn x1 x2 a) = ac_run_id a" "ac_tag (start_internal_turn x1 x2 a) = ac_tag a"
  "w_sessions (ac_w (start_internal_turn x1 x2 a)) = w_sessions (ac_w a)"
  "store_wf (w_store (ac_w a)) \<Longrightarrow> store_wf (w_store (ac_w (start_internal_turn x1 x2 a)))"
  by (auto simp: start_internal_turn_def Let_def case_prod_beta split: option.split sum.split list.split)

lemma emit_ralph_complete_frame [simp]:
  "ac_run_id (emit_ralph_complete x1 a) = ac_run_id a" "ac_tag (emit_ralph_complete x1 a) = ac_tag a"
  "w_sessions (ac_w (emit_ralph_complete x1 a)) = w_sessions (ac_w a)"
  "store_wf (w_store (ac_w a)) \<Longrightarrow> store_wf (w_store (ac_w (emit_ralph_complete x1 a)))"
  by (auto simp: emit_ralph_complete_def Let_def case_prod_beta split: option.split sum.split list.split)

lemma ralph_write_failed_frame [simp]:
  "ac_run_id (ralph_write_failed a) = ac_run_id a" "ac_tag (ralph_write_failed a) = ac_tag a"
  "w_sessions (ac_w (ralph_write_failed a)) = w_sessions (ac_w a)"
  "store_wf (w_store (ac_w a)) \<Longrightarrow> store_wf (w_store (ac_w (ralph_write_failed a)))"
  by (auto simp: ralph_write_failed_def Let_def case_prod_beta split: option.split sum.split list.split)

lemma start_ralph_turn_frame [simp]:
  "ac_run_id (start_ralph_turn x1 x2 a) = ac_run_id a" "ac_tag (start_ralph_turn x1 x2 a) = ac_tag a"
  "w_sessions (ac_w (start_ralph_turn x1 x2 a)) = w_sessions (ac_w a)"
  "store_wf (w_store (ac_w a)) \<Longrightarrow> store_wf (w_store (ac_w (start_ralph_turn x1 x2 a)))"
  by (auto simp: start_ralph_turn_def Let_def case_prod_beta split: option.split sum.split list.split)

lemma ralph_on_turn_end_frame [simp]:
  "ac_run_id (ralph_on_turn_end x1 x2 a) = ac_run_id a" "ac_tag (ralph_on_turn_end x1 x2 a) = ac_tag a"
  "w_sessions (ac_w (ralph_on_turn_end x1 x2 a)) = w_sessions (ac_w a)"
  "store_wf (w_store (ac_w a)) \<Longrightarrow> store_wf (w_store (ac_w (ralph_on_turn_end x1 x2 a)))"
  by (auto simp: ralph_on_turn_end_def Let_def case_prod_beta split: option.split sum.split list.split RalphAction.split prod.split)

lemma dispatch_internal_frame [simp]:
  "ac_run_id (dispatch_internal x1 a) = ac_run_id a" "ac_tag (dispatch_internal x1 a) = ac_tag a"
  "w_sessions (ac_w (dispatch_internal x1 a)) = w_sessions (ac_w a)"
  "store_wf (w_store (ac_w a)) \<Longrightarrow> store_wf (w_store (ac_w (dispatch_internal x1 a)))"
  by (auto simp: dispatch_internal_def Let_def case_prod_beta split: option.split sum.split list.split)

lemma dispatch_ralph_frame [simp]:
  "ac_run_id (dispatch_ralph x1 a) = ac_run_id a" "ac_tag (dispatch_ralph x1 a) = ac_tag a"
  "w_sessions (ac_w (dispatch_ralph x1 a)) = w_sessions (ac_w a)"
  "store_wf (w_store (ac_w a)) \<Longrightarrow> store_wf (w_store (ac_w (dispatch_ralph x1 a)))"
  by (auto simp: dispatch_ralph_def Let_def case_prod_beta split: option.split sum.split list.split RalphPhase.split)

lemma dispatch_user_frame [simp]:
  "ac_run_id (dispatch_user x1 a) = ac_run_id a" "ac_tag (dispatch_user x1 a) = ac_tag a"
  "w_sessions (ac_w (dispatch_user x1 a)) = w_sessions (ac_w a)"
  "store_wf (w_store (ac_w a)) \<Longrightarrow> store_wf (w_store (ac_w (dispatch_user x1 a)))"
  by (auto simp: dispatch_user_def Let_def case_prod_beta split: option.split sum.split list.split)

lemma try_dispatch_frame [simp]:
  "ac_run_id (try_dispatch x1 a) = ac_run_id a" "ac_tag (try_dispatch x1 a) = ac_tag a"
  "w_sessions (ac_w (try_dispatch x1 a)) = w_sessions (ac_w a)"
  "store_wf (w_store (ac_w a)) \<Longrightarrow> store_wf (w_store (ac_w (try_dispatch x1 a)))"
  by (auto simp: try_dispatch_def Let_def case_prod_beta split: option.split sum.split list.split)

lemma handle_send_message_frame [simp]:
  "ac_run_id (handle_send_message x1 x2 x3 x4 x5 a) = ac_run_id a" "ac_tag (handle_send_message x1 x2 x3 x4 x5 a) = ac_tag a"
  "w_sessions (ac_w (handle_send_message x1 x2 x3 x4 x5 a)) = w_sessions (ac_w a)"
  "store_wf (w_store (ac_w a)) \<Longrightarrow> store_wf (w_store (ac_w (handle_send_message x1 x2 x3 x4 x5 a)))"
  by (auto simp: handle_send_message_def Let_def case_prod_beta split: option.split sum.split list.split)

lemma end_turn_and_dispatch_frame [simp]:
  "ac_run_id (end_turn_and_dispatch x1 a) = ac_run_id a" "ac_tag (end_turn_and_dispatch x1 a) = ac_tag a"
  "w_sessions (ac_w (end_turn_and_dispatch x1 a)) = w_sessions (ac_w a)"
  "store_wf (w_store (ac_w a)) \<Longrightarrow> store_wf (w_store (ac_w (end_turn_and_dispatch x1 a)))"
  by (auto simp: end_turn_and_dispatch_def Let_def case_prod_beta split: option.split sum.split list.split)

lemma on_user_turn_finished_frame [simp]:
  "ac_run_id (on_user_turn_finished x1 a) = ac_run_id a" "ac_tag (on_user_turn_finished x1 a) = ac_tag a"
  "w_sessions (ac_w (on_user_turn_finished x1 a)) = w_sessions (ac_w a)"
  "store_wf (w_store (ac_w a)) \<Longrightarrow> store_wf (w_store (ac_w (on_user_turn_finished x1 a)))"
  by (auto simp: on_user_turn_finished_def Let_def case_prod_beta split: option.split sum.split list.split TurnOrigin.split UserTurnKind.split)

lemma quarantine_kill_frame [simp]:
  "ac_run_id (quarantine_kill x1 a) = ac_run_id a" "ac_tag (quarantine_kill x1 a) = ac_tag a"
  "w_sessions (ac_w (quarantine_kill x1 a)) = w_sessions (ac_w a)"
  "store_wf (w_store (ac_w a)) \<Longrightarrow> store_wf (w_store (ac_w (quarantine_kill x1 a)))"
  by (auto simp: quarantine_kill_def Let_def case_prod_beta split: option.split sum.split list.split)

lemma tick_quarantine_frame [simp]:
  "ac_run_id (tick_quarantine x1 a) = ac_run_id a" "ac_tag (tick_quarantine x1 a) = ac_tag a"
  "w_sessions (ac_w (tick_quarantine x1 a)) = w_sessions (ac_w a)"
  "store_wf (w_store (ac_w a)) \<Longrightarrow> store_wf (w_store (ac_w (tick_quarantine x1 a)))"
  by (auto simp: tick_quarantine_def Let_def case_prod_beta split: option.split sum.split list.split)

lemma tick_no_turn_frame [simp]:
  "ac_run_id (tick_no_turn a) = ac_run_id a" "ac_tag (tick_no_turn a) = ac_tag a"
  "w_sessions (ac_w (tick_no_turn a)) = w_sessions (ac_w a)"
  "store_wf (w_store (ac_w a)) \<Longrightarrow> store_wf (w_store (ac_w (tick_no_turn a)))"
  by (auto simp: tick_no_turn_def Let_def case_prod_beta split: option.split sum.split list.split)

lemma enter_quarantine_frame [simp]:
  "ac_run_id (enter_quarantine x1 a) = ac_run_id a" "ac_tag (enter_quarantine x1 a) = ac_tag a"
  "w_sessions (ac_w (enter_quarantine x1 a)) = w_sessions (ac_w a)"
  "store_wf (w_store (ac_w a)) \<Longrightarrow> store_wf (w_store (ac_w (enter_quarantine x1 a)))"
  by (auto simp: enter_quarantine_def Let_def case_prod_beta split: option.split sum.split list.split)

lemma tick_turn_frame [simp]:
  "ac_run_id (tick_turn x1 a) = ac_run_id a" "ac_tag (tick_turn x1 a) = ac_tag a"
  "w_sessions (ac_w (tick_turn x1 a)) = w_sessions (ac_w a)"
  "store_wf (w_store (ac_w a)) \<Longrightarrow> store_wf (w_store (ac_w (tick_turn x1 a)))"
  by (auto simp: tick_turn_def Let_def case_prod_beta split: option.split sum.split list.split)

lemma on_tick_timeout_frame [simp]:
  "ac_run_id (on_tick_timeout x1 a) = ac_run_id a" "ac_tag (on_tick_timeout x1 a) = ac_tag a"
  "w_sessions (ac_w (on_tick_timeout x1 a)) = w_sessions (ac_w a)"
  "store_wf (w_store (ac_w a)) \<Longrightarrow> store_wf (w_store (ac_w (on_tick_timeout x1 a)))"
  by (auto simp: on_tick_timeout_def Let_def case_prod_beta split: option.split sum.split list.split)

lemma codex_tracked_frame [simp]:
  "ac_run_id (snd (codex_tracked x1 x2 x3 x4 x5 x6 a)) = ac_run_id a" "ac_tag (snd (codex_tracked x1 x2 x3 x4 x5 x6 a)) = ac_tag a"
  "w_sessions (ac_w (snd (codex_tracked x1 x2 x3 x4 x5 x6 a))) = w_sessions (ac_w a)"
  "store_wf (w_store (ac_w a)) \<Longrightarrow> store_wf (w_store (ac_w (snd (codex_tracked x1 x2 x3 x4 x5 x6 a))))"
  by (auto simp: codex_tracked_def Let_def case_prod_beta split: option.split sum.split list.split)

lemma handle_codex_control_frame [simp]:
  "ac_run_id (snd (handle_codex_control x1 x2 x3 x4 x5 x6 a)) = ac_run_id a" "ac_tag (snd (handle_codex_control x1 x2 x3 x4 x5 x6 a)) = ac_tag a"
  "w_sessions (ac_w (snd (handle_codex_control x1 x2 x3 x4 x5 x6 a))) = w_sessions (ac_w a)"
  "store_wf (w_store (ac_w a)) \<Longrightarrow> store_wf (w_store (ac_w (snd (handle_codex_control x1 x2 x3 x4 x5 x6 a))))"
  by (auto simp: handle_codex_control_def Let_def case_prod_beta split: option.split sum.split list.split)

lemma handle_send_control_async_frame [simp]:
  "ac_run_id (snd (handle_send_control_async x1 x2 x3 a)) = ac_run_id a" "ac_tag (snd (handle_send_control_async x1 x2 x3 a)) = ac_tag a"
  "w_sessions (ac_w (snd (handle_send_control_async x1 x2 x3 a))) = w_sessions (ac_w a)"
  "store_wf (w_store (ac_w a)) \<Longrightarrow> store_wf (w_store (ac_w (snd (handle_send_control_async x1 x2 x3 a))))"
  by (auto simp: handle_send_control_async_def Let_def case_prod_beta split: option.split sum.split list.split)

lemma handle_stop_frame [simp]:
  "ac_run_id (handle_stop a) = ac_run_id a" "ac_tag (handle_stop a) = ac_tag a"
  "w_sessions (ac_w (handle_stop a)) = w_sessions (ac_w a)"
  "store_wf (w_store (ac_w a)) \<Longrightarrow> store_wf (w_store (ac_w (handle_stop a)))"
  by (auto simp: handle_stop_def Let_def case_prod_beta split: option.split sum.split list.split)

lemma write_interactive_response_frame [simp]:
  "ac_run_id (snd (write_interactive_response x1 x2 x3 x4 a)) = ac_run_id a" "ac_tag (snd (write_interactive_response x1 x2 x3 x4 a)) = ac_tag a"
  "w_sessions (ac_w (snd (write_interactive_response x1 x2 x3 x4 a))) = w_sessions (ac_w a)"
  "store_wf (w_store (ac_w a)) \<Longrightarrow> store_wf (w_store (ac_w (snd (write_interactive_response x1 x2 x3 x4 a))))"
  by (auto simp: write_interactive_response_def Let_def case_prod_beta split: option.split sum.split list.split)

lemma handle_respond_permission_frame [simp]:
  "ac_run_id (snd (handle_respond_permission x1 x2 x3 a)) = ac_run_id a" "ac_tag (snd (handle_respond_permission x1 x2 x3 a)) = ac_tag a"
  "w_sessions (ac_w (snd (handle_respond_permission x1 x2 x3 a))) = w_sessions (ac_w a)"
  "store_wf (w_store (ac_w a)) \<Longrightarrow> store_wf (w_store (ac_w (snd (handle_respond_permission x1 x2 x3 a))))"
  by (auto simp: handle_respond_permission_def Let_def case_prod_beta split: option.split sum.split list.split)

lemma handle_cancel_control_request_frame [simp]:
  "ac_run_id (snd (handle_cancel_control_request x1 x2 a)) = ac_run_id a" "ac_tag (snd (handle_cancel_control_request x1 x2 a)) = ac_tag a"
  "w_sessions (ac_w (snd (handle_cancel_control_request x1 x2 a))) = w_sessions (ac_w a)"
  "store_wf (w_store (ac_w a)) \<Longrightarrow> store_wf (w_store (ac_w (snd (handle_cancel_control_request x1 x2 a))))"
  by (auto simp: handle_cancel_control_request_def Let_def case_prod_beta split: option.split sum.split list.split)

lemma handle_control_response_frame [simp]:
  "ac_run_id (handle_control_response x1 a) = ac_run_id a" "ac_tag (handle_control_response x1 a) = ac_tag a"
  "w_sessions (ac_w (handle_control_response x1 a)) = w_sessions (ac_w a)"
  "store_wf (w_store (ac_w a)) \<Longrightarrow> store_wf (w_store (ac_w (handle_control_response x1 a)))"
  by (auto simp: handle_control_response_def Let_def case_prod_beta split: option.split sum.split list.split)

lemma set_pending_interactive_frame [simp]:
  "ac_run_id (set_pending_interactive x1 x2 x3 a) = ac_run_id a" "ac_tag (set_pending_interactive x1 x2 x3 a) = ac_tag a"
  "w_sessions (ac_w (set_pending_interactive x1 x2 x3 a)) = w_sessions (ac_w a)"
  "store_wf (w_store (ac_w a)) \<Longrightarrow> store_wf (w_store (ac_w (set_pending_interactive x1 x2 x3 a)))"
  by (auto simp: set_pending_interactive_def Let_def case_prod_beta split: option.split sum.split list.split)

lemma handle_hook_callback_frame [simp]:
  "ac_run_id (handle_hook_callback x1 x2 a) = ac_run_id a" "ac_tag (handle_hook_callback x1 x2 a) = ac_tag a"
  "w_sessions (ac_w (handle_hook_callback x1 x2 a)) = w_sessions (ac_w a)"
  "store_wf (w_store (ac_w a)) \<Longrightarrow> store_wf (w_store (ac_w (handle_hook_callback x1 x2 a)))"
  by (auto simp: handle_hook_callback_def Let_def case_prod_beta split: option.split sum.split list.split)

lemma handle_elicitation_frame [simp]:
  "ac_run_id (handle_elicitation x1 a) = ac_run_id a" "ac_tag (handle_elicitation x1 a) = ac_tag a"
  "w_sessions (ac_w (handle_elicitation x1 a)) = w_sessions (ac_w a)"
  "store_wf (w_store (ac_w a)) \<Longrightarrow> store_wf (w_store (ac_w (handle_elicitation x1 a)))"
  by (auto simp: handle_elicitation_def Let_def case_prod_beta split: option.split sum.split list.split)

lemma handle_can_use_tool_frame [simp]:
  "ac_run_id (handle_can_use_tool x1 a) = ac_run_id a" "ac_tag (handle_can_use_tool x1 a) = ac_tag a"
  "w_sessions (ac_w (handle_can_use_tool x1 a)) = w_sessions (ac_w a)"
  "store_wf (w_store (ac_w a)) \<Longrightarrow> store_wf (w_store (ac_w (handle_can_use_tool x1 a)))"
  by (auto simp: handle_can_use_tool_def Let_def case_prod_beta split: option.split sum.split list.split)

lemma handle_control_event_frame [simp]:
  "ac_run_id (handle_control_event x1 x2 x3 a) = ac_run_id a" "ac_tag (handle_control_event x1 x2 x3 a) = ac_tag a"
  "w_sessions (ac_w (handle_control_event x1 x2 x3 a)) = w_sessions (ac_w a)"
  "store_wf (w_store (ac_w a)) \<Longrightarrow> store_wf (w_store (ac_w (handle_control_event x1 x2 x3 a)))"
  by (auto simp: handle_control_event_def Let_def case_prod_beta split: option.split sum.split list.split)

lemma handle_control_event_internal_frame [simp]:
  "ac_run_id (handle_control_event_internal x1 x2 x3 a) = ac_run_id a" "ac_tag (handle_control_event_internal x1 x2 x3 a) = ac_tag a"
  "w_sessions (ac_w (handle_control_event_internal x1 x2 x3 a)) = w_sessions (ac_w a)"
  "store_wf (w_store (ac_w a)) \<Longrightarrow> store_wf (w_store (ac_w (handle_control_event_internal x1 x2 x3 a)))"
  by (auto simp: handle_control_event_internal_def Let_def case_prod_beta split: option.split sum.split list.split)

lemma emit_codex_events_frame [simp]:
  "ac_run_id (emit_codex_events x1 a) = ac_run_id a" "ac_tag (emit_codex_events x1 a) = ac_tag a"
  "w_sessions (ac_w (emit_codex_events x1 a)) = w_sessions (ac_w a)"
  "store_wf (w_store (ac_w a)) \<Longrightarrow> store_wf (w_store (ac_w (emit_codex_events x1 a)))"
  by (induction x1 arbitrary: a) (simp_all add: case_prod_beta split: sum.split option.split)

lemma persist_thread_id_frame [simp]:
  "ac_run_id (persist_thread_id x1 x2 a) = ac_run_id a" "ac_tag (persist_thread_id x1 x2 a) = ac_tag a"
  "w_sessions (ac_w (persist_thread_id x1 x2 a)) = w_sessions (ac_w a)"
  "store_wf (w_store (ac_w a)) \<Longrightarrow> store_wf (w_store (ac_w (persist_thread_id x1 x2 a)))"
  by (auto simp: persist_thread_id_def Let_def case_prod_beta split: option.split sum.split list.split)

lemma codex_lifecycle_frame [simp]:
  "ac_run_id (codex_lifecycle x1 x2 a) = ac_run_id a" "ac_tag (codex_lifecycle x1 x2 a) = ac_tag a"
  "w_sessions (ac_w (codex_lifecycle x1 x2 a)) = w_sessions (ac_w a)"
  "store_wf (w_store (ac_w a)) \<Longrightarrow> store_wf (w_store (ac_w (codex_lifecycle x1 x2 a)))"
  by (auto simp: codex_lifecycle_def Let_def case_prod_beta split: option.split sum.split list.split LifecycleSignal.split)

lemma codex_open_gate_frame [simp]:
  "ac_run_id (codex_open_gate x1 a) = ac_run_id a" "ac_tag (codex_open_gate x1 a) = ac_tag a"
  "w_sessions (ac_w (codex_open_gate x1 a)) = w_sessions (ac_w a)"
  "store_wf (w_store (ac_w a)) \<Longrightarrow> store_wf (w_store (ac_w (codex_open_gate x1 a)))"
  by (auto simp: codex_open_gate_def Let_def case_prod_beta split: option.split sum.split list.split)

lemma handle_codex_line_frame [simp]:
  "ac_run_id (handle_codex_line x1 x2 x3 a) = ac_run_id a" "ac_tag (handle_codex_line x1 x2 x3 a) = ac_tag a"
  "w_sessions (ac_w (handle_codex_line x1 x2 x3 a)) = w_sessions (ac_w a)"
  "store_wf (w_store (ac_w a)) \<Longrightarrow> store_wf (w_store (ac_w (handle_codex_line x1 x2 x3 a)))"
  by (auto simp: handle_codex_line_def Let_def case_prod_beta split: option.split sum.split list.split)

lemma bump_invalid_frame [simp]:
  "ac_run_id (bump_invalid a) = ac_run_id a" "ac_tag (bump_invalid a) = ac_tag a"
  "w_sessions (ac_w (bump_invalid a)) = w_sessions (ac_w a)"
  "store_wf (w_store (ac_w a)) \<Longrightarrow> store_wf (w_store (ac_w (bump_invalid a)))"
  by (auto simp: bump_invalid_def Let_def case_prod_beta split: option.split sum.split list.split)

lemma lift_quarantine_frame [simp]:
  "ac_run_id (lift_quarantine x1 a) = ac_run_id a" "ac_tag (lift_quarantine x1 a) = ac_tag a"
  "w_sessions (ac_w (lift_quarantine x1 a)) = w_sessions (ac_w a)"
  "store_wf (w_store (ac_w a)) \<Longrightarrow> store_wf (w_store (ac_w (lift_quarantine x1 a)))"
  by (auto simp: lift_quarantine_def Let_def case_prod_beta split: option.split sum.split list.split)

lemma quarantine_events_frame [simp]:
  "ac_run_id (quarantine_events x1 x2 a) = ac_run_id a" "ac_tag (quarantine_events x1 x2 a) = ac_tag a"
  "w_sessions (ac_w (quarantine_events x1 x2 a)) = w_sessions (ac_w a)"
  "store_wf (w_store (ac_w a)) \<Longrightarrow> store_wf (w_store (ac_w (quarantine_events x1 x2 a)))"
proof (induction x2 arbitrary: a)
  case (Cons ev evs)
  {
    case 1 then show ?case using Cons by (cases ev) simp_all
  next
    case 2 then show ?case using Cons by (cases ev) simp_all
  next
    case 3 then show ?case using Cons by (cases ev) simp_all
  next
    case 4 then show ?case using Cons by (cases ev) simp_all
  }
qed simp_all

lemma extractor_feed_frame [simp]:
  "ac_run_id (extractor_feed x1 a) = ac_run_id a" "ac_tag (extractor_feed x1 a) = ac_tag a"
  "w_sessions (ac_w (extractor_feed x1 a)) = w_sessions (ac_w a)"
  "store_wf (w_store (ac_w a)) \<Longrightarrow> store_wf (w_store (ac_w (extractor_feed x1 a)))"
  by (auto simp: extractor_feed_def Let_def case_prod_beta split: option.split sum.split list.split)

lemma ralph_push_text_frame [simp]:
  "ac_run_id (ralph_push_text x1 a) = ac_run_id a" "ac_tag (ralph_push_text x1 a) = ac_tag a"
  "w_sessions (ac_w (ralph_push_text x1 a)) = w_sessions (ac_w a)"
  "store_wf (w_store (ac_w a)) \<Longrightarrow> store_wf (w_store (ac_w (ralph_push_text x1 a)))"
  by (auto simp: ralph_push_text_def Let_def case_prod_beta split: option.split sum.split list.split)

lemma route_internal_frame [simp]:
  "ac_run_id (route_internal x1 x2 a) = ac_run_id a" "ac_tag (route_internal x1 x2 a) = ac_tag a"
  "w_sessions (ac_w (route_internal x1 x2 a)) = w_sessions (ac_w a)"
  "store_wf (w_store (ac_w a)) \<Longrightarrow> store_wf (w_store (ac_w (route_internal x1 x2 a)))"
  by (cases x2; auto simp: route_internal_def reply_with_def Let_def case_prod_beta split: option.split)+

lemma persist_error_frame [simp]:
  "ac_run_id (persist_error x1 x2 a) = ac_run_id a" "ac_tag (persist_error x1 x2 a) = ac_tag a"
  "w_sessions (ac_w (persist_error x1 x2 a)) = w_sessions (ac_w a)"
  "store_wf (w_store (ac_w a)) \<Longrightarrow> store_wf (w_store (ac_w (persist_error x1 x2 a)))"
  by (auto simp: persist_error_def Let_def case_prod_beta split: option.split sum.split list.split)

lemma finish_turn_frame [simp]:
  "ac_run_id (finish_turn x1 x2 x3 x4 a) = ac_run_id a" "ac_tag (finish_turn x1 x2 x3 x4 a) = ac_tag a"
  "w_sessions (ac_w (finish_turn x1 x2 x3 x4 a)) = w_sessions (ac_w a)"
  "store_wf (w_store (ac_w a)) \<Longrightarrow> store_wf (w_store (ac_w (finish_turn x1 x2 x3 x4 a)))"
  by (auto simp: finish_turn_def Let_def case_prod_beta split: option.split sum.split list.split)

lemma route_run_state_frame [simp]:
  "ac_run_id (route_run_state x1 x2 x3 x4 a) = ac_run_id a" "ac_tag (route_run_state x1 x2 x3 x4 a) = ac_tag a"
  "w_sessions (ac_w (route_run_state x1 x2 x3 x4 a)) = w_sessions (ac_w a)"
  "store_wf (w_store (ac_w a)) \<Longrightarrow> store_wf (w_store (ac_w (route_run_state x1 x2 x3 x4 a)))"
  by (auto simp: route_run_state_def Let_def case_prod_beta split: option.split sum.split list.split)

lemma persist_session_id_frame [simp]:
  "ac_run_id (persist_session_id x1 x2 a) = ac_run_id a" "ac_tag (persist_session_id x1 x2 a) = ac_tag a"
  "w_sessions (ac_w (persist_session_id x1 x2 a)) = w_sessions (ac_w a)"
  "store_wf (w_store (ac_w a)) \<Longrightarrow> store_wf (w_store (ac_w (persist_session_id x1 x2 a)))"
  by (auto simp: persist_session_id_def Let_def case_prod_beta split: option.split sum.split list.split)

lemma route_user_frame [simp]:
  "ac_run_id (route_user x1 x2 a) = ac_run_id a" "ac_tag (route_user x1 x2 a) = ac_tag a"
  "w_sessions (ac_w (route_user x1 x2 a)) = w_sessions (ac_w a)"
  "store_wf (w_store (ac_w a)) \<Longrightarrow> store_wf (w_store (ac_w (route_user x1 x2 a)))"
  by (cases x2; auto simp: route_user_def reply_with_def Let_def case_prod_beta split: option.split)+

lemma route_event_frame [simp]:
  "ac_run_id (route_event x1 x2 a) = ac_run_id a" "ac_tag (route_event x1 x2 a) = ac_tag a"
  "w_sessions (ac_w (route_event x1 x2 a)) = w_sessions (ac_w a)"
  "store_wf (w_store (ac_w a)) \<Longrightarrow> store_wf (w_store (ac_w (route_event x1 x2 a)))"
  by (auto simp: route_event_def Let_def case_prod_beta split: option.split sum.split list.split)

lemma route_events_frame [simp]:
  "ac_run_id (route_events x1 x2 a) = ac_run_id a" "ac_tag (route_events x1 x2 a) = ac_tag a"
  "w_sessions (ac_w (route_events x1 x2 a)) = w_sessions (ac_w a)"
  "store_wf (w_store (ac_w a)) \<Longrightarrow> store_wf (w_store (ac_w (route_events x1 x2 a)))"
  by (induction x2 arbitrary: a) (simp_all add: case_prod_beta split: sum.split option.split)

lemma map_line_frame [simp]:
  "ac_run_id (snd (map_line x1 x2 a)) = ac_run_id a" "ac_tag (snd (map_line x1 x2 a)) = ac_tag a"
  "w_sessions (ac_w (snd (map_line x1 x2 a))) = w_sessions (ac_w a)"
  "store_wf (w_store (ac_w a)) \<Longrightarrow> store_wf (w_store (ac_w (snd (map_line x1 x2 a))))"
  by (auto simp: map_line_def Let_def case_prod_beta split: option.split sum.split list.split)

lemma unparsed_line_frame [simp]:
  "ac_run_id (unparsed_line x1 a) = ac_run_id a" "ac_tag (unparsed_line x1 a) = ac_tag a"
  "w_sessions (ac_w (unparsed_line x1 a)) = w_sessions (ac_w a)"
  "store_wf (w_store (ac_w a)) \<Longrightarrow> store_wf (w_store (ac_w (unparsed_line x1 a)))"
  by (auto simp: unparsed_line_def Let_def case_prod_beta split: option.split sum.split list.split)

lemma handle_claude_line_frame [simp]:
  "ac_run_id (handle_claude_line x1 x2 a) = ac_run_id a" "ac_tag (handle_claude_line x1 x2 a) = ac_tag a"
  "w_sessions (ac_w (handle_claude_line x1 x2 a)) = w_sessions (ac_w a)"
  "store_wf (w_store (ac_w a)) \<Longrightarrow> store_wf (w_store (ac_w (handle_claude_line x1 x2 a)))"
  by (auto simp: handle_claude_line_def Let_def case_prod_beta split: option.split sum.split list.split)

lemma handle_stdout_line_frame [simp]:
  "ac_run_id (handle_stdout_line x1 x2 a) = ac_run_id a" "ac_tag (handle_stdout_line x1 x2 a) = ac_tag a"
  "w_sessions (ac_w (handle_stdout_line x1 x2 a)) = w_sessions (ac_w a)"
  "store_wf (w_store (ac_w a)) \<Longrightarrow> store_wf (w_store (ac_w (handle_stdout_line x1 x2 a)))"
  by (auto simp: handle_stdout_line_def Let_def case_prod_beta split: option.split sum.split list.split)

lemma handle_stderr_line_frame [simp]:
  "ac_run_id (handle_stderr_line x1 a) = ac_run_id a" "ac_tag (handle_stderr_line x1 a) = ac_tag a"
  "w_sessions (ac_w (handle_stderr_line x1 a)) = w_sessions (ac_w a)"
  "store_wf (w_store (ac_w a)) \<Longrightarrow> store_wf (w_store (ac_w (handle_stderr_line x1 a)))"
  by (auto simp: handle_stderr_line_def Let_def case_prod_beta split: option.split sum.split list.split)

lemma handle_eof_frame [simp]:
  "ac_run_id (handle_eof x1 a) = ac_run_id a" "ac_tag (handle_eof x1 a) = ac_tag a"
  "w_sessions (ac_w (handle_eof x1 a)) = w_sessions (ac_w a)"
  "store_wf (w_store (ac_w a)) \<Longrightarrow> store_wf (w_store (ac_w (handle_eof x1 a)))"
  by (auto simp: handle_eof_def Let_def case_prod_beta split: option.split sum.split list.split)

lemma drop_waiters_frame [simp]:
  "ac_run_id (drop_waiters x1 a) = ac_run_id a" "ac_tag (drop_waiters x1 a) = ac_tag a"
  "w_sessions (ac_w (drop_waiters x1 a)) = w_sessions (ac_w a)"
  "store_wf (w_store (ac_w a)) \<Longrightarrow> store_wf (w_store (ac_w (drop_waiters x1 a)))"
  by (induction x1 arbitrary: a) (simp_all add: case_prod_beta split: sum.split option.split)

lemma start_ralph_loop_frame [simp]:
  "ac_run_id (start_ralph_loop x1 x2 x3 x4 x5 a) = ac_run_id a" "ac_tag (start_ralph_loop x1 x2 x3 x4 x5 a) = ac_tag a"
  "w_sessions (ac_w (start_ralph_loop x1 x2 x3 x4 x5 a)) = w_sessions (ac_w a)"
  "store_wf (w_store (ac_w a)) \<Longrightarrow> store_wf (w_store (ac_w (start_ralph_loop x1 x2 x3 x4 x5 a)))"
  by (auto simp: start_ralph_loop_def Let_def case_prod_beta split: option.split sum.split list.split)

lemma cancel_ralph_loop_frame [simp]:
  "ac_run_id (cancel_ralph_loop x1 a) = ac_run_id a" "ac_tag (cancel_ralph_loop x1 a) = ac_tag a"
  "w_sessions (ac_w (cancel_ralph_loop x1 a)) = w_sessions (ac_w a)"
  "store_wf (w_store (ac_w a)) \<Longrightarrow> store_wf (w_store (ac_w (cancel_ralph_loop x1 a)))"
  by (auto simp: cancel_ralph_loop_def Let_def case_prod_beta split: option.split sum.split list.split)

lemma handle_tick_frame [simp]:
  "ac_run_id (handle_tick x1 a) = ac_run_id a" "ac_tag (handle_tick x1 a) = ac_tag a"
  "w_sessions (ac_w (handle_tick x1 a)) = w_sessions (ac_w a)"
  "store_wf (w_store (ac_w a)) \<Longrightarrow> store_wf (w_store (ac_w (handle_tick x1 a)))"
  by (auto simp: handle_tick_def Let_def case_prod_beta split: option.split sum.split list.split)

lemma run_step_frame [simp]:
  "ac_run_id (fst (run_step x1 x2 a)) = ac_run_id a" "ac_tag (fst (run_step x1 x2 a)) = ac_tag a"
  "w_sessions (ac_w (fst (run_step x1 x2 a))) = w_sessions (ac_w a)"
  "store_wf (w_store (ac_w a)) \<Longrightarrow> store_wf (w_store (ac_w (fst (run_step x1 x2 a))))"
  by (cases x2; auto simp: run_step_def reply_with_def Let_def case_prod_beta split: option.split)+

lemma write_startup_frame [simp]:
  "ac_run_id (write_startup x1 x2 a) = ac_run_id a" "ac_tag (write_startup x1 x2 a) = ac_tag a"
  "w_sessions (ac_w (write_startup x1 x2 a)) = w_sessions (ac_w a)"
  "store_wf (w_store (ac_w a)) \<Longrightarrow> store_wf (w_store (ac_w (write_startup x1 x2 a)))"
  by (induction x2 arbitrary: a) (simp_all add: case_prod_beta split: sum.split option.split)

lemma run_start_frame [simp]:
  "ac_run_id (run_start x1 a) = ac_run_id a" "ac_tag (run_start x1 a) = ac_tag a"
  "w_sessions (ac_w (run_start x1 a)) = w_sessions (ac_w a)"
  "store_wf (w_store (ac_w a)) \<Longrightarrow> store_wf (w_store (ac_w (run_start x1 a)))"
  by (auto simp: run_start_def Let_def case_prod_beta split: option.split sum.split list.split)

lemma at_time_frame [simp]:
  "ac_run_id (at_time x1 x2 a) = ac_run_id a" "ac_tag (at_time x1 x2 a) = ac_tag a"
  "w_sessions (ac_w (at_time x1 x2 a)) = w_sessions (ac_w a)"
  "store_wf (w_store (ac_w a)) \<Longrightarrow> store_wf (w_store (ac_w (at_time x1 x2 a)))"
  by (auto simp: at_time_def Let_def case_prod_beta split: option.split sum.split list.split)

end
