(* ===== verification/SessionLifecycle.thy ===== *)
theory SessionLifecycle
  imports SessionCommands ActorFrame LaunchProperties SessionProperties
begin

text \<open>
  The life cycle of sessions: at most one live actor per run and a well-formed store whatever the
  commands, the children and the clock do; what stopping leaves behind; what a failed start leaves
  behind; and that no credential reaches a host that must not get it.
\<close>

section \<open>The end of a task\<close>

definition task_actor :: "'c task \<Rightarrow> 'c SessionActor" where
  "task_actor t = (case t of Looping a \<Rightarrow> a | Ended a \<Rightarrow> a | Aborted a \<Rightarrow> a)"

definition is_live :: "'c task \<Rightarrow> bool" where
  "is_live t = (case t of Looping _ \<Rightarrow> True | _ \<Rightarrow> False)"

lemma is_live_iff: "is_live t \<longleftrightarrow> (\<exists>a. t = Looping a)"
  by (cases t) (simp_all add: is_live_def)

lemma task_world_actor: "task_world t = ac_w (task_actor t)"
  by (cases t) (simp_all add: task_world_def task_actor_def)

lemma cleanup_frame [simp]:
  "ac_run_id (cleanup a) = ac_run_id a" "ac_tag (cleanup a) = ac_tag a"
  "w_sessions (ac_w (cleanup a)) =
     (if w_sessions (ac_w a) (ac_run_id a) = Some (ac_tag a)
      then (w_sessions (ac_w a))(ac_run_id a := None) else w_sessions (ac_w a))"
  "store_wf (w_store (ac_w a)) \<Longrightarrow> store_wf (w_store (ac_w (cleanup a)))"
  by (simp_all add: cleanup_def remove_session_def Let_def)

text \<open>An input leaves the map alone, unless it ends the task, which then takes its own entry out.\<close>

lemma task_input_frame:
  fixes a :: "CodexAppServer SessionActor"
  shows "ac_run_id (task_actor (task_input E i w a)) = ac_run_id a"
    and "ac_tag (task_actor (task_input E i w a)) = ac_tag a"
    and "store_wf (w_store w) \<Longrightarrow> store_wf (w_store (task_world (task_input E i w a)))"
    and "r \<noteq> ac_run_id a \<Longrightarrow> w_sessions (task_world (task_input E i w a)) r = w_sessions w r"
    and "w_sessions (task_world (task_input E i w a)) (ac_run_id a) \<in> {None, w_sessions w (ac_run_id a)}"
    and "is_live (task_input E i w a) \<Longrightarrow> w_sessions (task_world (task_input E i w a)) = w_sessions w"
  by (auto simp: task_input_def after_step_def Let_def task_actor_def task_world_def is_live_def
      case_prod_beta split: if_splits)

text \<open>The store of runs is well-formed, and every live task is the one its run has in the map.\<close>

definition server_ok :: "server \<Rightarrow> bool" where
  "server_ok sv \<longleftrightarrow>
     store_wf (w_store (sv_world sv))
     \<and> (\<forall>tag t. sv_tasks sv tag = Some t \<longrightarrow>
          tag < sv_next_tag sv \<and> ac_tag (task_actor t) = tag
          \<and> (is_live t \<longrightarrow> w_sessions (sv_world sv) (ac_run_id (task_actor t)) = Some tag))
     \<and> (\<forall>run tag. w_sessions (sv_world sv) run = Some tag \<longrightarrow>
          (\<exists>t. sv_tasks sv tag = Some t \<and> ac_run_id (task_actor t) = run))"

lemma server_okD:
  assumes "server_ok sv"
  shows "store_wf (w_store (sv_world sv))"
    and "sv_tasks sv tag = Some t \<Longrightarrow> tag < sv_next_tag sv \<and> ac_tag (task_actor t) = tag"
    and "sv_tasks sv tag = Some (Looping a) \<Longrightarrow> w_sessions (sv_world sv) (ac_run_id a) = Some tag"
    and "w_sessions (sv_world sv) run = Some tag \<Longrightarrow> \<exists>t. sv_tasks sv tag = Some t \<and> ac_run_id (task_actor t) = run"
  using assms by (auto simp: server_ok_def is_live_def task_actor_def split: task.splits)

lemma set_task_fields [simp]:
  "sv_world (set_task tag t sv) = task_world t" "sv_next_tag (set_task tag t sv) = sv_next_tag sv"
  "sv_tasks (set_task tag t sv) = (sv_tasks sv)(tag \<mapsto> t)"
  by (simp_all add: set_task_def)

text \<open>A live task becomes another one of its run, which may take the entry of the run out.\<close>

lemma set_task_ok:
  assumes ok: "server_ok sv" and a: "sv_tasks sv tag = Some (Looping a)"
    and run: "ac_run_id (task_actor t) = ac_run_id a" and same: "ac_tag (task_actor t) = ac_tag a"
    and st: "store_wf (w_store (task_world t))"
    and others: "\<And>r. r \<noteq> ac_run_id a \<Longrightarrow> w_sessions (task_world t) r = w_sessions (sv_world sv) r"
    and own: "w_sessions (task_world t) (ac_run_id a) \<in> {None, Some tag}"
    and live: "is_live t \<Longrightarrow> w_sessions (task_world t) (ac_run_id a) = Some tag"
  shows "server_ok (set_task tag t sv)"
proof -
  have tag: "ac_tag a = tag" "tag < sv_next_tag sv"
    and entry: "w_sessions (sv_world sv) (ac_run_id a) = Some tag"
    using server_okD(2,3) [OF ok a] by (simp_all add: task_actor_def)
  have "w_sessions (task_world t) (ac_run_id (task_actor u)) = Some tag'"
    if "sv_tasks sv tag' = Some u" "tag' \<noteq> tag" "is_live u" for tag' u
  proof -
    from that obtain b where "u = Looping b" "w_sessions (sv_world sv) (ac_run_id b) = Some tag'"
      using server_okD(3) [OF ok] by (auto simp: is_live_iff)
    then show ?thesis using others that(2) entry by (cases "ac_run_id b = ac_run_id a") (auto simp: task_actor_def)
  qed
  moreover have "\<exists>u. ((sv_tasks sv)(tag \<mapsto> t)) tag' = Some u \<and> ac_run_id (task_actor u) = r"
    if s: "w_sessions (task_world t) r = Some tag'" for r tag'
  proof (cases "r = ac_run_id a")
    case True
    then show ?thesis using own s run by auto
  next
    case False
    then have "w_sessions (sv_world sv) r = Some tag'" using others s by simp
    then show ?thesis using server_okD(4) [OF ok, of r tag'] False a by (auto simp: task_actor_def)
  qed
  ultimately show ?thesis
    using st tag same live run server_okD(2) [OF ok] unfolding server_ok_def by (auto split: if_splits)
qed



lemma stop_not_live: "\<not> is_live (task_input E (InStop n) w a)"
  by (simp add: task_input_def after_step_def run_step_def Let_def is_live_def)

lemma entry_removed_ok:
  assumes ok: "server_ok sv"
    and dead: "\<And>tag b. sv_tasks sv tag = Some (Looping b) \<Longrightarrow> ac_run_id b \<noteq> run"
  shows "server_ok (sv\<lparr>sv_world := (sv_world sv)\<lparr>w_sessions := (w_sessions (sv_world sv))(run := None)\<rparr>\<rparr>)"
    (is "server_ok ?sv")
proof -
  have "w_sessions (sv_world ?sv) (ac_run_id (task_actor u)) = Some tag"
    if u: "sv_tasks sv tag = Some u" "is_live u" for tag u
  proof -
    from u obtain b where b: "sv_tasks sv tag = Some (Looping b)" "u = Looping b" by (auto simp: is_live_iff)
    show ?thesis using dead [OF b(1)] server_okD(3) [OF ok b(1)] b(2) by (simp add: task_actor_def)
  qed
  moreover have "\<exists>t. sv_tasks sv tag = Some t \<and> ac_run_id (task_actor t) = r"
    if "w_sessions (sv_world ?sv) r = Some tag" for r tag
    using that server_okD(4) [OF ok, of r tag] by (auto split: if_splits)
  ultimately show ?thesis using server_okD(1,2) [OF ok] unfolding server_ok_def by auto
qed

text \<open>After a stop, the run has no entry and no live task.\<close>

lemma stop_ok:
  assumes ok: "server_ok sv"
  shows "server_ok (snd (stop_actor E n run_id sv))
    \<and> w_sessions (sv_world (snd (stop_actor E n run_id sv))) run_id = None
    \<and> sv_next_tag (snd (stop_actor E n run_id sv)) = sv_next_tag sv"
proof (cases "w_sessions (sv_world sv) run_id")
  case None
  then show ?thesis using ok by (simp add: stop_actor_def Let_def)
next
  case (Some tag)
  let ?w = "(sv_world sv)\<lparr>w_sessions := (w_sessions (sv_world sv))(run_id := None)\<rparr>"
  obtain t where t: "sv_tasks sv tag = Some t" "ac_run_id (task_actor t) = run_id"
    using server_okD(4) [OF ok Some] by blast
  show ?thesis
  proof (cases "is_live t")
    case True
    then obtain a where a: "sv_tasks sv tag = Some (Looping a)" "ac_run_id a = run_id" "t = Looping a"
      using t by (auto simp: is_live_iff task_actor_def)
    note f = task_input_frame [where E = E and i = "InStop n" and w = ?w and a = a]
    have none: "w_sessions (task_world (task_input E (InStop n) ?w a)) run_id = None"
      using f(5) a(2) by auto
    have "server_ok (set_task tag (task_input E (InStop n) ?w a) sv)"
      using f server_okD(1) [OF ok] none a(2) stop_not_live by (intro set_task_ok [OF ok a(1)]) auto
    then show ?thesis using Some a none by (simp add: stop_actor_def Let_def)
  next
    case False
    then have r: "snd (stop_actor E n run_id sv) = sv\<lparr>sv_world := ?w\<rparr>"
      using Some t(1) by (auto simp: stop_actor_def Let_def is_live_def split: task.splits)
    have dead: "ac_run_id b \<noteq> run_id" if "sv_tasks sv tag' = Some (Looping b)" for tag' b
      using server_okD(3) [OF ok that] that Some t(1) False by (auto simp: is_live_iff)
    show ?thesis unfolding r using entry_removed_ok [OF ok dead] by simp
  qed
qed

section \<open>Starting\<close>

text \<open>Changes of the world that leave the map alone.\<close>

lemma world_ok:
  assumes "server_ok sv" "w_sessions w = w_sessions (sv_world sv)" "store_wf (w_store w)"
  shows "server_ok (sv\<lparr>sv_world := w\<rparr>)"
  using assms unfolding server_ok_def by simp

lemma emit_ok: "server_ok sv \<Longrightarrow> server_ok (sv_emit e sv)"
  unfolding sv_emit_def by (rule world_ok) (auto dest: server_okD(1))

lemma status_ok: "server_ok sv \<Longrightarrow> server_ok (snd (sv_status E run_id status e sv))"
  by (auto simp: sv_status_def sv_store_def Let_def case_prod_beta dest: server_okD(1) intro!: world_ok)

lemma status_fields [simp]:
  "w_sessions (sv_world (snd (sv_status E run_id status e sv))) = w_sessions (sv_world sv)"
  "w_trace (sv_world (snd (sv_status E run_id status e sv))) = w_trace (sv_world sv)"
  "sv_tasks (snd (sv_status E run_id status e sv)) = sv_tasks sv"
  "sv_next_tag (snd (sv_status E run_id status e sv)) = sv_next_tag sv"
  by (simp_all add: sv_status_def sv_store_def Let_def case_prod_beta)

lemma emit_fields [simp]:
  "w_sessions (sv_world (sv_emit e sv)) = w_sessions (sv_world sv)"
  "w_trace (sv_world (sv_emit e sv)) = w_trace (sv_world sv) @ [e]"
  "w_store (sv_world (sv_emit e sv)) = w_store (sv_world sv)"
  "sv_tasks (sv_emit e sv) = sv_tasks sv" "sv_next_tag (sv_emit e sv) = sv_next_tag sv"
  by (simp_all add: sv_emit_def)

lemma spawn_actor_fields [simp]:
  "ac_run_id (spawn_actor r tag b i j c ls w) = r" "ac_tag (spawn_actor r tag b i j c ls w) = tag"
  "ac_w (spawn_actor r tag b i j c ls w) = w"
  by (simp_all add: spawn_actor_def)






section \<open>One actor for each run\<close>

text \<open>
  The steps of the server: the commands, the inputs that reach a live task (lines of its child, the
  clock, the cancellation), the time, and what other parts of the program write to the store.
\<close>

inductive server_step :: "CodexAppServer env \<Rightarrow> server \<Rightarrow> server \<Rightarrow> bool" for E where
  step_start: "server_step E sv (snd (start_session E X n R sv))"
| step_stop: "server_step E sv (snd (stop_session E n run_id sv))"
| step_stop_run: "server_step E sv (fst (snd (stop_run E n run_id (sv, procs))))"
| step_approve: "server_step E sv (snd (snd (approve_session_tool E X F C S now n run_id tool f sv)))"
| step_call: "server_step E sv (snd (actor_call E run_id i sv))"
| step_task:
    "sv_tasks sv tag = Some (Looping a) \<Longrightarrow>
     server_step E sv (set_task tag (task_input E i (sv_world sv) a) sv)"
| step_time: "server_step E sv (sv\<lparr>sv_world := (sv_world sv)\<lparr>w_now := t, w_iso := ts\<rparr>\<rparr>)"
| step_write: "store_wf st \<Longrightarrow> server_step E sv (sv\<lparr>sv_world := (sv_world sv)\<lparr>w_store := st\<rparr>\<rparr>)"

inductive_cases step_taskE: "server_step E sv sv'"





text \<open>A server that has just started.\<close>

definition fresh_server :: "server \<Rightarrow> bool" where
  "fresh_server sv \<longleftrightarrow>
     store_wf (w_store (sv_world sv)) \<and> w_sessions (sv_world sv) = Map.empty \<and> sv_tasks sv = Map.empty"

lemma fresh_ok: "fresh_server sv \<Longrightarrow> server_ok sv"
  by (simp add: fresh_server_def server_ok_def)


section \<open>A start that fails\<close>

definition persisted_events :: "World \<Rightarrow> BusEvent list" where
  "persisted_events w = concat (map (\<lambda>e. case e of Persisted ev \<Rightarrow> [ev] | _ \<Rightarrow> []) (w_trace w))"

lemma persisted_emit [simp]:
  "persisted_events (ac_w (emit_fx e a)) =
     persisted_events (ac_w a) @ (case e of Persisted ev \<Rightarrow> [ev] | _ \<Rightarrow> [])"
  by (simp add: persisted_events_def emit_fx_def)

lemma persisted_sessions [simp]:
  "persisted_events (w\<lparr>w_sessions := f\<rparr>) = persisted_events w"
  "persisted_events (w\<lparr>w_store := st, w_saves := k\<rparr>) = persisted_events w"
  by (simp_all add: persisted_events_def)

lemma store_emit [simp]: "w_store (ac_w (emit_fx e a)) = w_store (ac_w a)"
  by (simp add: emit_fx_def)

lemma fail_tickets_quiet [simp]:
  "w_store (ac_w (fail_tickets s ts a)) = w_store (ac_w a)"
  "persisted_events (ac_w (fail_tickets s ts a)) = persisted_events (ac_w a)"
  by (induction s ts a rule: fail_tickets.induct) simp_all

lemma drop_waiters_quiet [simp]:
  "w_store (ac_w (drop_waiters ns a)) = w_store (ac_w a)"
  "persisted_events (ac_w (drop_waiters ns a)) = persisted_events (ac_w a)"
  by (induction ns a rule: drop_waiters.induct) simp_all

text \<open>The end of an actor writes no event and no metadata.\<close>

lemma cleanup_quiet [simp]:
  "w_store (ac_w (cleanup a)) = w_store (ac_w a)"
  "persisted_events (ac_w (cleanup a)) = persisted_events (ac_w a)"
  by (simp_all add: cleanup_def remove_session_def fail_all_pending_replies_def Let_def)

lemma handle_stop_quiet [simp]:
  "w_store (ac_w (handle_stop a)) = w_store (ac_w a)"
  "persisted_events (ac_w (handle_stop a)) = persisted_events (ac_w a)"
  by (simp_all add: handle_stop_def Let_def)

lemma stop_input_quiet:
  "w_store (task_world (task_input E (InStop n) w a)) = w_store w"
  "persisted_events (task_world (task_input E (InStop n) w a)) = persisted_events w"
  by (simp_all add: task_input_def after_step_def run_step_def task_world_def Let_def)

lemma stop_actor_quiet:
  "w_store (sv_world (snd (stop_actor E n run_id sv))) = w_store (sv_world sv)"
  "persisted_events (sv_world (snd (stop_actor E n run_id sv))) = persisted_events (sv_world sv)"
  by (simp_all add: stop_actor_def stop_input_quiet Let_def split: option.split task.split)

lemma status_stored:
  assumes "store_wf (w_store (sv_world sv))" "get_run (w_store (sv_world sv)) run_id = Some m"
    and "saves_ok (en_fs E (w_saves (sv_world sv)))"
  shows "fst (sv_status E run_id status e sv) = Inr ()"
    and "get_run (w_store (sv_world (snd (sv_status E run_id status e sv)))) run_id
         = Some (status_update (w_iso (sv_world sv)) status None e m)"
    and "persisted_events (sv_world (snd (sv_status E run_id status e sv))) = persisted_events (sv_world sv)"
proof -
  have m: "w_store (sv_world sv) run_id = Some m" "rm_deleted_at m = None" "rm_id m = run_id"
    using assms(1,2) by (auto simp: get_run_Some store_wf_def)
  have upd: "update_status (en_fs E (w_saves (sv_world sv))) t run_id status None e (w_store (sv_world sv))
      = (Inr (), (w_store (sv_world sv))(run_id \<mapsto> status_update t status None e m))" for t
    by (simp add: update_status_def with_meta_def assms(2) save_meta_saves_ok [OF assms(3)])
      (simp add: status_update_def m(3))
  have "rm_deleted_at (status_update t status None e m) = None" for t
    by (simp add: status_update_def m(2))
  then show "fst (sv_status E run_id status e sv) = Inr ()"
    "get_run (w_store (sv_world (snd (sv_status E run_id status e sv)))) run_id
         = Some (status_update (w_iso (sv_world sv)) status None e m)"
    "persisted_events (sv_world (snd (sv_status E run_id status e sv))) = persisted_events (sv_world sv)"
    by (simp_all add: sv_status_def sv_store_def Let_def upd get_run_Some)
qed

lemma no_session_stop:
  "w_sessions (sv_world sv) run_id = None \<Longrightarrow> stop_session E n run_id sv = (Inr (), sv)"
  by (simp add: stop_session_def stop_actor_def Let_def)

text \<open>
  C17: a start that fails when the child is built or spawned leaves a run that looks alive and is
  not.  The error is returned, but the run has been written as running, the log ends with the state
  spawning and nothing takes it back; the run has no actor, so stopping the session does nothing, and the
  run cannot be deleted, because a running run is still active.  Only the command that stops a run
  whatever it is marks it as stopped (by the user), and then it can be deleted.
\<close>

theorem failed_start_stays_running:
  assumes ok: "server_ok sv"
    and checks: "start_checks X (w_store (sv_world sv)) (sr_run_id R) (sr_mode R) (sr_session_id R)
                   (sr_platform_id R) (sr_permission_mode R) = Inr (m, su, sid)"
    and net: "ss_remote su = None \<Longrightarrow>
                preflight_check_base_url (si_net X) (ra_base_url (ss_auth su)) (ss_platform su) = Inr ()"
    and spawn: "try_spawn X m su (sr_mode R) sid = Inl e"
    and saves: "\<forall>j. saves_ok (en_fs E j)"
    and sv': "sv' = snd (start_session E X n R sv)"
  shows "fst (start_session E X n R sv) = Inl e
    \<and> w_sessions (sv_world sv') (sr_run_id R) = None
    \<and> (\<exists>m'. get_run (w_store (sv_world sv')) (sr_run_id R) = Some m' \<and> rm_status m' = Running
         \<and> rm_error_message m' = None)
    \<and> persisted_events (sv_world sv')
        = persisted_events (sv_world sv) @ [RunState (sr_run_id R) ''spawning'' None None]
    \<and> stop_session E k (sr_run_id R) sv' = (Inr (), sv')
    \<and> delete_precheck (w_store (sv_world sv')) [sr_run_id R]
        = Inl (''Cannot delete: run '' @ sr_run_id R @ '' is still active'')
    \<and> (\<exists>m'. get_run (w_store (sv_world (fst (snd (stop_run E k (sr_run_id R) (sv', procs)))))) (sr_run_id R) = Some m'
         \<and> rm_status m' = Stopped \<and> rm_error_message m' = Some ''Stopped by user''
         \<and> delete_precheck (w_store (sv_world (fst (snd (stop_run E k (sr_run_id R) (sv', procs)))))) [sr_run_id R]
             = Inr [m'])"
proof -
  let ?sv0 = "emit_run_state (sr_run_id R) ''spawning'' sv"
  let ?sv1 = "snd (sv_status E (sr_run_id R) Running None ?sv0)"
  have ok0: "server_ok ?sv0" using ok by (simp add: emit_run_state_def emit_ok)
  have ok1: "server_ok ?sv1" using ok0 by (rule status_ok)
  have get: "get_run (w_store (sv_world ?sv0)) (sr_run_id R) = Some m"
    using checks by (auto simp: start_checks_def emit_run_state_def sum_bind_def split: option.splits if_splits sum.splits)
  have "saves_ok (en_fs E (w_saves (sv_world ?sv0)))" using saves by blast
  note st = status_stored [OF server_okD(1) [OF ok0] get this, of Running None]
  have run: "start_session E X n R sv = (Inl e, snd (stop_actor E n (sr_run_id R) ?sv1))"
    using checks net spawn by (simp add: start_session_def start_checked_def Let_def)
  then have sv'_eq: "sv' = snd (stop_actor E n (sr_run_id R) ?sv1)" using sv' by simp
  note stop = stop_ok [OF ok1, of E n "sr_run_id R"]
  have m': "get_run (w_store (sv_world sv')) (sr_run_id R)
      = Some (status_update (w_iso (sv_world ?sv0)) Running None None m)"
    using st(2) by (simp add: sv'_eq stop_actor_quiet)
  moreover have "persisted_events (sv_world sv')
      = persisted_events (sv_world sv) @ [RunState (sr_run_id R) ''spawning'' None None]"
    by (simp add: sv'_eq stop_actor_quiet st(3)) (simp add: emit_run_state_def sv_emit_def persisted_events_def)
  moreover have gone: "w_sessions (sv_world sv') (sr_run_id R) = None" using stop sv'_eq by simp
  moreover have "server_ok sv'" using stop sv'_eq by simp
  note stored = status_stored [OF server_okD(1) [OF this] m' saves [rule_format], of Stopped "Some ''Stopped by user''"]
  have "fst (snd (stop_run E k (sr_run_id R) (sv', procs)))
      = snd (sv_status E (sr_run_id R) Stopped (Some ''Stopped by user'') sv')"
    using gone by (simp add: stop_run_def stop_actor_def Let_def)
  ultimately show ?thesis using run stored(2)
    by (auto simp: no_session_stop get_run_Some get_run_raw_def status_update_def)
qed

section \<open>An example\<close>

definition sample_net :: net_io where
  "sample_net = \<lparr> ni_host_of = (\<lambda>u. None), ni_ip_local = (\<lambda>h. None), ni_head = (\<lambda>l u. Responded) \<rparr>"

definition sample_start :: "launch_env \<Rightarrow> string option \<Rightarrow> start_io" where
  "sample_start L err =
     \<lparr> si_launch = L, si_agent = agent_default_for [] ''claude'', si_user = keyed_user,
       si_user_config = JNull, si_project_config = JNull, si_claude_path = ''claude'',
       si_codex_path = ''codex'', si_capabilities = (True, True), si_net = sample_net,
       si_spawn = (\<lambda>c. err), si_counts = (3, 2), si_version = ''1'' \<rparr>"

definition sample_server :: server where
  "sample_server =
     \<lparr> sv_world = sample_world\<lparr>w_sessions := Map.empty\<rparr>, sv_tasks = Map.empty, sv_next_tag = 0 \<rparr>"

definition sample_resume :: start_request where
  "sample_resume =
     \<lparr> sr_run_id = ''a'', sr_mode = SessionResume, sr_session_id = Some ''s'', sr_message = None,
       sr_attachments = [], sr_platform_id = None, sr_permission_mode = None \<rparr>"

lemma sample_request:
  "sr_run_id sample_resume = ''a''" "sr_mode sample_resume = SessionResume"
  "sr_session_id sample_resume = Some ''s''" "sr_platform_id sample_resume = None"
  "sr_permission_mode sample_resume = None" "sr_message sample_resume = None"
  by (simp_all add: sample_resume_def)

definition sample_setup :: "launch_env \<Rightarrow> session_setup" where
  "sample_setup L =
     \<lparr> ss_adapter = bare_adapter L, ss_remote = None, ss_platform = None,
       ss_auth = keyed_auth False ''k'' None None None \<rparr>"

lemma sample_session_setup:
  "session_setup (sample_start L err) (sample_meta ''a'' Running) None None None = Inr (sample_setup L)"
  by (simp add: session_setup_def sample_start_def sample_setup_def sample_meta_def bare_adapter_def Let_def
      resolve_remote_host_def effective_platform_def keyed_user_def augment_with_shell_auth_def
      resolve_auth_env_for_platform_def resolve_auth_env_def keeps_credentials_def bearer_def nonempty_def
      clear_model_if_provider_overrides_def user_default_def keyed_auth_def)

lemma sample_checks:
  "start_checks (sample_start L err) (w_store (sv_world sample_server)) ''a'' SessionResume (Some ''s'') None None
   = Inr (sample_meta ''a'' Running, sample_setup L, Some ''s'')"
proof -
  have m: "get_run (w_store (sv_world sample_server)) ''a'' = Some (sample_meta ''a'' Running)"
    by (simp add: get_run_Some sample_server_def sample_world_def sample_store_def sample_meta_def)
  have "rm_model (sample_meta ''a'' Running) = None"
    "resolved_execution_path (sample_meta ''a'' Running) = SessionActorPath"
    by (simp_all add: sample_meta_def resolved_execution_path_def)
  then show ?thesis
    by (simp add: start_checks_def m sample_session_setup sum_bind_def resume_session_id_def
        validate_session_params_def)
      (simp add: sample_setup_def bare_adapter_def build_adapter_settings_def agent_default_for_def)
qed

lemma sample_spawn:
  "try_spawn (sample_start L err) (sample_meta ''a'' Running) (sample_setup L) SessionResume (Some ''s'')
   = (case err of Some e \<Rightarrow> Inl (''Failed to spawn claude: '' @ e) | None \<Rightarrow> Inr (None, []))"
proof -
  have agent: "rm_agent (sample_meta ''a'' Running) = ''claude''" by (simp add: sample_meta_def)
  show ?thesis
    by (simp add: try_spawn_def session_child_def agent spawn_error_def sum_bind_def spawn_cli_process_def
        session_args_def Let_def) (simp add: sample_setup_def sample_start_def spawn_error_def agent split: option.split)
qed

lemma sample_fresh: "fresh_server sample_server"
  by (simp add: fresh_server_def sample_server_def sample_world_def)

lemma idle_fields [simp]: "sv_tasks (synthetic_idle E r sv) = sv_tasks sv"
  by (simp add: synthetic_idle_def emit_run_state_def Let_def case_prod_beta split: sum.split)



theorem failed_start_stays_running_witness:
  "\<forall>L. fst (start_session sample_env (sample_start L (Some ''ENOENT'')) 0 sample_resume sample_server)
         = Inl ''Failed to spawn claude: ENOENT''
     \<and> fst (stop_session sample_env 1 ''a''
          (snd (start_session sample_env (sample_start L (Some ''ENOENT'')) 0 sample_resume sample_server))) = Inr ()"
proof
  fix L
  have net: "preflight_check_base_url N (ra_base_url (ss_auth (sample_setup L))) p = Inr ()" for N p
    by (simp add: preflight_check_base_url_def sample_setup_def keyed_auth_def)
  have saves: "\<forall>j. saves_ok (en_fs sample_env j)" by (simp add: sample_env_def)
  note failed_start_stays_running [where X = "sample_start L (Some ''ENOENT'')" and E = sample_env
      and sv = sample_server and R = sample_resume and n = 0 and k = 1, unfolded sample_request,
      OF fresh_ok [OF sample_fresh] sample_checks net _ saves refl]
  from this [unfolded sample_spawn] show "fst (start_session sample_env (sample_start L (Some ''ENOENT'')) 0 sample_resume sample_server)
         = Inl ''Failed to spawn claude: ENOENT''
     \<and> fst (stop_session sample_env 1 ''a''
          (snd (start_session sample_env (sample_start L (Some ''ENOENT'')) 0 sample_resume sample_server))) = Inr ()"
    by simp
qed

section \<open>Credentials stay at home\<close>

text \<open>Everything a start reads that may hold a credential, and the choice between them.\<close>

record secrets =
  sec_auth_mode :: string
  sec_api_key :: "string option"
  sec_base_url :: "string option"
  sec_auth_env_var :: "string option"
  sec_platforms :: "PlatformCredential list"
  sec_codex_provider :: "CodexProviderCredential option"
  sec_web_token :: "string option"
  sec_var :: "string \<Rightarrow> string option"
  sec_read :: "string \<Rightarrow> string option"
  sec_user_config :: json
  sec_project_config :: json

definition with_secrets :: "secrets \<Rightarrow> start_io \<Rightarrow> start_io" where
  "with_secrets s X =
     X\<lparr>si_user := (si_user X)
         \<lparr>us_auth_mode := sec_auth_mode s, us_anthropic_api_key := sec_api_key s,
          us_anthropic_base_url := sec_base_url s, us_auth_env_var := sec_auth_env_var s,
          us_platform_credentials := sec_platforms s, us_codex_provider := sec_codex_provider s,
          us_web_server_token := sec_web_token s\<rparr>,
       si_launch := (si_launch X)\<lparr>le_var := sec_var s, le_read := sec_read s\<rparr>,
       si_user_config := sec_user_config s, si_project_config := sec_project_config s\<rparr>"

text \<open>The child that a start would start.\<close>

definition launched :: "start_io \<Rightarrow> store \<Rightarrow> start_request \<Rightarrow> string + child_command" where
  "launched X st R =
     sum_bind (start_checks X st (sr_run_id R) (sr_mode R) (sr_session_id R) (sr_platform_id R)
                 (sr_permission_mode R)) (\<lambda>(m, su, sid).
       sum_bind (session_child X m su (sr_mode R) sid) (\<lambda>(c, d, lines). Inr c))"

lemma adapter_secrets:
  "build_adapter_settings (L\<lparr>le_var := v, le_read := r\<rparr>) g
      (u\<lparr>us_auth_mode := am, us_anthropic_api_key := k, us_anthropic_base_url := b, us_auth_env_var := e,
         us_platform_credentials := pcs, us_codex_provider := cp, us_web_server_token := t\<rparr>) model
   = (build_adapter_settings L g u model)
       \<lparr>ad_codex_provider := (if ag_agent g = ''codex'' then cp else None)\<rparr>"
  by (simp add: build_adapter_settings_def adapter_permission_def cong: option.case_cong)

lemma session_args_secrets:
  "session_args (L\<lparr>le_var := v, le_read := r\<rparr>) (ad\<lparr>ad_codex_provider := cp\<rparr>) mode sid = session_args L ad mode sid"
  by (simp add: session_args_def build_settings_args_def prompt_flags_def Let_def split: SessionMode.split option.split)

lemma ssh_secrets: "ssh_command (L\<lparr>le_var := v, le_read := r\<rparr>) h cwd args ra = ssh_command L h cwd args ra"
proof -
  have "expand_local_tilde (L\<lparr>le_var := v, le_read := r\<rparr>) = expand_local_tilde L"
    by (simp add: expand_local_tilde_def fun_eq_iff cong: option.case_cong)
  then show ?thesis by (simp add: ssh_command_def build_ssh_args_def)
qed

lemma remote_auth_none:
  assumes "\<not> rh_forward_api_key h"
  shows "resolve_auth_env_for_platform (Some h) u pid = no_auth"
  using assms by (simp add: resolve_auth_env_for_platform_def keeps_credentials_def)

lemma remote_setup:
  assumes "resolve_remote_host (us_remote_hosts (si_user X)) m = Inr (Some h)" "\<not> rh_forward_api_key h"
  shows "session_setup X m model pid perm = Inr
     \<lparr> ss_adapter = (case perm of
          None \<Rightarrow> build_adapter_settings (si_launch X) (si_agent X) (si_user X) model
        | Some p \<Rightarrow> (build_adapter_settings (si_launch X) (si_agent X) (si_user X) model)\<lparr>ad_permission_mode := Some p\<rparr>),
       ss_remote = Some h, ss_platform = effective_platform (si_user X) pid m, ss_auth = no_auth \<rparr>"
  using assms
  by (simp add: session_setup_def Let_def remote_auth_none augment_with_shell_auth_def
      clear_model_if_provider_overrides_def no_auth_def)

text \<open>
  C14: no credential reaches a remote host that must not get it.  When the host of a run does not
  get the key forwarded, then whatever the settings, the platforms, the environment, the
  start-up files of the shell and the settings of the CLI hold as keys, tokens and base URLs, the
  same child with the same command line is started (or the same error is reported): nothing of
  them can be learned on the other side.
\<close>

theorem credentials_stay:
  assumes "get_run st (sr_run_id R) = Some m"
    and "resolve_remote_host (us_remote_hosts (si_user X)) m = Inr (Some h)" "\<not> rh_forward_api_key h"
  shows "launched (with_secrets s X) st R = launched X st R"
proof -
  let ?Y = "with_secrets s X"
  have host: "resolve_remote_host (us_remote_hosts (si_user ?Y)) m = Inr (Some h)"
    using assms(2) by (simp add: with_secrets_def)
  note set_up = remote_setup [OF assms(2,3)] remote_setup [OF host assms(3)]
  have ad: "build_adapter_settings (si_launch ?Y) (si_agent ?Y) (si_user ?Y) model
      = (build_adapter_settings (si_launch X) (si_agent X) (si_user X) model)
          \<lparr>ad_codex_provider := (if ag_agent (si_agent X) = ''codex'' then sec_codex_provider s else None)\<rparr>" for model
    by (simp add: with_secrets_def adapter_secrets)
  have child: "spawn_cli_process (si_launch ?Y) (si_claude_path ?Y) cwd (a\<lparr>ad_codex_provider := cp\<rparr>) mode sid (Some h) c no_auth
      = spawn_cli_process (si_launch X) (si_claude_path X) cwd a mode sid (Some h) c no_auth" for cwd a cp mode sid c
    by (simp add: spawn_cli_process_def with_secrets_def session_args_secrets ssh_secrets split: sum.split)
  have valid: "validate_session_params (a\<lparr>ad_codex_provider := cp\<rparr>) mode = validate_session_params a mode" for a cp mode
    by (simp add: validate_session_params_def)
  have perm: "a\<lparr>ad_codex_provider := cp, ad_permission_mode := p\<rparr> = a\<lparr>ad_permission_mode := p, ad_codex_provider := cp\<rparr>"
    for a :: AdapterSettings and cp p by simp
  obtain a ps where S: "session_setup X m (rm_model m) (sr_platform_id R) (sr_permission_mode R) = Inr
        \<lparr>ss_adapter = a, ss_remote = Some h, ss_platform = ps, ss_auth = no_auth\<rparr>"
    and S': "\<exists>ps' cp. session_setup ?Y m (rm_model m) (sr_platform_id R) (sr_permission_mode R) = Inr
        \<lparr>ss_adapter = a\<lparr>ad_codex_provider := cp\<rparr>, ss_remote = Some h, ss_platform = ps', ss_auth = no_auth\<rparr>"
    unfolding set_up ad by (cases "sr_permission_mode R") (auto simp: perm)
  from S' obtain ps' cp where S'': "session_setup ?Y m (rm_model m) (sr_platform_id R) (sr_permission_mode R) = Inr
        \<lparr>ss_adapter = a\<lparr>ad_codex_provider := cp\<rparr>, ss_remote = Some h, ss_platform = ps', ss_auth = no_auth\<rparr>"
    by blast
  have same: "session_child ?Y m \<lparr>ss_adapter = a\<lparr>ad_codex_provider := cp\<rparr>, ss_remote = Some h, ss_platform = ps', ss_auth = no_auth\<rparr> mode sid
      = session_child X m \<lparr>ss_adapter = a, ss_remote = Some h, ss_platform = ps, ss_auth = no_auth\<rparr> mode sid" for mode sid
    by (simp add: session_child_def child Let_def)
  show ?thesis
    unfolding launched_def start_checks_def assms(1)
    by (cases "resume_session_id (sr_mode R) (sr_session_id R) m"; cases "validate_session_params a (sr_mode R)")
      (simp_all add: S S'' sum_bind_def valid same)
qed

theorem credentials_stay_witness:
  "\<forall>s L. launched (with_secrets s ((sample_start L None)\<lparr>si_user := keyed_user\<lparr>us_remote_hosts := [sample_host False]\<rparr>\<rparr>))
        [''a'' \<mapsto> (sample_meta ''a'' Running)\<lparr>rm_remote_host_name := Some ''box''\<rparr>] sample_resume
      = launched ((sample_start L None)\<lparr>si_user := keyed_user\<lparr>us_remote_hosts := [sample_host False]\<rparr>\<rparr>)
        [''a'' \<mapsto> (sample_meta ''a'' Running)\<lparr>rm_remote_host_name := Some ''box''\<rparr>] sample_resume"
proof (intro allI)
  fix s L
  let ?m = "(sample_meta ''a'' Running)\<lparr>rm_remote_host_name := Some ''box''\<rparr>"
  have "get_run [''a'' \<mapsto> ?m] (sr_run_id sample_resume) = Some ?m"
    by (simp add: get_run_Some sample_meta_def sample_request)
  moreover have "resolve_remote_host (us_remote_hosts (si_user ((sample_start L None)
      \<lparr>si_user := keyed_user\<lparr>us_remote_hosts := [sample_host False]\<rparr>\<rparr>))) ?m = Inr (Some (sample_host False))"
    by (simp add: resolve_remote_host_def sample_meta_def sample_host_def)
  moreover have "\<not> rh_forward_api_key (sample_host False)" by (simp add: sample_host_def)
  ultimately show "launched (with_secrets s ((sample_start L None)\<lparr>si_user := keyed_user\<lparr>us_remote_hosts := [sample_host False]\<rparr>\<rparr>))
        [''a'' \<mapsto> ?m] sample_resume
      = launched ((sample_start L None)\<lparr>si_user := keyed_user\<lparr>us_remote_hosts := [sample_host False]\<rparr>\<rparr>)
        [''a'' \<mapsto> ?m] sample_resume"
    by (rule credentials_stay)
qed

end
