(* ===== verification/SessionTools.thy ===== *)
theory SessionTools
  imports SessionLifecycle
begin

text \<open>Allowing a tool for good: what the restarted child is told, and what it is no longer told.\<close>

section \<open>The list of the agent\<close>

lemma str_list_strings: "str_list (map JStr ss) = ss"
  by (induction ss) (simp_all add: str_list_def)

lemma tools_patch:
  "apply_agent_patch F (JObj [(''allowed_tools'', JArr (map JStr ts))]) a = a\<lparr>ag_allowed_tools := ts\<rparr>"
  by (simp add: apply_agent_patch_def patch_key_def patch_opt_bool_def patch_opt_str_def patch_opt_list_def
      get_array_def str_list_strings Let_def)

lemmas tools_patch_add = tools_patch [where ts = "ts @ [t]" for ts t, simplified]

lemma migrate_agents: "al_agents (fst (migrate_platform_credentials s)) = al_agents s"
  by (simp add: migrate_platform_credentials_def case_prod_beta)

definition with_tools :: "string \<Rightarrow> string \<Rightarrow> string list \<Rightarrow> AllSettings \<Rightarrow> AllSettings" where
  "with_tools now agent ts s =
     s\<lparr>al_agents := hm_insert agent ((agent_of now s agent)\<lparr>ag_allowed_tools := ts, ag_updated_at := now\<rparr>)
                      (al_agents s)\<rparr>"

lemma agent_with_tools: "ag_allowed_tools (agent_of now' (with_tools now agent ts s) agent) = ts"
  by (simp add: with_tools_def agent_of_def)

lemma saved_agents:
  assumes "prints C s"
  shows "al_agents (fst (load_settings C True io now (Some (sc_show C s)))) = al_agents s"
  using assms migrate_agents [of s] by (simp add: load_settings_def prints_def case_prod_beta)

text \<open>
  C40: a tool that is allowed for good reaches the child that the session is restarted with: the
  settings that are read back hold the agent's list from before with the tool at its end (once).
  But the list of the user, which every session used while the agent had none of its own, is not
  part of the restarted child: after the first tool that is allowed in a session, only that tool is.
\<close>

theorem allowed_tool_reaches_child:
  assumes "allow_tool F C S now agent tool f = (Inr (), f')" "sx_readable S"
    and "load_settings C True (sx_load S) now f = (s, f1)" "prints C s"
    and "prints C (with_tools now agent (ag_allowed_tools (agent_of now s agent) @ [tool]) s)"
    and "old = ag_allowed_tools (agent_of now s agent)" "Y = reread_settings C S now agent f' X"
  shows "ag_allowed_tools (si_agent Y) = (if tool \<in> set old then old else old @ [tool])
    \<and> ad_allowed_tools (build_adapter_settings L (si_agent Y) (si_user Y) model)
        = (if tool \<in> set old then old else old @ [tool])
    \<and> (old = [] \<longrightarrow> ad_allowed_tools (build_adapter_settings L (si_agent Y) (si_user Y) model) = [tool])"
proof -
  let ?new = "if tool \<in> set old then old else old @ [tool]"
  have "ag_allowed_tools (agent_of now (fst (load_settings C True (sx_load S) now f')) agent) = ?new"
  proof (cases "tool \<in> set old")
    case True
    then have "f' = f1" using assms(1-3,6) by (simp add: allow_tool_def get_agent_settings_def)
    then show ?thesis using load_again [OF assms(3,4)] True assms(6) by simp
  next
    case False
    let ?s = "with_tools now agent (old @ [tool]) s"
    have again: "fst (load_settings C True (sx_load S) now f1) = s" by (rule load_again [OF assms(3,4)])
    obtain f1' where l1: "load_settings C True (sx_load S) now f1 = (s, f1')" using again by (metis prod.collapse)
    have "allow_tool F C S now agent tool f =
        (case save_settings C (sx_save S) ?s f1' of (Inl e, f2) \<Rightarrow> (Inl e, f2) | (Inr x, f2) \<Rightarrow> (Inr (), f2))"
      using False assms(2,3,6) l1
      by (simp add: allow_tool_def get_agent_settings_def update_agent_settings_def tools_patch_add with_tools_def Let_def
          case_prod_beta split: sum.split)
    then have "f' = Some (sc_show C ?s)"
      using assms(1) save_settings_cases [of C "sx_save S" ?s f1'] by (auto split: prod.splits sum.splits)
    then show ?thesis using saved_agents [of C ?s] assms(5,6) False agent_with_tools
      by (simp add: agent_of_def)
  qed
  then have "ag_allowed_tools (si_agent Y) = ?new" using assms(2,7)
    by (simp add: reread_settings_def get_agent_settings_def case_prod_beta)
  then show ?thesis by (auto simp: build_adapter_settings_def)
qed

text \<open>A codec that knows the settings before and after.\<close>

definition two_codec :: "AllSettings \<Rightarrow> AllSettings \<Rightarrow> settings_codec" where
  "two_codec s t =
     (one_codec s)\<lparr>sc_parse := (\<lambda>c. if c = ''s'' then Some s else if c = ''t'' then Some t else None),
        sc_show := (\<lambda>u. if u = s then ''s'' else ''t'')\<rparr>"

definition bash_user :: AllSettings where
  "bash_user = (all_default ''n'')\<lparr>al_user := (user_default ''n'')\<lparr>us_allowed_tools := [''Bash'']\<rparr>\<rparr>"

definition bash_codec :: settings_codec where
  "bash_codec = two_codec bash_user (with_tools ''n'' ''claude'' [''Read''] bash_user)"

lemma bash_agent: "ag_allowed_tools (agent_of n bash_user ''claude'') = []"
  by (simp add: bash_user_def all_default_def agent_of_def agent_default_for_def)

lemma bash_changed: "with_tools n ''claude'' [''Read''] bash_user \<noteq> bash_user"
proof
  assume "with_tools n ''claude'' [''Read''] bash_user = bash_user"
  then show False using agent_with_tools [of n n "''claude''" "[''Read'']" bash_user] bash_agent by simp
qed

lemma bash_load: "load_settings bash_codec True fs_ok ''n'' (Some ''s'') = (bash_user, Some ''s'')"
  by (simp add: load_settings_def bash_codec_def two_codec_def bash_user_def all_default_def user_default_def
      migrate_platform_credentials_def migrate_user_def migrate_active_def migrate_global_auth_def)

lemma bash_prints:
  "prints bash_codec bash_user" "prints bash_codec (with_tools ''n'' ''claude'' [''Read''] bash_user)"
  using bash_changed by (simp_all add: prints_def bash_codec_def two_codec_def)

lemma bash_allow: "allow_tool zero_ops bash_codec good_io ''n'' ''claude'' ''Read'' (Some ''s'') = (Inr (), Some ''t'')"
proof -
  have "save_settings bash_codec fs_ok (with_tools ''n'' ''claude'' [''Read''] bash_user) (Some ''s'') = (Inr (), Some ''t'')"
    using bash_changed
    by (simp add: save_settings_def write_atomic_0600_def fs_ok_def numeral_3_eq_3 bash_codec_def two_codec_def)
  then show ?thesis
    by (simp add: allow_tool_def get_agent_settings_def update_agent_settings_def good_io_def bash_load bash_agent
        tools_patch [where ts = "[''Read'']", simplified] with_tools_def Let_def)
qed

theorem allowed_tool_reaches_child_witness:
  "\<forall>L X. ad_allowed_tools (build_adapter_settings L
       (si_agent (reread_settings bash_codec good_io ''n'' ''claude'' (Some ''t'') X))
       (si_user (reread_settings bash_codec good_io ''n'' ''claude'' (Some ''t'') X)) None) = [''Read'']
     \<and> us_allowed_tools (al_user bash_user) = [''Bash'']"
proof (intro allI conjI)
  fix L X
  have io: "sx_readable good_io" "sx_load good_io = fs_ok" by (simp_all add: good_io_def)
  show "ad_allowed_tools (build_adapter_settings L
       (si_agent (reread_settings bash_codec good_io ''n'' ''claude'' (Some ''t'') X))
       (si_user (reread_settings bash_codec good_io ''n'' ''claude'' (Some ''t'') X)) None) = [''Read'']"
    using allowed_tool_reaches_child [OF bash_allow io(1) _ bash_prints(1) _ refl refl, unfolded io(2) bash_agent, OF bash_load]
      bash_prints(2) by simp
  show "us_allowed_tools (al_user bash_user) = [''Bash'']" by (simp add: bash_user_def)
qed

end
