(* ===== verification/SessionForks.thy ===== *)
theory SessionForks
  imports SessionLifecycle EventLog
begin

text \<open>
  New runs (\<open>create_run\<close> of \<open>storage/runs.rs\<close>) and forks (\<open>commands/session.rs\<close>): the fork of a
  Claude session by a one-shot child that answers with a new session id
  (\<open>fork_oneshot\<close> of \<open>agent/claude_stream.rs\<close>), and the fork of a live Codex thread through its
  actor, whose request and whose answer are two steps.
\<close>

section \<open>New runs\<close>

record new_run =
  nr_id :: string
  nr_prompt :: string
  nr_cwd :: string
  nr_agent :: string
  nr_status :: RunStatus
  nr_model :: "string option"
  nr_parent :: "string option"
  nr_remote_host_name :: "string option"
  nr_remote_cwd :: "string option"
  nr_remote_host_snapshot :: "RemoteHost option"
  nr_platform_id :: "string option"

text \<open>The platform of a new run and its base URL; Codex has its own credentials.\<close>

definition created_base_url :: "UserSettings \<Rightarrow> string option \<Rightarrow> string option" where
  "created_base_url user pid =
     or_else
       (Option.bind pid (\<lambda>p.
          or_else
            (nonempty (Option.bind (List.find (\<lambda>c. pc_platform_id c = p) (us_platform_credentials user))
               pc_base_url))
            (Option.bind (get_provider_info p) pd_base_url)))
       (us_anthropic_base_url user)"

definition created_platform ::
  "UserSettings \<Rightarrow> string \<Rightarrow> string option \<Rightarrow> string option \<times> string option" where
  "created_platform user agent platform_id =
     (if agent = ''codex'' then (platform_id, None)
      else (let pid = or_else platform_id (us_active_platform_id user) in (pid, created_base_url user pid)))"

definition created_meta :: "UserSettings \<Rightarrow> AgentSettings \<Rightarrow> string \<Rightarrow> new_run \<Rightarrow> RunMeta" where
  "created_meta user agent now nr =
     (case created_platform user (nr_agent nr) (nr_platform_id nr) of
        (pid, base_url) \<Rightarrow>
          \<lparr> rm_id = nr_id nr, rm_prompt = nr_prompt nr, rm_cwd = nr_cwd nr, rm_agent = nr_agent nr,
            rm_auth_mode = us_auth_mode user, rm_status = nr_status nr, rm_started_at = now,
            rm_ended_at = None, rm_exit_code = None, rm_error_message = None, rm_session_id = None,
            rm_result_subtype = None, rm_model = nr_model nr, rm_parent_run_id = nr_parent nr,
            rm_name = None, rm_remote_host_name = nr_remote_host_name nr,
            rm_remote_cwd = nr_remote_cwd nr, rm_remote_host_snapshot = nr_remote_host_snapshot nr,
            rm_platform_id = pid, rm_platform_base_url = base_url, rm_source = None,
            rm_cli_import_watermark = None, rm_cli_session_path = None, rm_cli_usage_incomplete = None,
            rm_deleted_at = None,
            rm_no_session_persistence = unwrap_or (ag_no_session_persistence agent) False,
            rm_execution_path = None, rm_conversation_ref = None,
            rm_codex_process_seq = (if nr_agent nr = ''codex'' then Some 0 else None),
            rm_codex_imported_rollouts = None \<rparr>)"

text \<open>\<open>user\<close> and \<open>agent\<close> are the settings that are read on the way.\<close>

definition create_run ::
  "UserSettings \<Rightarrow> AgentSettings \<Rightarrow> string \<Rightarrow> fs_io \<Rightarrow> new_run \<Rightarrow> store \<Rightarrow> (string + RunMeta) \<times> store" where
  "create_run user agent now io nr st =
     (case io_ensure_dir io of
        Some e \<Rightarrow> (Inl e, st)
      | None \<Rightarrow>
          (let m = created_meta user agent now nr in
           case save_meta io m st of
             (Inl e, st') \<Rightarrow> (Inl e, st')
           | (Inr u, st') \<Rightarrow> (Inr m, st')))"

section \<open>The one-shot fork of a Claude session\<close>

text \<open>What comes of the child: its exit code and its outputs, as far as they are text.\<close>

datatype fork_output = ForkTimeout | ForkSpawnFailed string | ForkExited "i32 option" string string





section \<open>Forking a run\<close>

text \<open>
  What a fork takes from outside: the new id, the times, the printer and parser of the log, the
  outcomes of the write of the stop event, of the copy and of the two saves, and what the child does.
\<close>

record fork_io =
  fk_id :: string
  fk_now :: string
  fk_parse_log :: "string \<Rightarrow> json option"
  fk_show_log :: "json \<Rightarrow> string"
  fk_log_io :: log_io
  fk_log_dir :: "string option"
  fk_log_write :: append_outcome
  fk_enc :: "BusEvent \<Rightarrow> json"
  fk_held :: "string set"
  fk_stop_write :: append_outcome
  fk_stop_now :: string
  fk_trace :: bool
  fk_parse :: "string \<Rightarrow> string + json"
  fk_child :: "child_command \<Rightarrow> fork_output"

definition forked_run :: "string \<Rightarrow> RunMeta \<Rightarrow> string \<Rightarrow> new_run" where
  "forked_run new_id source run_id =
     \<lparr> nr_id = new_id, nr_prompt = rm_prompt source, nr_cwd = rm_cwd source, nr_agent = rm_agent source,
       nr_status = Pending, nr_model = rm_model source, nr_parent = Some run_id,
       nr_remote_host_name = rm_remote_host_name source, nr_remote_cwd = rm_remote_cwd source,
       nr_remote_host_snapshot = rm_remote_host_snapshot source,
       nr_platform_id = rm_platform_id source \<rparr>"

definition sv_create ::
  "CodexAppServer env \<Rightarrow> start_io \<Rightarrow> string \<Rightarrow> new_run \<Rightarrow> server \<Rightarrow> (string + RunMeta) \<times> server" where
  "sv_create E X now nr sv =
     (let w = sv_world sv in
      case create_run (si_user X) (si_agent X) now (en_fs E (w_saves w)) nr (w_store w) of
        (r, st) \<Rightarrow> (r, sv\<lparr>sv_world := w\<lparr>w_store := st, w_saves := Suc (w_saves w)\<rparr>\<rparr>))"

definition sv_save :: "CodexAppServer env \<Rightarrow> RunMeta \<Rightarrow> server \<Rightarrow> (string + unit) \<times> server" where
  "sv_save E m sv = sv_store E (\<lambda>io st. save_meta io m st) sv"

text \<open>Steps 3 and 4: the new run and the copy of the events.\<close>

definition fork_base ::
  "CodexAppServer env \<Rightarrow> start_io \<Rightarrow> fork_io \<Rightarrow> string \<Rightarrow> RunMeta \<Rightarrow> server \<times> logs
     \<Rightarrow> (string + RunMeta) \<times> server \<times> logs" where
  "fork_base E X K run_id source s =
     (case s of (sv, files) \<Rightarrow>
       (case sv_create E X (fk_now K) (forked_run (fk_id K) source run_id) sv of
          (Inl e, sv1) \<Rightarrow> (Inl e, sv1, files)
        | (Inr m, sv1) \<Rightarrow>
            (case copy_bus_events (fk_parse_log K) (fk_show_log K) (fk_log_io K) (fk_log_dir K) (fk_log_write K)
                    run_id (fk_id K) files of
               (Inl e, files1) \<Rightarrow> (Inl e, sv1, files1)
             | (Inr u, files1) \<Rightarrow> (Inr m, sv1, files1))))"








text \<open>How a request that waits ends: with its answer, with a closed channel, with the deadline.\<close>

datatype control_answer = AnswerValue json | AnswerClosed | AnswerTimeout

definition session_control_result :: "control_answer \<Rightarrow> string + json" where
  "session_control_result x =
     (case x of
        AnswerValue v \<Rightarrow> Inr v
      | AnswerClosed \<Rightarrow> Inl ''Control response channel closed (session may have ended)''
      | AnswerTimeout \<Rightarrow> Inl ''Timeout waiting for control response'')"

definition forked_thread :: "(json \<Rightarrow> string) \<Rightarrow> control_answer \<Rightarrow> (string + string) option" where
  "forked_thread shw x =
     (case x of
        AnswerTimeout \<Rightarrow> Some (Inl ''Timeout waiting for thread/fork response'')
      | AnswerClosed \<Rightarrow> Some (Inl ''Fork response channel closed (session may have ended)'')
      | AnswerValue v \<Rightarrow>
          (case Option.bind (j_get v ''thread'') (\<lambda>t. get_str t ''id'') of
             Some tid \<Rightarrow> Some (Inr tid)
           | None \<Rightarrow>
               map_option (\<lambda>cut. Inl (''thread/fork response missing thread.id: '' @ cut))
                 (truncate_str (shw v) 200)))"

text \<open>Steps 3 to 6 of \<open>fork_session_codex\<close>, when the answer is there.\<close>

definition fork_codex_answer ::
  "CodexAppServer env \<Rightarrow> start_io \<Rightarrow> fork_io \<Rightarrow> string \<Rightarrow> RunMeta \<Rightarrow> control_answer \<Rightarrow> server \<times> logs
     \<Rightarrow> (string + string) option \<times> server \<times> logs" where
  "fork_codex_answer E X K run_id source x s =
     (case forked_thread (fk_show_log K) x of
        None \<Rightarrow> (None, s)
      | Some (Inl e) \<Rightarrow> (Some (Inl e), s)
      | Some (Inr tid) \<Rightarrow>
          (case fork_base E X K run_id source s of
             (Inl e, s1) \<Rightarrow> (Some (Inl e), s1)
           | (Inr m, sv1, files1) \<Rightarrow>
               (case sv_save E (m\<lparr>rm_execution_path := Some (resolved_execution_path source),
                                   rm_conversation_ref := Some (CodexThread tid)\<rparr>) sv1 of
                  (Inl e, sv2) \<Rightarrow> (Some (Inl e), sv2, files1)
                | (Inr u, sv2) \<Rightarrow> (Some (Inr (rm_id m)), sv2, files1))))"

section \<open>What a fork leaves\<close>



















end
