(* ===== verification/Spec2Isabelle.thy ===== *)
theory Spec2Isabelle
  imports SessionBehaviour CodexSession CodexExec WebAuth WsDelivery LaunchProperties CodexCommand SessionTools SessionForks
begin

text \<open>
  A model of the back end of OpenCovibe, the Rust program under \<open>src/src-tauri/src\<close> that runs the
  command line interfaces of Claude and Codex for a web page: it starts them, speaks their protocols,
  keeps the runs and their events on disk and brings the events to the browsers.  File names below
  are relative to that directory.

  THE PROGRAM.  A run has a record of metadata (\<open>storage/runs.rs\<close>) and a log of numbered
  events (\<open>storage/events.rs\<close>).  The commands of \<open>commands/session.rs\<close> start, stop, fork and steer a
  session.  A live session is an actor, a task of its own (\<open>agent/session_actor.rs\<close>) with a mailbox, a
  child process and a clock.  It queues the messages of the user and runs them as turns, one at a time
  (\<open>agent/turn_engine.rs\<close>), and puts a turn that hangs into quarantine.  The lines of the
  child are read by one of two protocol drivers: \<open>agent/claude_protocol.rs\<close> for stream-json, and
  \<open>agent/codex_appserver.rs\<close> for JSON-RPC.  A one-shot Codex run has no actor; \<open>agent/stream.rs\<close>
  reads it with \<open>agent/pipe_parser.rs\<close>.  What an actor emits goes to the log and to
  the broadcast channels (\<open>web_server/broadcaster.rs\<close>), from which the tasks of each WebSocket
  connection (\<open>web_server/ws.rs\<close>) send it on; \<open>web_server/auth.rs\<close> decides who may connect.  The
  settings (\<open>storage/settings.rs\<close>) hold the defaults, the credentials and the token of the web server.

  THEORIES.  Every definition keeps the name that the code has, where HOL has no constant of that name;
  a struct is a record whose fields carry a short prefix, an enum is a datatype, an integer has its
  width, a Rust string is the list of its UTF-8 bytes, and an error is the left part of a sum.

    \<^item> \<open>Prelude\<close>: integers, strings (\<open>str_trim\<close>, slices that may panic, lines), JSON values, hash maps
      as association lists.  \<open>Models\<close>: \<open>models.rs\<close>.  \<open>Pricing\<close>: \<open>pricing.rs\<close>.
    \<^item> \<open>RunStore\<close>: \<open>storage/runs.rs\<close> over a partial map from ids to metadata; the locale \<open>meta_store\<close>
      states what a read-modify-write promises and is interpreted on \<open>get_run\<close> and \<open>with_meta\<close>.
      \<open>create_run\<close> is in \<open>SessionForks\<close>, because it reads the settings.
    \<^item> \<open>EventLog\<close>, \<open>EventLogProperties\<close>: \<open>storage/events.rs\<close> over the bytes of the log files.
    \<^item> \<open>Settings\<close>: \<open>storage/settings.rs\<close>.
    \<^item> \<open>TurnEngine\<close>, \<open>ActorText\<close>, \<open>ActorState\<close>, \<open>TurnDispatch\<close>, \<open>ActorControl\<close>, \<open>SessionActor\<close>:
      \<open>agent/turn_engine.rs\<close> and \<open>agent/session_actor.rs\<close>, from the state and its elementary operations
      to the main loop.  The state of the actor is one record; the world it acts on (the store, the map
      of sessions, the clock, what it has emitted, written and answered, in order) is another one
      inside it.  A run of the loop is the step relation \<open>task_step\<close>.
    \<^item> \<open>TurnSpec\<close>, \<open>TurnRefinement\<close>: what the turn engine promises, as an abstract machine, and the
      simulation of the actor by it.  \<open>SessionProperties\<close> carries the invariants of the machine over to
      all executions of the actor; \<open>SessionBehaviour\<close> treats single operations.
    \<^item> \<open>ClaudeProtocol\<close>: \<open>agent/claude_protocol.rs\<close>.  \<open>CodexItems\<close>, \<open>CodexAppServer\<close>, \<open>CodexRequests\<close>:
      \<open>agent/codex_parser.rs\<close> and \<open>agent/codex_appserver.rs\<close> and the guarantees over a whole
      session of the driver.  \<open>CodexSession\<close>: the actor and the Codex driver together.
    \<^item> \<open>PipeParser\<close>, \<open>CodexExec\<close>: \<open>agent/pipe_parser.rs\<close> and \<open>agent/stream.rs\<close>.
    \<^item> \<open>Launch\<close>, \<open>ShellWords\<close>, \<open>LaunchProperties\<close>, \<open>CodexCommand\<close>: \<open>agent/adapter.rs\<close>, \<open>agent/spawn.rs\<close>,
      \<open>agent/ssh.rs\<close>, the paths of \<open>agent/claude_stream.rs\<close> and the choice of the credentials in
      \<open>commands/session.rs\<close>; what a POSIX shell makes of the remote command line, and
      the words of the command of a one-shot Codex run.
    \<^item> \<open>SessionCommands\<close>, \<open>ActorFrame\<close>, \<open>SessionLifecycle\<close>, \<open>SessionTools\<close>, \<open>SessionForks\<close>:
      \<open>commands/session.rs\<close> over the map of live sessions and all tasks (the record \<open>server\<close>), the
      invariant of the server under every step, and what starting, allowing a tool and forking leave.
    \<^item> \<open>WebAuth\<close>: \<open>web_server/auth.rs\<close>, the life of a connection in \<open>web_server/ws.rs\<close> and the two rotations
      of the token.  The one of \<open>commands/settings.rs\<close> never happens; the one of \<open>commands/web_server.rs\<close> is in
      a file that \<open>commands/mod.rs\<close> does not declare, and is modelled as it is written.
    \<^item> \<open>WsSession\<close>, \<open>WsProtocol\<close>, \<open>WsDelivery\<close>: the delivery of events in \<open>web_server/ws.rs\<close>,
      cut at every lock and every send; the protocol over numbers that it follows; and the simulation.

  WHAT IS SHOWN.  Of the actor: every message it takes is answered exactly once and in order however
  the session ends, it is an execution of the abstract engine, quarantine and turns exclude each other,
  nothing waits while the gate is open, a silent turn ends the session, and Ralph loops stay in
  their bounds.  Of the server: a run has at most one live actor and the map leads to it.  Of the
  drivers: which lines end a turn, and that answers reach the caller that waits and no
  other.  Of the storage: numbers increase, replay gives what was written, updates and deletions happen
  as a whole, recovery leaves no orphan.  Of the web server: only a valid login gets in, a rotation
  shuts out cookies and requests (but not the messages of an open connection), a client gets every
  event once and in order.  Of a launch: the remote command line means what was asked for, and
  credentials stay where they belong.  Some theorems state behaviour that the
  code hardly intends; the text before them says so.

  OUTSIDE THE PROGRAM.  What the code calls and does not contain is an argument: the JSON parser and
  printer, the codec of the settings, the arithmetic of doubles, the UUIDs, the clock, the outcome of
  each file operation, of each write to a child and of each process.  Where a theorem needs more of
  them than that they are functions, a named hypothesis says it: \<open>prints\<close> (what is printed parses to
  itself), \<open>saves_ok\<close> (the file system accepts a write), \<open>posix_shell\<close> (the grammar of the shell, of
  which \<open>ShellWords\<close> gives the reference), \<open>decodes_query\<close> (the decoder of a query string).  A broadcast
  channel keeps the last messages and tells a slow receiver how many it lost, as tokio documents.

  BOUNDS.  No definition has fuel: loops are recursion over the data they consume, or have a measure;
  the main loop and the tasks of a connection are step relations, so that what holds of all
  their executions includes those that never end.  Counters of the program wrap at their width; the
  theorems that need it assume that a log or a session has fewer than two to the 64th entries.

  NOT MODELLED.  Log lines, metrics and desktop notifications; the text of HTML pages; the import of
  CLI transcripts and the statistics over them (\<open>storage/cli_sessions.rs\<close>, \<open>storage/codex_sessions.rs\<close>,
  \<open>storage/claude_usage.rs\<close>, \<open>storage/codex_usage.rs\<close>); plugins, skills and the MCP registry; the
  editing of CLI configurations; teams and hooks; diagnostics, git, file and export commands, which call
  the operating system; and the table of names of \<open>web_server/dispatch.rs\<close>.
\<close>

end
